(* ===== verification/Prelude.thy ===== *)
theory Prelude
  imports Main "HOL-Library.Word" "HOL-Library.Sublist"
    "HOL-Library.Char_ord" "HOL-Library.List_Lexorder"
begin

text \<open>
  Shared vocabulary of the development: the collections of rewrite rules, the
  result-and-state programs in which every effectful Go function is written, and
  the generic facts on lists that several components use.

  A Go function that can fail and that reads or writes the world is a
  \<open>prog\<close>: from a world to a pair of a result and a new world. The result is
  \<open>Inl e\<close> for a returned error and \<open>Inr v\<close> for a value. The world is
  returned in the error case too, because an early \<^verbatim>\<open>return err\<close> does not
  undo the writes made before it.
\<close>

named_theorems prog_simps "unfolding rules of the program combinators"
named_theorems go_simps "evaluation rules of the string and path routines"

type_synonym ('w, 'e, 'a) prog = "'w \<Rightarrow> ('e + 'a) \<times> 'w"

definition ret :: "'a \<Rightarrow> ('w, 'e, 'a) prog" where
  "ret x = (\<lambda>w. (Inr x, w))"

definition raise :: "'e \<Rightarrow> ('w, 'e, 'a) prog" where
  "raise e = (\<lambda>w. (Inl e, w))"

text \<open>\<^verbatim>\<open>x, err := m(); if err != nil { return err }; f(x)\<close>\<close>

definition bindE :: "('w, 'e, 'a) prog \<Rightarrow> ('a \<Rightarrow> ('w, 'e, 'b) prog) \<Rightarrow> ('w, 'e, 'b) prog" where
  "bindE m f = (\<lambda>w. case m w of (Inl e, w1) \<Rightarrow> (Inl e, w1) | (Inr x, w1) \<Rightarrow> f x w1)"

text \<open>\<^verbatim>\<open>x, err := m()\<close> with both outcomes examined by the caller.\<close>

definition handleE ::
  "('w, 'e, 'a) prog \<Rightarrow> ('e \<Rightarrow> ('w, 'f, 'b) prog) \<Rightarrow> ('a \<Rightarrow> ('w, 'f, 'b) prog) \<Rightarrow> ('w, 'f, 'b) prog" where
  "handleE m h f = (\<lambda>w. case m w of (Inl e, w1) \<Rightarrow> h e w1 | (Inr x, w1) \<Rightarrow> f x w1)"

text \<open>\<^verbatim>\<open>_ = m()\<close>: the outcome is dropped, the effect is kept.\<close>

definition ignoreE :: "('w, 'e, 'a) prog \<Rightarrow> ('w, 'e, unit) prog" where
  "ignoreE m = (\<lambda>w. (Inr (), snd (m w)))"

definition liftE :: "'e + 'a \<Rightarrow> ('w, 'e, 'a) prog" where
  "liftE r = (\<lambda>w. (r, w))"

definition getW :: "('w \<Rightarrow> 'a) \<Rightarrow> ('w, 'e, 'a) prog" where
  "getW f = (\<lambda>w. (Inr (f w), w))"

definition guardE :: "bool \<Rightarrow> 'e \<Rightarrow> ('w, 'e, unit) prog" where
  "guardE b e = (if b then ret () else raise e)"

lemmas [prog_simps] = ret_def raise_def ignoreE_def liftE_def getW_def

lemma bindE_Inr [simp]: "m w = (Inr x, w1) \<Longrightarrow> bindE m f w = f x w1"
  by (simp add: bindE_def)

lemma bindE_Inl [simp]: "m w = (Inl e, w1) \<Longrightarrow> bindE m f w = (Inl e, w1)"
  by (simp add: bindE_def)

lemma handleE_Inr [simp]: "m w = (Inr x, w1) \<Longrightarrow> handleE m h f w = f x w1"
  by (simp add: handleE_def)

lemma handleE_Inl [simp]: "m w = (Inl e, w1) \<Longrightarrow> handleE m h f w = h e w1"
  by (simp add: handleE_def)

lemma ret_apply [simp]: "ret x w = (Inr x, w)"
  by (simp add: ret_def)

lemma raise_apply [simp]: "raise e w = (Inl e, w)"
  by (simp add: raise_def)

lemma getW_apply [simp]: "getW f w = (Inr (f w), w)"
  by (simp add: getW_def)

lemma liftE_apply [simp]: "liftE r w = (r, w)"
  by (simp add: liftE_def)

lemma ignoreE_apply [simp]: "ignoreE m w = (Inr (), snd (m w))"
  by (simp add: ignoreE_def)

lemma guardE_apply [simp]: "guardE b e w = (if b then Inr () else Inl e, w)"
  by (simp add: guardE_def)

text \<open>Inversion of a successful sequence: the workhorse of the component proofs.\<close>

lemma bindE_eq_Inr:
  "bindE m f w = (Inr y, w2) \<longleftrightarrow> (\<exists>x w1. m w = (Inr x, w1) \<and> f x w1 = (Inr y, w2))"
  by (cases "m w"; cases "fst (m w)") (auto simp: bindE_def split: sum.splits)

lemma bindE_eq_Inl:
  "bindE m f w = (Inl e, w2) \<longleftrightarrow>
     m w = (Inl e, w2) \<or> (\<exists>x w1. m w = (Inr x, w1) \<and> f x w1 = (Inl e, w2))"
  by (cases "m w"; cases "fst (m w)") (auto simp: bindE_def split: sum.splits)

lemma handleE_eq:
  "handleE m h f w = r \<longleftrightarrow>
     (\<exists>e w1. m w = (Inl e, w1) \<and> h e w1 = r) \<or> (\<exists>x w1. m w = (Inr x, w1) \<and> f x w1 = r)"
  by (cases "m w"; cases "fst (m w)") (auto simp: handleE_def split: sum.splits)

text \<open>
  A world relation that every step keeps is kept by the sequence: frame facts
  (``this table is not written'') are proved once per primitive and composed
  by these rules.
\<close>

definition keeps :: "('w \<Rightarrow> 'w \<Rightarrow> bool) \<Rightarrow> ('w, 'e, 'a) prog \<Rightarrow> bool" where
  "keeps R m \<longleftrightarrow> (\<forall>w. R w (snd (m w)))"

named_theorems keeps_intro "composition rules for kept relations"

lemma keepsD: "keeps R m \<Longrightarrow> R w (snd (m w))"
  by (simp add: keeps_def)

lemma keeps_ret [keeps_intro]: "reflp R \<Longrightarrow> keeps R (ret x)"
  by (simp add: keeps_def reflp_def)

lemma keeps_raise [keeps_intro]: "reflp R \<Longrightarrow> keeps R (raise x)"
  by (simp add: keeps_def reflp_def)

lemma keeps_getW [keeps_intro]: "reflp R \<Longrightarrow> keeps R (getW x)"
  by (simp add: keeps_def reflp_def)

lemma keeps_liftE [keeps_intro]: "reflp R \<Longrightarrow> keeps R (liftE x)"
  by (simp add: keeps_def reflp_def)

lemma keeps_guardE [keeps_intro]: "reflp R \<Longrightarrow> keeps R (guardE b x)"
  by (simp add: keeps_def reflp_def)

lemma keeps_ignoreE [keeps_intro]: "keeps R m \<Longrightarrow> keeps R (ignoreE m)"
  by (simp add: keeps_def)

lemma keeps_bindE [keeps_intro]:
  assumes "transp R" "keeps R m" "\<And>x. keeps R (f x)"
  shows "keeps R (bindE m f)"
  unfolding keeps_def
proof
  fix w
  obtain r w1 where m: "m w = (r, w1)" by (cases "m w")
  from assms(2) m have 1: "R w w1" by (auto simp: keeps_def dest: spec [of _ w])
  show "R w (snd (bindE m f w))"
  proof (cases r)
    case (Inl e)
    with m 1 show ?thesis by simp
  next
    case (Inr x)
    with m assms(3) have "R w1 (snd (bindE m f w))" by (simp add: keeps_def)
    with 1 assms(1) show ?thesis by (auto dest: transpD)
  qed
qed

lemma keeps_handleE [keeps_intro]:
  assumes "transp R" "keeps R m" "\<And>e. keeps R (h e)" "\<And>x. keeps R (f x)"
  shows "keeps R (handleE m h f)"
  unfolding keeps_def
proof
  fix w
  obtain r w1 where m: "m w = (r, w1)" by (cases "m w")
  from assms(2) m have 1: "R w w1" by (auto simp: keeps_def dest: spec [of _ w])
  have 2: "R w1 (snd (handleE m h f w))"
    using m assms(3,4) by (cases r) (simp_all add: keeps_def)
  from 1 2 assms(1) show "R w (snd (handleE m h f w))" by (auto dest: transpD)
qed

text \<open>Generic facts on lists.\<close>

lemma distinct_map_filter [simp]: "distinct (map f xs) \<Longrightarrow> distinct (map f (filter p xs))"
  by (induction xs) auto

lemma map_map_same_key:
  "(\<And>x. x \<in> set xs \<Longrightarrow> k (f x) = k x) \<Longrightarrow> map k (map f xs) = map k xs"
  by simp

lemma find_SomeD: "find p xs = Some x \<Longrightarrow> x \<in> set xs \<and> p x"
  by (auto simp: find_Some_iff)

lemma find_NoneD: "find p xs = None \<Longrightarrow> x \<in> set xs \<Longrightarrow> \<not> p x"
  by (auto simp: find_None_iff)

lemma find_key_unique:
  assumes "distinct (map k xs)" and "x \<in> set xs"
  shows "find (\<lambda>y. k y = k x) xs = Some x"
  using assms by (induction xs) (auto simp: rev_image_eqI)

end
