(* ===== verification/Go_Strings.thy ===== *)
theory Go_Strings
  imports Prelude
begin

text \<open>
  The routines of Go's \<^verbatim>\<open>strings\<close> and \<^verbatim>\<open>strconv\<close> packages that the program calls.
  A Go string is a byte sequence and is modelled as a \<open>string\<close>, a list of
  8 bit characters. \<^verbatim>\<open>strings.TrimSpace\<close> is modelled on bytes, with the UTF-8
  encodings of every Unicode white space character written out;
  \<^verbatim>\<open>strings.ToLower\<close> is modelled on ASCII letters, the only ones the program
  applies it to. Numbers are parsed as \<^verbatim>\<open>strconv\<close> does, the value returned beside
  a range error included, because \<^verbatim>\<open>page\<close> uses that value.
\<close>

section \<open>Searching, splitting and trimming\<close>

definition has_prefix :: "string \<Rightarrow> string \<Rightarrow> bool" where
  "has_prefix s p \<longleftrightarrow> take (length p) s = p"

definition trim_prefix :: "string \<Rightarrow> string \<Rightarrow> string" where
  "trim_prefix s p = (if has_prefix s p then drop (length p) s else s)"

fun contains_str :: "string \<Rightarrow> string \<Rightarrow> bool" where
  "contains_str [] p \<longleftrightarrow> p = []"
| "contains_str (c # s) p \<longleftrightarrow> has_prefix (c # s) p \<or> contains_str s p"

definition contains_any :: "string \<Rightarrow> string \<Rightarrow> bool" where
  "contains_any s chars \<longleftrightarrow> list_ex (\<lambda>c. c \<in> set chars) s"

text \<open>\<^verbatim>\<open>strings.Split\<close> with a one character separator; never empty.\<close>

fun split_on :: "char \<Rightarrow> string \<Rightarrow> string list" where
  "split_on sep [] = [[]]"
| "split_on sep (c # s) =
     (if c = sep then [] # split_on sep s
      else (case split_on sep s of [] \<Rightarrow> [[c]] | w # ws \<Rightarrow> (c # w) # ws))"

fun join_with :: "char \<Rightarrow> string list \<Rightarrow> string" where
  "join_with sep [] = []"
| "join_with sep [w] = w"
| "join_with sep (w # v # ws) = w @ sep # join_with sep (v # ws)"

text \<open>\<^verbatim>\<open>strings.Cut\<close> at the first occurrence of a character: before, after, found.\<close>

fun cut_at :: "char \<Rightarrow> string \<Rightarrow> string \<times> string \<times> bool" where
  "cut_at sep [] = ([], [], False)"
| "cut_at sep (c # s) =
     (if c = sep then ([], s, True)
      else (let (prior, post, found) = cut_at sep s in (c # prior, post, found)))"

definition trim_right_char :: "char \<Rightarrow> string \<Rightarrow> string" where
  "trim_right_char c s = rev (dropWhile (\<lambda>x. x = c) (rev s))"

text \<open>
  White space: the ASCII characters, and the UTF-8 encodings of
  U+0085, U+00A0, U+1680, U+2000 to U+200A, U+2028, U+2029, U+202F, U+205F, U+3000.
\<close>

definition space1 :: "char \<Rightarrow> bool" where
  "space1 c \<longleftrightarrow> c \<in> {CHR 0x09, CHR 0x0A, CHR 0x0B, CHR 0x0C, CHR 0x0D, CHR 0x20}"

definition space2 :: "char \<Rightarrow> char \<Rightarrow> bool" where
  "space2 a b \<longleftrightarrow> a = CHR 0xC2 \<and> (b = CHR 0x85 \<or> b = CHR 0xA0)"

definition space3 :: "char \<Rightarrow> char \<Rightarrow> char \<Rightarrow> bool" where
  "space3 a b c \<longleftrightarrow>
     a = CHR 0xE1 \<and> b = CHR 0x9A \<and> c = CHR 0x80
   \<or> a = CHR 0xE2 \<and> b = CHR 0x80 \<and>
       c \<in> {CHR 0x80, CHR 0x81, CHR 0x82, CHR 0x83, CHR 0x84, CHR 0x85, CHR 0x86,
             CHR 0x87, CHR 0x88, CHR 0x89, CHR 0x8A, CHR 0xA8, CHR 0xA9, CHR 0xAF}
   \<or> a = CHR 0xE2 \<and> b = CHR 0x81 \<and> c = CHR 0x9F
   \<or> a = CHR 0xE3 \<and> b = CHR 0x80 \<and> c = CHR 0x80"

fun trim_start ::
  "(char \<Rightarrow> bool) \<Rightarrow> (char \<Rightarrow> char \<Rightarrow> bool) \<Rightarrow> (char \<Rightarrow> char \<Rightarrow> char \<Rightarrow> bool) \<Rightarrow> string \<Rightarrow> string" where
  "trim_start p q r (a # b # c # s) =
     (if p a then trim_start p q r (b # c # s)
      else if q a b then trim_start p q r (c # s)
      else if r a b c then trim_start p q r s
      else a # b # c # s)"
| "trim_start p q r [a, b] =
     (if p a then trim_start p q r [b] else if q a b then [] else [a, b])"
| "trim_start p q r [a] = (if p a then [] else [a])"
| "trim_start p q r [] = []"

definition trim_left_space :: "string \<Rightarrow> string" where
  "trim_left_space s = trim_start space1 space2 space3 s"

definition trim_right_space :: "string \<Rightarrow> string" where
  "trim_right_space s =
     rev (trim_start space1 (\<lambda>b a. space2 a b) (\<lambda>c b a. space3 a b c) (rev s))"

definition trim_space :: "string \<Rightarrow> string" where
  "trim_space s = trim_right_space (trim_left_space s)"

definition lower_byte :: "char \<Rightarrow> char" where
  "lower_byte c = (if CHR ''A'' \<le> c \<and> c \<le> CHR ''Z'' then char_of (of_char c + (32 :: nat)) else c)"

definition to_lower :: "string \<Rightarrow> string" where
  "to_lower s = map lower_byte s"

text \<open>\<^verbatim>\<open>strings.EqualFold\<close> against an ASCII word without \<open>k\<close> and \<open>s\<close>, which fold to
  themselves and to their capitals only.\<close>

definition equal_fold :: "string \<Rightarrow> string \<Rightarrow> bool" where
  "equal_fold s t \<longleftrightarrow> to_lower s = to_lower t"

section \<open>Numbers\<close>

definition digit_val :: "char \<Rightarrow> int option" where
  "digit_val c = (if CHR ''0'' \<le> c \<and> c \<le> CHR ''9'' then Some (of_char c - 48) else None)"

datatype num_error = ErrSyntax | ErrRange

text \<open>The digit loop of \<^verbatim>\<open>strconv.ParseUint(s, 10, 64)\<close>.\<close>

definition max_uint64 :: int where "max_uint64 = 18446744073709551615"
definition max_int64 :: int where "max_int64 = 9223372036854775807"
definition min_int64 :: int where "min_int64 = -9223372036854775808"

fun parse_uint_loop :: "int \<Rightarrow> string \<Rightarrow> int \<times> num_error option" where
  "parse_uint_loop n [] = (n, None)"
| "parse_uint_loop n (c # s) =
     (case digit_val c of
        None \<Rightarrow> (0, Some ErrSyntax)
      | Some d \<Rightarrow> if n * 10 + d > max_uint64 then (max_uint64, Some ErrRange)
                  else parse_uint_loop (n * 10 + d) s)"

definition parse_uint :: "string \<Rightarrow> int \<times> num_error option" where
  "parse_uint s = (if s = [] then (0, Some ErrSyntax) else parse_uint_loop 0 s)"

definition parse_int :: "string \<Rightarrow> int \<times> num_error option" where
  "parse_int s =
     (if s = [] then (0, Some ErrSyntax) else
      let neg = (hd s = CHR ''-'');
          digits = (if hd s = CHR ''-'' \<or> hd s = CHR ''+'' then tl s else s);
          (un, err) = parse_uint digits
      in if err = Some ErrSyntax then (0, Some ErrSyntax)
         else if \<not> neg \<and> un > max_int64 then (max_int64, Some ErrRange)
         else if neg \<and> un > - min_int64 then (min_int64, Some ErrRange)
         else (if neg then - un else un, None))"

text \<open>\<^verbatim>\<open>strconv.Atoi\<close> on a 64 bit platform agrees with \<^verbatim>\<open>ParseInt(s, 10, 0)\<close>.\<close>

definition atoi :: "string \<Rightarrow> int \<times> num_error option" where
  "atoi s = parse_int s"

definition digit_char :: "nat \<Rightarrow> char" where
  "digit_char d = char_of (48 + d)"

fun format_nat :: "nat \<Rightarrow> string" where
  "format_nat n = (if n < 10 then [digit_char n] else format_nat (n div 10) @ [digit_char (n mod 10)])"

declare format_nat.simps [simp del]

definition format_int :: "int \<Rightarrow> string" where
  "format_int n = (if n < 0 then CHR ''-'' # format_nat (nat (- n)) else format_nat (nat n))"

text \<open>The class \<^verbatim>\<open>[A-Za-z0-9._-]\<close> of the patterns for identifiers.\<close>

definition id_char :: "char \<Rightarrow> bool" where
  "id_char c \<longleftrightarrow> CHR ''A'' \<le> c \<and> c \<le> CHR ''Z'' \<or> CHR ''a'' \<le> c \<and> c \<le> CHR ''z'' \<or> CHR ''0'' \<le> c \<and> c \<le> CHR ''9''
     \<or> c = CHR ''.'' \<or> c = CHR ''_'' \<or> c = CHR ''-''"

section \<open>Facts\<close>

lemma has_prefix_iff: "has_prefix s p \<longleftrightarrow> prefix p s"
  by (auto simp: has_prefix_def prefix_def) (metis append_take_drop_id)

lemma contains_str_iff: "contains_str s p \<longleftrightarrow> sublist p s"
  by (induction s) (auto simp: has_prefix_iff sublist_Cons_right)

lemma contains_any_iff: "contains_any s cs \<longleftrightarrow> set s \<inter> set cs \<noteq> {}"
  by (auto simp: contains_any_def list_ex_iff)

lemma split_on_nonempty [simp]: "split_on sep s \<noteq> []"
  by (cases s) (auto split: list.splits)

lemma split_on_no_sep: "w \<in> set (split_on sep s) \<Longrightarrow> sep \<notin> set w"
  by (induction s arbitrary: w) (auto split: list.splits if_splits)

lemma split_on_whole: "sep \<notin> set w \<Longrightarrow> split_on sep w = [w]"
  by (induction w) auto

lemma split_on_append:
  "sep \<notin> set w \<Longrightarrow> split_on sep (w @ sep # s) = w # split_on sep s"
  by (induction w) auto

lemma split_on_join:
  assumes "ws \<noteq> []" and "\<forall>w\<in>set ws. sep \<notin> set w"
  shows "split_on sep (join_with sep ws) = ws"
  using assms
  by (induction sep ws rule: join_with.induct) (auto simp: split_on_whole split_on_append)

lemma join_split_on: "join_with sep (split_on sep s) = s"
proof (induction s)
  case (Cons c s)
  obtain w ws where "split_on sep s = w # ws" by (cases "split_on sep s") auto
  with Cons show ?case by (cases ws) auto
qed simp

lemma split_on_sep_append:
  "split_on sep (s @ sep # t) = split_on sep s @ split_on sep t"
proof (induction s)
  case (Cons c s)
  obtain w ws where "split_on sep s = w # ws" by (cases "split_on sep s") auto
  with Cons show ?case by auto
qed simp

lemma cut_at_found:
  "sep \<notin> set w \<Longrightarrow> cut_at sep (w @ sep # s) = (w, s, True)"
  by (induction w) auto

lemma cut_at_missing:
  "sep \<notin> set w \<Longrightarrow> cut_at sep w = (w, [], False)"
  by (induction w) auto

lemma trim_start_suffix: "suffix (trim_start p q r s) s"
proof (induction p q r s rule: trim_start.induct)
  case (1 p q r a b c s)
  then show ?case by (auto intro: suffix_ConsI)
qed (auto intro: suffix_ConsI)

lemma set_trim_start: "set (trim_start p q r s) \<subseteq> set s"
  using trim_start_suffix set_mono_suffix by blast

lemma set_trim_space: "set (trim_space s) \<subseteq> set s"
  unfolding trim_space_def trim_right_space_def trim_left_space_def
  using set_trim_start by (metis order_trans set_rev)

lemma length_trim_space: "length (trim_space s) \<le> length s"
proof -
  have *: "length (trim_start p q r t) \<le> length t" for p q r t
    using trim_start_suffix suffix_length_le by blast
  have "length (trim_right_space t) \<le> length t" for t
    unfolding trim_right_space_def using * [of _ _ _ "rev t"] by simp
  moreover have "length (trim_left_space s) \<le> length s"
    unfolding trim_left_space_def by (rule *)
  ultimately show ?thesis
    unfolding trim_space_def by (rule order_trans)
qed

text \<open>A character that no white space encoding begins with, or ends with.\<close>

definition plain :: "char \<Rightarrow> bool" where
  "plain c \<longleftrightarrow> CHR 0x20 < c \<and> c < CHR 0x80"

lemma trim_start_stop:
  assumes "s \<noteq> []" "\<not> p (hd s)" "\<And>b. \<not> q (hd s) b" "\<And>b c. \<not> r (hd s) b c"
  shows "trim_start p q r s = s"
  using assms by (cases "(p, q, r, s)" rule: trim_start.cases) auto

lemma plain_no_space:
  assumes "plain c"
  shows "\<not> space1 c" and "\<not> space2 c b" and "\<not> space3 c b d"
    and "\<not> space2 b c" and "\<not> space3 b d c"
proof -
  have ascii: "c \<notin> {CHR 0x09, CHR 0x0A, CHR 0x0B, CHR 0x0C, CHR 0x0D, CHR 0x20}"
    using assms unfolding plain_def by (auto simp: less_char_def)
  have high: "\<not> CHR 0x80 \<le> c"
    using assms unfolding plain_def by (simp add: not_le)
  show "\<not> space1 c" using ascii by (simp add: space1_def)
  show "\<not> space2 c b" using high by (auto simp: space2_def less_eq_char_def)
  show "\<not> space3 c b d" using high by (auto simp: space3_def less_eq_char_def)
  show "\<not> space2 b c" using high by (auto simp: space2_def less_eq_char_def)
  show "\<not> space3 b d c" using high unfolding space3_def by (auto simp: less_eq_char_def)
qed

lemma trim_space_plain_ends:
  assumes "s \<noteq> []" "plain (hd s)" "plain (last s)"
  shows "trim_space s = s"
proof -
  have 1: "trim_left_space s = s"
    unfolding trim_left_space_def using assms plain_no_space by (intro trim_start_stop) auto
  have "hd (rev s) = last s" using assms(1) by (simp add: hd_rev)
  then have "trim_right_space s = s"
    unfolding trim_right_space_def using assms plain_no_space
    by (subst trim_start_stop) auto
  with 1 show ?thesis by (simp add: trim_space_def)
qed

lemma trim_space_Nil [simp]: "trim_space [] = []"
  by (simp add: trim_space_def trim_left_space_def trim_right_space_def)

lemma trim_space_plain:
  assumes "\<forall>c\<in>set s. plain c"
  shows "trim_space s = s"
  using assms by (cases "s = []") (auto intro: trim_space_plain_ends)

lemma digit_val_range: "digit_val c = Some d \<Longrightarrow> 0 \<le> d \<and> d \<le> 9"
proof -
  assume "digit_val c = Some d"
  then have c: "CHR ''0'' \<le> c" "c \<le> CHR ''9''" and d: "d = of_char c - 48"
    by (auto simp: digit_val_def split: if_splits)
  from c have "(48::nat) \<le> of_char c" "of_char c \<le> (57::nat)"
    by (simp_all add: less_eq_char_def)
  then have "(48::int) \<le> of_char c" "of_char c \<le> (57::int)"
    by (metis of_nat_le_iff of_nat_numeral of_nat_of_char)+
  with d show ?thesis by simp
qed

lemma parse_uint_loop_bounds:
  "0 \<le> n \<Longrightarrow> n \<le> max_uint64 \<Longrightarrow>
   0 \<le> fst (parse_uint_loop n s) \<and> fst (parse_uint_loop n s) \<le> max_uint64"
proof (induction n s rule: parse_uint_loop.induct)
  case (2 n c s)
  then show ?case
    by (cases "digit_val c") (auto simp: max_uint64_def dest: digit_val_range)
qed simp

lemma parse_uint_bounds: "0 \<le> fst (parse_uint s) \<and> fst (parse_uint s) \<le> max_uint64"
  using parse_uint_loop_bounds [of 0 s] by (simp add: parse_uint_def max_uint64_def)

lemma parse_int_bounds: "min_int64 \<le> fst (parse_int s) \<and> fst (parse_int s) \<le> max_int64"
proof -
  have "min_int64 \<le> fst (if neg \<and> un > - min_int64 then (min_int64, Some ErrRange)
             else (if neg then - un else un, None)) \<and>
        fst (if neg \<and> un > - min_int64 then (min_int64, Some ErrRange)
             else (if neg then - un else un, None)) \<le> max_int64"
    if "0 \<le> un" and "neg \<or> un \<le> max_int64" for un :: int and neg
    using that by (auto simp: min_int64_def max_int64_def)
  moreover obtain un err where "parse_uint (if hd s = CHR ''-'' \<or> hd s = CHR ''+'' then tl s else s) = (un, err)"
    by fastforce
  moreover from this have "0 \<le> un" using parse_uint_bounds by (metis fst_conv)
  ultimately show ?thesis
    by (auto simp: parse_int_def Let_def min_int64_def max_int64_def)
qed

text \<open>On ASCII text trimming is \<open>dropWhile\<close> at both ends, hence idempotent.\<close>

definition ascii :: "string \<Rightarrow> bool" where
  "ascii s \<longleftrightarrow> (\<forall>c\<in>set s. c < CHR 0x80)"

lemma ascii_Cons [simp]: "ascii (c # s) \<longleftrightarrow> c < CHR 0x80 \<and> ascii s"
  by (auto simp: ascii_def)

lemma ascii_no_space:
  assumes "a < CHR 0x80"
  shows "\<not> space2 a b" "\<not> space3 a b c" "\<not> space2 b a" "\<not> space3 b c a"
proof -
  have "\<not> CHR 0x80 \<le> a" using assms by (simp add: not_le)
  then show "\<not> space2 a b" "\<not> space3 a b c" "\<not> space2 b a" "\<not> space3 b c a"
    by (auto simp: space2_def space3_def less_eq_char_def)
qed

lemma trim_start_ascii:
  assumes "\<And>a b. a < CHR 0x80 \<Longrightarrow> \<not> q a b" "\<And>a b c. a < CHR 0x80 \<Longrightarrow> \<not> r a b c" and "ascii s"
  shows "trim_start p q r s = dropWhile p s"
  using assms
proof (induction p q r s rule: trim_start.induct)
  case (1 p q r a b c s)
  from "1.prems"(3) have "\<not> q a b" "\<not> r a b c" using "1.prems"(1,2) by auto
  with "1.prems" "1.IH"(1) show ?case by simp
next
  case (2 p q r a b)
  from "2.prems"(3) have "\<not> q a b" using "2.prems"(1) by auto
  with "2.prems" "2.IH" show ?case by simp
qed simp_all

lemma trim_space_ascii:
  assumes "ascii s"
  shows "trim_space s = rev (dropWhile space1 (rev (dropWhile space1 s)))"
proof -
  have "trim_left_space s = dropWhile space1 s"
    unfolding trim_left_space_def using ascii_no_space assms by (intro trim_start_ascii) auto
  moreover have "ascii (rev (dropWhile space1 s))"
    using assms set_dropWhileD by (fastforce simp: ascii_def)
  then have "trim_right_space (dropWhile space1 s) = rev (dropWhile space1 (rev (dropWhile space1 s)))"
    unfolding trim_right_space_def using ascii_no_space by (subst trim_start_ascii) auto
  ultimately show ?thesis by (simp add: trim_space_def)
qed

lemma dropWhile_hd: "dropWhile P s \<noteq> [] \<Longrightarrow> \<not> P (hd (dropWhile P s))"
  by (rule hd_dropWhile)

lemma trim_space_idem_ascii:
  assumes "ascii s"
  shows "trim_space (trim_space s) = trim_space s"
proof -
  let ?d = "dropWhile space1 s" and ?t = "trim_space s"
  have t: "?t = rev (dropWhile space1 (rev ?d))" by (rule trim_space_ascii [OF assms])
  have "ascii ?t" using assms set_trim_space by (fastforce simp: ascii_def)
  moreover have "dropWhile space1 ?t = ?t"
  proof (cases "?t = []")
    case False
    have "prefix ?t ?d" unfolding t by (metis rev_rev_ident suffix_dropWhile suffix_to_prefix)
    then obtain zs where zs: "?d = ?t @ zs" by (auto simp: prefix_def)
    have "hd ?t = hd ?d" unfolding zs using False by simp
    moreover have "?d \<noteq> []" using zs False by (metis append_is_Nil_conv)
    ultimately have "\<not> space1 (hd ?t)" using hd_dropWhile [of space1 s] by simp
    then show ?thesis by (cases ?t) auto
  qed simp
  moreover have "dropWhile space1 (rev ?t) = rev ?t"
    unfolding t by simp
  ultimately show ?thesis by (simp add: trim_space_ascii)
qed

lemma trim_right_char_last: "s \<noteq> [] \<Longrightarrow> last s \<noteq> c \<Longrightarrow> trim_right_char c s = s"
  by (cases s rule: rev_cases) (auto simp: trim_right_char_def)


end
