(* ===== verification/Go_Path.thy ===== *)
theory Go_Path
  imports Go_Strings
begin

text \<open>
  The lexical part of Go's \<^verbatim>\<open>path/filepath\<close> on Unix, as far as the object store
  calls it: \<^verbatim>\<open>IsAbs\<close>, \<^verbatim>\<open>Clean\<close>, \<^verbatim>\<open>Join\<close>, \<^verbatim>\<open>Abs\<close> and \<^verbatim>\<open>Base\<close>. The working directory that
  \<^verbatim>\<open>Abs\<close> reads is an argument, \<open>None\<close> when \<^verbatim>\<open>os.Getwd\<close> fails. \<^verbatim>\<open>ToSlash\<close> and \<^verbatim>\<open>FromSlash\<close> are
  the identity on Unix and are left out.
\<close>

abbreviation slash :: char where "slash \<equiv> CHR ''/''"

definition is_abs :: "string \<Rightarrow> bool" where
  "is_abs p \<longleftrightarrow> p \<noteq> [] \<and> hd p = slash"

text \<open>Elements that \<^verbatim>\<open>Clean\<close> keeps: no empty ones (repeated slashes) and no dots.\<close>

definition path_elems :: "string \<Rightarrow> string list" where
  "path_elems p = filter (\<lambda>c. c \<noteq> [] \<and> c \<noteq> ''.'') (split_on slash p)"

text \<open>
  The backtracking of \<^verbatim>\<open>Clean\<close>: the stack holds the output so far, last element
  first. A \<open>..\<close> removes the element before it; at the root it vanishes, at the
  start of a relative path it stays.
\<close>

fun clean_elems :: "bool \<Rightarrow> string list \<Rightarrow> string list \<Rightarrow> string list" where
  "clean_elems rooted out [] = rev out"
| "clean_elems rooted out (c # cs) =
     (if c = ''..'' then
        (case out of
           [] \<Rightarrow> clean_elems rooted (if rooted then [] else [c]) cs
         | t # ts \<Rightarrow> if t = ''..'' then clean_elems rooted (c # out) cs
                     else clean_elems rooted ts cs)
      else clean_elems rooted (c # out) cs)"

definition clean_path :: "string \<Rightarrow> string" where
  "clean_path p =
     (let out = clean_elems (is_abs p) [] (path_elems p)
      in if is_abs p then slash # join_with slash out
         else if out = [] then ''.'' else join_with slash out)"

definition join_path :: "string \<Rightarrow> string \<Rightarrow> string" where
  "join_path a b =
     (if a \<noteq> [] then clean_path (a @ slash # b) else if b \<noteq> [] then clean_path b else [])"

definition abs_path :: "string option \<Rightarrow> string \<Rightarrow> string option" where
  "abs_path cwd p =
     (if is_abs p then Some (clean_path p) else map_option (\<lambda>d. join_path d p) cwd)"

definition base_name :: "string \<Rightarrow> string" where
  "base_name p =
     (if p = [] then ''.''
      else let q = trim_right_char slash p
           in if q = [] then ''/'' else last (split_on slash q))"

section \<open>Canonical element lists\<close>

definition canonical :: "string list \<Rightarrow> bool" where
  "canonical cs \<longleftrightarrow> (\<forall>c\<in>set cs. c \<noteq> [] \<and> c \<noteq> ''.'' \<and> c \<noteq> ''..'' \<and> slash \<notin> set c)"

lemma canonical_append [simp]: "canonical (a @ b) \<longleftrightarrow> canonical a \<and> canonical b"
  by (auto simp: canonical_def)

lemma canonical_Nil [simp]: "canonical []"
  by (simp add: canonical_def)

lemma path_elems_slash [simp]: "path_elems (slash # p) = path_elems p"
  by (simp add: path_elems_def)

lemma path_elems_append: "path_elems (a @ slash # b) = path_elems a @ path_elems b"
  by (simp add: path_elems_def split_on_sep_append)

lemma path_elems_Nil [simp]: "path_elems [] = []"
  by (simp add: path_elems_def)

lemma path_elems_mem:
  "c \<in> set (path_elems p) \<Longrightarrow> c \<noteq> [] \<and> c \<noteq> ''.'' \<and> slash \<notin> set c"
  by (auto simp: path_elems_def dest: split_on_no_sep)

lemma path_elems_join:
  assumes "canonical cs"
  shows "path_elems (join_with slash cs) = cs"
proof (cases "cs = []")
  case False
  with assms have "split_on slash (join_with slash cs) = cs"
    by (intro split_on_join) (auto simp: canonical_def)
  with assms show ?thesis
    by (simp add: path_elems_def canonical_def filter_id_conv)
qed simp

lemma clean_elems_plain:
  "''..'' \<notin> set cs \<Longrightarrow> clean_elems r out cs = rev out @ cs"
  by (induction cs arbitrary: out) auto

lemma clean_elems_rooted:
  assumes "''..'' \<notin> set out"
  shows "''..'' \<notin> set (clean_elems True out cs) \<and>
         set (clean_elems True out cs) \<subseteq> set out \<union> set cs"
  using assms
proof (induction cs arbitrary: out)
  case (Cons c cs)
  show ?case
  proof (cases out)
    case Nil
    with Cons.IH [of "[]"] Cons.IH [of "[c]"] show ?thesis by auto
  next
    case (Cons t ts)
    with Cons.prems Cons.IH [of ts] Cons.IH [of "c # out"] show ?thesis by auto
  qed
qed simp

text \<open>
  A relative path keeps its leading \<open>..\<close> elements; all others are ordinary.
  The stack in the middle of the run has this shape too.
\<close>

lemma clean_elems_relative:
  assumes "''..'' \<notin> set k"
  shows "\<exists>m k'. clean_elems False (rev k @ replicate n ''..'') cs = replicate m ''..'' @ k'
           \<and> ''..'' \<notin> set k' \<and> set k' \<subseteq> set k \<union> set cs"
  using assms
proof (induction cs arbitrary: n k)
  case Nil
  then show ?case by (intro exI [of _ n] exI [of _ k]) simp
next
  case (Cons c cs)
  show ?case
  proof (cases "c = ''..''")
    case dots: True
    show ?thesis
    proof (cases k rule: rev_cases)
      case Nil
      with dots have step: "clean_elems False (rev k @ replicate n ''..'') (c # cs)
          = clean_elems False (rev k @ replicate (Suc n) ''..'') cs"
        by (cases n) auto
      from Cons.IH [of k "Suc n"] Cons.prems obtain m k' where
        "clean_elems False (rev k @ replicate (Suc n) ''..'') cs = replicate m ''..'' @ k'"
        "''..'' \<notin> set k'" "set k' \<subseteq> set k \<union> set cs"
        by blast
      with step show ?thesis by (intro exI [of _ m] exI [of _ k']) auto
    next
      case (snoc ts t)
      with Cons.prems have "t \<noteq> ''..''" by auto
      with dots snoc have step: "clean_elems False (rev k @ replicate n ''..'') (c # cs)
          = clean_elems False (rev ts @ replicate n ''..'') cs"
        by simp
      from snoc Cons.prems have "''..'' \<notin> set ts" by simp
      from Cons.IH [OF this, of n] obtain m k' where
        "clean_elems False (rev ts @ replicate n ''..'') cs = replicate m ''..'' @ k'"
        "''..'' \<notin> set k'" "set k' \<subseteq> set ts \<union> set cs"
        by blast
      with step snoc show ?thesis by (intro exI [of _ m] exI [of _ k']) auto
    qed
  next
    case False
    with Cons.prems have "''..'' \<notin> set (k @ [c])" by simp
    from Cons.IH [OF this, of n] obtain m k' where
      "clean_elems False (rev (k @ [c]) @ replicate n ''..'') cs = replicate m ''..'' @ k'"
      "''..'' \<notin> set k'" "set k' \<subseteq> set (k @ [c]) \<union> set cs"
      by blast
    with False show ?thesis by (intro exI [of _ m] exI [of _ k']) auto
  qed
qed

lemma clean_path_rooted:
  assumes "is_abs p"
  obtains r where "canonical r" "clean_path p = slash # join_with slash r"
    and "r = clean_elems True [] (path_elems p)"
proof
  let ?r = "clean_elems True [] (path_elems p)"
  have "''..'' \<notin> set ?r" "set ?r \<subseteq> set (path_elems p)"
    using clean_elems_rooted [of "[]" "path_elems p"] by auto
  then show "canonical ?r" by (auto simp: canonical_def dest: path_elems_mem)
  show "clean_path p = slash # join_with slash ?r"
    using assms by (simp add: clean_path_def Let_def)
qed simp

lemma clean_path_relative:
  assumes "\<not> is_abs p"
  obtains n k where "canonical k" "clean_elems False [] (path_elems p) = replicate n ''..'' @ k"
    and "clean_path p = (if n = 0 \<and> k = [] then ''.'' else join_with slash (replicate n ''..'' @ k))"
proof -
  obtain n k where nk: "clean_elems False [] (path_elems p) = replicate n ''..'' @ k"
    "''..'' \<notin> set k" "set k \<subseteq> set (path_elems p)"
    using clean_elems_relative [of "[]" 0 "path_elems p"] by auto
  then have "canonical k" by (auto simp: canonical_def dest: path_elems_mem)
  moreover have "clean_path p =
      (if n = 0 \<and> k = [] then ''.'' else join_with slash (replicate n ''..'' @ k))"
    using assms nk(1) by (auto simp: clean_path_def Let_def)
  ultimately show thesis using nk(1) that by blast
qed

lemma is_abs_slash [simp]: "is_abs (slash # p)"
  by (simp add: is_abs_def)

lemma join_with_head:
  "cs \<noteq> [] \<Longrightarrow> hd cs \<noteq> [] \<Longrightarrow> hd (join_with sep cs) = hd (hd cs)"
  by (induction sep cs rule: join_with.induct) auto

lemma join_with_nonempty:
  "cs \<noteq> [] \<Longrightarrow> hd cs \<noteq> [] \<Longrightarrow> join_with sep cs \<noteq> []"
  by (induction sep cs rule: join_with.induct) auto

lemma join_with_Cons:
  "cs \<noteq> [] \<Longrightarrow> join_with sep (c # cs) = c @ sep # join_with sep cs"
  by (cases cs) auto

lemma join_with_append:
  "a \<noteq> [] \<Longrightarrow> b \<noteq> [] \<Longrightarrow> join_with sep (a @ b) = join_with sep a @ sep # join_with sep b"
  by (induction sep a rule: join_with.induct) (auto simp: join_with_Cons)

text \<open>An absolute path in its clean form is a fixed point of \<^verbatim>\<open>Clean\<close>.\<close>

lemma clean_path_canonical:
  assumes "canonical r"
  shows "clean_path (slash # join_with slash r) = slash # join_with slash r"
proof -
  have "''..'' \<notin> set r" using assms by (auto simp: canonical_def)
  then show ?thesis
    using assms by (simp add: clean_path_def Let_def path_elems_join clean_elems_plain)
qed

text \<open>Joining a clean relative path without \<open>..\<close> to a clean root.\<close>

lemma join_path_canonical:
  assumes "canonical r" "canonical k"
  shows "join_path (slash # join_with slash r) (join_with slash k) = slash # join_with slash (r @ k)"
proof -
  have "''..'' \<notin> set (r @ k)" using assms by (auto simp: canonical_def)
  moreover have "path_elems ((slash # join_with slash r) @ slash # join_with slash k) = r @ k"
    using assms by (simp only: path_elems_append path_elems_slash path_elems_join)
  ultimately show ?thesis
    by (simp add: join_path_def clean_path_def Let_def clean_elems_plain)
qed

lemma join_with_inj:
  assumes "canonical a" "canonical b" "join_with slash a = join_with slash b"
  shows "a = b"
  using assms path_elems_join by metis

lemma abs_path_rooted:
  assumes "abs_path cwd p = Some q" and "\<And>d. cwd = Some d \<Longrightarrow> is_abs d"
  obtains r where "canonical r" "q = slash # join_with slash r"
proof (cases "is_abs p")
  case True
  with assms(1) have q: "q = clean_path p" by (simp add: abs_path_def)
  from True show thesis by (rule clean_path_rooted) (use q that in blast)
next
  case False
  with assms(1) obtain d where d: "cwd = Some d" "q = join_path d p" by (auto simp: abs_path_def)
  with assms(2) have "is_abs d" by simp
  then have "is_abs (d @ slash # p)" and "d \<noteq> []" by (auto simp: is_abs_def)
  with d have q: "q = clean_path (d @ slash # p)" by (simp add: join_path_def)
  from \<open>is_abs (d @ slash # p)\<close> show thesis by (rule clean_path_rooted) (use q that in blast)
qed

lemma base_name_no_slash:
  assumes "s \<noteq> []" "slash \<notin> set s"
  shows "base_name s = s"
proof -
  have "last s \<noteq> slash" using assms last_in_set by metis
  then show ?thesis using assms by (simp add: base_name_def Let_def trim_right_char_last split_on_whole)
qed


end
