(* ===== verification/World.thy ===== *)
theory World
  imports Go_Path
begin

text \<open>
  The world the server runs in. \<open>database\<close> holds the rows of the five SQL tables
  (src/internal/database/database.go, \<open>singleUserSchema\<close>) in insertion order, column
  by column, with time stamps as the texts the program writes and SQL NULL as
  \<open>None\<close>. \<open>world\<close> adds the object files and four counters.

  \<open>env\<close> holds what the program calls but does not define: the clock, the random
  sources, the failures of the driver and of the operating system, and the
  third-party packages (uuid, xxhash, bcrypt, jwt, the SQLite driver's error text)
  with the standard library tables that are data (content sniffing, MIME types).
  Every reading of the clock, every generated identifier, every SQL statement and
  every system call advances its counter, and the environment says what that
  reading, identifier, statement or call gives; a theorem quantified over \<open>env\<close>
  therefore holds for every clock, every identifier stream and every pattern of
  failures.
\<close>

type_synonym bytes = string

text \<open>Instants are nanoseconds since Go's zero time, 1 January of year 1, UTC.\<close>

type_synonym time = int
type_synonym duration = int

section \<open>Rows\<close>

record user_row =
  u_id :: string
  u_username :: string
  u_password_hash :: string
  u_created_at :: string

record session_row =
  s_id :: string
  s_token_hash :: string
  s_expires_at :: string
  s_revoked_at :: "string option"
  s_created_at :: string

record folder_row =
  d_id :: string
  d_parent_id :: "string option"
  d_name :: string
  d_mount :: string
  d_created_at :: string
  d_updated_at :: string

record file_row =
  f_id :: string
  f_folder_id :: "string option"
  f_storage_key :: string
  f_name :: string
  f_content_type :: string
  f_size :: int
  f_checksum :: string
  f_mount :: string
  f_created_at :: string
  f_updated_at :: string
  f_deleted_at :: "string option"

record audit_row =
  a_id :: string
  a_action :: string
  a_resource_id :: string
  a_metadata :: string
  a_created_at :: string

record database =
  users :: "user_row list"
  sessions :: "session_row list"
  folders :: "folder_row list"
  files :: "file_row list"
  audit_events :: "audit_row list"

record world =
  w_db :: database
  w_fs :: "string \<rightharpoonup> bytes"
  w_clock :: nat
  w_uuid :: nat
  w_rand :: nat
  w_sql :: nat
  w_os :: nat

section \<open>Errors\<close>

text \<open>
  The sentinel errors of the packages, wrapped errors (\<^verbatim>\<open>fmt.Errorf("...: %w", err)\<close>), driver
  and system errors with their text, plain texts, and the run-time panics that the
  source leaves unguarded.
\<close>

datatype err =
    ErrNotFound | ErrConflict | ErrMountMismatch
  | ErrMountNotFound
  | ErrInvalidCredentials | ErrInvalidToken | ErrSessionRevoked
  | ErrInvalidFilename | ErrInvalidMIME | ErrTooLarge | ErrTraversal
  | MaxBytesError
  | SqlError string
  | OsError string
  | TextError string
  | Wrapped string err
  | Panic string

fun err_text :: "err \<Rightarrow> string" where
  "err_text ErrNotFound = ''not found''"
| "err_text ErrConflict = ''already exists''"
| "err_text ErrMountMismatch = ''storage mount mismatch''"
| "err_text ErrMountNotFound = ''mount not found''"
| "err_text ErrInvalidCredentials = ''invalid credentials''"
| "err_text ErrInvalidToken = ''invalid token''"
| "err_text ErrSessionRevoked = ''session revoked''"
| "err_text ErrInvalidFilename = ''invalid filename''"
| "err_text ErrInvalidMIME = ''invalid mime type''"
| "err_text ErrTooLarge = ''file too large''"
| "err_text ErrTraversal = ''invalid storage path''"
| "err_text MaxBytesError = ''http: request body too large''"
| "err_text (SqlError m) = m"
| "err_text (OsError m) = m"
| "err_text (TextError m) = m"
| "err_text (Wrapped m e) = m @ '': '' @ err_text e"
| "err_text (Panic m) = m"

text \<open>\<^verbatim>\<open>errors.Is\<close>: the error itself or one it wraps.\<close>

fun errors_is :: "err \<Rightarrow> err \<Rightarrow> bool" where
  "errors_is (Wrapped m e) target \<longleftrightarrow> Wrapped m e = target \<or> errors_is e target"
| "errors_is e target \<longleftrightarrow> e = target"

type_synonym 'a io = "(world, err, 'a) prog"

definition wrapE :: "string \<Rightarrow> 'a io \<Rightarrow> 'a io" where
  "wrapE m p = handleE p (\<lambda>e. raise (Wrapped m e)) ret"

section \<open>The environment\<close>

record claims =
  c_issuer :: string
  c_subject :: string
  c_id :: string
  c_issued_at :: "time option"
  c_not_before :: "time option"
  c_expires_at :: "time option"

record env =
  x_clock :: "nat \<Rightarrow> time"
  x_uuid :: "nat \<Rightarrow> string"
  x_rand :: "nat \<Rightarrow> bytes option"
  x_sql_fault :: "nat \<Rightarrow> string option"
  x_os_fault :: "nat \<Rightarrow> string option"
  x_sql_msg :: "string \<Rightarrow> string"
  x_cwd :: "string option"
  x_xxhash :: "bytes \<Rightarrow> 64 word"
  x_sha256 :: "bytes \<Rightarrow> bytes"
  x_bcrypt_hash :: "string \<Rightarrow> nat \<Rightarrow> string option"
  x_bcrypt_check :: "string \<Rightarrow> string \<Rightarrow> bool"
  x_jwt_sign :: "string \<Rightarrow> claims \<Rightarrow> string option"
  x_jwt_parse :: "(string \<Rightarrow> err + string) \<Rightarrow> string \<Rightarrow> string list \<Rightarrow> time \<Rightarrow> string \<Rightarrow> (claims \<times> bool) option"
  x_numeric_date :: "time \<Rightarrow> time"
  x_detect_mime :: "bytes \<Rightarrow> string"
  x_ext_mime :: "string \<Rightarrow> string"
  x_media_type :: "string \<Rightarrow> string option"

section \<open>Primitive effects\<close>

definition now_io :: "env \<Rightarrow> time io" where
  "now_io E = (\<lambda>w. (Inr (x_clock E (w_clock w)), w\<lparr>w_clock := Suc (w_clock w)\<rparr>))"

definition uuid_io :: "env \<Rightarrow> string io" where
  "uuid_io E = (\<lambda>w. (Inr (x_uuid E (w_uuid w)), w\<lparr>w_uuid := Suc (w_uuid w)\<rparr>))"

definition rand_io :: "env \<Rightarrow> bytes io" where
  "rand_io E = (\<lambda>w. (case x_rand E (w_rand w) of None \<Rightarrow> Inl (OsError ''rand'') | Some b \<Rightarrow> Inr b,
                    w\<lparr>w_rand := Suc (w_rand w)\<rparr>))"

text \<open>
  One SQL statement: it fails with a text chosen by the environment and no effect,
  or it runs; a running statement can still be refused by a constraint, with the
  text the driver makes of SQLite's message, and then has no effect either.
\<close>

definition sql_io :: "env \<Rightarrow> (database \<Rightarrow> (string + 'a \<times> database)) \<Rightarrow> 'a io" where
  "sql_io E stmt = (\<lambda>w.
     let w1 = w\<lparr>w_sql := Suc (w_sql w)\<rparr>
     in case x_sql_fault E (w_sql w) of
          Some m \<Rightarrow> (Inl (SqlError m), w1)
        | None \<Rightarrow> (case stmt (w_db w) of
              Inl c \<Rightarrow> (Inl (SqlError (x_sql_msg E c)), w1)
            | Inr (x, db) \<Rightarrow> (Inr x, w1\<lparr>w_db := db\<rparr>)))"

definition sql_query :: "env \<Rightarrow> (database \<Rightarrow> 'a) \<Rightarrow> 'a io" where
  "sql_query E q = sql_io E (\<lambda>db. Inr (q db, db))"

text \<open>One system call on the object files: it fails without effect, or it runs.\<close>

definition os_io :: "env \<Rightarrow> ((string \<rightharpoonup> bytes) \<Rightarrow> (err + 'a \<times> (string \<rightharpoonup> bytes))) \<Rightarrow> 'a io" where
  "os_io E call = (\<lambda>w.
     let w1 = w\<lparr>w_os := Suc (w_os w)\<rparr>
     in case x_os_fault E (w_os w) of
          Some m \<Rightarrow> (Inl (OsError m), w1)
        | None \<Rightarrow> (case call (w_fs w) of
              Inl e \<Rightarrow> (Inl e, w1)
            | Inr (x, fs) \<Rightarrow> (Inr x, w1\<lparr>w_fs := fs\<rparr>)))"

section \<open>Frame relations\<close>

definition same_db :: "world \<Rightarrow> world \<Rightarrow> bool" where
  "same_db w w1 \<longleftrightarrow> w_db w1 = w_db w"

definition same_fs :: "world \<Rightarrow> world \<Rightarrow> bool" where
  "same_fs w w1 \<longleftrightarrow> w_fs w1 = w_fs w"

lemma same_db_preorder [simp]: "reflp same_db" "transp same_db"
  by (auto simp: same_db_def reflp_def transp_def)

lemma same_fs_preorder [simp]: "reflp same_fs" "transp same_fs"
  by (auto simp: same_fs_def reflp_def transp_def)

lemma same_db_refl [simp]: "same_db w w"
  by (simp add: same_db_def)

lemma same_fs_refl [simp]: "same_fs w w"
  by (simp add: same_fs_def)

lemma keeps_wrapE [keeps_intro]: "reflp R \<Longrightarrow> transp R \<Longrightarrow> keeps R p \<Longrightarrow> keeps R (wrapE m p)"
  unfolding wrapE_def by (intro keeps_intro)

lemma wrapE_Inr [simp]: "wrapE m p w = (Inr x, w1) \<longleftrightarrow> p w = (Inr x, w1)"
  by (cases "p w"; cases "fst (p w)") (auto simp: wrapE_def handleE_def ret_def raise_def)

lemma wrapE_Inl: "wrapE m p w = (Inl e, w1) \<longleftrightarrow> (\<exists>e'. p w = (Inl e', w1) \<and> e = Wrapped m e')"
  by (cases "p w"; cases "fst (p w)") (auto simp: wrapE_def handleE_def ret_def raise_def)

lemma now_io_keeps [keeps_intro]: "keeps same_db (now_io E)" "keeps same_fs (now_io E)"
  by (simp_all add: keeps_def now_io_def same_db_def same_fs_def)

lemma uuid_io_keeps [keeps_intro]: "keeps same_db (uuid_io E)" "keeps same_fs (uuid_io E)"
  by (simp_all add: keeps_def uuid_io_def same_db_def same_fs_def)

lemma rand_io_keeps [keeps_intro]: "keeps same_db (rand_io E)" "keeps same_fs (rand_io E)"
  by (simp_all add: keeps_def rand_io_def same_db_def same_fs_def)

lemma sql_io_keeps_fs [keeps_intro]: "keeps same_fs (sql_io E f)"
  by (auto simp: keeps_def sql_io_def same_fs_def Let_def split: option.splits sum.splits prod.splits)

lemma sql_query_keeps [keeps_intro]: "keeps same_db (sql_query E q)" "keeps same_fs (sql_query E q)"
  by (auto simp: keeps_def sql_query_def sql_io_def same_db_def same_fs_def Let_def
      split: option.splits)

lemma os_io_keeps_db [keeps_intro]: "keeps same_db (os_io E f)"
  by (auto simp: keeps_def os_io_def same_db_def Let_def split: option.splits sum.splits prod.splits)

lemma sql_io_Inr:
  "sql_io E f w = (Inr x, w1) \<longleftrightarrow>
     x_sql_fault E (w_sql w) = None \<and>
     (\<exists>db. f (w_db w) = Inr (x, db) \<and> w1 = w\<lparr>w_sql := Suc (w_sql w), w_db := db\<rparr>)"
  by (auto simp: sql_io_def Let_def split: option.splits sum.splits prod.splits)

lemma sql_io_Inl_db: "sql_io E f w = (Inl e, w1) \<Longrightarrow> w_db w1 = w_db w \<and> w_fs w1 = w_fs w"
  by (auto simp: sql_io_def Let_def split: option.splits sum.splits prod.splits)

lemma sql_query_Inr:
  "sql_query E q w = (Inr x, w1) \<longleftrightarrow>
     x_sql_fault E (w_sql w) = None \<and> x = q (w_db w) \<and> w1 = w\<lparr>w_sql := Suc (w_sql w)\<rparr>"
  by (auto simp: sql_query_def sql_io_Inr)

lemma os_io_Inr:
  "os_io E f w = (Inr x, w1) \<longleftrightarrow>
     x_os_fault E (w_os w) = None \<and>
     (\<exists>fs. f (w_fs w) = Inr (x, fs) \<and> w1 = w\<lparr>w_os := Suc (w_os w), w_fs := fs\<rparr>)"
  by (auto simp: os_io_def Let_def split: option.splits sum.splits prod.splits)

lemma os_io_Inl: "os_io E f w = (Inl e, w1) \<Longrightarrow> w_fs w1 = w_fs w \<and> w_db w1 = w_db w"
  by (auto simp: os_io_def Let_def split: option.splits sum.splits prod.splits)

text \<open>A property of the database that a step does not destroy.\<close>

definition preserving :: "(database \<Rightarrow> bool) \<Rightarrow> world \<Rightarrow> world \<Rightarrow> bool" where
  "preserving J w w1 \<longleftrightarrow> (J (w_db w) \<longrightarrow> J (w_db w1))"

lemma preserving_preorder [simp]: "reflp (preserving J)" "transp (preserving J)"
  by (auto simp: preserving_def reflp_def transp_def)

lemma same_db_preserving: "keeps same_db m \<Longrightarrow> keeps (preserving J) m"
  by (simp add: keeps_def same_db_def preserving_def)

lemma preserving_primitives [keeps_intro]:
  "keeps (preserving J) (now_io E)" "keeps (preserving J) (uuid_io E)" "keeps (preserving J) (rand_io E)"
  "keeps (preserving J) (sql_query E q)" "keeps (preserving J) (os_io E g)"
  by (intro same_db_preserving keeps_intro)+

lemma sql_io_preserving:
  "(\<And>db x db1. f db = Inr (x, db1) \<Longrightarrow> J db \<Longrightarrow> J db1) \<Longrightarrow> keeps (preserving J) (sql_io E f)"
  by (fastforce simp: keeps_def preserving_def sql_io_def Let_def split: option.splits sum.splits prod.splits)

lemma preservingD: "keeps (preserving J) m \<Longrightarrow> m w = (r, w1) \<Longrightarrow> J (w_db w) \<Longrightarrow> J (w_db w1)"
  by (metis keepsD preserving_def snd_conv)

lemma preserving_snd: "keeps (preserving J) m \<Longrightarrow> J (w_db w) \<Longrightarrow> J (w_db (snd (m w)))"
  by (metis keepsD preserving_def)

text \<open>The counters only grow, and a statement touches none but its own.\<close>

definition draws_on :: "world \<Rightarrow> world \<Rightarrow> bool" where
  "draws_on w w1 \<longleftrightarrow> w_rand w \<le> w_rand w1 \<and> w_uuid w \<le> w_uuid w1 \<and> w_clock w \<le> w_clock w1"

lemma draws_on_preorder [simp]: "reflp draws_on" "transp draws_on"
  by (auto simp: draws_on_def reflp_def transp_def)

lemma draws_on_primitives [keeps_intro]:
  "keeps draws_on (now_io E)" "keeps draws_on (uuid_io E)" "keeps draws_on (rand_io E)"
  "keeps draws_on (sql_io E f)" "keeps draws_on (sql_query E q)" "keeps draws_on (os_io E g)"
  by (auto simp: keeps_def draws_on_def now_io_def uuid_io_def rand_io_def sql_query_def sql_io_def os_io_def
      Let_def split: option.splits sum.splits prod.splits)

section \<open>A concrete environment\<close>

text \<open>
  An environment without failures, with a clock that ticks once a second from
  2 January of year 1 and simple stand-ins for the external functions. The
  witnesses of the properties evaluate on it and on variations of it.
\<close>

definition calm_uuid :: "nat \<Rightarrow> string" where
  "calm_uuid n = replicate 34 (CHR ''a'') @ [char_of (48 + n div 10 mod 10), char_of (48 + n mod 10)]"

definition calm_env :: env where
  "calm_env = \<lparr>
     x_clock = (\<lambda>n. 86400000000000 + int n * 1000000000),
     x_uuid = calm_uuid,
     x_rand = (\<lambda>n. Some (replicate 32 (char_of (n mod 256)))),
     x_sql_fault = (\<lambda>n. None),
     x_os_fault = (\<lambda>n. None),
     x_sql_msg = (\<lambda>c. ''constraint failed: '' @ c),
     x_cwd = Some ''/srv'',
     x_xxhash = (\<lambda>b. word_of_nat (sum_list (map of_char b))),
     x_sha256 = (\<lambda>b. b),
     x_bcrypt_hash = (\<lambda>p n. Some (CHR ''$'' # p)),
     x_bcrypt_check = (\<lambda>h p. h = CHR ''$'' # p),
     x_jwt_sign = (\<lambda>s c. None),
     x_jwt_parse = (\<lambda>kf iss ms t raw. None),
     x_numeric_date = (\<lambda>t. t - t mod 1000000000),
     x_detect_mime = (\<lambda>b. ''text/plain''),
     x_ext_mime = (\<lambda>e. []),
     x_media_type = (\<lambda>v. Some v)\<rparr>"

definition empty_db :: database where
  "empty_db = \<lparr>users = [], sessions = [], folders = [], files = [], audit_events = []\<rparr>"

definition calm_world :: world where
  "calm_world = \<lparr>w_db = empty_db, w_fs = Map.empty, w_clock = 0, w_uuid = 0, w_rand = 0,
     w_sql = 0, w_os = 0\<rparr>"

end
