(* ===== verification/Storage.thy ===== *)
theory Storage
  imports World
begin

text \<open>
  The object store: src/internal/storage/local.go and src/internal/storage/mounts.go,
  on Unix. A \<open>local_store\<close> is the \<^verbatim>\<open>LocalStore\<close> struct; the files below its root are the
  entries of \<open>w_fs\<close> whose path lies below it, directories being implicit. A source
  that \<^verbatim>\<open>Save\<close> reads is the bytes it yields and the error that ends it, \<open>None\<close>
  for end of file. A write that the system fails leaves the file empty, where the
  real one may hold a part of the data; the file is removed in both cases.
\<close>

section \<open>File names\<close>

definition safe_char :: "char \<Rightarrow> bool" where
  "safe_char c \<longleftrightarrow> (CHR ''A'' \<le> c \<and> c \<le> CHR ''Z'') \<or> (CHR ''a'' \<le> c \<and> c \<le> CHR ''z'')
     \<or> (CHR ''0'' \<le> c \<and> c \<le> CHR ''9'') \<or> c \<in> {CHR ''.'', CHR ''_'', CHR '' '', CHR ''-''}"

text \<open>\<^verbatim>\<open>safeFilename.ReplaceAllString(s, "")\<close> removes the runs of all other characters.\<close>

definition strip_unsafe :: "string \<Rightarrow> string" where
  "strip_unsafe s = filter safe_char s"

definition sanitize_filename :: "string \<Rightarrow> err + string" where
  "sanitize_filename filename =
     (let f1 = trim_space (base_name filename);
          f2 = strip_unsafe f1;
          f3 = trim_space f2
      in if f3 = [] \<or> f3 = ''.'' \<or> f3 = ''..'' \<or> length f3 > 255
         then Inl ErrInvalidFilename else Inr f3)"

section \<open>The store\<close>

record file_info =
  i_key :: string
  i_filename :: string
  i_size :: int
  i_content_type :: string
  i_checksum :: string

record local_store =
  l_root :: string
  l_max_bytes :: int
  l_allowed_mimes :: "string list"

definition new_local_store :: "env \<Rightarrow> string \<Rightarrow> int \<Rightarrow> string list \<Rightarrow> local_store io" where
  "new_local_store E root max_bytes allowed =
     bindE (guardE (\<not> (trim_space root = [] \<or> max_bytes \<le> 0))
              (TextError ''storage root and max size are required'')) (\<lambda>_.
     bindE (wrapE ''create storage root'' (os_io E (\<lambda>fs. Inr ((), fs)))) (\<lambda>_.
     ret \<lparr>l_root = root, l_max_bytes = max_bytes,
          l_allowed_mimes = filter (\<lambda>v. v \<noteq> []) (map (\<lambda>v. to_lower (trim_space v)) allowed)\<rparr>))"

definition safe_path :: "env \<Rightarrow> local_store \<Rightarrow> string \<Rightarrow> err + string" where
  "safe_path E s key =
     (if key = [] \<or> is_abs key \<or> contains_any key [CHR 0x5C] then Inl ErrTraversal
      else let clean = clean_path key
      in if clean = ''.'' \<or> clean = ''..'' \<or> has_prefix clean ''../'' then Inl ErrTraversal
      else case abs_path (x_cwd E) (l_root s) of
             None \<Rightarrow> Inl (OsError ''getwd'')
           | Some root \<Rightarrow>
              (case abs_path (x_cwd E) (join_path root clean) of
                 None \<Rightarrow> Inl ErrTraversal
               | Some path \<Rightarrow>
                   if path \<noteq> root \<and> \<not> has_prefix path (root @ ''/'')
                   then Inl ErrTraversal else Inr path))"

text \<open>Addition of \<^verbatim>\<open>int64\<close> values wraps around.\<close>

definition int64_add :: "int \<Rightarrow> int \<Rightarrow> int" where
  "int64_add a b = (a + b + 9223372036854775808) mod 18446744073709551616 - 9223372036854775808"

text \<open>
  \<^verbatim>\<open>io.LimitReader(src, n)\<close> read to its end: at most \<open>n\<close> bytes (none when \<open>n\<close> is not
  positive), and the error of the source only when the limit was not reached.
\<close>

definition limit_read :: "bytes \<times> err option \<Rightarrow> int \<Rightarrow> bytes \<times> err option" where
  "limit_read src n =
     (if n \<le> 0 then ([], None)
      else if int (length (fst src)) \<ge> n then (take (nat n) (fst src), None)
      else src)"

text \<open>
  The extension of the last path element: \<^verbatim>\<open>filepath.Ext\<close> scans from the end and stops
  at a dot or a slash.
\<close>

definition path_ext :: "string \<Rightarrow> string" where
  "path_ext p =
     (let tail = takeWhile (\<lambda>c. c \<noteq> CHR ''.'' \<and> c \<noteq> slash) (rev p);
          rest = drop (length tail) (rev p)
      in if rest \<noteq> [] \<and> hd rest = CHR ''.'' then CHR ''.'' # rev tail else [])"

text \<open>
  Reading the first 512 bytes back: an open failure gives the generic type, a
  read failure an empty buffer.
\<close>

definition detect_file_mime :: "env \<Rightarrow> string \<Rightarrow> string io" where
  "detect_file_mime E path =
     handleE (os_io E (\<lambda>fs. case fs path of None \<Rightarrow> Inl (OsError ''not exist'') | Some b \<Rightarrow> Inr (b, fs)))
       (\<lambda>e. ret ''application/octet-stream'')
       (\<lambda>content.
          bindE (handleE (os_io E (\<lambda>fs. Inr (take 512 content, fs))) (\<lambda>e. ret []) ret) (\<lambda>buffer.
          let value = x_detect_mime E buffer; extension = x_ext_mime E (path_ext path)
          in ret (if value = ''application/octet-stream'' \<and> extension \<noteq> [] then extension else value)))"

definition normalize_mime :: "env \<Rightarrow> string \<Rightarrow> string" where
  "normalize_mime E value =
     (case x_media_type E (to_lower (trim_space value)) of
        None \<Rightarrow> to_lower (trim_space value)
      | Some t \<Rightarrow> if t = [] then to_lower (trim_space value) else t)"

fun hex_digit :: "nat \<Rightarrow> char" where
  "hex_digit n = (if n < 10 then char_of (48 + n) else char_of (87 + n))"

text \<open>\<^verbatim>\<open>fmt.Sprintf("%x", n)\<close>: lower case, no leading zeros.\<close>

fun format_hex :: "nat \<Rightarrow> string" where
  "format_hex n = (if n < 16 then [hex_digit n] else format_hex (n div 16) @ [hex_digit (n mod 16)])"

declare format_hex.simps [simp del] hex_digit.simps [simp del]

definition checksum_of :: "env \<Rightarrow> bytes \<Rightarrow> string" where
  "checksum_of E content = format_hex (unat (x_xxhash E content))"

definition create_excl :: "env \<Rightarrow> string \<Rightarrow> unit io" where
  "create_excl E path = os_io E (\<lambda>fs. case fs path of
     Some _ \<Rightarrow> Inl (OsError ''file exists'') | None \<Rightarrow> Inr ((), fs(path \<mapsto> [])))"

definition os_remove :: "env \<Rightarrow> string \<Rightarrow> unit io" where
  "os_remove E path = os_io E (\<lambda>fs. case fs path of
     None \<Rightarrow> Inl (OsError ''not exist'') | Some _ \<Rightarrow> Inr ((), fs(path := None)))"

text \<open>
  \<^verbatim>\<open>Save\<close> in two parts: what happens once the object file exists, with its
  \<^verbatim>\<open>cleanup\<close>, and the preparation up to \<^verbatim>\<open>os.OpenFile(..., os.O_EXCL)\<close>.
\<close>

definition cleanup_object :: "env \<Rightarrow> string \<Rightarrow> err \<Rightarrow> file_info io" where
  "cleanup_object E path e = bindE (ignoreE (os_remove E path)) (\<lambda>_. raise e)"

definition write_object ::
  "env \<Rightarrow> local_store \<Rightarrow> bytes \<times> err option \<Rightarrow> string \<Rightarrow> string \<Rightarrow> string \<Rightarrow> file_info io" where
  "write_object E s src key clean_name path =
     (let (content, read_err) = limit_read src (int64_add (l_max_bytes s) 1) in
     handleE (os_io E (\<lambda>fs. Inr ((), fs(path \<mapsto> content))))
       (\<lambda>e. cleanup_object E path (Wrapped ''write object'' e)) (\<lambda>_.
     case read_err of Some e \<Rightarrow> cleanup_object E path (Wrapped ''write object'' e) | None \<Rightarrow>
     let written = int (length content) in
     if written > l_max_bytes s then cleanup_object E path ErrTooLarge else
     bindE (detect_file_mime E path) (\<lambda>detected.
     let content_type = normalize_mime E detected in
     if l_allowed_mimes s \<noteq> [] \<and> content_type \<notin> set (l_allowed_mimes s)
     then cleanup_object E path ErrInvalidMIME else
     handleE (os_io E (\<lambda>fs. Inr ((), fs)))
       (\<lambda>e. cleanup_object E path (Wrapped ''close object'' e)) (\<lambda>_.
     ret \<lparr>i_key = key, i_filename = clean_name, i_size = written,
          i_content_type = content_type, i_checksum = checksum_of E content\<rparr>))))"

definition object_key :: "string \<Rightarrow> string" where
  "object_key object_id = join_path (take 2 object_id) object_id"

definition save_object :: "env \<Rightarrow> local_store \<Rightarrow> bytes \<times> err option \<Rightarrow> string \<Rightarrow> file_info io" where
  "save_object E s src filename =
     bindE (liftE (sanitize_filename filename)) (\<lambda>clean_name.
     bindE (uuid_io E) (\<lambda>object_id.
     let key = object_key object_id in
     bindE (liftE (safe_path E s key)) (\<lambda>path.
     bindE (wrapE ''create object directory'' (os_io E (\<lambda>fs. Inr ((), fs)))) (\<lambda>_.
     bindE (wrapE ''create object'' (create_excl E path)) (\<lambda>_.
     write_object E s src key clean_name path)))))"

definition open_object :: "env \<Rightarrow> local_store \<Rightarrow> string \<Rightarrow> bytes io" where
  "open_object E s key =
     bindE (liftE (safe_path E s key)) (\<lambda>path.
     os_io E (\<lambda>fs. case fs path of None \<Rightarrow> Inl (OsError ''not exist'') | Some b \<Rightarrow> Inr (b, fs)))"

definition copy_object :: "env \<Rightarrow> local_store \<Rightarrow> string \<Rightarrow> string \<Rightarrow> file_info io" where
  "copy_object E s key filename =
     bindE (open_object E s key) (\<lambda>content. save_object E s (content, None) filename)"

text \<open>A missing object is no error.\<close>

definition delete_object :: "env \<Rightarrow> local_store \<Rightarrow> string \<Rightarrow> unit io" where
  "delete_object E s key =
     bindE (liftE (safe_path E s key)) (\<lambda>path.
     wrapE ''delete object''
       (os_io E (\<lambda>fs. Inr ((), fs(path := None)))))"

section \<open>Mounts\<close>

record mount_spec =
  ms_id :: string
  ms_name :: string
  ms_root :: string

record mount =
  m_id :: string
  m_name :: string
  m_store :: local_store

record mounts =
  by_id :: "string \<rightharpoonup> mount"
  order :: "mount list"

fun new_mounts_loop ::
  "env \<Rightarrow> int \<Rightarrow> string list \<Rightarrow> string list \<Rightarrow> mounts \<Rightarrow> mount_spec list \<Rightarrow> mounts io" where
  "new_mounts_loop E max_bytes allowed seen ms [] = ret ms"
| "new_mounts_loop E max_bytes allowed seen ms (spec # specs) =
     bindE (guardE (\<not> (trim_space (ms_id spec) = [] \<or> trim_space (ms_root spec) = []))
              (TextError ''storage mounts must have a name and a root path'')) (\<lambda>_.
     bindE (guardE (ms_id spec \<notin> set seen) (TextError ''duplicate storage mount id'')) (\<lambda>_.
     bindE (wrapE ''mount'' (new_local_store E (ms_root spec) max_bytes allowed)) (\<lambda>store.
     let m = \<lparr>m_id = ms_id spec, m_name = ms_name spec, m_store = store\<rparr> in
     new_mounts_loop E max_bytes allowed (ms_id spec # seen)
       \<lparr>by_id = (by_id ms)(ms_id spec \<mapsto> m), order = order ms @ [m]\<rparr> specs)))"

definition new_mounts :: "env \<Rightarrow> mount_spec list \<Rightarrow> int \<Rightarrow> string list \<Rightarrow> mounts io" where
  "new_mounts E specs max_bytes allowed =
     (if specs = [] then raise (TextError ''at least one storage mount is required'')
      else new_mounts_loop E max_bytes allowed [] \<lparr>by_id = Map.empty, order = []\<rparr> specs)"

text \<open>\<^verbatim>\<open>m.order[0]\<close> panics on an empty manager, which \<^verbatim>\<open>NewMounts\<close> never builds.\<close>

definition default_mount :: "mounts \<Rightarrow> err + mount" where
  "default_mount ms = (case order ms of [] \<Rightarrow> Inl (Panic ''index out of range'') | m # _ \<Rightarrow> Inr m)"

definition get_mount :: "mounts \<Rightarrow> string \<Rightarrow> err + mount" where
  "get_mount ms mount_id =
     (let lookup = (\<lambda>k. case by_id ms k of None \<Rightarrow> Inl ErrMountNotFound | Some m \<Rightarrow> Inr m)
      in if mount_id = [] then (case default_mount ms of Inl e \<Rightarrow> Inl e | Inr m \<Rightarrow> lookup (m_id m))
         else lookup mount_id)"

definition list_mounts :: "mounts \<Rightarrow> mount list" where
  "list_mounts ms = order ms"

section \<open>Storage paths\<close>

lemma canonical_hd:
  assumes "canonical k" "k \<noteq> []"
  shows "hd k \<noteq> []" "slash \<notin> set (hd k)" "hd k \<noteq> ''.''" "hd k \<noteq> ''..''"
  using assms by (simp_all add: canonical_def)

lemma canonical_join_head:
  assumes "canonical k" "k \<noteq> []"
  shows "join_with slash k \<noteq> []" "hd (join_with slash k) \<noteq> slash"
proof -
  note h = canonical_hd [OF assms]
  show "join_with slash k \<noteq> []" using assms(2) h(1) by (rule join_with_nonempty)
  have "hd (join_with slash k) = hd (hd k)" using assms(2) h(1) by (rule join_with_head)
  moreover have "hd (hd k) \<in> set (hd k)" using h(1) by simp
  ultimately show "hd (join_with slash k) \<noteq> slash" using h(2) by metis
qed

lemma join_path_key:
  assumes "canonical [a, b]"
  shows "join_path a b = a @ slash # b"
proof -
  have e: "a @ slash # b = join_with slash [a, b]" by simp
  have na: "\<not> is_abs (a @ slash # b)"
    unfolding e is_abs_def using canonical_join_head [OF assms] by simp
  have pe: "path_elems (a @ slash # b) = [a, b]"
    using path_elems_join [OF assms] by simp
  have nd: "''..'' \<notin> set [a, b]" and "a \<noteq> []" using assms by (auto simp: canonical_def)
  have "clean_path (a @ slash # b) = a @ slash # b"
    unfolding clean_path_def Let_def pe clean_elems_plain [OF nd] using na by simp
  with \<open>a \<noteq> []\<close> show ?thesis by (simp add: join_path_def)
qed

lemma safe_path_shape:
  assumes "safe_path E s key = Inr p" and cwd: "\<And>d. x_cwd E = Some d \<Longrightarrow> is_abs d"
  obtains r k where "canonical r" "canonical k" "r \<noteq> []" "k \<noteq> []"
    and "abs_path (x_cwd E) (l_root s) = Some (slash # join_with slash r)"
    and "clean_path key = join_with slash k"
    and "p = slash # join_with slash (r @ k)"
proof -
  let ?c = "clean_path key"
  from assms(1) obtain root where key: "\<not> is_abs key" and
    c: "?c \<noteq> ''.''" "?c \<noteq> ''..''" "\<not> has_prefix ?c ''../''" and
    root: "abs_path (x_cwd E) (l_root s) = Some root" and
    p: "abs_path (x_cwd E) (join_path root ?c) = Some p" and
    below: "p = root \<or> has_prefix p (root @ ''/'')"
    by (auto simp: safe_path_def Let_def split: if_splits option.splits)
  from root cwd obtain r where r: "canonical r" "root = slash # join_with slash r"
    by (rule abs_path_rooted)
  from key obtain n k where k: "canonical k" and
    ck: "?c = (if n = 0 \<and> k = [] then ''.'' else join_with slash (replicate n ''..'' @ k))"
    by (rule clean_path_relative)
  have "n = 0"
  proof (cases n)
    case (Suc m)
    then have "?c = join_with slash (''..'' # (replicate m ''..'' @ k))" using ck by simp
    then have "?c = ''..'' \<or> has_prefix ?c ''../''"
      by (cases "replicate m ''..'' @ k") (auto simp: has_prefix_def)
    with c show ?thesis by simp
  qed simp
  with ck c(1) have ck': "?c = join_with slash k" "k \<noteq> []" by (auto split: if_splits)
  have j: "join_path root ?c = slash # join_with slash (r @ k)"
    unfolding r(2) ck'(1) using r(1) k by (rule join_path_canonical)
  have "p = slash # join_with slash (r @ k)"
    using p unfolding j abs_path_def using clean_path_canonical [of "r @ k"] r(1) k by simp
  moreover have "r \<noteq> []"
  proof
    assume "r = []"
    with r(2) below \<open>p = _\<close> have "join_with slash k = [] \<or> has_prefix (join_with slash k) ''/''"
      by (auto simp: has_prefix_def)
    moreover note canonical_join_head [OF k ck'(2)]
    ultimately show False by (cases "join_with slash k") (auto simp: has_prefix_def)
  qed
  ultimately show thesis using that r k root ck' by blast
qed

lemma safe_path_total:
  assumes key: "key \<noteq> []" "\<not> is_abs key" "CHR 0x5C \<notin> set key"
    and k: "canonical k" "k \<noteq> []" "clean_path key = join_with slash k"
    and r: "canonical r" "r \<noteq> []" "abs_path (x_cwd E) (l_root s) = Some (slash # join_with slash r)"
  shows "safe_path E s key = Inr (slash # join_with slash (r @ k))"
proof -
  let ?c = "clean_path key"
  have elems: "path_elems ?c = k" using k path_elems_join by simp
  have "?c \<noteq> ''.''" using elems k(2) by (auto simp: path_elems_def)
  moreover have "?c \<noteq> ''..''"
  proof
    assume "?c = ''..''"
    then have "k = [''..'']" using elems by (simp add: path_elems_def)
    with k(1) show False by (simp add: canonical_def)
  qed
  moreover have "\<not> has_prefix ?c ''../''"
  proof
    assume "has_prefix ?c ''../''"
    then obtain t where "?c = ''../'' @ t"
      unfolding has_prefix_iff prefix_def by blast
    then have "?c = ''..'' @ slash # t" by simp
    then have "path_elems ?c = ''..'' # path_elems t"
      by (simp only: path_elems_append) (simp add: path_elems_def)
    then have "''..'' \<in> set k" using elems by simp
    with k(1) show False unfolding canonical_def by blast
  qed
  moreover have j: "join_path (slash # join_with slash r) ?c = slash # join_with slash (r @ k)"
    unfolding k(3) using r(1) k(1) by (rule join_path_canonical)
  moreover have "abs_path (x_cwd E) (slash # join_with slash (r @ k)) = Some (slash # join_with slash (r @ k))"
    using clean_path_canonical [of "r @ k"] r(1) k(1) by (simp add: abs_path_def)
  moreover have "has_prefix (slash # join_with slash (r @ k)) ((slash # join_with slash r) @ ''/'')"
    using r(2) k(2) by (simp add: join_with_append has_prefix_def)
  moreover have "\<not> contains_any key [CHR 0x5C]" using key(3) by (simp add: contains_any_iff)
  ultimately show ?thesis using key r(3) by (simp add: safe_path_def Let_def)
qed

definition uuid_text :: "string \<Rightarrow> bool" where
  "uuid_text u \<longleftrightarrow> length u = 36 \<and>
     list_all (\<lambda>c. c \<in> set ''0123456789abcdef-'') u"

lemma uuid_text_canonical:
  assumes "uuid_text u"
  shows "canonical [take 2 u, u]" "CHR 0x5C \<notin> set u"
proof -
  have c: "c \<in> set ''0123456789abcdef-''" if "c \<in> set u" for c
    using assms that by (auto simp: uuid_text_def list_all_iff)
  have no: "slash \<notin> set u" "CHR ''.'' \<notin> set u" and bs: "CHR 0x5C \<notin> set u"
    using c [of slash] c [of "CHR ''.''"] c [of "CHR 0x5C"] by auto
  have len: "length u = 36" using assms by (simp add: uuid_text_def)
  have "slash \<notin> set (take 2 u)" "CHR ''.'' \<notin> set (take 2 u)"
    using no by (meson in_set_takeD)+
  with no len show "canonical [take 2 u, u]" by (auto simp: canonical_def)
  show "CHR 0x5C \<notin> set u" by (rule bs)
qed

lemma object_key_eq:
  assumes "uuid_text u"
  shows "object_key u = take 2 u @ slash # u"
  unfolding object_key_def using uuid_text_canonical(1) [OF assms] by (rule join_path_key)

lemma object_key_inj: "uuid_text u \<Longrightarrow> uuid_text v \<Longrightarrow> object_key u = object_key v \<Longrightarrow> u = v"
  by (auto simp: object_key_eq uuid_text_def append_eq_append_conv)

lemma safe_path_object_key:
  assumes u: "uuid_text u"
    and r: "canonical r" "r \<noteq> []" "abs_path (x_cwd E) (l_root s) = Some (slash # join_with slash r)"
  shows "safe_path E s (object_key u) = Inr (slash # join_with slash (r @ [take 2 u, u]))"
proof (rule safe_path_total)
  note c = uuid_text_canonical [OF u]
  note ke = object_key_eq [OF u]
  have e: "object_key u = join_with slash [take 2 u, u]" using ke by simp
  show "object_key u \<noteq> []" using ke by simp
  show na: "\<not> is_abs (object_key u)"
    unfolding e is_abs_def using canonical_join_head [OF c(1)] by simp
  show "CHR 0x5C \<notin> set (object_key u)"
    using c(2) ke by (auto dest: in_set_takeD)
  show "canonical [take 2 u, u]" by (rule c(1))
  have nd: "''..'' \<notin> set [take 2 u, u]" using c(1) by (auto simp: canonical_def)
  have "path_elems (object_key u) = [take 2 u, u]" unfolding e by (rule path_elems_join [OF c(1)])
  then show "clean_path (object_key u) = join_with slash [take 2 u, u]"
    unfolding clean_path_def Let_def using na clean_elems_plain [OF nd] by simp
qed (use r in simp_all)


section \<open>Facts on file names\<close>

lemma safe_char_ascii: "safe_char c \<Longrightarrow> c < CHR 0x80"
  by (auto simp: safe_char_def less_char_def less_eq_char_def)

lemma safe_char_not_slash: "safe_char c \<Longrightarrow> c \<noteq> slash"
  by (auto simp: safe_char_def less_char_def less_eq_char_def)

lemma sanitize_filename_Inr:
  assumes "sanitize_filename f = Inr g"
  shows "g \<noteq> []" "g \<noteq> ''.''" "g \<noteq> ''..''" "length g \<le> 255" "\<forall>c\<in>set g. safe_char c"
    and "trim_space g = g"
proof -
  let ?s = "strip_unsafe (trim_space (base_name f))"
  have g: "g = trim_space ?s" and ok: "\<not> (g = [] \<or> g = ''.'' \<or> g = ''..'' \<or> length g > 255)"
    using assms by (auto simp: sanitize_filename_def Let_def split: if_splits)
  then show "g \<noteq> []" "g \<noteq> ''.''" "g \<noteq> ''..''" "length g \<le> 255" by auto
  have safe: "\<forall>c\<in>set ?s. safe_char c" by (auto simp: strip_unsafe_def)
  then show "\<forall>c\<in>set g. safe_char c" using g set_trim_space by blast
  from safe have "ascii ?s" by (auto simp: ascii_def intro: safe_char_ascii)
  then show "trim_space g = g" unfolding g by (rule trim_space_idem_ascii)
qed

lemma sanitize_filename_fixed:
  assumes "g \<noteq> []" "g \<noteq> ''.''" "g \<noteq> ''..''" "length g \<le> 255" "\<forall>c\<in>set g. safe_char c"
    and "trim_space g = g"
  shows "sanitize_filename g = Inr g"
proof -
  have "slash \<notin> set g" using assms(5) safe_char_not_slash by blast
  with assms(1) have "base_name g = g" by (rule base_name_no_slash)
  moreover have "strip_unsafe g = g" using assms(5) by (simp add: strip_unsafe_def)
  ultimately show ?thesis using assms by (simp add: sanitize_filename_def)
qed

section \<open>Facts on the object operations\<close>

lemma limit_read_fits:
  assumes "limit_read src (int64_add n 1) = (c, None)" "int (length c) \<le> n" "0 < n" "n < max_int64"
  shows "src = (c, None)"
proof -
  have "int64_add n 1 = n + 1" using assms(3,4) by (simp add: int64_add_def max_int64_def)
  with assms show ?thesis
    by (cases src) (auto simp: limit_read_def split: if_splits)
qed

lemma limit_read_length: "0 \<le> n \<Longrightarrow> int (length (fst (limit_read src n))) \<le> n"
  by (auto simp: limit_read_def)

lemma detect_file_mime_eq:
  obtains t w1 where "detect_file_mime E p w = (Inr t, w1)"
    "w_fs w1 = w_fs w" "w_db w1 = w_db w" "w_uuid w1 = w_uuid w"
proof -
  have "\<exists>t w1. detect_file_mime E p w = (Inr t, w1) \<and> w_fs w1 = w_fs w \<and> w_db w1 = w_db w
      \<and> w_uuid w1 = w_uuid w"
    unfolding detect_file_mime_def
    by (auto simp: handleE_def bindE_def os_io_def Let_def ret_def split: option.splits)
  then show thesis using that by blast
qed

lemma uuid_io_eq [simp]: "uuid_io E w = (Inr (x_uuid E (w_uuid w)), w\<lparr>w_uuid := Suc (w_uuid w)\<rparr>)"
  by (simp add: uuid_io_def)

lemma cleanup_object_eq [simp]:
  "cleanup_object E path e w = (Inl e, snd (os_remove E path w))"
  by (simp add: cleanup_object_def bindE_def)

definition left_over :: "env \<Rightarrow> string \<Rightarrow> (string \<rightharpoonup> bytes) \<Rightarrow> world \<Rightarrow> world \<Rightarrow> bool" where
  "left_over E path fs w w1 \<longleftrightarrow> w_db w1 = w_db w \<and> w_uuid w1 = w_uuid w \<and> (w_fs w1 = fs \<or>
     (\<exists>c n. w_fs w1 = fs(path \<mapsto> c) \<and> x_os_fault E n \<noteq> None))"

lemma left_over_cleanup:
  assumes "w_fs v = fs(path \<mapsto> c)" "fs path = None" "w_db v = w_db w" "w_uuid v = w_uuid w"
  shows "left_over E path fs w (snd (os_remove E path v))"
proof (cases "x_os_fault E (w_os v)")
  case None
  with assms show ?thesis by (auto simp: left_over_def os_remove_def os_io_def Let_def)
next
  case (Some m)
  then have "x_os_fault E (w_os v) \<noteq> None" by simp
  with Some assms show ?thesis unfolding left_over_def
    by (intro conjI disjI2 exI [of _ c] exI [of _ "w_os v"]) (simp_all add: os_remove_def os_io_def Let_def)
qed

text \<open>The last step of writing an object, closing the file, from the moment every check is passed.\<close>

lemma close_cases:
  fixes info :: file_info
  assumes fs: "w_fs w = fs(path \<mapsto> c)" "fs path = None"
  shows "(\<exists>w1. handleE (os_io E (\<lambda>fs. Inr ((), fs))) (\<lambda>e. cleanup_object E path (Wrapped ''close object'' e)) (\<lambda>_. ret info) w = (Inr info, w1) \<and>
            w_fs w1 = fs(path \<mapsto> c) \<and> w_db w1 = w_db w \<and> w_uuid w1 = w_uuid w)
       \<or> (\<exists>e w1. handleE (os_io E (\<lambda>fs. Inr ((), fs))) (\<lambda>e. cleanup_object E path (Wrapped ''close object'' e)) (\<lambda>_. ret info) w = (Inl e, w1) \<and>
            left_over E path fs w w1 \<and> (\<exists>n. x_os_fault E n \<noteq> None))"
proof (cases "x_os_fault E (w_os w)")
  case (Some m)
  have "left_over E path fs w (snd (os_remove E path (w\<lparr>w_os := Suc (w_os w)\<rparr>)))"
    by (rule left_over_cleanup) (use fs in simp_all)
  moreover have "\<exists>n. x_os_fault E n \<noteq> None" using Some by (intro exI [of _ "w_os w"]) simp
  moreover have "handleE (os_io E (\<lambda>fs. Inr ((), fs))) (\<lambda>e. cleanup_object E path (Wrapped ''close object'' e)) (\<lambda>_. ret info) w =
      (Inl (Wrapped ''close object'' (OsError m)), snd (os_remove E path (w\<lparr>w_os := Suc (w_os w)\<rparr>)))"
    using Some by (simp add: handleE_def os_io_def)
  ultimately show ?thesis by (intro disjI2) simp
next
  case None
  then have "handleE (os_io E (\<lambda>fs. Inr ((), fs))) (\<lambda>e. cleanup_object E path (Wrapped ''close object'' e)) (\<lambda>_. ret info) w =
      (Inr info, w\<lparr>w_os := Suc (w_os w)\<rparr>)" by (simp add: handleE_def os_io_def)
  with fs show ?thesis by (intro disjI1) simp
qed

lemma write_object_cases:
  assumes fs: "w_fs w = fs(path \<mapsto> c0)" "fs path = None"
    and lr: "limit_read src (int64_add (l_max_bytes s) 1) = (c, re)"
  shows "(\<exists>i w1. write_object E s src key name path w = (Inr i, w1) \<and>
            re = None \<and> int (length c) \<le> l_max_bytes s \<and>
            (l_allowed_mimes s = [] \<or> i_content_type i \<in> set (l_allowed_mimes s)) \<and>
            i_key i = key \<and> i_filename i = name \<and> i_size i = int (length c) \<and>
            i_checksum i = checksum_of E c \<and>
            w_fs w1 = fs(path \<mapsto> c) \<and> w_db w1 = w_db w \<and> w_uuid w1 = w_uuid w)
       \<or> (\<exists>e w1. write_object E s src key name path w = (Inl e, w1) \<and> left_over E path fs w w1 \<and>
            (re = None \<and> int (length c) \<le> l_max_bytes s \<and> l_allowed_mimes s = [] \<longrightarrow>
               (\<exists>n. x_os_fault E n \<noteq> None)) \<and>
            (re = None \<and> int (length c) > l_max_bytes s \<longrightarrow> e = ErrTooLarge \<or> (\<exists>n. x_os_fault E n \<noteq> None)) \<and>
            (\<forall>e'. re = Some e' \<longrightarrow> e = Wrapped ''write object'' e' \<or> (\<exists>n. x_os_fault E n \<noteq> None)))"
proof (cases "x_os_fault E (w_os w)")
  case (Some m)
  have "left_over E path fs w (snd (os_remove E path (w\<lparr>w_os := Suc (w_os w)\<rparr>)))"
    by (rule left_over_cleanup) (use fs in simp_all)
  with Some show ?thesis
    by (auto simp: write_object_def lr handleE_def os_io_def)
next
  case None
  let ?w1 = "w\<lparr>w_os := Suc (w_os w), w_fs := fs(path \<mapsto> c)\<rparr>"
  have w1: "os_io E (\<lambda>fs. Inr ((), fs(path \<mapsto> c))) w = (Inr (), ?w1)"
    using None fs by (simp add: os_io_def)
  have lo: "left_over E path fs w (snd (os_remove E path v))"
    if "w_fs v = w_fs ?w1" "w_db v = w_db ?w1" "w_uuid v = w_uuid ?w1" for v
    by (rule left_over_cleanup) (use that fs in simp_all)
  show ?thesis
  proof (cases "re \<noteq> None \<or> int (length c) > l_max_bytes s")
    case True
    then show ?thesis using lo [of ?w1]
      by (auto simp: write_object_def lr handleE_def w1 split: option.splits)
  next
    case False
    obtain t w2 where t: "detect_file_mime E path ?w1 = (Inr t, w2)"
      and w2: "w_fs w2 = w_fs ?w1" "w_db w2 = w_db ?w1" "w_uuid w2 = w_uuid ?w1"
      by (rule detect_file_mime_eq [of E path ?w1])
    show ?thesis
    proof (cases "l_allowed_mimes s \<noteq> [] \<and> normalize_mime E t \<notin> set (l_allowed_mimes s)")
      case True
      with False have "write_object E s src key name path w = (Inl ErrInvalidMIME, snd (os_remove E path w2))"
        by (simp add: write_object_def lr handleE_def w1 bindE_def t)
      moreover have "l_allowed_mimes s \<noteq> []" "re = None" "\<not> int (length c) > l_max_bytes s"
        using True False by auto
      ultimately show ?thesis using lo [OF w2] by (intro disjI2) simp
    next
      case False2: False
      let ?info = "\<lparr>i_key = key, i_filename = name, i_size = int (length c), i_content_type = normalize_mime E t, i_checksum = checksum_of E c\<rparr>"
      have run: "write_object E s src key name path w =
          handleE (os_io E (\<lambda>fs. Inr ((), fs))) (\<lambda>e. cleanup_object E path (Wrapped ''close object'' e)) (\<lambda>_. ret ?info) w2"
        using False by (simp add: write_object_def lr handleE_def w1 bindE_def t Let_def if_not_P [OF False2])
      have fs2: "w_fs w2 = fs(path \<mapsto> c)" using w2(1) by simp
      have lo2: "left_over E path fs w2 v \<Longrightarrow> left_over E path fs w v" for v using w2 by (simp add: left_over_def)
      from close_cases [OF fs2 fs(2), of E ?info] show ?thesis
      proof (elim disjE exE conjE)
        fix v assume "handleE (os_io E (\<lambda>fs. Inr ((), fs))) (\<lambda>e. cleanup_object E path (Wrapped ''close object'' e)) (\<lambda>_. ret ?info) w2 = (Inr ?info, v)"
          "w_fs v = fs(path \<mapsto> c)" "w_db v = w_db w2" "w_uuid v = w_uuid w2"
        with False False2 w2 run show ?thesis by (intro disjI1) auto
      next
        fix e v n assume "handleE (os_io E (\<lambda>fs. Inr ((), fs))) (\<lambda>e. cleanup_object E path (Wrapped ''close object'' e)) (\<lambda>_. ret ?info) w2 = (Inl e, v)"
          "left_over E path fs w2 v" "x_os_fault E n \<noteq> None"
        with run lo2 show ?thesis by (intro disjI2) auto
      qed
    qed
  qed
qed

lemma save_object_Inr:
  assumes "save_object E s src filename w = (Inr i, w1)"
  obtains path name c where "sanitize_filename filename = Inr name"
    "i_key i = object_key (x_uuid E (w_uuid w))"
    "safe_path E s (i_key i) = Inr path" "w_fs w path = None"
    "limit_read src (int64_add (l_max_bytes s) 1) = (c, None)"
    "w_fs w1 = (w_fs w)(path \<mapsto> c)" "w_db w1 = w_db w" "w_uuid w1 = Suc (w_uuid w)"
    "i_filename i = name" "i_size i = int (length c)" "int (length c) \<le> l_max_bytes s"
    "i_checksum i = checksum_of E c"
    "l_allowed_mimes s = [] \<or> i_content_type i \<in> set (l_allowed_mimes s)"
proof -
  obtain c re where lr: "limit_read src (int64_add (l_max_bytes s) 1) = (c, re)" by fastforce
  let ?key = "object_key (x_uuid E (w_uuid w))"
  let ?v = "\<lambda>path. w\<lparr>w_uuid := Suc (w_uuid w), w_os := Suc (Suc (w_os w)), w_fs := (w_fs w)(path \<mapsto> [])\<rparr>"
  from assms obtain name path where v: "sanitize_filename filename = Inr name"
    "safe_path E s ?key = Inr path" "w_fs w path = None"
    and wr: "write_object E s src ?key name path (?v path) = (Inr i, w1)"
    by (auto simp: save_object_def bindE_eq_Inr Let_def os_io_Inr create_excl_def split: option.splits)
  have vf: "w_fs (?v path) = (w_fs w)(path \<mapsto> [])" by simp
  have "re = None \<and> int (length c) \<le> l_max_bytes s \<and>
      (l_allowed_mimes s = [] \<or> i_content_type i \<in> set (l_allowed_mimes s)) \<and>
      i_key i = ?key \<and> i_filename i = name \<and> i_size i = int (length c) \<and> i_checksum i = checksum_of E c \<and>
      w_fs w1 = (w_fs w)(path \<mapsto> c) \<and> w_db w1 = w_db w \<and> w_uuid w1 = Suc (w_uuid w)"
    using write_object_cases [OF vf v(3) lr, of E ?key name] wr by auto
  with v lr show thesis by (intro that [of name path c]) auto
qed

lemma save_object_Inl:
  assumes "save_object E s src filename w = (Inl e, w1)"
  shows "w_db w1 = w_db w"
    and "w_fs w1 = w_fs w \<or> (\<exists>path c n. w_fs w path = None \<and>
            safe_path E s (object_key (x_uuid E (w_uuid w))) = Inr path \<and>
            w_fs w1 = (w_fs w)(path \<mapsto> c) \<and> x_os_fault E n \<noteq> None)"
proof -
  let ?key = "object_key (x_uuid E (w_uuid w))"
  have "w_db w1 = w_db w \<and> w_fs w1 = w_fs w \<or>
    (\<exists>name path v. safe_path E s ?key = Inr path \<and> w_fs w path = None \<and>
       v = w\<lparr>w_uuid := Suc (w_uuid w), w_os := Suc (Suc (w_os w)), w_fs := (w_fs w)(path \<mapsto> [])\<rparr> \<and>
       write_object E s src ?key name path v = (Inl e, w1))"
    using assms
    by (auto simp: save_object_def bindE_eq_Inl wrapE_Inl Let_def os_io_Inr create_excl_def
        split: option.splits dest: os_io_Inl)
  moreover have "w_db w1 = w_db w \<and> (w_fs w1 = w_fs w \<or> (\<exists>c n. w_fs w1 = (w_fs w)(path \<mapsto> c) \<and> x_os_fault E n \<noteq> None))"
    if v: "v = w\<lparr>w_uuid := Suc (w_uuid w), w_os := Suc (Suc (w_os w)), w_fs := (w_fs w)(path \<mapsto> [])\<rparr>"
      and p: "w_fs w path = None"
      and wr: "write_object E s src ?key name path v = (Inl e, w1)" for name path v
  proof -
    have vf: "w_fs v = (w_fs w)(path \<mapsto> [])" using v by simp
    obtain c re where lr: "limit_read src (int64_add (l_max_bytes s) 1) = (c, re)" by fastforce
    from write_object_cases [OF vf p lr, of E ?key name] wr
    have "left_over E path (w_fs w) v w1" by auto
    with v show ?thesis by (auto simp: left_over_def)
  qed
  ultimately show "w_db w1 = w_db w"
    and "w_fs w1 = w_fs w \<or> (\<exists>path c n. w_fs w path = None \<and>
            safe_path E s (object_key (x_uuid E (w_uuid w))) = Inr path \<and>
            w_fs w1 = (w_fs w)(path \<mapsto> c) \<and> x_os_fault E n \<noteq> None)"
    by blast+
qed

lemma open_object_Inr:
  assumes "open_object E s key w = (Inr b, w1)"
  shows "\<exists>path. safe_path E s key = Inr path \<and> w_fs w path = Some b" "w_fs w1 = w_fs w" "w_db w1 = w_db w"
  using assms
  by (auto simp: open_object_def bindE_eq_Inr os_io_Inr split: option.splits)

lemma open_object_keeps: "keeps same_fs (open_object E s key)" "keeps same_db (open_object E s key)"
  unfolding open_object_def
  by (auto simp: keeps_def bindE_def os_io_def liftE_def same_fs_def same_db_def Let_def split: option.splits sum.splits)

lemma delete_object_Inr:
  assumes "delete_object E s key w = (Inr b, w1)"
  shows "\<exists>path. safe_path E s key = Inr path \<and> w_fs w1 = (w_fs w)(path := None) \<and> w_db w1 = w_db w"
  using assms by (auto simp: delete_object_def bindE_eq_Inr os_io_Inr)

lemma delete_object_Inl:
  assumes "delete_object E s key w = (Inl e, w1)"
  shows "w_fs w1 = w_fs w" "w_db w1 = w_db w"
  using assms by (auto simp: delete_object_def bindE_eq_Inl wrapE_Inl dest: os_io_Inl)

section \<open>The object store interface\<close>

text \<open>
  What the file service relies on: a saved object is new, holds the bytes read and
  carries their size and checksum; a failed save changes no existing object; opening
  reads; deleting removes one path. No operation touches the database.
\<close>

locale object_store =
  fixes locate :: "string \<Rightarrow> err + string"
    and checksum :: "bytes \<Rightarrow> string"
    and max_bytes :: int
    and save :: "bytes \<times> err option \<Rightarrow> string \<Rightarrow> file_info io"
    and fetch :: "string \<Rightarrow> bytes io"
    and delete :: "string \<Rightarrow> unit io"
  assumes save_Inr: "save src f w = (Inr i, w1) \<Longrightarrow>
      \<exists>p c. locate (i_key i) = Inr p \<and> w_fs w p = None \<and> w_fs w1 = (w_fs w)(p \<mapsto> c) \<and> w_db w1 = w_db w \<and>
            limit_read src (int64_add max_bytes 1) = (c, None) \<and> int (length c) \<le> max_bytes \<and>
            i_size i = int (length c) \<and> i_checksum i = checksum c \<and> sanitize_filename f = Inr (i_filename i)"
    and save_Inl: "save src f w = (Inl e, w1) \<Longrightarrow> w_db w1 = w_db w \<and> w_fs w \<subseteq>\<^sub>m w_fs w1"
    and fetch_Inr: "fetch k w = (Inr b, w1) \<Longrightarrow> \<exists>p. locate k = Inr p \<and> w_fs w p = Some b"
    and fetch_frame: "w_fs (snd (fetch k w)) = w_fs w \<and> w_db (snd (fetch k w)) = w_db w"
    and delete_Inr: "delete k w = (Inr u, w1) \<Longrightarrow>
      \<exists>p. locate k = Inr p \<and> w_fs w1 = (w_fs w)(p := None) \<and> w_db w1 = w_db w"
    and delete_Inl: "delete k w = (Inl e, w1) \<Longrightarrow> w_fs w1 = w_fs w \<and> w_db w1 = w_db w"
begin

text \<open>The content an object key gives in a world.\<close>

definition content :: "world \<Rightarrow> string \<Rightarrow> bytes option" where
  "content w k = (case locate k of Inl _ \<Rightarrow> None | Inr p \<Rightarrow> w_fs w p)"

lemma save_extends: "save src f w = (r, w1) \<Longrightarrow> w_fs w \<subseteq>\<^sub>m w_fs w1 \<and> w_db w1 = w_db w"
proof (cases r)
  case (Inl e)
  assume "save src f w = (r, w1)"
  with Inl save_Inl show ?thesis by blast
next
  case (Inr i)
  assume "save src f w = (r, w1)"
  with Inr save_Inr obtain p c where "w_fs w p = None" "w_fs w1 = (w_fs w)(p \<mapsto> c)" "w_db w1 = w_db w"
    by blast
  then show ?thesis by (simp add: map_le_def) (auto simp: domIff)
qed

lemma save_content:
  assumes "save src f w = (Inr i, w1)"
  shows "\<exists>c. content w1 (i_key i) = Some c \<and> content w (i_key i) = None
           \<and> limit_read src (int64_add max_bytes 1) = (c, None)
           \<and> i_size i = int (length c) \<and> i_checksum i = checksum c"
  using save_Inr [OF assms] by (auto simp: content_def)

text \<open>The round trip: what was saved is what is fetched.\<close>

lemma fetch_after_save:
  assumes "save (c, None) f w = (Inr i, w1)" "0 < max_bytes" "max_bytes < max_int64"
    and "fetch (i_key i) w1 = (Inr b, w2)"
  shows "b = c"
proof -
  obtain p d where "locate (i_key i) = Inr p" "w_fs w1 = (w_fs w)(p \<mapsto> d)"
    and lr: "limit_read (c, None) (int64_add max_bytes 1) = (d, None)" "int (length d) \<le> max_bytes"
    using save_Inr [OF assms(1)] by blast
  moreover have "(c, None) = (d, None :: err option)" using lr assms(2,3) by (rule limit_read_fits)
  ultimately show ?thesis using fetch_Inr [OF assms(4)] by auto
qed

lemma content_mono: "w_fs w \<subseteq>\<^sub>m w_fs w1 \<Longrightarrow> content w k = Some b \<Longrightarrow> content w1 k = Some b"
  by (auto simp: content_def map_le_def split: sum.splits) (metis domI)

lemma content_save: "save src f w = (r, w1) \<Longrightarrow> content w k = Some b \<Longrightarrow> content w1 k = Some b"
  using save_extends content_mono by blast

lemma content_delete_other:
  assumes "delete k w = (r, w1)" "locate j \<noteq> locate k"
  shows "content w1 j = content w j"
proof (cases r)
  case (Inl e)
  with assms(1) delete_Inl show ?thesis by (auto simp: content_def split: sum.splits)
next
  case (Inr u)
  with assms delete_Inr obtain p where "locate k = Inr p" "w_fs w1 = (w_fs w)(p := None)" by blast
  with assms(2) show ?thesis by (auto simp: content_def split: sum.splits)
qed

lemma delete_db: "w_db (snd (delete k w)) = w_db w"
  using delete_Inr delete_Inl by (cases "delete k w"; cases "fst (delete k w)") fastforce+

lemma delete_fs_le: "w_fs (snd (delete k w)) \<subseteq>\<^sub>m w_fs w"
proof (cases "delete k w")
  case (Pair r w1)
  then show ?thesis
    by (cases r) (use delete_Inr delete_Inl in \<open>fastforce simp: map_le_def\<close>)+
qed

end

interpretation ls: object_store "safe_path E s" "checksum_of E" "l_max_bytes s"
    "save_object E s" "open_object E s" "delete_object E s" for E s
proof
  fix src f w i w1
  assume a: "save_object E s src f w = (Inr i, w1)"
  show "\<exists>p c. safe_path E s (i_key i) = Inr p \<and> w_fs w p = None \<and> w_fs w1 = (w_fs w)(p \<mapsto> c) \<and> w_db w1 = w_db w \<and>
      limit_read src (int64_add (l_max_bytes s) 1) = (c, None) \<and> int (length c) \<le> l_max_bytes s \<and>
      i_size i = int (length c) \<and> i_checksum i = checksum_of E c \<and> sanitize_filename f = Inr (i_filename i)"
    by (rule save_object_Inr [OF a]) auto
next
  fix src f w e w1
  assume a: "save_object E s src f w = (Inl e, w1)"
  then show "w_db w1 = w_db w \<and> w_fs w \<subseteq>\<^sub>m w_fs w1"
    using save_object_Inl [OF a] by (auto simp: map_le_def domIff)
next
  show "w_fs (snd (open_object E s k w)) = w_fs w \<and> w_db (snd (open_object E s k w)) = w_db w" for k w
    using open_object_keeps [of E s k] by (simp add: keeps_def same_fs_def same_db_def)
qed (use open_object_Inr delete_object_Inr delete_object_Inl in fastforce)+

section \<open>The mount manager\<close>

definition mounts_ok :: "mounts \<Rightarrow> bool" where
  "mounts_ok ms \<longleftrightarrow> order ms \<noteq> [] \<and> distinct (map m_id (order ms)) \<and>
     by_id ms = map_of (map (\<lambda>m. (m_id m, m)) (order ms))"

lemma new_local_store_Inr:
  assumes "new_local_store E root n allowed w = (Inr s, w1)"
  shows "l_root s = root" "l_max_bytes s = n" "w_db w1 = w_db w" "w_fs w1 = w_fs w" "0 < n"
  using assms by (auto simp: new_local_store_def bindE_eq_Inr os_io_Inr split: if_splits)

lemma map_of_append_new:
  "k \<notin> fst ` set xs \<Longrightarrow> map_of (xs @ [(k, v)]) = (map_of xs)(k \<mapsto> v)"
  by (induction xs) (auto simp: fun_eq_iff)

lemma new_mounts_loop_Inr:
  assumes "new_mounts_loop E n allowed seen ms specs w = (Inr ms1, w1)"
    and "distinct (map m_id (order ms))" "set seen = m_id ` set (order ms)"
    and "by_id ms = map_of (map (\<lambda>m. (m_id m, m)) (order ms))"
  shows "distinct (map m_id (order ms1)) \<and>
    by_id ms1 = map_of (map (\<lambda>m. (m_id m, m)) (order ms1)) \<and>
    (\<exists>added. order ms1 = order ms @ added \<and>
       map (\<lambda>m. (m_id m, m_name m, l_root (m_store m), l_max_bytes (m_store m))) added =
       map (\<lambda>x. (ms_id x, ms_name x, ms_root x, n)) specs) \<and> w_db w1 = w_db w \<and> w_fs w1 = w_fs w"
  using assms
proof (induction specs arbitrary: seen ms w)
  case Nil
  then show ?case by simp
next
  case (Cons spec specs)
  from Cons.prems(1) obtain store v where
    new: "ms_id spec \<notin> set seen" and
    st: "new_local_store E (ms_root spec) n allowed w = (Inr store, v)" and
    rest: "new_mounts_loop E n allowed (ms_id spec # seen)
       \<lparr>by_id = (by_id ms)(ms_id spec \<mapsto> \<lparr>m_id = ms_id spec, m_name = ms_name spec, m_store = store\<rparr>),
        order = order ms @ [\<lparr>m_id = ms_id spec, m_name = ms_name spec, m_store = store\<rparr>]\<rparr> specs v
       = (Inr ms1, w1)"
    by (auto simp: bindE_eq_Inr Let_def split: if_splits)
  note s = new_local_store_Inr [OF st]
  have "ms_id spec \<notin> fst ` set (map (\<lambda>m. (m_id m, m)) (order ms))"
    using new Cons.prems(3) by auto
  then have b: "(by_id ms)(ms_id spec \<mapsto> m) = map_of (map (\<lambda>m. (m_id m, m)) (order ms @ [m]))"
    if "m_id m = ms_id spec" for m
    using map_of_append_new [of "ms_id spec" "map (\<lambda>m. (m_id m, m)) (order ms)" m] Cons.prems(4) that
    by (simp del: map_of_append)
  have "distinct (map m_id (order ms1)) \<and> by_id ms1 = map_of (map (\<lambda>m. (m_id m, m)) (order ms1)) \<and>
    (\<exists>added. order ms1 = (order ms @ [\<lparr>m_id = ms_id spec, m_name = ms_name spec, m_store = store\<rparr>]) @ added \<and>
       map (\<lambda>m. (m_id m, m_name m, l_root (m_store m), l_max_bytes (m_store m))) added =
       map (\<lambda>x. (ms_id x, ms_name x, ms_root x, n)) specs) \<and> w_db w1 = w_db v \<and> w_fs w1 = w_fs v"
    using Cons.IH [OF rest] Cons.prems(2,3) new b by (simp add: image_Un)
  then obtain added where "distinct (map m_id (order ms1))"
    "by_id ms1 = map_of (map (\<lambda>m. (m_id m, m)) (order ms1))" "w_db w1 = w_db v" "w_fs w1 = w_fs v"
    "order ms1 = order ms @ (\<lparr>m_id = ms_id spec, m_name = ms_name spec, m_store = store\<rparr> # added)"
    "map (\<lambda>m. (m_id m, m_name m, l_root (m_store m), l_max_bytes (m_store m))) added =
       map (\<lambda>x. (ms_id x, ms_name x, ms_root x, n)) specs"
    by auto
  with s show ?case
    by (intro conjI exI [of _ "\<lparr>m_id = ms_id spec, m_name = ms_name spec, m_store = store\<rparr> # added"]) simp_all
qed

lemma new_mounts_Inr:
  assumes "new_mounts E specs n allowed w = (Inr ms, w1)"
  shows "mounts_ok ms"
    "map (\<lambda>m. (m_id m, m_name m, l_root (m_store m), l_max_bytes (m_store m))) (order ms) =
     map (\<lambda>x. (ms_id x, ms_name x, ms_root x, n)) specs"
    "specs \<noteq> []" "w_db w1 = w_db w" "w_fs w1 = w_fs w"
proof -
  from assms have ne: "specs \<noteq> []" and
    l: "new_mounts_loop E n allowed [] \<lparr>by_id = Map.empty, order = []\<rparr> specs w = (Inr ms, w1)"
    by (auto simp: new_mounts_def split: if_splits)
  note f = new_mounts_loop_Inr [OF l]
  from f ne show "mounts_ok ms"
    "map (\<lambda>m. (m_id m, m_name m, l_root (m_store m), l_max_bytes (m_store m))) (order ms) =
     map (\<lambda>x. (ms_id x, ms_name x, ms_root x, n)) specs"
    "specs \<noteq> []" "w_db w1 = w_db w" "w_fs w1 = w_fs w"
    by (auto simp: mounts_ok_def)
qed

lemma by_id_order:
  assumes "mounts_ok ms"
  shows "by_id ms k = Some m \<longleftrightarrow> m \<in> set (order ms) \<and> m_id m = k"
proof -
  have "distinct (map fst (map (\<lambda>m. (m_id m, m)) (order ms)))"
    using assms by (simp add: mounts_ok_def comp_def)
  then show ?thesis using assms
    by (auto simp: mounts_ok_def dest: map_of_SomeD)
qed

lemma get_mount_eq:
  assumes "mounts_ok ms"
  shows "get_mount ms k = (case by_id ms (if k = [] then m_id (hd (order ms)) else k) of
           None \<Rightarrow> Inl ErrMountNotFound | Some m \<Rightarrow> Inr m)"
  using assms by (cases "order ms") (auto simp: mounts_ok_def get_mount_def default_mount_def Let_def)

lemma get_mount_Inr:
  assumes "mounts_ok ms"
  shows "get_mount ms k = Inr m \<longleftrightarrow>
    m \<in> set (order ms) \<and> m_id m = (if k = [] then m_id (hd (order ms)) else k)"
  unfolding get_mount_eq [OF assms] by_id_order [OF assms, symmetric]
  by (auto split: option.splits)

lemma get_mount_Inl:
  assumes "mounts_ok ms" "get_mount ms k = Inl e"
  shows "e = ErrMountNotFound"
  using assms(2) unfolding get_mount_eq [OF assms(1)] by (auto split: option.splits)

lemma save_object_calm:
  assumes calm: "\<And>n. x_os_fault E n = None"
    and name: "sanitize_filename filename = Inr name"
    and path: "safe_path E s (object_key (x_uuid E (w_uuid w))) = Inr path" "w_fs w path = None"
    and lr: "limit_read src (int64_add (l_max_bytes s) 1) = (c, re)"
    and mimes: "l_allowed_mimes s = []"
  shows "(case re of
       Some e \<Rightarrow> \<exists>w1. save_object E s src filename w = (Inl (Wrapped ''write object'' e), w1) \<and>
                       w_fs w1 = w_fs w \<and> w_db w1 = w_db w
     | None \<Rightarrow> if int (length c) > l_max_bytes s
         then \<exists>w1. save_object E s src filename w = (Inl ErrTooLarge, w1) \<and>
                       w_fs w1 = w_fs w \<and> w_db w1 = w_db w
         else \<exists>i w1. save_object E s src filename w = (Inr i, w1) \<and> i_filename i = name \<and>
                i_key i = object_key (x_uuid E (w_uuid w)) \<and> i_size i = int (length c) \<and>
                i_checksum i = checksum_of E c \<and> w_fs w1 = (w_fs w)(path \<mapsto> c) \<and> w_db w1 = w_db w)"
proof -
  let ?key = "object_key (x_uuid E (w_uuid w))"
  let ?v = "w\<lparr>w_uuid := Suc (w_uuid w), w_os := Suc (Suc (w_os w)), w_fs := (w_fs w)(path \<mapsto> [])\<rparr>"
  have vf: "w_fs ?v = (w_fs w)(path \<mapsto> [])" by simp
  have eq: "save_object E s src filename w = write_object E s src ?key name path ?v"
    using calm name path
    by (simp add: save_object_def bindE_def Let_def os_io_def wrapE_def handleE_def create_excl_def ret_def)
  have nofault: "\<not> (\<exists>n. x_os_fault E n \<noteq> None)" using calm by simp
  have lo: "left_over E path (w_fs w) v w1 \<longleftrightarrow> w_db w1 = w_db v \<and> w_uuid w1 = w_uuid v \<and> w_fs w1 = w_fs w"
    for v w1 using calm by (simp add: left_over_def)
  show ?thesis
    using write_object_cases [OF vf path(2) lr, of E ?key name] mimes nofault
    unfolding eq lo by (auto split: option.splits)
qed

end
