(* ===== verification/Storage_Props.thy ===== *)
theory Storage_Props
  imports Storage
begin

text \<open>
  What the object store and the mount manager promise: confinement of paths, the
  outcome of a save, the round trip, file names, and two configurations under which
  the store cannot work.
\<close>

section \<open>Properties of the store\<close>

text \<open>
  C9: confinement. Whatever key the store is asked for, a path it accepts lies strictly
  below the store's root: it is the root's text, a slash, and one or more further elements,
  none of which is empty, \<open>.\<close> or \<open>..\<close>.
\<close>

theorem safe_path_confined:
  assumes "safe_path E s key = Inr path"
    and "\<forall>d. x_cwd E = Some d \<longrightarrow> is_abs d"
  shows "\<exists>root k. abs_path (x_cwd E) (l_root s) = Some root \<and> k \<noteq> [] \<and> canonical k \<and>
           path = root @ slash # join_with slash k \<and> path_elems path = path_elems root @ k \<and>
           canonical (path_elems path)"
proof (rule safe_path_shape [OF assms(1)])
  show "x_cwd E = Some d \<Longrightarrow> is_abs d" for d using assms(2) by blast
  fix r k
  assume a: "canonical r" "canonical k" "r \<noteq> []" "k \<noteq> []"
    "abs_path (x_cwd E) (l_root s) = Some (slash # join_with slash r)"
    "path = slash # join_with slash (r @ k)"
  then have "path = (slash # join_with slash r) @ slash # join_with slash k"
    by (simp add: join_with_append)
  moreover have "path_elems path = path_elems (slash # join_with slash r) @ k"
    using a by (simp add: path_elems_join)
  moreover have "canonical (path_elems path)" using a by (simp add: path_elems_join)
  ultimately show ?thesis using a by blast
qed

theorem safe_path_confined_witness:
  "\<exists>root k. abs_path (x_cwd calm_env) ''d'' = Some root \<and> k \<noteq> [] \<and> canonical k \<and>
     ''/srv/d/ab/cd'' = root @ slash # join_with slash k \<and>
     path_elems ''/srv/d/ab/cd'' = path_elems root @ k \<and> canonical (path_elems ''/srv/d/ab/cd'')"
proof -
  let ?s = "\<lparr>l_root = ''d'', l_max_bytes = 8, l_allowed_mimes = []\<rparr>"
  have 1: "safe_path calm_env ?s ''ab//x/../cd'' = Inr ''/srv/d/ab/cd''" by code_simp
  have 2: "\<forall>d. x_cwd calm_env = Some d \<longrightarrow> is_abs d" by (simp add: calm_env_def is_abs_def)
  show ?thesis using safe_path_confined [OF 1 2] by simp
qed

text \<open>
  Every generated object key is accepted and different identifiers give different
  files, for every root that is not the root directory itself.
\<close>

theorem object_paths_distinct:
  assumes "uuid_text u" and "uuid_text v" and "u \<noteq> v"
    and "abs_path (x_cwd E) (l_root s) = Some root" and "root \<noteq> ''/''"
    and "\<forall>d. x_cwd E = Some d \<longrightarrow> is_abs d"
  shows "\<exists>p q. safe_path E s (object_key u) = Inr p \<and> safe_path E s (object_key v) = Inr q \<and>
           p \<noteq> q \<and> p = root @ slash # take 2 u @ slash # u"
proof (rule abs_path_rooted [OF assms(4)])
  show "x_cwd E = Some d \<Longrightarrow> is_abs d" for d using assms(6) by blast
  fix r
  assume r: "canonical r" "root = slash # join_with slash r"
  with assms(5) have ne: "r \<noteq> []" by auto
  have at: "abs_path (x_cwd E) (l_root s) = Some (slash # join_with slash r)"
    using assms(4) r(2) by simp
  note pu = safe_path_object_key [OF assms(1) r(1) ne at]
  note pv = safe_path_object_key [OF assms(2) r(1) ne at]
  have "r @ [take 2 u, u] \<noteq> r @ [take 2 v, v]" using assms(3) by simp
  then have "join_with slash (r @ [take 2 u, u]) \<noteq> join_with slash (r @ [take 2 v, v])"
    using join_with_inj [of "r @ [take 2 u, u]" "r @ [take 2 v, v]"] r(1)
      uuid_text_canonical(1) [OF assms(1)] uuid_text_canonical(1) [OF assms(2)] by auto
  moreover have "slash # join_with slash (r @ [take 2 u, u]) = root @ slash # take 2 u @ slash # u"
    using ne r(2) by (simp add: join_with_append)
  ultimately show ?thesis using pu pv by auto
qed

theorem object_paths_distinct_witness:
  "\<exists>p q. safe_path calm_env \<lparr>l_root = ''/d'', l_max_bytes = 8, l_allowed_mimes = []\<rparr>
           (object_key (calm_uuid 1)) = Inr p \<and>
         safe_path calm_env \<lparr>l_root = ''/d'', l_max_bytes = 8, l_allowed_mimes = []\<rparr>
           (object_key (calm_uuid 2)) = Inr q \<and>
         p \<noteq> q \<and> p = ''/d'' @ slash # take 2 (calm_uuid 1) @ slash # calm_uuid 1"
proof (rule object_paths_distinct)
  show "uuid_text (calm_uuid 1)" "uuid_text (calm_uuid 2)" by code_simp+
  show "calm_uuid 1 \<noteq> calm_uuid 2" by code_simp
  show "abs_path (x_cwd calm_env) (l_root \<lparr>l_root = ''/d'', l_max_bytes = 8, l_allowed_mimes = []\<rparr>) = Some ''/d''"
    by code_simp
  show "\<forall>d. x_cwd calm_env = Some d \<longrightarrow> is_abs d" by (simp add: calm_env_def is_abs_def)
qed simp

text \<open>
  A store whose root is the root directory refuses every key: the prefix it compares
  with is \<open>//\<close>, which no clean path has. Configuration accepts that root, so such
  a mount fails every upload.
\<close>

theorem root_directory_rejects_all:
  assumes "abs_path (x_cwd E) (l_root s) = Some ''/''"
    and "\<forall>d. x_cwd E = Some d \<longrightarrow> is_abs d"
  shows "safe_path E s key = Inl ErrTraversal"
proof (cases "safe_path E s key")
  case (Inl e)
  have "abs_path (x_cwd E) (join_path ''/'' c) \<noteq> None" for c
  proof -
    have "is_abs (join_path ''/'' c)"
      by (simp add: join_path_def clean_path_def Let_def)
    then show ?thesis by (simp add: abs_path_def)
  qed
  with Inl assms(1) show ?thesis
    by (auto simp: safe_path_def Let_def split: if_splits option.splits)
next
  case (Inr p)
  show ?thesis
  proof (rule safe_path_shape [OF Inr])
    show "x_cwd E = Some d \<Longrightarrow> is_abs d" for d using assms(2) by blast
    fix r k
    assume "canonical r" "r \<noteq> []" "abs_path (x_cwd E) (l_root s) = Some (slash # join_with slash r)"
    with assms(1) canonical_join_head [of r] show ?thesis by simp
  qed
qed

theorem root_directory_rejects_all_witness:
  "safe_path calm_env \<lparr>l_root = ''/../'', l_max_bytes = 8, l_allowed_mimes = []\<rparr> ''ab/cd'' = Inl ErrTraversal"
proof (rule root_directory_rejects_all)
  show "abs_path (x_cwd calm_env) (l_root \<lparr>l_root = ''/../'', l_max_bytes = 8, l_allowed_mimes = []\<rparr>) = Some ''/''"
    by code_simp
  show "\<forall>d. x_cwd calm_env = Some d \<longrightarrow> is_abs d" by (simp add: calm_env_def is_abs_def)
qed

text \<open>
  An accepted file name is a plain display name: letters, digits and \<open>._ -\<close>
  only, no path separator, at most 255 bytes, not a dot name, not surrounded by blanks; and
  sanitizing is idempotent.
\<close>

theorem sanitize_filename_sound:
  assumes "sanitize_filename f = Inr g"
  shows "list_all safe_char g \<and> slash \<notin> set g \<and> g \<notin> {[], ''.'', ''..''} \<and> length g \<le> 255 \<and>
         trim_space g = g \<and> sanitize_filename g = Inr g"
proof -
  note s = sanitize_filename_Inr [OF assms]
  have "slash \<notin> set g" using s(5) safe_char_not_slash by blast
  with s sanitize_filename_fixed [OF s] show ?thesis by (simp add: list_all_iff)
qed

theorem sanitize_filename_sound_witness:
  "list_all safe_char ''a b.txt'' \<and> slash \<notin> set ''a b.txt'' \<and> ''a b.txt'' \<notin> {[], ''.'', ''..''} \<and>
   length ''a b.txt'' \<le> 255 \<and> trim_space ''a b.txt'' = ''a b.txt'' \<and>
   sanitize_filename ''a b.txt'' = Inr ''a b.txt''"
proof (rule sanitize_filename_sound)
  show "sanitize_filename ''../up/ a$ b.txt '' = Inr ''a b.txt''" by code_simp
qed

text \<open>
  What was stored is what is read back, whatever happened to other objects in
  between, as long as the object itself was not removed.
\<close>

theorem save_open_roundtrip:
  assumes "save_object E s (c, None) filename w = (Inr i, w1)"
    and "0 < l_max_bytes s" and "l_max_bytes s < max_int64"
    and "w_fs w1 \<subseteq>\<^sub>m w_fs w2"
    and "open_object E s (i_key i) w2 = (Inr b, w3)"
  shows "b = c \<and> i_size i = int (length c) \<and> i_checksum i = checksum_of E b"
proof -
  from ls.save_content [OF assms(1)] obtain d where
    d: "ls.content E s w1 (i_key i) = Some d" "i_size i = int (length d)" "i_checksum i = checksum_of E d"
    "limit_read (c, None) (int64_add (l_max_bytes s) 1) = (d, None)"
    by blast
  then have "(c, None) = (d, None :: err option)"
    using save_object_Inr [OF assms(1)] assms(2,3) by (metis limit_read_fits prod.inject)
  moreover have "ls.content E s w2 (i_key i) = Some d" by (rule ls.content_mono [OF assms(4) d(1)])
  ultimately show ?thesis
    using ls.fetch_Inr [OF assms(5)] d by (auto simp: ls.content_def)
qed


definition witness_store :: local_store where
  "witness_store = \<lparr>l_root = ''/d'', l_max_bytes = 8, l_allowed_mimes = []\<rparr>"

lemma witness_saved:
  "fst (save_object calm_env witness_store (''hey'', None) ''x'' calm_world) =
     Inr \<lparr>i_key = object_key (calm_uuid 0), i_filename = ''x'', i_size = 3,
          i_content_type = ''text/plain'', i_checksum = ''146''\<rparr>"
  by code_simp

lemma witness_opened:
  "fst (open_object calm_env witness_store (object_key (calm_uuid 0))
     (snd (save_object calm_env witness_store (''hey'', None) ''x'' calm_world))) = Inr ''hey''"
  by code_simp

theorem save_open_roundtrip_witness:
  "(\<exists>i w1 w3. save_object calm_env witness_store (''hey'', None) ''x'' calm_world = (Inr i, w1) \<and>
      open_object calm_env witness_store (i_key i) w1 = (Inr ''hey'', w3) \<and>
      ''hey'' = ''hey'' \<and> i_size i = int (length ''hey'') \<and> i_checksum i = checksum_of calm_env ''hey'')"
proof -
  let ?r = "save_object calm_env witness_store (''hey'', None) ''x'' calm_world"
  let ?i = "\<lparr>i_key = object_key (calm_uuid 0), i_filename = ''x'', i_size = 3,
          i_content_type = ''text/plain'', i_checksum = ''146''\<rparr>"
  have 1: "?r = (Inr ?i, snd ?r)" using witness_saved by (metis prod.collapse)
  have 2: "open_object calm_env witness_store (i_key ?i) (snd ?r) =
      (Inr ''hey'', snd (open_object calm_env witness_store (i_key ?i) (snd ?r)))"
    using witness_opened by (simp add: prod_eq_iff)
  have 3: "0 < l_max_bytes witness_store" "l_max_bytes witness_store < max_int64"
    by (simp_all add: witness_store_def max_int64_def)
  from save_open_roundtrip [OF 1 3 map_le_refl 2] 1 2 show ?thesis by blast
qed

text \<open>
  C24: the outcome of a save is determined by the source: an error of the source is
  returned and nothing stays behind; one byte too many gives \<open>ErrTooLarge\<close> and nothing
  stays behind; otherwise the object is stored whole. The system calls succeed, the
  generated path is free and no type allowlist is configured.
\<close>

theorem save_object_outcome:
  assumes "\<forall>n. x_os_fault E n = None"
    and "sanitize_filename filename = Inr name"
    and "safe_path E s (object_key (x_uuid E (w_uuid w))) = Inr path" and "w_fs w path = None"
    and "0 < l_max_bytes s" and "l_max_bytes s < max_int64" and "l_allowed_mimes s = []"
  shows "case save_object E s (c, re) filename w of (r, w1) \<Rightarrow>
     w_db w1 = w_db w \<and>
     (if int (length c) > l_max_bytes s then r = Inl ErrTooLarge \<and> w_fs w1 = w_fs w
      else case re of
        Some e \<Rightarrow> r = Inl (Wrapped ''write object'' e) \<and> w_fs w1 = w_fs w
      | None \<Rightarrow> (\<exists>i. r = Inr i \<and> i_size i = int (length c) \<and> i_filename i = name \<and>
                  i_checksum i = checksum_of E c \<and> w_fs w1 = (w_fs w)(path \<mapsto> c)))"
proof -
  have add: "int64_add (l_max_bytes s) 1 = l_max_bytes s + 1"
    using assms(5,6) by (simp add: int64_add_def max_int64_def)
  have calm: "x_os_fault E n = None" for n using assms(1) by simp
  note out = save_object_calm [OF calm assms(2,3,4) _ assms(7)]
  show ?thesis
  proof (cases "int (length c) > l_max_bytes s")
    case True
    then have lr: "limit_read (c, re) (int64_add (l_max_bytes s) 1) = (take (nat (l_max_bytes s + 1)) c, None)"
      using assms(5) by (simp add: limit_read_def add)
    have "int (length (take (nat (l_max_bytes s + 1)) c)) > l_max_bytes s"
      using True assms(5) by simp
    with out [OF lr] True show ?thesis by auto
  next
    case False
    then have lr: "limit_read (c, re) (int64_add (l_max_bytes s) 1) = (c, re)"
      using assms(5) by (simp add: limit_read_def add)
    from out [OF lr] False show ?thesis by (cases re) auto
  qed
qed

theorem save_object_outcome_witness:
  "case save_object calm_env witness_store (''123456789'', None) ''x'' calm_world of (r, w1) \<Rightarrow>
     w_db w1 = w_db calm_world \<and> r = Inl ErrTooLarge \<and> w_fs w1 = w_fs calm_world"
proof -
  have 1: "\<forall>n. x_os_fault calm_env n = None" by (simp add: calm_env_def)
  have 2: "sanitize_filename ''x'' = Inr ''x''" by code_simp
  have 3: "safe_path calm_env witness_store (object_key (x_uuid calm_env (w_uuid calm_world)))
      = Inr (''/d/aa/'' @ calm_uuid 0)" by code_simp
  have 4: "w_fs calm_world (''/d/aa/'' @ calm_uuid 0) = None" by (simp add: calm_world_def)
  have 5: "0 < l_max_bytes witness_store" "l_max_bytes witness_store < max_int64"
    "l_allowed_mimes witness_store = []" by (simp_all add: witness_store_def max_int64_def)
  show ?thesis
    using save_object_outcome [OF 1 2 3 4 5, of "''123456789''" None]
    by (simp add: witness_store_def case_prod_unfold)
qed

text \<open>
  With the largest upload limit an \<^verbatim>\<open>int64\<close> can express, the limit plus one wraps
  around, nothing is read, and every save that succeeds has stored an empty object.
\<close>

theorem save_object_max_limit_empties:
  assumes "l_max_bytes s = max_int64" and "save_object E s src filename w = (Inr i, w1)"
  shows "i_size i = 0 \<and> (\<exists>path. safe_path E s (i_key i) = Inr path \<and> w_fs w1 path = Some [])"
proof (rule save_object_Inr [OF assms(2)])
  fix path name c
  assume a: "safe_path E s (i_key i) = Inr path"
    "limit_read src (int64_add (l_max_bytes s) 1) = (c, None)"
    "w_fs w1 = (w_fs w)(path \<mapsto> c)" "i_size i = int (length c)"
  have "int64_add max_int64 1 = min_int64" by (simp add: int64_add_def max_int64_def min_int64_def)
  with a(2) assms(1) have "c = []" by (simp add: limit_read_def min_int64_def)
  with a show ?thesis by simp
qed

theorem save_object_max_limit_empties_witness:
  "\<exists>i w1. save_object calm_env (witness_store\<lparr>l_max_bytes := max_int64\<rparr>) (''hey'', None) ''x'' calm_world = (Inr i, w1)
     \<and> i_size i = 0 \<and> (\<exists>path. safe_path calm_env (witness_store\<lparr>l_max_bytes := max_int64\<rparr>) (i_key i) = Inr path \<and>
          w_fs w1 path = Some [])"
proof -
  let ?s = "witness_store\<lparr>l_max_bytes := max_int64\<rparr>"
  let ?r = "save_object calm_env ?s (''hey'', None) ''x'' calm_world"
  have l: "l_max_bytes ?s = max_int64" by simp
  have "isl (fst ?r) = False" by code_simp
  then obtain i where "?r = (Inr i, snd ?r)" by (metis isl_def prod.collapse sum.exhaust_sel)
  with save_object_max_limit_empties [OF l this] show ?thesis by blast
qed

text \<open>
  The mount manager resolves exactly the configured disks: identifiers are
  distinct, a named lookup gives the disk with that identifier and its configured root,
  the empty name gives the first configured disk, and every other name is refused.
\<close>

theorem get_mount_exact:
  assumes "new_mounts E specs n allowed w = (Inr ms, w1)"
  shows "distinct (map ms_id specs) \<and>
    (case find (\<lambda>x. ms_id x = (if k = [] then ms_id (hd specs) else k)) specs of
       None \<Rightarrow> get_mount ms k = Inl ErrMountNotFound
     | Some x \<Rightarrow> \<exists>m. get_mount ms k = Inr m \<and> m_id m = ms_id x \<and> m_name m = ms_name x \<and>
                      l_root (m_store m) = ms_root x \<and> l_max_bytes (m_store m) = n)"
proof -
  note f = new_mounts_Inr [OF assms]
  let ?pm = "\<lambda>m. (m_id m, m_name m, l_root (m_store m), l_max_bytes (m_store m))"
  let ?px = "\<lambda>x. (ms_id x, ms_name x, ms_root x, n)"
  let ?key = "if k = [] then ms_id (hd specs) else k"
  have ids: "map m_id (order ms) = map ms_id specs"
    using arg_cong [OF f(2), of "map fst"] by (simp add: comp_def)
  have hd_id: "m_id (hd (order ms)) = ms_id (hd specs)"
    using ids f(1,3) by (metis hd_map mounts_ok_def)
  have d: "distinct (map ms_id specs)" using f(1) ids by (simp add: mounts_ok_def)
  show ?thesis
  proof (cases "find (\<lambda>x. ms_id x = ?key) specs")
    case None
    then have "?key \<notin> set (map ms_id specs)" by (auto simp: find_None_iff)
    then have "by_id ms ?key = None"
      using by_id_order [OF f(1), of ?key] ids by (metis image_eqI image_set not_None_eq)
    then have "get_mount ms k = Inl ErrMountNotFound"
      unfolding get_mount_eq [OF f(1)] hd_id by simp
    with None d show ?thesis by simp
  next
    case (Some x)
    then have x: "x \<in> set specs" "ms_id x = ?key" by (auto dest: find_SomeD)
    have "?px x \<in> set (map ?pm (order ms))" unfolding f(2) set_map using x(1) by (rule imageI)
    then obtain m where m: "m \<in> set (order ms)" "?pm m = ?px x" by auto
    with x hd_id have "get_mount ms k = Inr m"
      unfolding get_mount_Inr [OF f(1)] by auto
    with m Some d show ?thesis by auto
  qed
qed

definition witness_specs :: "mount_spec list" where
  "witness_specs = [\<lparr>ms_id = ''a'', ms_name = ''A'', ms_root = ''/a''\<rparr>,
                    \<lparr>ms_id = ''b'', ms_name = ''B'', ms_root = ''/b''\<rparr>]"

theorem get_mount_exact_witness:
  "\<exists>ms w1. new_mounts calm_env witness_specs 8 [] calm_world = (Inr ms, w1) \<and>
     (\<exists>m. get_mount ms ''b'' = Inr m \<and> l_root (m_store m) = ''/b'')"
proof -
  let ?r = "new_mounts calm_env witness_specs 8 [] calm_world"
  have "isl (fst ?r) = False" by code_simp
  then obtain ms where r: "?r = (Inr ms, snd ?r)" by (metis isl_def prod.collapse sum.exhaust_sel)
  have "\<exists>m. get_mount ms ''b'' = Inr m \<and> l_root (m_store m) = ''/b''"
    using get_mount_exact [OF r, of "''b''"] by (auto simp: witness_specs_def)
  with r show ?thesis by blast
qed

end
