(* ===== verification/Go_Time.thy ===== *)
theory Go_Time
  imports World "HOL-Library.Sublist"
begin

text \<open>
  Time stamps. The program stores instants as texts in Go's \<^verbatim>\<open>time.RFC3339Nano\<close> layout,
  always in UTC (src/internal/repository/file_repository.go, \<^verbatim>\<open>stamp\<close> and \<^verbatim>\<open>parseStamp\<close>), and
  compares the texts in SQL. An instant is a number of nanoseconds since Go's zero
  time; \<open>civil\<close> and \<open>days_before\<close> are the calendar of Go's \<^verbatim>\<open>time\<close> package from year 1
  on. The layout drops trailing zeros of the fraction, and a whole second has none.
\<close>

section \<open>The calendar\<close>

definition leap :: "nat \<Rightarrow> bool" where
  "leap y \<longleftrightarrow> y mod 4 = 0 \<and> (y mod 100 \<noteq> 0 \<or> y mod 400 = 0)"

text \<open>Days from 1 January of year 1 to 1 January of year \<open>y + 1\<close>.\<close>

definition days_before :: "nat \<Rightarrow> nat" where
  "days_before y = 365 * y + y div 4 - y div 100 + y div 400"

text \<open>The years completed before day \<open>d\<close>, by 400, 100, 4 and 1 year cycles.\<close>

definition years_done :: "nat \<Rightarrow> nat" where
  "years_done d =
     (let n400 = d div 146097; d1 = d mod 146097;
          n100 = min 3 (d1 div 36524); d2 = d1 - 36524 * n100;
          n4 = d2 div 1461; d3 = d2 mod 1461;
          n1 = min 3 (d3 div 365)
      in 400 * n400 + 100 * n100 + 4 * n4 + n1)"

definition month_lengths :: "nat \<Rightarrow> nat list" where
  "month_lengths y = [31, if leap y then 29 else 28, 31, 30, 31, 30, 31, 31, 30, 31, 30, 31]"

fun month_day :: "nat \<Rightarrow> nat list \<Rightarrow> nat \<Rightarrow> nat \<times> nat" where
  "month_day m [] yday = (m, yday + 1)"
| "month_day m (l # ls) yday = (if yday < l then (m, yday + 1) else month_day (Suc m) ls (yday - l))"

definition civil :: "nat \<Rightarrow> nat \<times> nat \<times> nat" where
  "civil d =
     (let y = years_done d; yday = d - days_before y; (m, day) = month_day 1 (month_lengths (y + 1)) yday
      in (y + 1, m, day))"

definition days_of :: "nat \<Rightarrow> nat \<Rightarrow> nat \<Rightarrow> nat" where
  "days_of y m day = days_before (y - 1) + sum_list (take (m - 1) (month_lengths y)) + (day - 1)"

section \<open>Formatting\<close>

definition pad2 :: "nat \<Rightarrow> string" where
  "pad2 n = [digit_char (n div 10 mod 10), digit_char (n mod 10)]"

definition pad4 :: "nat \<Rightarrow> string" where
  "pad4 n = (if n < 10000 then pad2 (n div 100) @ pad2 (n mod 100) else format_nat n)"

text \<open>The first 19 characters: date and time to the second.\<close>

definition second_text :: "nat \<Rightarrow> string" where
  "second_text secs =
     (let (y, m, day) = civil (secs div 86400); s = secs mod 86400
      in pad4 y @ CHR ''-'' # pad2 m @ CHR ''-'' # pad2 day @ CHR ''T'' #
         pad2 (s div 3600) @ CHR '':'' # pad2 (s div 60 mod 60) @ CHR '':'' # pad2 (s mod 60))"

definition digits9 :: "nat \<Rightarrow> string" where
  "digits9 n = map (\<lambda>k. digit_char (n div 10 ^ k mod 10)) [8, 7, 6, 5, 4, 3, 2, 1, 0]"

definition fraction_text :: "nat \<Rightarrow> string" where
  "fraction_text n =
     (if n = 0 then [] else CHR ''.'' # rev (dropWhile (\<lambda>c. c = CHR ''0'') (rev (digits9 n))))"

definition stamp :: "time \<Rightarrow> string" where
  "stamp t = second_text (nat t div 1000000000) @ fraction_text (nat t mod 1000000000) @ ''Z''"

section \<open>Parsing\<close>

fun digits_val :: "nat \<Rightarrow> string \<Rightarrow> nat option" where
  "digits_val n [] = Some n"
| "digits_val n (c # cs) =
     (case digit_val c of None \<Rightarrow> None | Some d \<Rightarrow> digits_val (n * 10 + nat d) cs)"

text \<open>\<^verbatim>\<open>parseUint\<close> of Go's RFC 3339 parser: digits only, and within a range.\<close>

definition field :: "string \<Rightarrow> nat \<Rightarrow> nat \<Rightarrow> nat option" where
  "field s lo hi = (case digits_val 0 s of None \<Rightarrow> None | Some n \<Rightarrow> if lo \<le> n \<and> n \<le> hi then Some n else None)"

definition parse_fraction :: "string \<Rightarrow> nat \<times> string" where
  "parse_fraction s =
     (if length s \<ge> 2 \<and> s ! 0 = CHR ''.'' \<and> digit_val (s ! 1) \<noteq> None
      then let ds = takeWhile (\<lambda>c. digit_val c \<noteq> None) (tl s); used = take 9 ds
           in (case digits_val 0 used of None \<Rightarrow> 0 | Some n \<Rightarrow> n * 10 ^ (9 - length used),
               drop (length ds) (tl s))
      else (0, s))"

definition parse_zone :: "string \<Rightarrow> int option" where
  "parse_zone s =
     (if s = ''Z'' then Some 0
      else if length s = 6 \<and> (s ! 0 = CHR ''+'' \<or> s ! 0 = CHR ''-'') \<and> s ! 3 = CHR '':''
      then (case (field (take 2 (drop 1 s)) 0 23, field (drop 4 s) 0 59) of
              (Some h, Some m) \<Rightarrow> Some ((if s ! 0 = CHR ''-'' then -1 else 1) * (int h * 3600 + int m * 60))
            | _ \<Rightarrow> None)
      else None)"

text \<open>
  \<^verbatim>\<open>time.Parse(time.RFC3339Nano, s)\<close> by its RFC 3339 routine. Go falls back to the general
  layout parser on other texts (a one digit hour, a comma); the program never
  writes those.
\<close>

definition parse_time :: "string \<Rightarrow> time option" where
  "parse_time s =
     (if length s < 19 then None else
      case (field (take 4 s) 0 9999, field (take 2 (drop 5 s)) 1 12,
            field (take 2 (drop 11 s)) 0 23, field (take 2 (drop 14 s)) 0 59, field (take 2 (drop 17 s)) 0 59) of
        (Some y, Some m, Some hh, Some mm, Some ss) \<Rightarrow>
          (case field (take 2 (drop 8 s)) 1 (month_lengths y ! (m - 1)) of
             None \<Rightarrow> None
           | Some day \<Rightarrow>
               if s ! 4 = CHR ''-'' \<and> s ! 7 = CHR ''-'' \<and> s ! 10 = CHR ''T'' \<and> s ! 13 = CHR '':'' \<and> s ! 16 = CHR '':''
               then let (nanos, zone_text) = parse_fraction (drop 19 s)
                    in (case parse_zone zone_text of
                          None \<Rightarrow> None
                        | Some zone \<Rightarrow>
                            Some ((int (days_of y m day * 86400 + hh * 3600 + mm * 60 + ss) - zone) * 1000000000
                                  + int nanos))
               else None)
      | _ \<Rightarrow> None)"

text \<open>\<^verbatim>\<open>parseStamp\<close> drops the error: an unreadable text is the zero time.\<close>

definition parse_stamp :: "string \<Rightarrow> time" where
  "parse_stamp s = (case parse_time s of None \<Rightarrow> 0 | Some t \<Rightarrow> t)"

text \<open>Instants of the years 1 to 9999, whose year has four digits.\<close>

definition in_range :: "time \<Rightarrow> bool" where
  "in_range t \<longleftrightarrow> 0 \<le> t \<and> t < 315537897600000000000"

section \<open>Facts on the calendar\<close>

lemma days_before_Suc:
  "days_before (Suc y) = days_before y + (if leap (Suc y) then 366 else 365)"
proof -
  have le: "y div 100 \<le> y div 4" by (simp add: div_le_mono2)
  have 1: "Suc y mod 400 = 0 \<Longrightarrow> Suc y mod 100 = 0" by presburger
  have 2: "Suc y mod 100 = 0 \<Longrightarrow> Suc y mod 4 = 0" by presburger
  have g: "365 * Suc y + Suc A - Suc B + Suc C = 365 * y + A - B + C + 366"
    "365 * Suc y + Suc A - Suc B + C = 365 * y + A - B + C + 365"
    "365 * Suc y + Suc A - B + C = 365 * y + A - B + C + 366"
    "365 * Suc y + A - B + C = 365 * y + A - B + C + 365" if "B \<le> A" for A B C :: nat
    using that by simp_all
  consider (a) "Suc y mod 400 = 0" "Suc y mod 100 = 0" "Suc y mod 4 = 0"
    | (b) "Suc y mod 400 \<noteq> 0" "Suc y mod 100 = 0" "Suc y mod 4 = 0"
    | (c) "Suc y mod 400 \<noteq> 0" "Suc y mod 100 \<noteq> 0" "Suc y mod 4 = 0"
    | (d) "Suc y mod 400 \<noteq> 0" "Suc y mod 100 \<noteq> 0" "Suc y mod 4 \<noteq> 0"
    using 1 2 by argo
  then show ?thesis
    unfolding days_before_def leap_def div_Suc
    by cases (simp_all only: g [OF le] if_True if_False simp_thms)
qed

lemma days_before_mono: "y \<le> z \<Longrightarrow> days_before y \<le> days_before z"
  by (induction rule: dec_induct) (auto simp: days_before_Suc)

lemma cycle_years:
  fixes a b c e :: nat
  assumes "b \<le> 3" "c \<le> 24" "e \<le> 3"
  shows "days_before (400 * a + 100 * b + 4 * c + e) = 146097 * a + 36524 * b + 1461 * c + 365 * e"
proof -
  let ?y = "400 * a + 100 * b + 4 * c + e"
  have q: "(k * m + s) div m = k" if "s < m" for k m s :: nat using that by simp
  have "?y div 4 = ((100 * a + 25 * b + c) * 4 + e) div 4" by (simp add: algebra_simps)
  then have "?y div 4 = 100 * a + 25 * b + c" using assms by (simp only: q)
  moreover have "?y div 100 = ((4 * a + b) * 100 + (4 * c + e)) div 100" by (simp add: algebra_simps)
  then have "?y div 100 = 4 * a + b" using assms by (simp only: q)
  moreover have "?y div 400 = (a * 400 + (100 * b + 4 * c + e)) div 400" by (simp add: algebra_simps)
  then have "?y div 400 = a" using assms by (simp only: q)
  ultimately show ?thesis by (simp add: days_before_def)
qed

lemma cycle_leap:
  fixes a b c :: nat
  assumes "b \<le> 3" "c \<le> 24" "c < 24 \<or> b = 3"
  shows "leap (Suc (400 * a + 100 * b + 4 * c + 3))"
proof -
  let ?z = "400 * a + 100 * b + 4 * (c + 1)"
  have z: "Suc (400 * a + 100 * b + 4 * c + 3) = ?z" by simp
  have "?z mod 4 = 0" by presburger
  moreover have "?z mod 100 \<noteq> 0 \<or> ?z mod 400 = 0"
  proof (cases "c = 24")
    case True
    with assms(3) have "?z = 400 * (a + 1)" by simp
    then have "?z mod 400 = 0" by (metis mod_mult_self1_is_0)
    then show ?thesis ..
  next
    case False
    with assms(2) have "4 * (c + 1) < 100" "0 < 4 * (c + 1)" by auto
    moreover have "?z = 4 * (c + 1) + 100 * (4 * a + b)" by simp
    then have "?z mod 100 = (4 * (c + 1)) mod 100" by (metis mod_mult_self2)
    ultimately show ?thesis by simp
  qed
  ultimately show ?thesis unfolding z leap_def by blast
qed

lemma years_done_bounds:
  "days_before (years_done d) \<le> d \<and> d < days_before (Suc (years_done d))"
proof -
  define a where "a = d div 146097"
  define d1 where "d1 = d mod 146097"
  define b where "b = min 3 (d1 div 36524)"
  define d2 where "d2 = d1 - 36524 * b"
  define c where "c = d2 div 1461"
  define d3 where "d3 = d2 mod 1461"
  define e where "e = min 3 (d3 div 365)"
  define r where "r = d3 - 365 * e"
  have y: "years_done d = 400 * a + 100 * b + 4 * c + e"
    by (simp add: years_done_def Let_def a_def d1_def b_def d2_def c_def d3_def e_def)
  have d: "d = 146097 * a + d1" by (simp add: a_def d1_def)
  have d1: "d1 < 146097" by (simp add: d1_def)
  have b3: "b \<le> 3" by (simp add: b_def)
  have bd: "36524 * b \<le> d1" unfolding b_def by (simp add: min_def) linarith
  have d1': "d1 = 36524 * b + d2" using bd by (simp add: d2_def)
  have d2: "d2 < 36525" "b < 3 \<Longrightarrow> d2 < 36524"
    using d1 unfolding d2_def b_def by (auto simp: min_def)
  have d2': "d2 = 1461 * c + d3" by (simp add: c_def d3_def)
  have d3: "d3 < 1461" by (simp add: d3_def)
  have c24: "c \<le> 24" using d2(1) d2' by linarith
  have e3: "e \<le> 3" by (simp add: e_def)
  have ed: "365 * e \<le> d3" unfolding e_def by (simp add: min_def) linarith
  have d3': "d3 = 365 * e + r" using ed by (simp add: r_def)
  have r: "r < 366" "e < 3 \<Longrightarrow> r < 365"
    using d3 unfolding r_def e_def by (auto simp: min_def)
  have eq: "d = days_before (years_done d) + r"
    unfolding y cycle_years [OF b3 c24 e3] using d d1' d2' d3' by linarith
  have "r < (if leap (Suc (years_done d)) then 366 else 365)"
  proof (cases "r < 365")
    case False
    with r(2) e3 have "e = 3" by (metis le_neq_implies_less)
    with False r(1) have re: "r = 365" "e = 3" by auto
    have "c < 24 \<or> b = 3"
      using re d2(2) d2' d3' b3 c24 by linarith
    from cycle_leap [OF b3 c24 this] have "leap (Suc (years_done d))" unfolding y re(2) .
    with re show ?thesis by simp
  qed simp
  with eq show ?thesis unfolding days_before_Suc by linarith
qed

lemma years_done_unique:
  assumes "days_before y \<le> d" "d < days_before (Suc y)"
  shows "years_done d = y"
proof -
  note b = years_done_bounds [of d]
  show ?thesis
  proof (rule ccontr)
    assume "years_done d \<noteq> y"
    then consider "Suc (years_done d) \<le> y" | "Suc y \<le> years_done d" by linarith
    then show False
    proof cases
      case 1
      then have "days_before (Suc (years_done d)) \<le> days_before y" by (rule days_before_mono)
      with assms b show False by linarith
    next
      case 2
      then have "days_before (Suc y) \<le> days_before (years_done d)" by (rule days_before_mono)
      with assms b show False by linarith
    qed
  qed
qed

lemma years_done_mono: "d \<le> e \<Longrightarrow> years_done d \<le> years_done e"
proof (rule ccontr)
  assume "d \<le> e" "\<not> years_done d \<le> years_done e"
  then have "days_before (Suc (years_done e)) \<le> days_before (years_done d)"
    by (intro days_before_mono) simp
  with years_done_bounds [of d] years_done_bounds [of e] \<open>d \<le> e\<close> show False by linarith
qed

section \<open>Order of texts\<close>

lemma lex_append:
  fixes xs ys us vs :: "'a::order list"
  assumes "length xs = length ys"
  shows "xs @ us < ys @ vs \<longleftrightarrow> xs < ys \<or> xs = ys \<and> us < vs"
  using assms by (induction xs ys rule: list_induct2) auto

lemma of_char_digit [simp]: "d < 10 \<Longrightarrow> of_char (digit_char d) = (48 + d :: nat)"
  by (simp add: digit_char_def take_bit_eq_mod)

lemma digit_char_less [simp]: "d < 10 \<Longrightarrow> e < 10 \<Longrightarrow> digit_char d < digit_char e \<longleftrightarrow> d < e"
  by (simp add: less_char_def)

lemma digit_char_eq [simp]: "d < 10 \<Longrightarrow> e < 10 \<Longrightarrow> digit_char d = digit_char e \<longleftrightarrow> d = e"
  using of_char_digit [of d] of_char_digit [of e] by (metis add_left_imp_eq)

lemma digit_val_digit_char [simp]: "d < 10 \<Longrightarrow> digit_val (digit_char d) = Some (int d)"
proof -
  assume d: "d < 10"
  have "(of_char (digit_char d) :: int) = int (of_char (digit_char d) :: nat)" by (simp only: of_nat_of_char)
  also have "\<dots> = 48 + int d" using d by (simp only: of_char_digit)
  finally have "of_char (digit_char d) = (48 + int d)" .
  moreover have "CHR ''0'' \<le> digit_char d" "digit_char d \<le> CHR ''9''"
    using d by (simp_all add: less_eq_char_def)
  ultimately show ?thesis by (simp add: digit_val_def)
qed

lemma div_mod_less:
  fixes a b k :: nat
  shows "a < b \<longleftrightarrow> a div k < b div k \<or> a div k = b div k \<and> a mod k < b mod k"
proof
  assume lt: "a < b"
  then have le: "a div k \<le> b div k" by (simp add: div_le_mono)
  show "a div k < b div k \<or> a div k = b div k \<and> a mod k < b mod k"
  proof (cases "a div k = b div k")
    case True
    have "a = a div k * k + a mod k" "b = b div k * k + b mod k" by simp_all
    with lt True have "a mod k < b mod k" by (metis nat_add_left_cancel_less)
    with True show ?thesis by simp
  qed (use le in simp)
next
  assume "a div k < b div k \<or> a div k = b div k \<and> a mod k < b mod k"
  then show "a < b"
  proof
    assume "a div k < b div k"
    then show ?thesis by (metis div_le_mono not_le)
  next
    assume eq: "a div k = b div k \<and> a mod k < b mod k"
    have "a = a div k * k + a mod k" "b = b div k * k + b mod k" by simp_all
    with eq show ?thesis by (metis nat_add_left_cancel_less)
  qed
qed

lemma pad2_less: "a < 100 \<Longrightarrow> b < 100 \<Longrightarrow> pad2 a < pad2 b \<longleftrightarrow> a < b"
  using div_mod_less [of a b 10] by (simp add: pad2_def)

lemma pad2_eq: "a < 100 \<Longrightarrow> b < 100 \<Longrightarrow> pad2 a = pad2 b \<longleftrightarrow> a = b"
  using pad2_less by (metis less_irrefl linorder_neqE_nat)

lemma length_pad2 [simp]: "length (pad2 n) = 2"
  by (simp add: pad2_def)

lemma pad4_less: "a < 10000 \<Longrightarrow> b < 10000 \<Longrightarrow> pad4 a < pad4 b \<longleftrightarrow> a < b"
proof -
  assume ab: "a < 10000" "b < 10000"
  then have h: "a div 100 < 100" "b div 100 < 100" by simp_all
  have "pad4 a < pad4 b \<longleftrightarrow> a div 100 < b div 100 \<or> a div 100 = b div 100 \<and> a mod 100 < b mod 100"
    using ab h by (simp add: pad4_def lex_append pad2_less pad2_eq)
  also have "\<dots> \<longleftrightarrow> a < b" by (rule div_mod_less [symmetric])
  finally show ?thesis .
qed

lemma pad4_eq: "a < 10000 \<Longrightarrow> b < 10000 \<Longrightarrow> pad4 a = pad4 b \<longleftrightarrow> a = b"
  using pad4_less by (metis less_irrefl linorder_neqE_nat)

lemma length_pad4 [simp]: "n < 10000 \<Longrightarrow> length (pad4 n) = 4"
  by (simp add: pad4_def)

definition date_text :: "nat \<Rightarrow> nat \<Rightarrow> nat \<Rightarrow> nat \<Rightarrow> nat \<Rightarrow> nat \<Rightarrow> string" where
  "date_text y m day h i s = pad4 y @ CHR ''-'' # pad2 m @ CHR ''-'' # pad2 day @ CHR ''T'' #
     pad2 h @ CHR '':'' # pad2 i @ CHR '':'' # pad2 s"

lemma date_text_less:
  assumes "y < 10000" "y' < 10000" "m < 100" "m' < 100" "d < 100" "d' < 100"
    "h < 100" "h' < 100" "i < 100" "i' < 100" "s < 100" "s' < 100"
  shows "date_text y m d h i s < date_text y' m' d' h' i' s' \<longleftrightarrow>
    y < y' \<or> y = y' \<and> (m < m' \<or> m = m' \<and> (d < d' \<or> d = d' \<and>
      (h < h' \<or> h = h' \<and> (i < i' \<or> i = i' \<and> s < s'))))"
  using assms unfolding date_text_def
  by (simp add: lex_append pad2_less pad2_eq pad4_less pad4_eq)

section \<open>Months\<close>

lemma length_month_lengths [simp]: "length (month_lengths y) = 12"
  by (simp add: month_lengths_def)

lemma sum_month_lengths: "sum_list (month_lengths y) = (if leap y then 366 else 365)"
  by (simp add: month_lengths_def)

lemma month_lengths_bound: "l \<in> set (month_lengths y) \<Longrightarrow> l \<le> 31"
  by (auto simp: month_lengths_def split: if_splits)

lemma month_day_spec:
  assumes "yday < sum_list ls" "month_day m ls yday = (m1, d1)"
  shows "m \<le> m1 \<and> m1 < m + length ls \<and> 1 \<le> d1 \<and> d1 \<le> ls ! (m1 - m) \<and>
         sum_list (take (m1 - m) ls) + (d1 - 1) = yday"
  using assms
proof (induction ls arbitrary: m yday)
  case (Cons l ls)
  show ?case
  proof (cases "yday < l")
    case True
    with Cons.prems(2) show ?thesis by auto
  next
    case False
    with Cons.prems have "yday - l < sum_list ls" "month_day (Suc m) ls (yday - l) = (m1, d1)" by auto
    from Cons.IH [OF this] False show ?thesis
      by (auto simp: Suc_diff_le [symmetric] take_Cons' nth_Cons' diff_Suc split: nat.splits)
  qed
qed simp

lemma month_day_mono:
  assumes "a < b" "b < sum_list ls" "month_day m ls a = (m1, d1)" "month_day m ls b = (m2, d2)"
  shows "m1 < m2 \<or> m1 = m2 \<and> d1 < d2"
  using assms
proof (induction ls arbitrary: m a b)
  case (Cons l ls)
  show ?case
  proof (cases "b < l")
    case True
    with Cons.prems show ?thesis by auto
  next
    case b: False
    with Cons.prems have nb: "b - l < sum_list ls" "month_day (Suc m) ls (b - l) = (m2, d2)" by auto
    show ?thesis
    proof (cases "a < l")
      case True
      with Cons.prems have "m1 = m" by auto
      moreover from month_day_spec [OF nb] have "Suc m \<le> m2" by simp
      ultimately show ?thesis by simp
    next
      case False
      with b Cons.prems have "a - l < b - l" "month_day (Suc m) ls (a - l) = (m1, d1)" by auto
      from Cons.IH [OF this(1) nb(1) this(2) nb(2)] show ?thesis .
    qed
  qed
qed simp

lemma civil_spec:
  assumes "civil d = (y, m, day)" and "d < 3652059"
  shows "1 \<le> y" "y < 10000" "1 \<le> m" "m \<le> 12" "1 \<le> day" "day \<le> month_lengths y ! (m - 1)"
    "day \<le> 31" "days_of y m day = d"
proof -
  let ?y = "years_done d" and ?r = "d - days_before (years_done d)"
  note b = years_done_bounds [of d]
  have y: "y = ?y + 1" and md: "month_day 1 (month_lengths y) ?r = (m, day)"
    using assms(1) by (auto simp: civil_def Let_def split: prod.splits)
  have "?y < 9999"
  proof (rule ccontr)
    assume "\<not> ?y < 9999"
    then have "days_before 9999 \<le> days_before ?y" by (intro days_before_mono) simp
    moreover have "days_before 9999 = 3652059" by (simp add: days_before_def)
    ultimately show False using b assms(2) by linarith
  qed
  with y show "1 \<le> y" "y < 10000" by auto
  have "?r < sum_list (month_lengths y)"
    unfolding sum_month_lengths y using b by (auto simp: days_before_Suc split: if_splits)
  from month_day_spec [OF this md]
  have s: "1 \<le> m" "m < 13" "1 \<le> day" "day \<le> month_lengths y ! (m - 1)"
    "sum_list (take (m - 1) (month_lengths y)) + (day - 1) = ?r" by auto
  then show "1 \<le> m" "m \<le> 12" "1 \<le> day" "day \<le> month_lengths y ! (m - 1)" by auto
  have "month_lengths y ! (m - 1) \<in> set (month_lengths y)" using s by (intro nth_mem) auto
  with s month_lengths_bound show "day \<le> 31" using order_trans by blast
  show "days_of y m day = d" 
  proof -
    have "y - 1 = years_done d" using y by simp
    then have "days_of y m day = days_before (years_done d)
        + (sum_list (take (m - 1) (month_lengths y)) + (day - 1))"
      by (simp only: days_of_def add.assoc)
    also have "\<dots> = d" unfolding s(5) using b by (simp only: le_add_diff_inverse)
    finally show ?thesis .
  qed
qed

lemma civil_mono:
  assumes "a < b" "civil a = (y, m, d)" "civil b = (y', m', d')"
  shows "y < y' \<or> y = y' \<and> (m < m' \<or> m = m' \<and> d < d')"
proof -
  have le: "years_done a \<le> years_done b" using assms(1) by (intro years_done_mono) simp
  have ya: "y = years_done a + 1" "month_day 1 (month_lengths y) (a - days_before (years_done a)) = (m, d)"
    using assms(2) by (auto simp: civil_def Let_def split: prod.splits)
  have yb: "y' = years_done b + 1" "month_day 1 (month_lengths y') (b - days_before (years_done b)) = (m', d')"
    using assms(3) by (auto simp: civil_def Let_def split: prod.splits)
  show ?thesis
  proof (cases "years_done a = years_done b")
    case True
    then have "a - days_before (years_done a) < b - days_before (years_done b)"
      using assms(1) years_done_bounds [of a] by (simp add: diff_less_mono)
    moreover have "b - days_before (years_done b) < sum_list (month_lengths y')"
      unfolding sum_month_lengths yb(1) using years_done_bounds [of b]
      by (auto simp: days_before_Suc split: if_splits)
    moreover have "month_day 1 (month_lengths y') (a - days_before (years_done a)) = (m, d)"
      using ya yb True by simp
    ultimately have "m < m' \<or> m = m' \<and> d < d'" using yb(2) by (rule month_day_mono)
    with True ya yb show ?thesis by simp
  qed (use le ya yb in simp)
qed

lemma second_text_eq:
  "second_text secs = (case civil (secs div 86400) of (y, m, d) \<Rightarrow>
     date_text y m d (secs mod 86400 div 3600) (secs mod 86400 div 60 mod 60) (secs mod 86400 mod 60))"
  by (simp add: second_text_def date_text_def Let_def)

lemma second_text_mono:
  assumes "a < b" "b < 315537897600"
  shows "second_text a < second_text b"
proof -
  obtain y m d where ca: "civil (a div 86400) = (y, m, d)" by (cases "civil (a div 86400)")
  obtain y' m' d' where cb: "civil (b div 86400) = (y', m', d')" by (cases "civil (b div 86400)")
  have lim: "a div 86400 < 3652059" "b div 86400 < 3652059" using assms by auto
  note sa = civil_spec [OF ca lim(1)] and sb = civil_spec [OF cb lim(2)]
  let ?s = "a mod 86400" and ?t = "b mod 86400"
  have st: "?s < 86400" "?t < 86400" by simp_all
  have hours: "x div 3600 < 100" "x div 60 mod 60 < 100" "x mod 60 < 100" if "x < 86400" for x :: nat
  proof -
    show "x div 3600 < 100" using that by simp
    show "x div 60 mod 60 < 100" "x mod 60 < 100"
      by (rule less_trans [OF mod_less_divisor]; simp)+
  qed
  have clock: "?s div 3600 < ?t div 3600 \<or> ?s div 3600 = ?t div 3600 \<and>
      (?s div 60 mod 60 < ?t div 60 mod 60 \<or> ?s div 60 mod 60 = ?t div 60 mod 60 \<and> ?s mod 60 < ?t mod 60)"
    if "?s < ?t"
  proof -
    have "?s div 60 < ?t div 60 \<or> ?s div 60 = ?t div 60 \<and> ?s mod 60 < ?t mod 60"
      using that div_mod_less by blast
    moreover have "x div 60 div 60 = x div 3600" for x :: nat
      by (simp add: div_mult2_eq [symmetric])
    ultimately show ?thesis using div_mod_less [of "?s div 60" "?t div 60" 60] by metis
  qed
  have small: "m < 100" "m' < 100" "d < 100" "d' < 100" using sa(4,7) sb(4,7) by simp_all
  note less = date_text_less [OF sa(2) sb(2) small hours(1) [OF st(1)] hours(1) [OF st(2)]
    hours(2) [OF st(1)] hours(2) [OF st(2)] hours(3) [OF st(1)] hours(3) [OF st(2)]]
  from assms(1) have "a div 86400 < b div 86400 \<or> a div 86400 = b div 86400 \<and> ?s < ?t"
    by (simp add: div_mod_less [of a b 86400])
  then show ?thesis
  proof
    assume "a div 86400 < b div 86400"
    from civil_mono [OF this ca cb] show ?thesis
      unfolding second_text_eq ca cb prod.case less by blast
  next
    assume eq: "a div 86400 = b div 86400 \<and> ?s < ?t"
    with ca cb have "y = y'" "m = m'" "d = d'" by simp_all
    with clock eq show ?thesis
      unfolding second_text_eq ca cb prod.case less by blast
  qed
qed

lemma length_second_text:
  assumes "a < 315537897600"
  shows "length (second_text a) = 19"
proof -
  obtain y m d where ca: "civil (a div 86400) = (y, m, d)" by (cases "civil (a div 86400)")
  have "a div 86400 < 3652059" using assms by auto
  from civil_spec(2) [OF ca this] show ?thesis
    unfolding second_text_eq ca prod.case by (simp add: date_text_def)
qed

section \<open>Fractions\<close>

lemma length_digits9 [simp]: "length (digits9 n) = 9"
  by (simp add: digits9_def)

lemma digits9_digits: "c \<in> set (digits9 n) \<Longrightarrow> \<exists>d<10. c = digit_char d"
proof -
  assume "c \<in> set (digits9 n)"
  then obtain k where "c = digit_char (n div 10 ^ k mod 10)" unfolding digits9_def set_map by blast
  moreover have "n div 10 ^ k mod 10 < 10" by simp
  ultimately show ?thesis by blast
qed

lemma digits_val_append:
  "digits_val n xs = Some m \<Longrightarrow> digits_val n (xs @ ys) = digits_val m ys"
  by (induction xs arbitrary: n) (auto split: option.splits)

lemma digits_val_zeros: "digits_val n (replicate k (CHR ''0'')) = Some (n * 10 ^ k)"
proof (induction k arbitrary: n)
  case (Suc k)
  have "digit_val (CHR ''0'') = Some 0" by code_simp
  with Suc show ?case by (simp add: algebra_simps)
qed simp

lemma digits_val_digits:
  "\<forall>c \<in> set xs. \<exists>d<10. c = digit_char d \<Longrightarrow> \<exists>m. digits_val n xs = Some m"
  by (induction xs arbitrary: n) auto

lemma horner: "(n::nat) div 10 ^ Suc k * 10 + n div 10 ^ k mod 10 = n div 10 ^ k"
proof -
  have "n div 10 ^ Suc k = n div 10 ^ k div 10" by (simp only: power_Suc2 div_mult2_eq)
  then show ?thesis by simp
qed

lemma digits9_val:
  assumes "n < 1000000000"
  shows "digits_val 0 (digits9 n) = Some n"
proof -
  have d: "digits_val (n div 10 ^ Suc k) (digit_char (n div 10 ^ k mod 10) # cs) = digits_val (n div 10 ^ k) cs"
    for k cs
    by (simp only: digits_val.simps digit_val_digit_char horner option.case nat_int mod_less_divisor zero_less_numeral)
  have z: "0 = n div 10 ^ Suc 8" using assms by simp
  have k: "8 = Suc 7" "7 = Suc 6" "6 = Suc 5" "5 = Suc 4" "4 = Suc 3" "3 = Suc 2" "2 = Suc 1" "1 = Suc 0"
    by simp_all
  have "digits_val (n div 10 ^ Suc 8) (digits9 n) = Some (n div 10 ^ 0)"
    unfolding digits9_def list.map
    by (subst d, subst k(1), subst d, subst k(2), subst d, subst k(3), subst d, subst k(4), subst d,
        subst k(5), subst d, subst k(6), subst d, subst k(7), subst d, subst k(8), subst d, subst digits_val.simps, rule refl)
  then show ?thesis using z by simp
qed

definition fraction_digits :: "nat \<Rightarrow> string" where
  "fraction_digits n = rev (dropWhile (\<lambda>c. c = CHR ''0'') (rev (digits9 n)))"

lemma fraction_text_eq: "fraction_text n = (if n = 0 then [] else CHR ''.'' # fraction_digits n)"
  by (simp add: fraction_text_def fraction_digits_def)

lemma digits9_split:
  "digits9 n = fraction_digits n @ replicate (9 - length (fraction_digits n)) (CHR ''0'')"
proof -
  let ?p = "\<lambda>c. c = CHR ''0''"
  have "rev (digits9 n) = takeWhile ?p (rev (digits9 n)) @ dropWhile ?p (rev (digits9 n))" by simp
  then have e: "digits9 n = fraction_digits n @ rev (takeWhile ?p (rev (digits9 n)))"
    unfolding fraction_digits_def by (metis rev_append rev_rev_ident)
  have "\<forall>c \<in> set (takeWhile ?p (rev (digits9 n))). c = CHR ''0''" by (auto dest: set_takeWhileD)
  then have "rev (takeWhile ?p (rev (digits9 n)))
      = replicate (length (takeWhile ?p (rev (digits9 n)))) (CHR ''0'')"
    by (metis replicate_length_same rev_replicate)
  moreover have "length (takeWhile ?p (rev (digits9 n))) = 9 - length (fraction_digits n)"
    using arg_cong [OF e, of length] by simp
  ultimately show ?thesis using e by simp
qed

lemma fraction_digits_le: "length (fraction_digits n) \<le> 9"
  using length_dropWhile_le [of _ "rev (digits9 n)"] by (simp add: fraction_digits_def)

lemma fraction_digits_digits: "c \<in> set (fraction_digits n) \<Longrightarrow> \<exists>d<10. c = digit_char d"
  using digits9_digits [of c n] digits9_split [of n] by (metis UnCI set_append)

lemma digit_val_cases: "\<exists>d<10. c = digit_char d \<Longrightarrow> digit_val c \<noteq> None"
  by auto

lemma fraction_digits_val:
  assumes "n < 1000000000"
  obtains m where "digits_val 0 (fraction_digits n) = Some m" "m * 10 ^ (9 - length (fraction_digits n)) = n"
proof -
  obtain m where m: "digits_val 0 (fraction_digits n) = Some m"
    using digits_val_digits [of "fraction_digits n"] fraction_digits_digits by blast
  have "digits_val 0 (digits9 n) = Some (m * 10 ^ (9 - length (fraction_digits n)))"
    by (subst digits9_split) (simp add: digits_val_append [OF m] digits_val_zeros)
  with digits9_val [OF assms] m that show ?thesis by simp
qed

lemma fraction_digits_nonempty:
  assumes "n < 1000000000" "n \<noteq> 0"
  shows "fraction_digits n \<noteq> []"
proof
  assume e: "fraction_digits n = []"
  from fraction_digits_val [OF assms(1)] obtain m where
    "digits_val 0 (fraction_digits n) = Some m" "m * 10 ^ (9 - length (fraction_digits n)) = n" by blast
  with e assms show False by simp
qed

lemma parse_fraction_text:
  assumes "n < 1000000000"
  shows "parse_fraction (fraction_text n @ ''Z'') = (n, ''Z'')"
proof (cases "n = 0")
  case False
  let ?f = "fraction_digits n"
  have z: "digit_val (CHR ''Z'') = None" by code_simp
  have all: "\<forall>c \<in> set ?f. digit_val c \<noteq> None" using fraction_digits_digits digit_val_cases by blast
  obtain c cs where f: "?f = c # cs" using fraction_digits_nonempty [OF assms False] by (cases ?f) auto
  with all have c: "digit_val c \<noteq> None" by simp
  have tw: "takeWhile (\<lambda>c. digit_val c \<noteq> None) (?f @ ''Z'') = ?f"
    using all z by (subst takeWhile_append2) (auto simp: z)
  have t9: "take 9 ?f = ?f" using fraction_digits_le by simp
  from fraction_digits_val [OF assms] obtain m where
    m: "digits_val 0 ?f = Some m" "m * 10 ^ (9 - length ?f) = n" by blast
  have s: "fraction_text n @ ''Z'' = CHR ''.'' # ?f @ ''Z''" using False by (simp add: fraction_text_eq)
  have h: "length (CHR ''.'' # ?f @ ''Z'') \<ge> 2 \<and> (CHR ''.'' # ?f @ ''Z'') ! 0 = CHR ''.''
      \<and> digit_val ((CHR ''.'' # ?f @ ''Z'') ! 1) \<noteq> None"
    using c by (simp add: f)
  show ?thesis
    unfolding s parse_fraction_def if_P [OF h] list.sel tw t9 Let_def m(1) option.case m(2) by simp
qed (simp add: fraction_text_def parse_fraction_def)

section \<open>Fields\<close>

lemma digits_val_pad2: "n < 100 \<Longrightarrow> digits_val 0 (pad2 n) = Some n"
  by (simp add: pad2_def)

lemma digits_val_pad4: "n < 10000 \<Longrightarrow> digits_val 0 (pad4 n) = Some n"
proof -
  assume n: "n < 10000"
  have "digits_val k (pad2 a) = Some (k * 100 + a)" if "a < 100" for k a
    using that by (simp add: pad2_def algebra_simps)
  moreover have "digits_val 0 (pad2 (n div 100)) = Some (n div 100)" using n by (intro digits_val_pad2) simp
  ultimately have "digits_val 0 (pad2 (n div 100) @ pad2 (n mod 100)) = Some (n div 100 * 100 + n mod 100)"
    by (simp add: digits_val_append)
  then show ?thesis using n by (simp add: pad4_def)
qed

lemma field_pad2: "n < 100 \<Longrightarrow> lo \<le> n \<Longrightarrow> n \<le> hi \<Longrightarrow> field (pad2 n) lo hi = Some n"
  by (simp add: field_def digits_val_pad2)

lemma field_pad4: "n < 10000 \<Longrightarrow> field (pad4 n) 0 9999 = Some n"
  by (simp add: field_def digits_val_pad4)

lemma two_chars: "length xs = 2 \<Longrightarrow> \<exists>a b. xs = [a, b]"
  by (cases xs; cases "tl xs") auto

lemma four_chars: "length xs = 4 \<Longrightarrow> \<exists>a b c d. xs = [a, b, c, d]"
  by (cases xs; cases "tl xs"; cases "tl (tl xs)"; cases "tl (tl (tl xs))") auto

lemma date_text_fields:
  fixes y m d h i x :: nat and r :: string
  assumes "y < 10000"
  defines "s \<equiv> date_text y m d h i x"
  shows "take 4 (s @ r) = pad4 y" "take 2 (drop 5 (s @ r)) = pad2 m" "take 2 (drop 8 (s @ r)) = pad2 d"
    "take 2 (drop 11 (s @ r)) = pad2 h" "take 2 (drop 14 (s @ r)) = pad2 i" "take 2 (drop 17 (s @ r)) = pad2 x"
    "(s @ r) ! 4 = CHR ''-''" "(s @ r) ! 7 = CHR ''-''" "(s @ r) ! 10 = CHR ''T''"
    "(s @ r) ! 13 = CHR '':''" "(s @ r) ! 16 = CHR '':''"
proof -
  obtain a b c e where y: "pad4 y = [a, b, c, e]" using four_chars [OF length_pad4 [OF assms(1)]] by blast
  obtain m1 m2 where m: "pad2 m = [m1, m2]" using two_chars [OF length_pad2] by blast
  obtain d1 d2 where d: "pad2 d = [d1, d2]" using two_chars [OF length_pad2] by blast
  obtain h1 h2 where h: "pad2 h = [h1, h2]" using two_chars [OF length_pad2] by blast
  obtain i1 i2 where i: "pad2 i = [i1, i2]" using two_chars [OF length_pad2] by blast
  obtain x1 x2 where x: "pad2 x = [x1, x2]" using two_chars [OF length_pad2] by blast
  show "take 4 (s @ r) = pad4 y" "take 2 (drop 5 (s @ r)) = pad2 m" "take 2 (drop 8 (s @ r)) = pad2 d"
    "take 2 (drop 11 (s @ r)) = pad2 h" "take 2 (drop 14 (s @ r)) = pad2 i" "take 2 (drop 17 (s @ r)) = pad2 x"
    "(s @ r) ! 4 = CHR ''-''" "(s @ r) ! 7 = CHR ''-''" "(s @ r) ! 10 = CHR ''T''"
    "(s @ r) ! 13 = CHR '':''" "(s @ r) ! 16 = CHR '':''"
    unfolding s_def date_text_def y m d h i x by simp_all
qed

lemma clock_split: "x div 3600 * 3600 + x div 60 mod 60 * 60 + x mod 60 = (x::nat)"
proof -
  have "x div 3600 = x div 60 div 60" by (simp add: div_mult2_eq [symmetric])
  moreover have "x div 60 div 60 * 60 + x div 60 mod 60 = x div 60" "x div 60 * 60 + x mod 60 = x" by simp_all
  ultimately show ?thesis by linarith
qed

lemma in_range_split:
  assumes "in_range t"
  defines "a \<equiv> nat t div 1000000000" and "n \<equiv> nat t mod 1000000000"
  shows "a < 315537897600" "n < 1000000000" "t = int a * 1000000000 + int n" "stamp t = second_text a @ fraction_text n @ ''Z''"
proof -
  have t: "nat t < 315537897600 * 1000000000" using assms(1) by (simp add: in_range_def nat_less_iff)
  then show "a < 315537897600" unfolding a_def by (rule less_mult_imp_div_less)
  show "n < 1000000000" by (simp add: n_def)
  have "a * 1000000000 + n = nat t" unfolding a_def n_def by (rule div_mult_mod_eq)
  then have "int (nat t) = int (a * 1000000000 + n)" by (simp only:)
  with assms(1) show "t = int a * 1000000000 + int n" by (simp add: in_range_def)
  show "stamp t = second_text a @ fraction_text n @ ''Z''" by (simp add: stamp_def a_def n_def)
qed

lemma parse_second_text:
  assumes a: "a < 315537897600" and n: "n < 1000000000"
  shows "parse_time (second_text a @ fraction_text n @ ''Z'') = Some (int a * 1000000000 + int n)"
proof -
  obtain y m d where ca: "civil (a div 86400) = (y, m, d)" by (cases "civil (a div 86400)")
  let ?s = "a mod 86400"
  let ?h = "?s div 3600" and ?i = "?s div 60 mod 60" and ?x = "?s mod 60" and ?r = "fraction_text n @ ''Z''"
  have lim: "a div 86400 < 3652059" using a by auto
  note c = civil_spec [OF ca lim]
  have st: "second_text a = date_text y m d ?h ?i ?x" unfolding second_text_eq ca by simp
  note f = date_text_fields [OF c(2), where m = m and d = d and h = ?h and i = ?i and x = ?x and r = ?r]
  have f12: "length (date_text y m d ?h ?i ?x) = 19" using c(2) by (simp add: date_text_def)
  have s: "?s < 86400" by simp
  have h: "?h \<le> 23" using s by linarith
  have ix: "?i \<le> 59" "?x \<le> 59" by linarith+
  have v: "field (pad4 y) 0 9999 = Some y" "field (pad2 m) 1 12 = Some m" "field (pad2 ?h) 0 23 = Some ?h"
    "field (pad2 ?i) 0 59 = Some ?i" "field (pad2 ?x) 0 59 = Some ?x"
    "field (pad2 d) 1 (month_lengths y ! (m - 1)) = Some d"
    using c h ix by (intro field_pad4 field_pad2; linarith)+
  have len: "\<not> length (date_text y m d ?h ?i ?x @ ?r) < 19" using f12 by simp
  have dr: "drop 19 (date_text y m d ?h ?i ?x @ ?r) = ?r" using f12 by simp
  have z: "parse_zone ''Z'' = Some 0" by (simp add: parse_zone_def)
  have tot: "days_of y m d * 86400 + ?h * 3600 + ?i * 60 + ?x = a"
    unfolding c(8) using clock_split [of ?s] div_mult_mod_eq [of a 86400] by (simp only: add.assoc)
  show ?thesis
    unfolding st parse_time_def if_not_P [OF len] f(1-6) v option.case prod.case
    unfolding f(7-11) dr parse_fraction_text [OF n] Let_def prod.case z option.case tot
    by simp
qed

section \<open>The order of fractions\<close>

lemma digit_char_less_Z [simp]: "d < 10 \<Longrightarrow> digit_char d < CHR ''Z''"
  by (simp add: less_char_def)

lemma digit_val_less_iff:
  assumes "digit_val c = Some d" "digit_val c' = Some d'" "c < c'"
  shows "nat d < nat d'"
proof -
  have "d = of_char c - 48" "d' = of_char c' - 48" "CHR ''0'' \<le> c"
    using assms(1,2) by (auto simp: digit_val_def split: if_splits)
  moreover have "of_char c < (of_char c' :: int)" using assms(3) 
    by (metis less_char_def of_nat_less_iff of_nat_of_char)
  moreover have "48 \<le> (of_char c :: int)" if "CHR ''0'' \<le> c"
  proof -
    have "of_char (CHR ''0'') \<le> (of_char c :: nat)" using that by (simp add: less_eq_char_def)
    then have "int (of_char (CHR ''0'')) \<le> int (of_char c)" by (simp only: of_nat_le_iff)
    then show ?thesis by (simp add: of_nat_of_char)
  qed
  ultimately show ?thesis by simp
qed

lemma digit_val_small: "digit_val c = Some d \<Longrightarrow> nat d < 10"
proof -
  assume a: "digit_val c = Some d"
  then have d: "d = of_char c - 48" "c \<le> CHR ''9''" by (auto simp: digit_val_def split: if_splits)
  then have "of_char c \<le> (of_char (CHR ''9'') :: nat)" by (simp add: less_eq_char_def)
  then have "int (of_char c) \<le> int (of_char (CHR ''9''))" by (simp only: of_nat_le_iff)
  with d show ?thesis by (simp add: of_nat_of_char)
qed

lemma digits_val_prefix_less:
  assumes "length xs = length ys" "a < b" "digits_val a xs = Some m" "digits_val b ys = Some k"
  shows "m < k"
  using assms
proof (induction xs ys arbitrary: a b rule: list_induct2)
  case (Cons x xs y ys)
  from Cons.prems obtain d e where de: "digit_val x = Some d" "digit_val y = Some e"
    "digits_val (a * 10 + nat d) xs = Some m" "digits_val (b * 10 + nat e) ys = Some k"
    by (auto split: option.splits)
  have "a * 10 + nat d < b * 10 + nat e" using Cons.prems(1) digit_val_small [OF de(1)] by linarith
  from Cons.IH [OF this de(3,4)] show ?case .
qed simp

lemma digits_val_less:
  assumes "length xs = length ys" "xs < ys" "digits_val a xs = Some m" "digits_val a ys = Some k"
  shows "m < k"
  using assms
proof (induction xs ys arbitrary: a rule: list_induct2)
  case (Cons x xs y ys)
  from Cons.prems obtain d e where de: "digit_val x = Some d" "digit_val y = Some e"
    "digits_val (a * 10 + nat d) xs = Some m" "digits_val (a * 10 + nat e) ys = Some k"
    by (auto split: option.splits)
  show ?case
  proof (cases "x = y")
    case True
    with Cons.prems de Cons.IH [of "a * 10 + nat d"] show ?thesis by simp
  next
    case False
    with Cons.prems have "x < y" by simp
    from digit_val_less_iff [OF de(1,2) this] have "a * 10 + nat d < a * 10 + nat e" by simp
    from digits_val_prefix_less [OF Cons.hyps this de(3,4)] show ?thesis .
  qed
qed simp

lemma fraction_order:
  assumes "n < 1000000000" "p < 1000000000" "n < p"
    and "fraction_digits n = us @ b # bs" "fraction_digits p = us @ c # cs" "b \<noteq> c"
  shows "b < c"
proof (rule ccontr)
  assume "\<not> b < c"
  with assms(6) have cb: "c < b" by simp
  have "digits9 p = us @ c # cs @ replicate (9 - length (fraction_digits p)) (CHR ''0'')"
    using digits9_split [of p] assms(5) by simp
  moreover have "digits9 n = us @ b # bs @ replicate (9 - length (fraction_digits n)) (CHR ''0'')"
    using digits9_split [of n] assms(4) by simp
  ultimately have "digits9 p < digits9 n" using cb by (simp add: lex_append)
  from digits_val_less [OF _ this digits9_val [OF assms(2)] digits9_val [OF assms(1)]] assms(3)
  show False by simp
qed

lemma fraction_extends:
  assumes n: "n < 1000000000" and p: "p < 1000000000" and e: "fraction_digits n = fraction_digits p @ cs"
  shows "p \<le> n"
proof -
  obtain m where m: "digits_val 0 (fraction_digits p) = Some m" "m * 10 ^ (9 - length (fraction_digits p)) = p"
    using fraction_digits_val [OF p] by blast
  have "\<forall>c \<in> set cs. \<exists>d<10. c = digit_char d" using e fraction_digits_digits [of _ n] by auto
  then obtain k where k: "digits_val m cs = Some k" using digits_val_digits by blast
  have k0: "m * 10 ^ length cs \<le> k" using k
  proof (induction cs arbitrary: m)
    case (Cons c cs)
    then obtain d where d: "digits_val (m * 10 + nat d) cs = Some k" by (auto split: option.splits)
    have "m * 10 ^ length (c # cs) \<le> (m * 10 + nat d) * 10 ^ length cs" by (simp add: algebra_simps)
    with Cons.IH [OF d] show ?case by linarith
  qed simp
  obtain m' where m': "digits_val 0 (fraction_digits n) = Some m'" "m' * 10 ^ (9 - length (fraction_digits n)) = n"
    using fraction_digits_val [OF n] by blast
  have "m' = k" using m'(1) digits_val_append [OF m(1), of cs] k e by simp
  have len: "9 - length (fraction_digits p) = length cs + (9 - length (fraction_digits n))"
    using e fraction_digits_le [of n] by simp
  have "p = m * 10 ^ length cs * 10 ^ (9 - length (fraction_digits n))"
    using m(2) len by (simp add: power_add)
  also have "\<dots> \<le> k * 10 ^ (9 - length (fraction_digits n))" using k0 by (rule mult_le_mono1)
  also have "\<dots> = n" using m'(2) \<open>m' = k\<close> by simp
  finally show ?thesis .
qed

lemma fraction_char_less_Z: "c \<in> set (fraction_text n) \<Longrightarrow> c < CHR ''Z''"
  using fraction_digits_digits [of c n]
  by (auto simp: fraction_text_eq less_char_def split: if_splits)

lemma prefix_later:
  assumes "\<forall>c \<in> set ys. c < CHR ''Z''" "prefix xs ys"
  shows "\<not> xs @ ''Z'' < ys @ ''Z''"
proof -
  obtain zs where zs: "ys = xs @ zs" using assms(2) by (auto elim: prefixE)
  show ?thesis
  proof (cases zs)
    case (Cons c cs)
    with zs assms(1) have "c < CHR ''Z''" by auto
    then have "\<not> CHR ''Z'' < c" "CHR ''Z'' \<noteq> c" by auto
    with zs Cons show ?thesis by (simp add: lex_append)
  qed (simp add: zs)
qed

lemma fraction_less:
  assumes n: "n < 1000000000" and p: "p < 1000000000" and np: "n < p"
  shows "fraction_text n @ ''Z'' < fraction_text p @ ''Z'' \<longleftrightarrow> \<not> prefix (fraction_text n) (fraction_text p)"
proof
  assume "fraction_text n @ ''Z'' < fraction_text p @ ''Z''"
  then show "\<not> prefix (fraction_text n) (fraction_text p)"
    using prefix_later fraction_char_less_Z by blast
next
  assume np': "\<not> prefix (fraction_text n) (fraction_text p)"
  then have n0: "n \<noteq> 0" by (cases "n = 0") (simp_all add: fraction_text_eq)
  have eqs: "fraction_text n = CHR ''.'' # fraction_digits n" "fraction_text p = CHR ''.'' # fraction_digits p"
    using n0 np by (simp_all add: fraction_text_eq)
  have "\<not> prefix (fraction_digits p) (fraction_digits n)"
    using fraction_extends [OF n p] np by (auto elim!: prefixE)
  with np' have "parallel (fraction_digits n) (fraction_digits p)" by (auto simp: eqs intro!: parallelI)
  from parallel_decomp [OF this] obtain us b bs c cs where
    s: "b \<noteq> c" "fraction_digits n = us @ b # bs" "fraction_digits p = us @ c # cs" by blast
  from fraction_order [OF n p np s(2,3,1)] have "b < c" .
  then show "fraction_text n @ ''Z'' < fraction_text p @ ''Z''"
    by (simp add: eqs s lex_append)
qed

lemma stamp_order_seconds:
  assumes "in_range t" "in_range u" "t div 1000000000 < u div 1000000000"
  shows "stamp t < stamp u"
proof -
  have nn: "0 \<le> t" "0 \<le> u" using assms by (auto simp: in_range_def)
  have lt: "nat t div 1000000000 < nat u div 1000000000"
  proof -
    have "nat t div 1000000000 = nat (t div 1000000000)" "nat u div 1000000000 = nat (u div 1000000000)"
      using nn by (simp_all add: nat_div_distrib)
    moreover have "0 \<le> t div 1000000000" using nn(1) by simp
    ultimately show ?thesis using assms(3) by simp
  qed
  note u = in_range_split [OF assms(2)]
  note t = in_range_split [OF assms(1)]
  have "second_text (nat t div 1000000000) < second_text (nat u div 1000000000)"
    by (rule second_text_mono [OF lt u(1)])
  moreover have "length (second_text (nat t div 1000000000)) = length (second_text (nat u div 1000000000))"
    by (simp add: length_second_text t(1) u(1))
  ultimately show ?thesis unfolding t(4) u(4) by (simp add: lex_append)
qed

lemma parse_time_stamp: "in_range t \<Longrightarrow> parse_time (stamp t) = Some t"
  using parse_second_text in_range_split by metis

end
