(* ===== verification/Go_Time_Props.thy ===== *)
theory Go_Time_Props
  imports Go_Time
begin

text \<open>The properties of time stamps: texts are read back exactly, and how their order relates to time.\<close>

text \<open>
  C40: reading a stored time stamp back gives the instant that was written, to the
  nanosecond, for every instant of the years 1 to 9999.
\<close>

theorem stamp_roundtrip:
  assumes "in_range t"
  shows "parse_time (stamp t) = Some t \<and> parse_stamp (stamp t) = t"
  by (simp add: parse_time_stamp [OF assms] parse_stamp_def)

theorem stamp_roundtrip_witness:
  "parse_time (stamp 63839232000000000120) = Some 63839232000000000120"
  using stamp_roundtrip [of 63839232000000000120] by (simp add: in_range_def)

text \<open>
  The order of stored texts, which the SQL statements compare, is the order of time
  with one exception: within a second, a fraction whose digits are extended by those of a
  later instant sorts after it (the layout drops trailing zeros and \<^verbatim>\<open>Z\<close> sorts after the
  digits and the dot).
\<close>

theorem stamp_order:
  assumes "in_range t" "in_range u" "t < u"
  shows "stamp t < stamp u \<longleftrightarrow>
    \<not> (t div 1000000000 = u div 1000000000
       \<and> prefix (fraction_text (nat t mod 1000000000)) (fraction_text (nat u mod 1000000000)))"
proof (cases "t div 1000000000 = u div 1000000000")
  case True
  note t = in_range_split [OF assms(1)] and u = in_range_split [OF assms(2)]
  have nn: "0 \<le> t" "0 \<le> u" using assms by (auto simp: in_range_def)
  then have sec: "nat t div 1000000000 = nat u div 1000000000" using True by (metis nat_div_distrib nat_numeral)
  then have "nat t mod 1000000000 < nat u mod 1000000000" using t(3) u(3) assms(3) by simp
  from fraction_less [OF t(2) u(2) this] True show ?thesis
    unfolding t(4) u(4) sec by (simp add: lex_append)
next
  case False
  then have "t div 1000000000 < u div 1000000000"
    using assms(3) by (simp add: order_less_le zdiv_mono1)
  with False stamp_order_seconds [OF assms(1,2)] show ?thesis by simp
qed

theorem stamp_order_witness:
  "stamp 0 < stamp 1000000000 \<and> \<not> stamp 1000000000 < stamp 1500000000"
  using stamp_order [of 0 1000000000] stamp_order [of 1000000000 1500000000]
  by (simp add: in_range_def fraction_text_def)

end
