(* ===== verification/Schema.thy ===== *)
theory Schema
  imports World
begin

text \<open>
  The SQL tables (src/internal/database/database.go, \<^verbatim>\<open>singleUserSchema\<close> and the root folder
  index of \<^verbatim>\<open>Migrate\<close>) as a value: each table has its rows, its uniqueness constraints and
  its foreign keys, and an INSERT, UPDATE or DELETE gives either the new database or the
  message of the constraint it would break. SQL's NULL is \<open>None\<close>; two NULLs are distinct
  for a UNIQUE constraint. The locale \<open>sql_table\<close> is what the repositories rely on: with a
  primary key, the statements act on the table as on a finite map.
\<close>

section \<open>Constraints\<close>

text \<open>A uniqueness constraint: SQLite's message, and when two rows clash.\<close>

type_synonym 'r unique_constraint = "string \<times> ('r \<Rightarrow> 'r \<Rightarrow> bool)"

definition first_violated :: "'r unique_constraint list \<Rightarrow> 'r list \<Rightarrow> string option" where
  "first_violated cs rows =
     map_option fst (find (\<lambda>(m, clash). \<not> sorted_wrt (\<lambda>x y. \<not> clash x y) rows) cs)"

record 'r sql_table =
  t_rows :: "database \<Rightarrow> 'r list"
  t_put :: "'r list \<Rightarrow> database \<Rightarrow> database"
  t_unique :: "'r unique_constraint list"
  t_refs :: "database \<Rightarrow> bool"

definition foreign_key_failed :: string where
  "foreign_key_failed = ''FOREIGN KEY constraint failed''"

section \<open>The five tables\<close>

definition user_table :: "user_row sql_table" where
  "user_table = \<lparr>t_rows = users, t_put = (\<lambda>rs. users_update (\<lambda>_. rs)),
     t_unique = [(''UNIQUE constraint failed: users.id'', \<lambda>x y. u_id x = u_id y),
                 (''UNIQUE constraint failed: users.username'', \<lambda>x y. u_username x = u_username y)],
     t_refs = (\<lambda>_. True)\<rparr>"

definition session_table :: "session_row sql_table" where
  "session_table = \<lparr>t_rows = sessions, t_put = (\<lambda>rs. sessions_update (\<lambda>_. rs)),
     t_unique = [(''UNIQUE constraint failed: sessions.id'', \<lambda>x y. s_id x = s_id y),
                 (''UNIQUE constraint failed: sessions.token_hash'', \<lambda>x y. s_token_hash x = s_token_hash y)],
     t_refs = (\<lambda>_. True)\<rparr>"

text \<open>\<^verbatim>\<open>parent_id TEXT REFERENCES folders(id)\<close> and \<^verbatim>\<open>folder_id TEXT REFERENCES folders(id)\<close>.\<close>

definition parents_exist :: "folder_row list \<Rightarrow> bool" where
  "parents_exist rows \<longleftrightarrow>
     list_all (\<lambda>d. case d_parent_id d of None \<Rightarrow> True | Some p \<Rightarrow> p \<in> d_id ` set rows) rows"

definition folders_exist :: "folder_row list \<Rightarrow> file_row list \<Rightarrow> bool" where
  "folders_exist rows fs \<longleftrightarrow>
     list_all (\<lambda>f. case f_folder_id f of None \<Rightarrow> True | Some p \<Rightarrow> p \<in> d_id ` set rows) fs"

definition folder_table :: "folder_row sql_table" where
  "folder_table = \<lparr>t_rows = folders, t_put = (\<lambda>rs. folders_update (\<lambda>_. rs)),
     t_unique = [(''UNIQUE constraint failed: folders.id'', \<lambda>x y. d_id x = d_id y),
                 (''UNIQUE constraint failed: folders.parent_id, folders.name'',
                   \<lambda>x y. d_parent_id x \<noteq> None \<and> d_parent_id x = d_parent_id y \<and> d_name x = d_name y),
                 (''UNIQUE constraint failed: folders.name, folders.mount'',
                   \<lambda>x y. d_parent_id x = None \<and> d_parent_id y = None \<and> d_name x = d_name y \<and> d_mount x = d_mount y)],
     t_refs = (\<lambda>db. parents_exist (folders db))\<rparr>"

definition file_table :: "file_row sql_table" where
  "file_table = \<lparr>t_rows = files, t_put = (\<lambda>rs. files_update (\<lambda>_. rs)),
     t_unique = [(''UNIQUE constraint failed: files.id'', \<lambda>x y. f_id x = f_id y),
                 (''UNIQUE constraint failed: files.storage_key'', \<lambda>x y. f_storage_key x = f_storage_key y)],
     t_refs = (\<lambda>db. folders_exist (folders db) (files db))\<rparr>"

definition audit_table :: "audit_row sql_table" where
  "audit_table = \<lparr>t_rows = audit_events, t_put = (\<lambda>rs. audit_events_update (\<lambda>_. rs)),
     t_unique = [(''UNIQUE constraint failed: audit_events.id'', \<lambda>x y. a_id x = a_id y)],
     t_refs = (\<lambda>_. True)\<rparr>"

section \<open>Statements\<close>

text \<open>
  A statement that would leave a constraint broken is refused as a whole. An UPDATE or a
  DELETE reports the number of rows it selected.
\<close>

definition put_rows :: "'r sql_table \<Rightarrow> 'r list \<Rightarrow> database \<Rightarrow> string + database" where
  "put_rows T rows db =
     (let db1 = t_put T rows db in
      case first_violated (t_unique T) rows of
        Some m \<Rightarrow> Inl m
      | None \<Rightarrow> if t_refs T db1 then Inr db1 else Inl foreign_key_failed)"

definition insert_into :: "'r sql_table \<Rightarrow> 'r \<Rightarrow> database \<Rightarrow> string + unit \<times> database" where
  "insert_into T r db = (case put_rows T (t_rows T db @ [r]) db of Inl m \<Rightarrow> Inl m | Inr db1 \<Rightarrow> Inr ((), db1))"

definition update_where ::
  "'r sql_table \<Rightarrow> ('r \<Rightarrow> bool) \<Rightarrow> ('r \<Rightarrow> 'r) \<Rightarrow> database \<Rightarrow> string + int \<times> database" where
  "update_where T p f db =
     (case put_rows T (map (\<lambda>r. if p r then f r else r) (t_rows T db)) db of
        Inl m \<Rightarrow> Inl m | Inr db1 \<Rightarrow> Inr (int (length (filter p (t_rows T db))), db1))"

definition delete_where :: "'r sql_table \<Rightarrow> ('r \<Rightarrow> bool) \<Rightarrow> database \<Rightarrow> string + int \<times> database" where
  "delete_where T p db =
     Inr (int (length (filter p (t_rows T db))), t_put T (filter (\<lambda>r. \<not> p r) (t_rows T db)) db)"

text \<open>
  Deleting folders: \<^verbatim>\<open>ON DELETE CASCADE\<close> takes the folders below, \<^verbatim>\<open>ON DELETE SET NULL\<close> moves
  the files of all of them to the root. The affected-rows count has only the folders
  the statement selected.
\<close>

definition below :: "folder_row list \<Rightarrow> string list \<Rightarrow> string list" where
  "below rows ids =
     map d_id (filter (\<lambda>d. d_id d \<in> set ids \<or>
                           (case d_parent_id d of None \<Rightarrow> False | Some p \<Rightarrow> p \<in> set ids)) rows)"

fun cascade :: "nat \<Rightarrow> folder_row list \<Rightarrow> string list \<Rightarrow> string list" where
  "cascade 0 rows ids = ids"
| "cascade (Suc n) rows ids = cascade n rows (below rows ids)"

definition delete_folders :: "(folder_row \<Rightarrow> bool) \<Rightarrow> database \<Rightarrow> string + int \<times> database" where
  "delete_folders p db =
     (let rows = folders db;
          gone = cascade (length rows) rows (map d_id (filter p rows))
      in Inr (int (length (filter p rows)),
              db\<lparr>folders := filter (\<lambda>d. d_id d \<notin> set gone) rows,
                 files := map (\<lambda>f. case f_folder_id f of
                                     None \<Rightarrow> f
                                   | Some i \<Rightarrow> if i \<in> set gone then f\<lparr>f_folder_id := None\<rparr> else f) (files db)\<rparr>))"

text \<open>\<^verbatim>\<open>LIMIT l OFFSET o\<close>: a negative limit is no limit, a negative offset is zero.\<close>

definition window :: "int \<Rightarrow> int \<Rightarrow> 'a list \<Rightarrow> 'a list" where
  "window limit offset xs = (let ys = drop (nat offset) xs in if limit < 0 then ys else take (nat limit) ys)"

section \<open>The database invariant\<close>

definition table_ok :: "'r sql_table \<Rightarrow> database \<Rightarrow> bool" where
  "table_ok T db \<longleftrightarrow> first_violated (t_unique T) (t_rows T db) = None \<and> t_refs T db"

definition db_ok :: "database \<Rightarrow> bool" where
  "db_ok db \<longleftrightarrow> table_ok user_table db \<and> table_ok session_table db \<and> table_ok folder_table db
     \<and> table_ok file_table db \<and> table_ok audit_table db"

lemma first_violated_None:
  "first_violated cs rows = None \<longleftrightarrow> (\<forall>(m, clash) \<in> set cs. sorted_wrt (\<lambda>x y. \<not> clash x y) rows)"
  by (auto simp: first_violated_def find_None_iff)

lemma sorted_wrt_key: "sorted_wrt (\<lambda>x y. k x \<noteq> k y) rows \<longleftrightarrow> distinct (map k rows)"
  by (induction rows) (auto simp: image_iff)

lemma sorted_wrt_filter': "sorted_wrt R xs \<Longrightarrow> sorted_wrt R (filter p xs)"
  by (induction xs) auto

lemma first_violated_filter:
  "first_violated cs rows = None \<Longrightarrow> first_violated cs (filter p rows) = None"
  by (auto simp: first_violated_None intro: sorted_wrt_filter')

lemma put_rows_Inr:
  "put_rows T rows db = Inr db1 \<longleftrightarrow>
     first_violated (t_unique T) rows = None \<and> t_refs T db1 \<and> db1 = t_put T rows db"
  by (auto simp: put_rows_def Let_def split: option.splits if_splits)

lemma insert_into_Inr:
  "insert_into T r db = Inr (x, db1) \<longleftrightarrow>
     first_violated (t_unique T) (t_rows T db @ [r]) = None \<and> t_refs T db1
     \<and> db1 = t_put T (t_rows T db @ [r]) db"
  by (auto simp: insert_into_def put_rows_Inr split: sum.splits)
     (simp add: put_rows_def Let_def split: option.splits if_splits)

lemma update_where_Inr:
  "update_where T p f db = Inr (n, db1) \<longleftrightarrow>
     first_violated (t_unique T) (map (\<lambda>r. if p r then f r else r) (t_rows T db)) = None \<and> t_refs T db1
     \<and> db1 = t_put T (map (\<lambda>r. if p r then f r else r) (t_rows T db)) db
     \<and> n = int (length (filter p (t_rows T db)))"
  by (auto simp: update_where_def put_rows_Inr split: sum.splits)
     (simp add: put_rows_def Let_def split: option.splits if_splits)

section \<open>Tables as finite maps\<close>

definition row_with :: "'r sql_table \<Rightarrow> ('r \<Rightarrow> string) \<Rightarrow> string \<Rightarrow> database \<Rightarrow> 'r option" where
  "row_with T key k db = find (\<lambda>r. key r = k) (t_rows T db)"

lemma find_append: "find p (xs @ ys) = (case find p xs of None \<Rightarrow> find p ys | Some x \<Rightarrow> Some x)"
  by (induction xs) auto

lemma find_map_key:
  "(\<And>r. r \<in> set xs \<Longrightarrow> key (g r) = key r) \<Longrightarrow>
   find (\<lambda>r. key r = k) (map g xs) = map_option g (find (\<lambda>r. key r = k) xs)"
  by (induction xs) auto

lemma find_filter_key:
  "distinct (map key xs) \<Longrightarrow>
   find (\<lambda>r. key r = k) (filter p xs) =
     (case find (\<lambda>r. key r = k) xs of None \<Rightarrow> None | Some r \<Rightarrow> if p r then Some r else None)"
proof (induction xs)
  case (Cons x xs)
  show ?case
  proof (cases "key x = k")
    case True
    then have "find (\<lambda>r. key r = k) (filter p xs) = None" if "\<not> p x"
      using Cons.prems True by (auto simp: find_None_iff intro: rev_image_eqI)
    with True show ?thesis by simp
  next
    case False
    with Cons show ?thesis by auto
  qed
qed simp

lemma filter_key_count:
  "distinct (map key xs) \<Longrightarrow> (\<And>r. p r \<Longrightarrow> key r = k) \<Longrightarrow>
   length (filter p xs) = (case find (\<lambda>r. key r = k) xs of None \<Rightarrow> 0 | Some r \<Rightarrow> if p r then 1 else 0)"
proof (induction xs)
  case (Cons x xs)
  show ?case
  proof (cases "key x = k")
    case True
    then have "filter p xs = []" using Cons.prems by (auto simp: filter_empty_conv intro: rev_image_eqI)
    with True show ?thesis by simp
  next
    case False
    then have "\<not> p x" using Cons.prems(2) by blast
    with False Cons show ?thesis by simp
  qed
qed simp

locale keyed_table =
  fixes T :: "'r sql_table" and key :: "'r \<Rightarrow> string" and key_message :: string
  assumes rows_put: "t_rows T (t_put T rs db) = rs"
    and key_unique: "(key_message, \<lambda>x y. key x = key y) \<in> set (t_unique T)"
begin

lemma keys_distinct: "first_violated (t_unique T) rows = None \<Longrightarrow> distinct (map key rows)"
  using key_unique by (auto simp: first_violated_None sorted_wrt_key)

lemma keys_distinct_ok: "table_ok T db \<Longrightarrow> distinct (map key (t_rows T db))"
  by (simp add: table_ok_def keys_distinct)

lemma insert_fresh: "insert_into T r db = Inr (x, db1) \<Longrightarrow> row_with T key (key r) db = None"
proof -
  assume "insert_into T r db = Inr (x, db1)"
  then have "first_violated (t_unique T) (t_rows T db @ [r]) = None" by (simp add: insert_into_Inr)
  then have "distinct (map key (t_rows T db @ [r]))" by (rule keys_distinct)
  then have "key r \<notin> key ` set (t_rows T db)" by simp
  then show ?thesis unfolding row_with_def find_None_iff by (metis imageI)
qed

lemma insert_lookup:
  assumes "insert_into T r db = Inr (x, db1)"
  shows "row_with T key k db1 = (if k = key r then Some r else row_with T key k db)"
  using assms insert_fresh [OF assms]
  by (auto simp: insert_into_Inr row_with_def rows_put find_append split: option.splits)

lemma update_lookup:
  assumes "update_where T p f db = Inr (n, db1)" "\<And>r. p r \<Longrightarrow> key (f r) = key r"
  shows "row_with T key k db1 = map_option (\<lambda>r. if p r then f r else r) (row_with T key k db)"
  using assms by (simp add: update_where_Inr row_with_def rows_put find_map_key)

lemma update_count:
  assumes "update_where T p f db = Inr (n, db1)" "table_ok T db" "\<And>r. p r \<Longrightarrow> key r = k"
  shows "n = (case row_with T key k db of None \<Rightarrow> 0 | Some r \<Rightarrow> if p r then 1 else 0)"
proof -
  have "n = int (length (filter p (t_rows T db)))" using assms(1) by (simp add: update_where_Inr)
  then show ?thesis
    using filter_key_count [OF keys_distinct_ok [OF assms(2)] assms(3)]
    by (simp add: row_with_def split: option.splits)
qed

lemma delete_lookup:
  assumes "delete_where T p db = Inr (n, db1)" "table_ok T db"
  shows "row_with T key k db1 = (case row_with T key k db of None \<Rightarrow> None | Some r \<Rightarrow> if p r then None else Some r)"
  using assms keys_distinct_ok [OF assms(2)]
  by (auto simp: delete_where_def row_with_def rows_put find_filter_key split: option.splits)

lemma delete_count:
  assumes "delete_where T p db = Inr (n, db1)" "table_ok T db" "\<And>r. p r \<Longrightarrow> key r = k"
  shows "n = (case row_with T key k db of None \<Rightarrow> 0 | Some r \<Rightarrow> if p r then 1 else 0)"
  using assms(1) filter_key_count [OF keys_distinct_ok [OF assms(2)] assms(3)]
  by (auto simp: delete_where_def row_with_def split: option.splits)

lemma row_with_SomeD: "row_with T key k db = Some r \<Longrightarrow> r \<in> set (t_rows T db) \<and> key r = k"
  by (auto simp: row_with_def dest: find_SomeD)

lemma row_with_unique:
  "table_ok T db \<Longrightarrow> r \<in> set (t_rows T db) \<Longrightarrow> row_with T key (key r) db = Some r"
  unfolding row_with_def using keys_distinct_ok by (rule find_key_unique)

text \<open>A statement on one key that reports a row has changed exactly that row.\<close>

lemma update_one:
  assumes u: "update_where T p f db = Inr (n, db1)" and ok: "table_ok T db"
    and p: "\<And>r. p r \<Longrightarrow> key r = k" and f: "\<And>r. key (f r) = key r" and n: "n \<noteq> 0"
  obtains r where "row_with T key k db = Some r" "p r" "n = 1" "r \<in> set (t_rows T db)" "key r = k"
    and "\<And>j. row_with T key j db1 = (if j = k then Some (f r) else row_with T key j db)"
proof -
  note c = update_count [OF u ok p]
  from c n obtain r where r: "row_with T key k db = Some r" "p r" by (auto split: option.splits if_splits)
  have l: "row_with T key j db1 = (if j = k then Some (f r) else row_with T key j db)" for j
  proof (cases "j = k")
    case True
    with update_lookup [OF u f, of k] r show ?thesis by simp
  next
    case False
    then have "\<not> p q" if "row_with T key j db = Some q" for q using row_with_SomeD [OF that] p by auto
    with False update_lookup [OF u f, of j] show ?thesis by (cases "row_with T key j db") simp_all
  qed
  from row_with_SomeD [OF r(1)] c r show thesis by (intro that [of r] l) simp_all
qed

lemma update_zero:
  assumes "update_where T p f db = Inr (n, db1)" "table_ok T db" "\<And>r. p r \<Longrightarrow> key r = k"
    and "row_with T key k db = Some r" "p r"
  shows "n = 1"
  using update_count [OF assms(1-3)] assms(4,5) by simp

lemma delete_one:
  assumes u: "delete_where T p db = Inr (n, db1)" and ok: "table_ok T db"
    and p: "\<And>r. p r \<Longrightarrow> key r = k" and n: "n \<noteq> 0"
  obtains r where "row_with T key k db = Some r" "p r" "n = 1" "r \<in> set (t_rows T db)" "key r = k"
    and "\<And>j. row_with T key j db1 = (if j = k then None else row_with T key j db)"
proof -
  note c = delete_count [OF u ok p]
  from c n obtain r where r: "row_with T key k db = Some r" "p r" by (auto split: option.splits if_splits)
  have l: "row_with T key j db1 = (if j = k then None else row_with T key j db)" for j
  proof (cases "j = k")
    case True
    with delete_lookup [OF u ok, of k] r show ?thesis by simp
  next
    case False
    then have "\<not> p q" if "row_with T key j db = Some q" for q using row_with_SomeD [OF that] p by auto
    with False delete_lookup [OF u ok, of j] show ?thesis by (cases "row_with T key j db") simp_all
  qed
  from row_with_SomeD [OF r(1)] c r show thesis by (intro that [of r] l) simp_all
qed

end

text \<open>A table with a second unique column: the same statement seen through that column.\<close>

locale doubly_keyed_table = keyed_table T key key_message
  for T :: "'r sql_table" and key :: "'r \<Rightarrow> string" and key_message :: string +
  fixes key2 :: "'r \<Rightarrow> string" and key2_message :: string
  assumes key2_unique: "(key2_message, \<lambda>x y. key2 x = key2 y) \<in> set (t_unique T)"
begin

lemma second: "keyed_table T key2 key2_message"
  by unfold_locales (rule rows_put, rule key2_unique)

lemma update_one_second:
  assumes u: "update_where T p f db = Inr (n, db1)" and ok: "table_ok T db"
    and p: "\<And>r. p r \<Longrightarrow> key r = k" and f: "\<And>r. key2 (f r) = key2 r"
    and r: "row_with T key k db = Some r" "p r"
  shows "row_with T key2 j db1 = (if j = key2 r then Some (f r) else row_with T key2 j db)"
proof -
  note l = keyed_table.update_lookup [OF second u f, of j]
  have mem: "r \<in> set (t_rows T db)" using row_with_SomeD [OF r(1)] by simp
  show ?thesis
  proof (cases "j = key2 r")
    case True
    with l keyed_table.row_with_unique [OF second ok mem] r(2) show ?thesis by simp
  next
    case False
    have "\<not> p q" if q: "row_with T key2 j db = Some q" for q
    proof
      assume "p q"
      with p row_with_unique [OF ok, of q] keyed_table.row_with_SomeD [OF second q]
      have "row_with T key k db = Some q" by auto
      with r(1) False keyed_table.row_with_SomeD [OF second q] show False by simp
    qed
    with False l show ?thesis by (cases "row_with T key2 j db") simp_all
  qed
qed

end

interpretation user_ids: keyed_table user_table u_id "''UNIQUE constraint failed: users.id''"
  by unfold_locales (auto simp: user_table_def)

interpretation user_names: keyed_table user_table u_username "''UNIQUE constraint failed: users.username''"
  by unfold_locales (auto simp: user_table_def)

interpretation session_ids: keyed_table session_table s_id "''UNIQUE constraint failed: sessions.id''"
  by unfold_locales (auto simp: session_table_def)

interpretation session_hashes: keyed_table session_table s_token_hash "''UNIQUE constraint failed: sessions.token_hash''"
  by unfold_locales (auto simp: session_table_def)

interpretation folder_ids: keyed_table folder_table d_id "''UNIQUE constraint failed: folders.id''"
  by unfold_locales (auto simp: folder_table_def)

interpretation file_ids: keyed_table file_table f_id "''UNIQUE constraint failed: files.id''"
  by unfold_locales (auto simp: file_table_def)

interpretation file_keys: keyed_table file_table f_storage_key "''UNIQUE constraint failed: files.storage_key''"
  by unfold_locales (auto simp: file_table_def)

interpretation session_keys: doubly_keyed_table session_table s_id "''UNIQUE constraint failed: sessions.id''"
    s_token_hash "''UNIQUE constraint failed: sessions.token_hash''"
  by unfold_locales (auto simp: session_table_def)

interpretation file_id_keys: doubly_keyed_table file_table f_id "''UNIQUE constraint failed: files.id''"
    f_storage_key "''UNIQUE constraint failed: files.storage_key''"
  by unfold_locales (auto simp: file_table_def)

interpretation audit_ids: keyed_table audit_table a_id "''UNIQUE constraint failed: audit_events.id''"
  by unfold_locales (auto simp: audit_table_def)

section \<open>Every statement keeps the database invariant\<close>

lemmas table_defs = user_table_def session_table_def folder_table_def file_table_def audit_table_def

lemma folders_exist_mono:
  "folders_exist rows fs \<Longrightarrow> d_id ` set rows \<subseteq> d_id ` set rows' \<Longrightarrow> folders_exist rows' fs"
  by (fastforce simp: folders_exist_def list_all_iff split: option.splits)

lemma insert_db_ok:
  "insert_into user_table u db = Inr (x, db1) \<Longrightarrow> db_ok db \<Longrightarrow> db_ok db1"
  "insert_into session_table s db = Inr (x, db1) \<Longrightarrow> db_ok db \<Longrightarrow> db_ok db1"
  "insert_into folder_table d db = Inr (x, db1) \<Longrightarrow> db_ok db \<Longrightarrow> db_ok db1"
  "insert_into file_table f db = Inr (x, db1) \<Longrightarrow> db_ok db \<Longrightarrow> db_ok db1"
  "insert_into audit_table a db = Inr (x, db1) \<Longrightarrow> db_ok db \<Longrightarrow> db_ok db1"
  by (auto simp: insert_into_Inr db_ok_def table_ok_def table_defs elim!: folders_exist_mono)

lemma update_db_ok:
  "update_where session_table p g db = Inr (n, db1) \<Longrightarrow> db_ok db \<Longrightarrow> db_ok db1"
  "update_where file_table q h db = Inr (n, db1) \<Longrightarrow> db_ok db \<Longrightarrow> db_ok db1"
  by (auto simp: update_where_Inr db_ok_def table_ok_def table_defs)

lemma update_folder_db_ok:
  assumes "update_where folder_table p g db = Inr (n, db1)" "db_ok db" "\<And>d. d_id (g d) = d_id d"
  shows "db_ok db1"
proof -
  have "d_id ` set (map (\<lambda>r. if p r then g r else r) (folders db)) = d_id ` set (folders db)"
    unfolding set_map image_image using assms(3) by (intro image_cong) auto
  then show ?thesis
    using assms(1,2) by (auto simp: update_where_Inr db_ok_def table_ok_def table_defs elim!: folders_exist_mono)
qed

lemma folders_exist_filter: "folders_exist rows fs \<Longrightarrow> folders_exist rows (filter p fs)"
  by (simp add: folders_exist_def list_all_iff)

lemma delete_db_ok:
  "delete_where session_table p db = Inr (n, db1) \<Longrightarrow> db_ok db \<Longrightarrow> db_ok db1"
  "delete_where file_table q db = Inr (n, db1) \<Longrightarrow> db_ok db \<Longrightarrow> db_ok db1"
  "delete_where audit_table r db = Inr (n, db1) \<Longrightarrow> db_ok db \<Longrightarrow> db_ok db1"
  by (auto simp: delete_where_def db_ok_def table_ok_def table_defs
      intro!: first_violated_filter folders_exist_filter)

section \<open>The cascade\<close>

lemma set_below:
  "set (below rows ids) = {d_id d | d. d \<in> set rows \<and>
     (d_id d \<in> set ids \<or> (\<exists>p. d_parent_id d = Some p \<and> p \<in> set ids))}"
  by (auto simp: below_def split: option.splits)

definition closed_below :: "folder_row list \<Rightarrow> string set \<Rightarrow> bool" where
  "closed_below rows S \<longleftrightarrow>
     S \<subseteq> d_id ` set rows \<and> (\<forall>d \<in> set rows. \<forall>p. d_parent_id d = Some p \<longrightarrow> p \<in> S \<longrightarrow> d_id d \<in> S)"

lemma below_grows: "set ids \<subseteq> d_id ` set rows \<Longrightarrow> set ids \<subseteq> set (below rows ids)"
  by (auto simp: set_below)

lemma below_range: "set (below rows ids) \<subseteq> d_id ` set rows"
  by (auto simp: set_below)

lemma closed_below_fixed: "closed_below rows (set ids) \<Longrightarrow> set (below rows ids) = set ids"
  by (auto simp: closed_below_def set_below)

lemma not_closed_grows:
  assumes "set ids \<subseteq> d_id ` set rows" "\<not> closed_below rows (set ids)"
  shows "card (set ids) < card (set (below rows ids))"
proof (rule psubset_card_mono)
  from assms obtain d p where "d \<in> set rows" "d_parent_id d = Some p" "p \<in> set ids" "d_id d \<notin> set ids"
    by (auto simp: closed_below_def)
  then have "d_id d \<in> set (below rows ids)" by (auto simp: set_below)
  with below_grows [OF assms(1)] \<open>d_id d \<notin> set ids\<close> show "set ids \<subset> set (below rows ids)" by blast
qed simp

lemma closed_below_eq: "closed_below rows (set ids) \<Longrightarrow> closed_below rows (set (below rows ids))"
  by (simp add: closed_below_fixed)

lemma cascade_closed_or_large:
  "set ids \<subseteq> d_id ` set rows \<Longrightarrow>
   set (cascade n rows ids) \<subseteq> d_id ` set rows \<and>
   (closed_below rows (set (cascade n rows ids)) \<or> card (set ids) + n \<le> card (set (cascade n rows ids)))"
proof (induction n arbitrary: ids)
  case (Suc n)
  note IH = Suc.IH [OF below_range, of ids]
  show ?case
  proof (cases "closed_below rows (set ids)")
    case True
    have "closed_below rows (set (cascade n rows (below rows ids)))"
    proof -
      have "closed_below rows (set is) \<Longrightarrow> closed_below rows (set (cascade n rows is))" for "is"
        by (induction n arbitrary: "is") (simp_all add: closed_below_eq)
      with True show ?thesis by (simp add: closed_below_eq)
    qed
    with IH show ?thesis by simp
  next
    case False
    with not_closed_grows [OF Suc.prems] IH show ?thesis by auto
  qed
qed simp

text \<open>Fuel of one round per folder reaches the end.\<close>

lemma cascade_closed:
  assumes "set ids \<subseteq> d_id ` set rows"
  shows "closed_below rows (set (cascade (length rows) rows ids))"
proof (rule ccontr)
  assume n: "\<not> ?thesis"
  let ?c = "set (cascade (length rows) rows ids)"
  note c = cascade_closed_or_large [OF assms, of "length rows"]
  from c n have large: "length rows \<le> card ?c" by auto
  have "card (d_id ` set rows) \<le> length rows"
    using card_image_le [of "set rows" d_id] card_length [of rows] by simp
  with large c have "?c = d_id ` set rows" by (intro card_seteq) auto
  then have "closed_below rows ?c" by (auto simp: closed_below_def)
  with n show False ..
qed

lemma cascade_start: "set ids \<subseteq> d_id ` set rows \<Longrightarrow> set ids \<subseteq> set (cascade n rows ids)"
proof (induction n arbitrary: ids)
  case (Suc n)
  from below_grows [OF Suc.prems] Suc.IH [OF below_range, of ids] show ?case by simp
qed simp

lemma first_violated_map:
  assumes "first_violated cs rows = None" "\<And>m clash x y. (m, clash) \<in> set cs \<Longrightarrow> clash (g x) (g y) = clash x y"
  shows "first_violated cs (map g rows) = None"
  unfolding first_violated_None
proof (clarify)
  fix m clash assume m: "(m, clash) \<in> set cs"
  from assms(1) m have "sorted_wrt (\<lambda>x y. \<not> clash x y) rows" by (auto simp: first_violated_None)
  then show "sorted_wrt (\<lambda>x y. \<not> clash x y) (map g rows)" by (simp add: sorted_wrt_map assms(2) [OF m])
qed

lemma delete_folders_db_ok:
  assumes "delete_folders p db = Inr (n, db1)" "db_ok db"
  shows "db_ok db1"
proof -
  let ?gone = "cascade (length (folders db)) (folders db) (map d_id (filter p (folders db)))"
  let ?move = "\<lambda>f. case f_folder_id f of None \<Rightarrow> f | Some i \<Rightarrow> if i \<in> set ?gone then f\<lparr>f_folder_id := None\<rparr> else f"
  let ?rows = "filter (\<lambda>d. d_id d \<notin> set ?gone) (folders db)"
  from assms(1) have db1: "db1 = db\<lparr>folders := ?rows, files := map ?move (files db)\<rparr>"
    by (simp add: delete_folders_def Let_def)
  have closed: "closed_below (folders db) (set ?gone)" by (rule cascade_closed) auto
  have ok: "first_violated (t_unique folder_table) (folders db) = None" "parents_exist (folders db)"
    "first_violated (t_unique file_table) (files db) = None" "folders_exist (folders db) (files db)"
    using assms(2) by (auto simp: db_ok_def table_ok_def table_defs)
  have "parents_exist ?rows"
    using ok(2) closed by (fastforce simp: parents_exist_def list_all_iff closed_below_def split: option.splits)
  moreover have "folders_exist ?rows (map ?move (files db))"
    using ok(4) by (fastforce simp: folders_exist_def list_all_iff split: option.splits)
  moreover have "first_violated (t_unique file_table) (map ?move (files db)) = None"
    by (rule first_violated_map [OF ok(3)]) (auto simp: file_table_def split: option.splits)
  moreover have "first_violated (t_unique folder_table) ?rows = None"
    using ok(1) by (rule first_violated_filter)
  ultimately show ?thesis
    using assms(2) unfolding db1 by (auto simp: db_ok_def table_ok_def table_defs)
qed

lemmas statement_db_ok = insert_db_ok update_db_ok update_folder_db_ok delete_db_ok delete_folders_db_ok

end
