(* ===== verification/Auth_Repository.thy ===== *)
theory Auth_Repository
  imports Schema Go_Time
begin

text \<open>
  src/internal/repository/auth_repository.go: the users and sessions tables behind the
  authentication service. Every method is one SQL statement, except \<^verbatim>\<open>RotateSession\<close>,
  which runs two in a transaction; \<open>atomically\<close> is \<^verbatim>\<open>defer tx.Rollback()\<close>. The pool has
  a single connection (database.go, \<^verbatim>\<open>SetMaxOpenConns(1)\<close>), so no other statement
  runs between those of a transaction.
\<close>

section \<open>Identities\<close>

record user =
  us_id :: string
  us_username :: string
  us_password_hash :: string
  us_created_at :: time

record session =
  ss_id :: string
  ss_token_hash :: string
  ss_expires_at :: time
  ss_revoked_at :: "time option"
  ss_created_at :: time

section \<open>Recognising constraint errors\<close>

definition lower :: "char \<Rightarrow> char" where
  "lower c = (if CHR ''A'' \<le> c \<and> c \<le> CHR ''Z'' then char_of (of_char c + 32 :: nat) else c)"

fun string_contains_fold :: "string \<Rightarrow> string \<Rightarrow> bool" where
  "string_contains_fold v p =
     (if length p \<le> length v
      then list_all2 (\<lambda>a b. lower a = lower b) (take (length p) v) p
           \<or> (case v of [] \<Rightarrow> False | _ # cs \<Rightarrow> string_contains_fold cs p)
      else False)"

declare string_contains_fold.simps [simp del]

definition contains :: "string \<Rightarrow> string \<Rightarrow> bool" where
  "contains v p \<longleftrightarrow> length v \<ge> length p \<and> string_contains_fold v p"

definition is_constraint :: "err \<Rightarrow> bool" where
  "is_constraint e \<longleftrightarrow> contains (err_text e) ''UNIQUE'' \<or> contains (err_text e) ''constraint''"

definition nullable_time :: "time option \<Rightarrow> string option" where
  "nullable_time t = map_option stamp t"

definition parse_io :: "string \<Rightarrow> string \<Rightarrow> time io" where
  "parse_io msg s =
     (case parse_time s of None \<Rightarrow> raise (Wrapped msg (TextError ''parsing time'')) | Some t \<Rightarrow> ret t)"

section \<open>Users\<close>

definition create_user :: "env \<Rightarrow> user \<Rightarrow> unit io" where
  "create_user E u =
     handleE (sql_io E (insert_into user_table
                \<lparr>u_id = us_id u, u_username = us_username u, u_password_hash = us_password_hash u,
                 u_created_at = stamp (us_created_at u)\<rparr>))
       (\<lambda>e. if is_constraint e then raise ErrConflict else raise (Wrapped ''create user'' e)) ret"

definition scan_user :: "user_row option \<Rightarrow> user io" where
  "scan_user row = (case row of
       None \<Rightarrow> raise ErrNotFound
     | Some r \<Rightarrow> bindE (parse_io ''parse user creation time'' (u_created_at r)) (\<lambda>t.
         ret \<lparr>us_id = u_id r, us_username = u_username r, us_password_hash = u_password_hash r,
              us_created_at = t\<rparr>))"

definition find_user_by_username :: "env \<Rightarrow> string \<Rightarrow> user io" where
  "find_user_by_username E username =
     bindE (wrapE ''find user'' (sql_query E (row_with user_table u_username username))) scan_user"

definition find_user_by_id :: "env \<Rightarrow> string \<Rightarrow> user io" where
  "find_user_by_id E i =
     bindE (wrapE ''find user'' (sql_query E (row_with user_table u_id i))) scan_user"

section \<open>Sessions\<close>

definition session_row_of :: "session \<Rightarrow> session_row" where
  "session_row_of s =
     \<lparr>s_id = ss_id s, s_token_hash = ss_token_hash s, s_expires_at = stamp (ss_expires_at s),
      s_revoked_at = nullable_time (ss_revoked_at s), s_created_at = stamp (ss_created_at s)\<rparr>"

definition create_session :: "env \<Rightarrow> session \<Rightarrow> unit io" where
  "create_session E s = wrapE ''create session'' (sql_io E (insert_into session_table (session_row_of s)))"

definition find_active_session_by_token_hash :: "env \<Rightarrow> string \<Rightarrow> time \<Rightarrow> session io" where
  "find_active_session_by_token_hash E token_hash now =
     bindE (wrapE ''find session'' (sql_query E (row_with session_table s_token_hash token_hash))) (\<lambda>row.
     case row of None \<Rightarrow> raise ErrNotFound | Some r \<Rightarrow>
     bindE (parse_io ''parse session expiry'' (s_expires_at r)) (\<lambda>expires.
     bindE (parse_io ''parse session creation'' (s_created_at r)) (\<lambda>created.
     bindE (case s_revoked_at r of
              None \<Rightarrow> ret None
            | Some v \<Rightarrow> bindE (parse_io ''parse session revocation'' v) (\<lambda>t. ret (Some t))) (\<lambda>revoked.
     if revoked \<noteq> None \<or> \<not> expires > now then raise ErrSessionRevoked
     else ret \<lparr>ss_id = s_id r, ss_token_hash = s_token_hash r, ss_expires_at = expires,
               ss_revoked_at = revoked, ss_created_at = created\<rparr>))))"

definition validate_session :: "env \<Rightarrow> string \<Rightarrow> time \<Rightarrow> unit io" where
  "validate_session E session_id now =
     bindE (wrapE ''validate session'' (sql_query E (row_with session_table s_id session_id))) (\<lambda>row.
     case row of None \<Rightarrow> raise ErrSessionRevoked | Some r \<Rightarrow>
     bindE (parse_io ''parse session expiry'' (s_expires_at r)) (\<lambda>expires.
     guardE (\<not> (s_revoked_at r \<noteq> None \<or> \<not> expires > now)) ErrSessionRevoked))"

definition atomically :: "'a io \<Rightarrow> 'a io" where
  "atomically m = (\<lambda>w. case m w of
       (Inl e, w1) \<Rightarrow> (Inl e, w1\<lparr>w_db := w_db w\<rparr>)
     | (Inr x, w1) \<Rightarrow> (Inr x, w1))"

definition revoke_row :: "time \<Rightarrow> session_row \<Rightarrow> session_row" where
  "revoke_row now r = r\<lparr>s_revoked_at := Some (stamp now)\<rparr>"

definition rotate_session :: "env \<Rightarrow> string \<Rightarrow> session \<Rightarrow> time \<Rightarrow> unit io" where
  "rotate_session E old_session_id replacement now = atomically (
     bindE (wrapE ''begin rotate session transaction'' (sql_query E (\<lambda>_. ()))) (\<lambda>_.
     bindE (wrapE ''revoke old session'' (sql_io E (update_where session_table
              (\<lambda>r. s_id r = old_session_id \<and> s_revoked_at r = None \<and> s_expires_at r > stamp now)
              (revoke_row now)))) (\<lambda>count.
     if count \<noteq> 1 then raise ErrSessionRevoked else
     bindE (wrapE ''create rotated session''
              (sql_io E (insert_into session_table (session_row_of replacement)))) (\<lambda>_.
     wrapE ''commit rotate session transaction'' (sql_query E (\<lambda>_. ()))))))"

definition revoke_session :: "env \<Rightarrow> string \<Rightarrow> time \<Rightarrow> unit io" where
  "revoke_session E session_id now =
     bindE (wrapE ''revoke session'' (sql_io E (update_where session_table
              (\<lambda>r. s_id r = session_id \<and> s_revoked_at r = None) (revoke_row now)))) (\<lambda>count.
     if count = 0 then raise ErrNotFound else ret ())"

definition session_revoked_retention :: duration where
  "session_revoked_retention = 7 * 24 * 3600 * 1000000000"

definition stale_session :: "time \<Rightarrow> session_row \<Rightarrow> bool" where
  "stale_session now r \<longleftrightarrow> s_expires_at r \<le> stamp now \<or>
     (case s_revoked_at r of None \<Rightarrow> False | Some v \<Rightarrow> v \<le> stamp (now - session_revoked_retention))"

definition prune_sessions :: "env \<Rightarrow> time \<Rightarrow> int io" where
  "prune_sessions E now = wrapE ''prune sessions'' (sql_io E (delete_where session_table (stale_session now)))"

section \<open>Constraint messages\<close>

lemma prefix_map_iff:
  "prefix (map f p) (map f v) \<longleftrightarrow> length p \<le> length v \<and> list_all2 (\<lambda>a b. f a = f b) (take (length p) v) p"
proof (induction p arbitrary: v)
  case (Cons c p)
  show ?case by (cases v) (auto simp: Cons.IH)
qed simp

lemma string_contains_fold_iff:
  "string_contains_fold v p \<longleftrightarrow> sublist (map lower p) (map lower v)"
proof (induction v)
  case Nil
  show ?case by (subst string_contains_fold.simps) auto
next
  case (Cons c v)
  have len: "sublist (map lower p) (map lower v) \<Longrightarrow> length p \<le> length (c # v)"
    by (auto dest: sublist_length_le)
  have "sublist (map lower p) (map lower (c # v)) \<longleftrightarrow>
      prefix (map lower p) (map lower (c # v)) \<or> sublist (map lower p) (map lower v)"
    unfolding list.map(2) [of lower c v] by (rule sublist_Cons_right)
  also have "\<dots> \<longleftrightarrow> string_contains_fold (c # v) p"
    unfolding prefix_map_iff using len Cons.IH by (subst string_contains_fold.simps) auto
  finally show ?case ..
qed

lemma contains_iff: "contains v p \<longleftrightarrow> sublist (map lower p) (map lower v)"
  using sublist_length_le [of "map lower p" "map lower v"]
  by (auto simp: contains_def string_contains_fold_iff)

text \<open>What the code relies on in the driver: its error text carries SQLite's message.\<close>

definition driver_reports :: "env \<Rightarrow> bool" where
  "driver_reports E \<longleftrightarrow> (\<forall>m. sublist m (x_sql_msg E m))"

lemma constraint_recognised:
  assumes "driver_reports E" "contains m ''constraint''"
  shows "is_constraint (SqlError (x_sql_msg E m))"
proof -
  have "sublist m (x_sql_msg E m)" using assms(1) by (simp add: driver_reports_def)
  then have "sublist (map lower m) (map lower (x_sql_msg E m))"
    by (rule map_mono_sublist)
  with assms(2) have "contains (x_sql_msg E m) ''constraint''"
    unfolding contains_iff by (rule sublist_order.order_trans)
  then show ?thesis by (simp add: is_constraint_def)
qed

section \<open>Frames and the database invariant\<close>

lemma keeps_parse_io [keeps_intro]: "reflp R \<Longrightarrow> transp R \<Longrightarrow> keeps R (parse_io m s)"
  by (auto simp: parse_io_def intro!: keeps_intro split: option.split)

lemma keeps_scan_user [keeps_intro]: "reflp R \<Longrightarrow> transp R \<Longrightarrow> keeps R (scan_user row)"
  by (auto simp: scan_user_def intro!: keeps_intro split: option.split)

lemma find_user_keeps [keeps_intro]:
  "keeps same_db (find_user_by_username E u)" "keeps same_fs (find_user_by_username E u)"
  "keeps same_db (find_user_by_id E u)" "keeps same_fs (find_user_by_id E u)"
  "keeps draws_on (find_user_by_username E u)" "keeps draws_on (find_user_by_id E u)"
  unfolding find_user_by_username_def find_user_by_id_def by (intro keeps_intro; simp)+

lemma find_active_keeps [keeps_intro]:
  "keeps same_db (find_active_session_by_token_hash E h t)"
  "keeps same_fs (find_active_session_by_token_hash E h t)"
  "keeps draws_on (find_active_session_by_token_hash E h t)"
  unfolding find_active_session_by_token_hash_def
  by (auto intro!: keeps_intro split: option.split)+

lemma validate_session_keeps [keeps_intro]:
  "keeps same_db (validate_session E i t)" "keeps same_fs (validate_session E i t)"
  "keeps draws_on (validate_session E i t)"
  unfolding validate_session_def by (auto intro!: keeps_intro split: option.split)+

lemma keeps_atomically_db:
  "keeps (preserving J) m \<Longrightarrow> keeps (preserving J) (atomically m)"
  by (auto simp: keeps_def preserving_def atomically_def split: prod.splits sum.splits)

lemma keeps_atomically [keeps_intro]:
  "keeps same_fs m \<Longrightarrow> keeps same_fs (atomically m)" "keeps draws_on m \<Longrightarrow> keeps draws_on (atomically m)"
  by (auto simp: keeps_def same_fs_def draws_on_def atomically_def split: prod.splits sum.splits)
    (metis snd_conv)+

lemma session_writes_keep [keeps_intro]:
  "keeps same_fs (create_session E s)" "keeps same_fs (rotate_session E i s t)"
  "keeps same_fs (revoke_session E i t)" "keeps same_fs (prune_sessions E t)"
  "keeps draws_on (create_session E s)" "keeps draws_on (rotate_session E i s t)"
  "keeps draws_on (revoke_session E i t)" "keeps draws_on (prune_sessions E t)"
  unfolding create_session_def rotate_session_def revoke_session_def prune_sessions_def
  by (auto intro!: keeps_intro)

lemma session_writes_db_ok:
  "keeps (preserving db_ok) (create_session E s)" "keeps (preserving db_ok) (rotate_session E i s t)"
  "keeps (preserving db_ok) (revoke_session E i t)" "keeps (preserving db_ok) (prune_sessions E t)"
  unfolding create_session_def rotate_session_def revoke_session_def prune_sessions_def
  by (auto intro!: keeps_intro keeps_atomically_db sql_io_preserving elim: statement_db_ok)

section \<open>What the session operations do to a session\<close>

abbreviation hash_row :: "string \<Rightarrow> database \<Rightarrow> session_row option" where
  "hash_row \<equiv> row_with session_table s_token_hash"

abbreviation id_row :: "string \<Rightarrow> database \<Rightarrow> session_row option" where
  "id_row \<equiv> row_with session_table s_id"

lemma create_session_Inr:
  "create_session E s w = (Inr x, w1) \<longleftrightarrow> x_sql_fault E (w_sql w) = None \<and>
     (\<exists>db. insert_into session_table (session_row_of s) (w_db w) = Inr ((), db)
           \<and> w1 = w\<lparr>w_sql := Suc (w_sql w), w_db := db\<rparr>)"
  by (auto simp: create_session_def sql_io_Inr)

lemma atomically_Inr: "atomically m w = (Inr x, w1) \<longleftrightarrow> m w = (Inr x, w1)"
  by (auto simp: atomically_def split: prod.splits sum.splits)

lemma atomically_Inl: "atomically m w = (Inl e, w1) \<Longrightarrow> w_db w1 = w_db w"
  by (auto simp: atomically_def split: prod.splits sum.splits)

lemma revoke_row_sel [simp]:
  "s_id (revoke_row t r) = s_id r" "s_token_hash (revoke_row t r) = s_token_hash r"
  "s_expires_at (revoke_row t r) = s_expires_at r" "s_revoked_at (revoke_row t r) = Some (stamp t)"
  "s_created_at (revoke_row t r) = s_created_at r"
  by (simp_all add: revoke_row_def)

lemma session_row_of_sel [simp]:
  "s_id (session_row_of s) = ss_id s" "s_token_hash (session_row_of s) = ss_token_hash s"
  "s_revoked_at (session_row_of s) = map_option stamp (ss_revoked_at s)"
  "s_expires_at (session_row_of s) = stamp (ss_expires_at s)"
  by (simp_all add: session_row_of_def nullable_time_def)

text \<open>
  A rotation that succeeds found its session live, revokes it, and adds the replacement
  under an identifier and a token digest that no session had.
\<close>

lemma rotate_session_Inr:
  assumes "rotate_session E old rep now w = (Inr x, w1)" "db_ok (w_db w)"
  obtains r where "id_row old (w_db w) = Some r" "s_revoked_at r = None" "stamp now < s_expires_at r"
    and "\<And>k. id_row k (w_db w1) =
      (if k = ss_id rep then Some (session_row_of rep)
       else if k = old then Some (revoke_row now r) else id_row k (w_db w))"
    and "ss_id rep \<noteq> old"
    and "\<And>h. hash_row h (w_db w1) =
      (if h = ss_token_hash rep then Some (session_row_of rep)
       else if h = s_token_hash r then Some (revoke_row now r) else hash_row h (w_db w))"
    and "ss_token_hash rep \<noteq> s_token_hash r"
proof -
  let ?p = "\<lambda>r. s_id r = old \<and> s_revoked_at r = None \<and> s_expires_at r > stamp now"
  from assms(1) obtain n db1 db2 where
    u: "update_where session_table ?p (revoke_row now) (w_db w) = Inr (n, db1)" and n: "n = 1" and
    i: "insert_into session_table (session_row_of rep) db1 = Inr ((), db2)" and w1: "w_db w1 = db2"
    by (auto simp: rotate_session_def atomically_Inr bindE_eq_Inr sql_io_Inr sql_query_Inr split: if_splits)
  have ok: "table_ok session_table (w_db w)" using assms(2) by (simp add: db_ok_def)
  from n have n0: "n \<noteq> 0" by simp
  obtain r where r: "id_row old (w_db w) = Some r" "?p r"
    and a: "\<And>k. id_row k db1 = (if k = old then Some (revoke_row now r) else id_row k (w_db w))"
    by (rule session_ids.update_one [OF u ok _ _ n0]) auto
  have b: "hash_row h db1 = (if h = s_token_hash r then Some (revoke_row now r) else hash_row h (w_db w))" for h
    by (rule session_keys.update_one_second [OF u ok _ _ r(1)]) (use r(2) in auto)
  note k2 = session_ids.insert_lookup [OF i] and h2 = session_hashes.insert_lookup [OF i]
  note kf = session_ids.insert_fresh [OF i] and hf = session_hashes.insert_fresh [OF i]
  show thesis
  proof (rule that)
    show "id_row old (w_db w) = Some r" by (rule r(1))
    show "s_revoked_at r = None" "stamp now < s_expires_at r" using r(2) by auto
    show "ss_id rep \<noteq> old" using kf a [of old] by (auto split: if_splits)
    show "ss_token_hash rep \<noteq> s_token_hash r" using hf b [of "s_token_hash r"] by (auto split: if_splits)
    show "id_row k (w_db w1) = (if k = ss_id rep then Some (session_row_of rep)
       else if k = old then Some (revoke_row now r) else id_row k (w_db w))" for k
      using k2 [of k] a [of k] by (simp add: w1)
    show "hash_row h (w_db w1) = (if h = ss_token_hash rep then Some (session_row_of rep)
       else if h = s_token_hash r then Some (revoke_row now r) else hash_row h (w_db w))" for h
      using h2 [of h] b [of h] by (simp add: w1)
  qed
qed

lemma rotate_session_Inl: "rotate_session E old rep now w = (Inl e, w1) \<Longrightarrow> w_db w1 = w_db w"
  unfolding rotate_session_def by (rule atomically_Inl)

lemma revoke_session_Inr:
  assumes "revoke_session E i now w = (Inr x, w1)" "db_ok (w_db w)"
  obtains r where "id_row i (w_db w) = Some r" "s_revoked_at r = None"
    and "\<And>k. id_row k (w_db w1) = (if k = i then Some (revoke_row now r) else id_row k (w_db w))"
proof -
  let ?p = "\<lambda>r. s_id r = i \<and> s_revoked_at r = None"
  from assms(1) obtain n db1 where
    u: "update_where session_table ?p (revoke_row now) (w_db w) = Inr (n, db1)" and n: "n \<noteq> 0" and
    w1: "w_db w1 = db1"
    by (auto simp: revoke_session_def bindE_eq_Inr sql_io_Inr split: if_splits)
  have ok: "table_ok session_table (w_db w)" using assms(2) by (simp add: db_ok_def)
  obtain r where "id_row i (w_db w) = Some r" "?p r"
    and "\<And>k. id_row k db1 = (if k = i then Some (revoke_row now r) else id_row k (w_db w))"
    by (rule session_ids.update_one [OF u ok _ _ n]) auto
  with w1 that show thesis by auto
qed

lemma validate_session_accepts:
  "fst (validate_session E i now w) = Inr () \<longleftrightarrow>
     x_sql_fault E (w_sql w) = None \<and>
     (\<exists>r expires. id_row i (w_db w) = Some r \<and> s_revoked_at r = None
        \<and> parse_time (s_expires_at r) = Some expires \<and> now < expires)"
proof -
  have "fst (validate_session E i now w) = Inr () \<longleftrightarrow> (\<exists>w1. validate_session E i now w = (Inr (), w1))"
    by (metis fst_conv surjective_pairing)
  then show ?thesis
    by (auto simp: validate_session_def bindE_eq_Inr sql_query_Inr parse_io_def guardE_def ret_def raise_def
        split: option.splits if_splits)
qed

end
