(* ===== verification/Tokens.thy ===== *)
theory Tokens
  imports Auth_Repository
begin

text \<open>
  src/internal/auth/auth.go: passwords, access tokens and refresh tokens. JWT, bcrypt
  and SHA-256 are functions of the environment; base64 and hexadecimal are Go's
  \<^verbatim>\<open>base64.RawURLEncoding\<close> and \<^verbatim>\<open>hex.EncodeToString\<close>.
\<close>

section \<open>Encodings\<close>

definition hex_digit :: "nat \<Rightarrow> char" where
  "hex_digit n = ''0123456789abcdef'' ! n"

definition hex_encode :: "bytes \<Rightarrow> string" where
  "hex_encode b = concat (map (\<lambda>c. [hex_digit (of_char c div 16), hex_digit (of_char c mod 16)]) b)"

definition url_digit :: "nat \<Rightarrow> char" where
  "url_digit n = ''ABCDEFGHIJKLMNOPQRSTUVWXYZabcdefghijklmnopqrstuvwxyz0123456789-_'' ! n"

fun raw_url_encode :: "bytes \<Rightarrow> string" where
  "raw_url_encode [] = []"
| "raw_url_encode [a] =
     (let n = of_char a :: nat in [url_digit (n div 4), url_digit (n mod 4 * 16)])"
| "raw_url_encode [a, b] =
     (let n = of_char a * 256 + of_char b :: nat
      in [url_digit (n div 1024), url_digit (n div 16 mod 64), url_digit (n mod 16 * 4)])"
| "raw_url_encode (a # b # c # rest) =
     (let n = of_char a * 65536 + of_char b * 256 + of_char c :: nat
      in [url_digit (n div 262144), url_digit (n div 4096 mod 64), url_digit (n div 64 mod 64), url_digit (n mod 64)]
         @ raw_url_encode rest)"

section \<open>The token manager\<close>

record tokens =
  tk_access :: string
  tk_refresh :: string
  tk_expires_at :: time
  tk_refresh_expires_at :: time

record token_manager =
  tm_secret :: string
  tm_issuer :: string
  tm_access_ttl :: duration
  tm_refresh_ttl :: duration

definition new_token_manager :: "string \<Rightarrow> string \<Rightarrow> duration \<Rightarrow> duration \<Rightarrow> err + token_manager" where
  "new_token_manager secret issuer access_ttl refresh_ttl =
     (if length secret < 32 then Inl (TextError ''JWT secret must be at least 32 bytes'')
      else if trim_space issuer = [] then Inl (TextError ''JWT issuer must not be empty'')
      else if access_ttl \<le> 0 \<or> refresh_ttl \<le> access_ttl then Inl (TextError ''token lifetimes are invalid'')
      else Inr \<lparr>tm_secret = secret, tm_issuer = issuer, tm_access_ttl = access_ttl, tm_refresh_ttl = refresh_ttl\<rparr>)"

definition bcrypt_cost :: nat where "bcrypt_cost = 10"

definition hash_password :: "env \<Rightarrow> string \<Rightarrow> err + string" where
  "hash_password E password =
     (if password = [] then Inl (TextError ''password must not be empty'')
      else case x_bcrypt_hash E password bcrypt_cost of
             None \<Rightarrow> Inl (Wrapped ''hash password'' (TextError ''bcrypt''))
           | Some h \<Rightarrow> Inr h)"

definition check_password :: "env \<Rightarrow> string \<Rightarrow> string \<Rightarrow> err + unit" where
  "check_password E hash password = (if x_bcrypt_check E hash password then Inr () else Inl ErrInvalidCredentials)"

definition random_token :: "env \<Rightarrow> string io" where
  "random_token E = bindE (rand_io E) (\<lambda>b. ret (raw_url_encode b))"

definition hash_refresh_token :: "env \<Rightarrow> string \<Rightarrow> string" where
  "hash_refresh_token E token = hex_encode (x_sha256 E token)"

definition issue :: "env \<Rightarrow> token_manager \<Rightarrow> string \<Rightarrow> string \<Rightarrow> tokens io" where
  "issue E m user_id session_id =
     bindE (now_io E) (\<lambda>now.
     let expires_at = now + tm_access_ttl m;
         cl = \<lparr>c_issuer = tm_issuer m, c_subject = user_id, c_id = session_id,
               c_issued_at = Some (x_numeric_date E now), c_not_before = Some (x_numeric_date E now),
               c_expires_at = Some (x_numeric_date E expires_at)\<rparr>
     in case x_jwt_sign E (tm_secret m) cl of
          None \<Rightarrow> raise (Wrapped ''sign access token'' (TextError ''jwt''))
        | Some access \<Rightarrow>
            bindE (wrapE ''create refresh token'' (random_token E)) (\<lambda>refresh.
            ret \<lparr>tk_access = access, tk_refresh = refresh, tk_expires_at = expires_at,
                 tk_refresh_expires_at = now + tm_refresh_ttl m\<rparr>))"

text \<open>The key function given to the parser: only HMAC-SHA256 gets the secret.\<close>

definition key_func :: "token_manager \<Rightarrow> string \<Rightarrow> err + string" where
  "key_func m method = (if method \<noteq> ''HS256'' then Inl ErrInvalidToken else Inr (tm_secret m))"

definition validate_access_token :: "env \<Rightarrow> token_manager \<Rightarrow> string \<Rightarrow> claims io" where
  "validate_access_token E m raw =
     bindE (now_io E) (\<lambda>now.
     case x_jwt_parse E (key_func m) (tm_issuer m) [''HS256''] now raw of
       None \<Rightarrow> raise ErrInvalidToken
     | Some (cl, valid) \<Rightarrow>
         if \<not> valid \<or> c_subject cl = [] \<or> c_id cl = [] then raise ErrInvalidToken else ret cl)"

section \<open>What the code relies on in the JWT package\<close>

text \<open>
  \<open>verify alg key raw\<close> stands for what golang-jwt makes of a text before it looks at the claims: the text decodes
  into header, claims and signature, its header names the method \<open>alg\<close>, and the signature verifies under
  that method with \<open>key\<close>; the result is the claims it carries. The package documents that
  \<^verbatim>\<open>ParseWithClaims\<close> accepts a text when its method is in the list of \<^verbatim>\<open>WithValidMethods\<close>, the signature verifies with
  the key that the key function gives for that method, and the claims are valid: not expired, not from the future
  where they say so, and of the issuer of \<^verbatim>\<open>WithIssuer\<close>, where one is given; an absent expiry or start is not
  checked. And it documents that a token signed with HMAC-SHA256 verifies with the key it was signed with and gives its claims
  back: JSON texts and numbers, for which ASCII texts and whole seconds suffice here.
\<close>

definition jwt_current :: "string \<Rightarrow> time \<Rightarrow> claims \<Rightarrow> bool" where
  "jwt_current iss now cl \<longleftrightarrow> (iss \<noteq> [] \<longrightarrow> c_issuer cl = iss) \<and>
     (case c_not_before cl of None \<Rightarrow> True | Some t \<Rightarrow> t \<le> now) \<and>
     (case c_expires_at cl of None \<Rightarrow> True | Some t \<Rightarrow> now < t)"

definition json_date :: "time option \<Rightarrow> bool" where
  "json_date d \<longleftrightarrow> (case d of None \<Rightarrow> True | Some t \<Rightarrow> in_range t \<and> t mod 1000000000 = 0)"

definition json_claims :: "claims \<Rightarrow> bool" where
  "json_claims cl \<longleftrightarrow> ascii (c_issuer cl) \<and> ascii (c_subject cl) \<and> ascii (c_id cl) \<and>
     json_date (c_issued_at cl) \<and> json_date (c_not_before cl) \<and> json_date (c_expires_at cl)"

definition jwt_laws :: "env \<Rightarrow> (string \<Rightarrow> string \<Rightarrow> string \<Rightarrow> claims option) \<Rightarrow> bool" where
  "jwt_laws E verify \<longleftrightarrow>
     (\<forall>kf iss ms now raw cl. x_jwt_parse E kf iss ms now raw = Some (cl, True) \<longleftrightarrow>
        (\<exists>alg key. alg \<in> set ms \<and> kf alg = Inr key \<and> verify alg key raw = Some cl) \<and> jwt_current iss now cl) \<and>
     (\<forall>key cl raw. json_claims cl \<longrightarrow> x_jwt_sign E key cl = Some raw \<longrightarrow> verify ''HS256'' key raw = Some cl)"

text \<open>\<^verbatim>\<open>jwt.NewNumericDate\<close> truncates to the second.\<close>

definition numeric_laws :: "env \<Rightarrow> bool" where
  "numeric_laws E \<longleftrightarrow> (\<forall>t. x_numeric_date E t = t - t mod 1000000000)"

section \<open>Frames\<close>

lemma random_token_keeps [keeps_intro]:
  "keeps same_db (random_token E)" "keeps same_fs (random_token E)" "keeps draws_on (random_token E)"
  unfolding random_token_def by (intro keeps_intro; simp)+

lemma issue_keeps [keeps_intro]:
  "keeps same_db (issue E m u s)" "keeps same_fs (issue E m u s)" "keeps draws_on (issue E m u s)"
  unfolding issue_def Let_def by (auto intro!: keeps_intro split: option.split)

lemma validate_access_token_keeps [keeps_intro]:
  "keeps same_db (validate_access_token E m raw)" "keeps same_fs (validate_access_token E m raw)"
  "keeps draws_on (validate_access_token E m raw)"
  unfolding validate_access_token_def by (auto intro!: keeps_intro split: option.split prod.split)

lemma now_io_Inr: "now_io E w = (Inr t, w1) \<longleftrightarrow> t = x_clock E (w_clock w) \<and> w1 = w\<lparr>w_clock := Suc (w_clock w)\<rparr>"
  by (auto simp: now_io_def)

lemma random_token_Inr:
  "random_token E w = (Inr s, w1) \<longleftrightarrow>
     (\<exists>b. x_rand E (w_rand w) = Some b \<and> s = raw_url_encode b \<and> w1 = w\<lparr>w_rand := Suc (w_rand w)\<rparr>)"
  by (auto simp: random_token_def bindE_eq_Inr rand_io_def split: option.splits)

lemma issue_Inr:
  assumes "issue E m user_id session_id w = (Inr tk, w1)"
  obtains now b access where "now = x_clock E (w_clock w)"
    and "x_jwt_sign E (tm_secret m) \<lparr>c_issuer = tm_issuer m, c_subject = user_id, c_id = session_id,
               c_issued_at = Some (x_numeric_date E now), c_not_before = Some (x_numeric_date E now),
               c_expires_at = Some (x_numeric_date E (now + tm_access_ttl m))\<rparr> = Some access"
    and "x_rand E (w_rand w) = Some b"
    and "tk = \<lparr>tk_access = access, tk_refresh = raw_url_encode b, tk_expires_at = now + tm_access_ttl m,
               tk_refresh_expires_at = now + tm_refresh_ttl m\<rparr>"
    and "w1 = w\<lparr>w_clock := Suc (w_clock w), w_rand := Suc (w_rand w)\<rparr>"
  using assms
  by (auto simp: issue_def bindE_eq_Inr now_io_Inr Let_def random_token_Inr split: option.splits)

section \<open>The verdict on a token\<close>

lemma validate_access_token_run:
  "fst (validate_access_token E m raw w) =
    (case x_jwt_parse E (key_func m) (tm_issuer m) [''HS256''] (x_clock E (w_clock w)) raw of
       None \<Rightarrow> Inl ErrInvalidToken
     | Some (cl, valid) \<Rightarrow> if \<not> valid \<or> c_subject cl = [] \<or> c_id cl = [] then Inl ErrInvalidToken else Inr cl)"
  "snd (validate_access_token E m raw w) = w\<lparr>w_clock := Suc (w_clock w)\<rparr>"
  by (auto simp: validate_access_token_def bindE_def now_io_def ret_def raise_def split: option.splits prod.splits)

text \<open>With the key of the manager the parser accepts what verifies with the secret and is current.\<close>

lemma parse_manager_key:
  assumes "jwt_laws E verify"
  shows "x_jwt_parse E (key_func m) (tm_issuer m) [''HS256''] now raw = Some (cl, True) \<longleftrightarrow>
    verify ''HS256'' (tm_secret m) raw = Some cl \<and> jwt_current (tm_issuer m) now cl"
proof -
  have "(\<exists>alg key. alg \<in> set [''HS256''] \<and> key_func m alg = Inr key \<and> verify alg key raw = Some cl) \<longleftrightarrow>
      verify ''HS256'' (tm_secret m) raw = Some cl"
    by (simp add: key_func_def)
  with assms show ?thesis unfolding jwt_laws_def by blast
qed

lemma validate_access_token_verdict:
  assumes "jwt_laws E verify"
  shows "fst (validate_access_token E m raw w) =
    (case verify ''HS256'' (tm_secret m) raw of
       None \<Rightarrow> Inl ErrInvalidToken
     | Some cl \<Rightarrow> if jwt_current (tm_issuer m) (x_clock E (w_clock w)) cl \<and> c_subject cl \<noteq> [] \<and> c_id cl \<noteq> []
         then Inr cl else Inl ErrInvalidToken)"
proof -
  let ?now = "x_clock E (w_clock w)"
  note p = parse_manager_key [OF assms, of m ?now raw]
  show ?thesis
  proof (cases "\<exists>cl. verify ''HS256'' (tm_secret m) raw = Some cl \<and> jwt_current (tm_issuer m) ?now cl")
    case True
    then obtain cl where cl: "verify ''HS256'' (tm_secret m) raw = Some cl" "jwt_current (tm_issuer m) ?now cl" by blast
    with p have "x_jwt_parse E (key_func m) (tm_issuer m) [''HS256''] ?now raw = Some (cl, True)" by blast
    with cl show ?thesis by (simp add: validate_access_token_run)
  next
    case False
    with p have "x_jwt_parse E (key_func m) (tm_issuer m) [''HS256''] ?now raw \<noteq> Some (cl, True)" for cl by blast
    with False show ?thesis by (auto simp: validate_access_token_run split: option.split)
  qed
qed

text \<open>The claims that \<^const>\<open>issue\<close> signs, and what verifies of them.\<close>

definition issued_claims :: "env \<Rightarrow> token_manager \<Rightarrow> string \<Rightarrow> string \<Rightarrow> time \<Rightarrow> claims" where
  "issued_claims E m user_id session_id issued =
     \<lparr>c_issuer = tm_issuer m, c_subject = user_id, c_id = session_id, c_issued_at = Some (x_numeric_date E issued),
      c_not_before = Some (x_numeric_date E issued), c_expires_at = Some (x_numeric_date E (issued + tm_access_ttl m))\<rparr>"

lemma issued_verifies:
  assumes "jwt_laws E verify" "numeric_laws E" "ascii (tm_issuer m)" "ascii user_id" "ascii session_id"
    and "in_range issued" "in_range (issued + tm_access_ttl m)"
    and "x_jwt_sign E (tm_secret m) (issued_claims E m user_id session_id issued) = Some raw"
  shows "verify ''HS256'' (tm_secret m) raw = Some (issued_claims E m user_id session_id issued)"
proof -
  have "json_date (Some (x_numeric_date E t))" if "in_range t" for t
    using that assms(2) by (auto simp: json_date_def numeric_laws_def in_range_def minus_mod_eq_mult_div)
  with assms have "json_claims (issued_claims E m user_id session_id issued)"
    by (simp add: json_claims_def issued_claims_def)
  with assms show ?thesis unfolding jwt_laws_def by blast
qed

lemma issued_current:
  assumes "numeric_laws E"
  shows "jwt_current (tm_issuer m) now (issued_claims E m user_id session_id issued) \<longleftrightarrow>
    issued - issued mod 1000000000 \<le> now \<and> now < (issued + tm_access_ttl m) - (issued + tm_access_ttl m) mod 1000000000"
  using assms by (simp add: jwt_current_def numeric_laws_def issued_claims_def)

text \<open>The verdict on a token of this server, at the time of the clock.\<close>

lemma issued_token_verdict:
  assumes "jwt_laws E verify" "numeric_laws E" "ascii (tm_issuer m)" "ascii user_id" "ascii session_id"
    and "in_range issued" "in_range (issued + tm_access_ttl m)" "user_id \<noteq> []" "session_id \<noteq> []"
    and "x_jwt_sign E (tm_secret m) (issued_claims E m user_id session_id issued) = Some tok"
  shows "fst (validate_access_token E m tok w) =
    (if issued - issued mod 1000000000 \<le> x_clock E (w_clock w) \<and>
        x_clock E (w_clock w) < (issued + tm_access_ttl m) - (issued + tm_access_ttl m) mod 1000000000
     then Inr (issued_claims E m user_id session_id issued) else Inl ErrInvalidToken)"
proof -
  have "c_subject (issued_claims E m user_id session_id issued) = user_id"
    "c_id (issued_claims E m user_id session_id issued) = session_id" by (simp_all add: issued_claims_def)
  with assms(8,9) show ?thesis
    by (simp add: validate_access_token_verdict [OF assms(1)] issued_verifies [OF assms(1-7,10)] issued_current [OF assms(2)])
qed

end
