(* ===== verification/Auth_Service.thy ===== *)
theory Auth_Service
  imports Tokens
begin

text \<open>
  src/internal/service/auth_service.go: login, refresh, identity and logout over the
  repository and the token manager. \<open>auth_step\<close> is one call of the service, with any
  argument and any outcome, or the pruning when the server starts (router.go); a
  run of the service is its reflexive transitive closure.
\<close>

definition single_user_id :: string where
  "single_user_id = ''single''"

definition new_session :: "env \<Rightarrow> token_manager \<Rightarrow> (tokens \<times> session) io" where
  "new_session E m =
     bindE (uuid_io E) (\<lambda>session_id.
     bindE (issue E m single_user_id session_id) (\<lambda>tk.
     bindE (now_io E) (\<lambda>now.
     ret (tk, \<lparr>ss_id = session_id, ss_token_hash = hash_refresh_token E (tk_refresh tk),
               ss_expires_at = tk_refresh_expires_at tk, ss_revoked_at = None, ss_created_at = now\<rparr>))))"

definition issue_session :: "env \<Rightarrow> token_manager \<Rightarrow> tokens io" where
  "issue_session E m =
     bindE (new_session E m) (\<lambda>(tk, s).
     bindE (create_session E s) (\<lambda>_. ret tk))"

definition login :: "env \<Rightarrow> token_manager \<Rightarrow> string \<Rightarrow> string \<Rightarrow> (user \<times> tokens) io" where
  "login E m username0 password =
     (let username = trim_space username0 in
      if username = [] then raise ErrInvalidCredentials else
      handleE (find_user_by_username E username) (\<lambda>_. raise ErrInvalidCredentials) (\<lambda>u.
      case check_password E (us_password_hash u) password of
        Inl _ \<Rightarrow> raise ErrInvalidCredentials
      | Inr _ \<Rightarrow> bindE (issue_session E m) (\<lambda>tk. ret (u, tk))))"

definition refresh :: "env \<Rightarrow> token_manager \<Rightarrow> string \<Rightarrow> tokens io" where
  "refresh E m refresh_token =
     (if trim_space refresh_token = [] then raise ErrInvalidToken else
      bindE (now_io E) (\<lambda>now1.
      handleE (find_active_session_by_token_hash E (hash_refresh_token E refresh_token) now1)
        (\<lambda>_. raise ErrInvalidToken) (\<lambda>s.
      bindE (new_session E m) (\<lambda>(tk, replacement).
      bindE (now_io E) (\<lambda>now2.
      handleE (rotate_session E (ss_id s) replacement now2)
        (\<lambda>_. raise (TextError ''invalid refresh token'')) (\<lambda>_. ret tk))))))"

definition me :: "env \<Rightarrow> string \<Rightarrow> user io" where
  "me E user_id =
     (if trim_space user_id = [] then raise ErrInvalidToken else find_user_by_id E user_id)"

definition logout :: "env \<Rightarrow> string \<Rightarrow> unit io" where
  "logout E session_id =
     (if trim_space session_id = [] then raise ErrInvalidToken else
      bindE (now_io E) (\<lambda>now. revoke_session E session_id now))"

section \<open>Runs\<close>

inductive auth_step :: "env \<Rightarrow> token_manager \<Rightarrow> world \<Rightarrow> world \<Rightarrow> bool" for E m where
  step_login: "auth_step E m w (snd (login E m u p w))"
| step_refresh: "auth_step E m w (snd (refresh E m tok w))"
| step_me: "auth_step E m w (snd (me E i w))"
| step_logout: "auth_step E m w (snd (logout E i w))"
| step_prune: "auth_step E m w (snd (prune_sessions E now w))"

inductive_cases auth_step_cases: "auth_step E m w w1"

section \<open>Frames\<close>

lemma new_session_keeps [keeps_intro]:
  "keeps same_db (new_session E m)" "keeps same_fs (new_session E m)" "keeps draws_on (new_session E m)"
  unfolding new_session_def by (intro keeps_intro; simp)+

lemma auth_service_keeps [keeps_intro]:
  "keeps same_fs (login E m u p)" "keeps same_fs (refresh E m tok)" "keeps same_fs (me E i)"
  "keeps same_fs (logout E i)"
  "keeps draws_on (login E m u p)" "keeps draws_on (refresh E m tok)" "keeps draws_on (me E i)"
  "keeps draws_on (logout E i)" "keeps same_db (me E i)"
  unfolding login_def refresh_def me_def logout_def issue_session_def Let_def
  by (auto intro!: keeps_intro split: sum.split prod.split)

lemma auth_service_db_ok:
  "keeps (preserving db_ok) (login E m u p)" "keeps (preserving db_ok) (refresh E m tok)"
  "keeps (preserving db_ok) (me E i)" "keeps (preserving db_ok) (logout E i)"
  unfolding login_def refresh_def me_def logout_def issue_session_def Let_def
  by (auto intro!: keeps_intro session_writes_db_ok split: sum.split prod.split
      intro: same_db_preserving keeps_intro)

lemma auth_step_db_ok: "auth_step E m w w1 \<Longrightarrow> db_ok (w_db w) \<Longrightarrow> db_ok (w_db w1)"
  by (erule auth_step_cases)
    (simp_all add: preserving_snd [OF auth_service_db_ok(1)] preserving_snd [OF auth_service_db_ok(2)]
      preserving_snd [OF auth_service_db_ok(3)] preserving_snd [OF auth_service_db_ok(4)]
      preserving_snd [OF session_writes_db_ok(4)])

section \<open>Sessions that can no longer be used\<close>

text \<open>
  A session is found by its identifier (access tokens) or by its token digest (refresh
  tokens). \<open>dead\<close>: no live row has the value. The locale states once, for both
  columns, that a dead value stays dead in every run, as long as the random sources
  do not draw it again.
\<close>

definition dead :: "(session_row \<Rightarrow> string) \<Rightarrow> string \<Rightarrow> database \<Rightarrow> bool" where
  "dead key v db \<longleftrightarrow> db_ok db \<and> (\<forall>r. row_with session_table key v db = Some r \<longrightarrow> s_revoked_at r \<noteq> None)"

definition hash_undrawn :: "env \<Rightarrow> string \<Rightarrow> world \<Rightarrow> bool" where
  "hash_undrawn E h w \<longleftrightarrow>
     (\<forall>k \<ge> w_rand w. \<forall>b. x_rand E k = Some b \<longrightarrow> hash_refresh_token E (raw_url_encode b) \<noteq> h)"

definition id_undrawn :: "env \<Rightarrow> string \<Rightarrow> world \<Rightarrow> bool" where
  "id_undrawn E i w \<longleftrightarrow> (\<forall>k \<ge> w_uuid w. x_uuid E k \<noteq> i)"

lemma new_session_Inr:
  assumes "new_session E m w = (Inr (tk, s), w1)"
  obtains b where "x_rand E (w_rand w) = Some b" "ss_token_hash s = hash_refresh_token E (raw_url_encode b)"
    and "tk_refresh tk = raw_url_encode b" "w_db w1 = w_db w" "w_rand w1 = Suc (w_rand w)"
    and "ss_revoked_at s = None" "ss_id s = x_uuid E (w_uuid w)"
    and "ss_expires_at s = x_clock E (w_clock w) + tm_refresh_ttl m"
    and "ss_created_at s = x_clock E (Suc (w_clock w))"
  using assms
  by (auto simp: new_session_def bindE_eq_Inr now_io_Inr uuid_io_def elim!: issue_Inr)

locale dead_session =
  fixes key :: "session_row \<Rightarrow> string" and message :: string and E :: env and m :: token_manager
    and v :: string and undrawn :: "world \<Rightarrow> bool"
  assumes unique: "(message, \<lambda>x y. key x = key y) \<in> set (t_unique session_table)"
    and key_revoke: "key (revoke_row t r) = key r"
    and undrawn_new: "undrawn w \<Longrightarrow> new_session E m w = (Inr (tk, s), w1) \<Longrightarrow> key (session_row_of s) \<noteq> v"
    and undrawn_later: "draws_on w w1 \<Longrightarrow> undrawn w \<Longrightarrow> undrawn w1"
begin

lemma keyed: "keyed_table session_table key message"
  by unfold_locales (simp add: session_table_def, rule unique)

lemma dead_insert:
  assumes "insert_into session_table r db = Inr (x, db1)" "dead key v db" "key r \<noteq> v"
  shows "dead key v db1"
  using keyed_table.insert_lookup [OF keyed assms(1), of v] insert_db_ok(2) [OF assms(1)] assms(2,3)
  by (auto simp: dead_def)

lemma dead_revoke:
  assumes "update_where session_table p (revoke_row t) db = Inr (n, db1)" "dead key v db"
  shows "dead key v db1"
proof -
  have "row_with session_table key v db1 = map_option (\<lambda>r. if p r then revoke_row t r else r) (row_with session_table key v db)"
    by (rule keyed_table.update_lookup [OF keyed assms(1)]) (rule key_revoke)
  with update_db_ok(1) [OF assms(1)] assms(2) show ?thesis by (auto simp: dead_def split: if_splits)
qed

lemma dead_prune:
  assumes "delete_where session_table p db = Inr (n, db1)" "dead key v db"
  shows "dead key v db1"
  using keyed_table.delete_lookup [OF keyed assms(1), of v] delete_db_ok(1) [OF assms(1)] assms(2)
  by (auto simp: dead_def db_ok_def split: option.splits if_splits)

lemma dead_writes:
  "keeps (preserving (dead key v)) (revoke_session E i t)"
  "keeps (preserving (dead key v)) (prune_sessions E t)"
  unfolding revoke_session_def prune_sessions_def
  by (auto intro!: keeps_intro sql_io_preserving elim: dead_revoke dead_prune)

lemma dead_creates:
  assumes "key (session_row_of s) \<noteq> v"
  shows "keeps (preserving (dead key v)) (create_session E s)"
    and "keeps (preserving (dead key v)) (rotate_session E i s t)"
proof -
  have ins: "keeps (preserving (dead key v)) (sql_io E (insert_into session_table (session_row_of s)))"
    by (rule sql_io_preserving) (use assms in \<open>auto elim: dead_insert\<close>)
  have upd: "keeps (preserving (dead key v)) (sql_io E (update_where session_table p (revoke_row t)))" for p
    by (rule sql_io_preserving) (rule dead_revoke)
  show "keeps (preserving (dead key v)) (create_session E s)"
    unfolding create_session_def by (intro keeps_intro ins) simp_all
  show "keeps (preserving (dead key v)) (rotate_session E i s t)"
    unfolding rotate_session_def by (auto intro!: keeps_atomically_db keeps_intro ins upd)
qed

text \<open>What follows a new session is safe when the value is not the new session's.\<close>

lemma dead_new_session:
  assumes "dead key v (w_db w)" "undrawn w"
    and f: "\<And>tk s. key (session_row_of s) \<noteq> v \<Longrightarrow> keeps (preserving (dead key v)) (f (tk, s))"
  shows "dead key v (w_db (snd (bindE (new_session E m) f w)))"
proof -
  obtain q w1 where q: "new_session E m w = (q, w1)" by (cases "new_session E m w")
  have same: "w_db w1 = w_db w" using keepsD [OF new_session_keeps(1), of w E m] q by (simp add: same_db_def)
  show ?thesis
  proof (cases q)
    case (Inl e)
    with q same assms(1) show ?thesis by simp
  next
    case (Inr p)
    obtain tk s where p: "p = (tk, s)" by (cases p)
    have "keeps (preserving (dead key v)) (f (tk, s))"
      by (rule f) (rule undrawn_new [OF assms(2) q [unfolded Inr p]])
    from preserving_snd [OF this, of w1] same assms(1) q show ?thesis by (simp add: Inr p)
  qed
qed

lemma issue_session_dead:
  "dead key v (w_db w) \<Longrightarrow> undrawn w \<Longrightarrow> dead key v (w_db (snd (issue_session E m w)))"
  unfolding issue_session_def by (rule dead_new_session) (auto intro!: keeps_intro dead_creates)

lemma login_dead:
  assumes "dead key v (w_db w)" "undrawn w"
  shows "dead key v (w_db (snd (login E m u p w)))"
proof (cases "trim_space u = []")
  case False
  let ?f = "find_user_by_username E (trim_space u)"
  obtain r w1 where f: "?f w = (r, w1)" by (cases "?f w")
  have same: "w_db w1 = w_db w" using keepsD [OF find_user_keeps(1), of w E "trim_space u"] f by (simp add: same_db_def)
  have "draws_on w w1" using keepsD [OF find_user_keeps(5), of w E "trim_space u"] f by simp
  note later = undrawn_later [OF this assms(2)]
  show ?thesis
  proof (cases r)
    case (Inl e)
    with f False same assms show ?thesis by (simp add: login_def)
  next
    case (Inr x)
    have "dead key v (w_db (snd (issue_session E m w1)))"
      by (rule issue_session_dead) (use same assms(1) later in simp_all)
    then have "dead key v (w_db (snd (bindE (issue_session E m) (\<lambda>tk. ret (x, tk)) w1)))"
      by (cases "issue_session E m w1"; cases "fst (issue_session E m w1)") auto
    with f False same assms Inr show ?thesis
      by (auto simp: login_def check_password_def)
  qed
qed (use assms in \<open>simp add: login_def\<close>)

lemma refresh_dead:
  assumes "dead key v (w_db w)" "undrawn w"
  shows "dead key v (w_db (snd (refresh E m tok w)))"
proof (cases "trim_space tok = []")
  case False
  obtain t w1 where n: "now_io E w = (Inr t, w1)" by (simp add: now_io_def)
  let ?h = "hash_refresh_token E tok"
  let ?f = "find_active_session_by_token_hash E ?h t"
  obtain r w2 where f: "?f w1 = (r, w2)" by (cases "?f w1")
  have same: "w_db w2 = w_db w"
    using n keepsD [OF find_active_keeps(1), of w1 E ?h t] f by (simp add: same_db_def now_io_Inr)
  have "draws_on w w2"
    using n keepsD [OF find_active_keeps(3), of w1 E ?h t] f by (simp add: draws_on_def now_io_Inr)
  note later = undrawn_later [OF this assms(2)]
  show ?thesis
  proof (cases r)
    case (Inl e)
    with n f False same assms show ?thesis by (simp add: refresh_def)
  next
    case (Inr s)
    have "dead key v (w_db (snd (bindE (new_session E m) (\<lambda>(tk, replacement).
      bindE (now_io E) (\<lambda>now2.
      handleE (rotate_session E (ss_id s) replacement now2)
        (\<lambda>_. raise (TextError ''invalid refresh token'')) (\<lambda>_. ret tk))) w2)))"
      by (rule dead_new_session) (use same assms(1) later in \<open>auto intro!: keeps_intro dead_creates\<close>)
    with n f False Inr show ?thesis by (simp add: refresh_def)
  qed
qed (use assms in \<open>simp add: refresh_def\<close>)

lemma logout_dead: "keeps (preserving (dead key v)) (logout E i)"
  unfolding logout_def by (auto intro!: keeps_intro dead_writes)

end

lemma auth_step_draws: "auth_step E m w w1 \<Longrightarrow> draws_on w w1"
  by (erule auth_step_cases)
    (simp_all add: keepsD [OF auth_service_keeps(5)] keepsD [OF auth_service_keeps(6)]
      keepsD [OF auth_service_keeps(7)] keepsD [OF auth_service_keeps(8)] keepsD [OF session_writes_keep(8)])

context dead_session begin

lemma dead_step:
  assumes "auth_step E m w w1" "dead key v (w_db w) \<and> undrawn w"
  shows "dead key v (w_db w1) \<and> undrawn w1"
proof
  show "undrawn w1" using auth_step_draws [OF assms(1)] assms(2) by (auto intro: undrawn_later)
  show "dead key v (w_db w1)"
    using assms(1)
    by cases (use assms(2) in \<open>auto intro: login_dead refresh_dead preserving_snd [OF logout_dead]
        preserving_snd [OF dead_writes(2)] preserving_snd [OF same_db_preserving [OF auth_service_keeps(9)]]\<close>)
qed

lemma dead_run:
  "(auth_step E m)\<^sup>*\<^sup>* w w1 \<Longrightarrow> dead key v (w_db w) \<Longrightarrow> undrawn w \<Longrightarrow> dead key v (w_db w1)"
proof -
  assume r: "(auth_step E m)\<^sup>*\<^sup>* w w1" and d: "dead key v (w_db w)" "undrawn w"
  from r have "dead key v (w_db w1) \<and> undrawn w1"
    by (induction rule: rtranclp_induct) (use d dead_step in blast)+
  then show ?thesis ..
qed

end

interpretation dead_token: dead_session s_token_hash "''UNIQUE constraint failed: sessions.token_hash''" E m h "hash_undrawn E h"
  for E m h
proof unfold_locales
  show "hash_undrawn E h w \<Longrightarrow> new_session E m w = (Inr (tk, s), w1) \<Longrightarrow> s_token_hash (session_row_of s) \<noteq> h"
    for w tk s w1
    by (auto simp: hash_undrawn_def elim!: new_session_Inr)
  show "draws_on w w1 \<Longrightarrow> hash_undrawn E h w \<Longrightarrow> hash_undrawn E h w1" for w w1
    unfolding draws_on_def hash_undrawn_def using le_trans by blast
qed (auto simp: session_table_def)

interpretation dead_id: dead_session s_id "''UNIQUE constraint failed: sessions.id''" E m i "id_undrawn E i"
  for E m i
proof unfold_locales
  show "id_undrawn E i w \<Longrightarrow> new_session E m w = (Inr (tk, s), w1) \<Longrightarrow> s_id (session_row_of s) \<noteq> i"
    for w tk s w1
    by (auto simp: id_undrawn_def elim!: new_session_Inr)
  show "draws_on w w1 \<Longrightarrow> id_undrawn E i w \<Longrightarrow> id_undrawn E i w1" for w w1
    unfolding draws_on_def id_undrawn_def using le_trans by blast
qed (auto simp: session_table_def)

section \<open>Outcomes\<close>

lemma find_active_Inr:
  assumes "find_active_session_by_token_hash E h now w = (Inr s, w1)"
  obtains r expires where "hash_row h (w_db w) = Some r" "s_revoked_at r = None"
    "parse_time (s_expires_at r) = Some expires" "now < expires" "ss_id s = s_id r" "w_db w1 = w_db w"
proof -
  have "w_db w1 = w_db w"
    using keepsD [OF find_active_keeps(1), of w E h now] assms by (simp add: same_db_def)
  with assms that show thesis
    by (auto simp: find_active_session_by_token_hash_def bindE_eq_Inr sql_query_Inr parse_io_def
        split: option.splits if_splits)
qed

lemma refresh_Inr:
  assumes "refresh E m tok w = (Inr tk, w1)"
  obtains r t w2 w3 w4 s new now w5 where
    "find_active_session_by_token_hash E (hash_refresh_token E tok) t w2 = (Inr s, w3)" "w_db w2 = w_db w"
    "new_session E m w3 = (Inr (tk, new), w4)" "w_db w4 = w_db w"
    "rotate_session E (ss_id s) new now w5 = (Inr (), w1)" "w_db w5 = w_db w"
    "hash_row (hash_refresh_token E tok) (w_db w) = Some r" "s_revoked_at r = None" "ss_id s = s_id r"
    "draws_on w w3"
proof -
  from assms obtain w2 s w3 new w4 where f:
    "find_active_session_by_token_hash E (hash_refresh_token E tok) (x_clock E (w_clock w)) w2 = (Inr s, w3)"
    "w2 = w\<lparr>w_clock := Suc (w_clock w)\<rparr>" and n: "new_session E m w3 = (Inr (tk, new), w4)" and
    r: "rotate_session E (ss_id s) new (x_clock E (w_clock w4)) (w4\<lparr>w_clock := Suc (w_clock w4)\<rparr>) = (Inr (), w1)"
    by (auto simp: refresh_def bindE_eq_Inr handleE_eq now_io_Inr split: if_splits)
  from f(1) obtain row where row: "hash_row (hash_refresh_token E tok) (w_db w2) = Some row"
    "s_revoked_at row = None" "ss_id s = s_id row" "w_db w3 = w_db w2" by (rule find_active_Inr)
  have w4: "w_db w4 = w_db w3" using n by (rule new_session_Inr)
  have "draws_on w w3"
    using keepsD [OF find_active_keeps(3), of w2 E "hash_refresh_token E tok" "x_clock E (w_clock w)"] f
    by (simp add: draws_on_def)
  moreover have "w_db w2 = w_db w" "w_db w4 = w_db w" using f(2) w4 row(4) by simp_all
  ultimately show thesis using row by (intro that [OF f(1) _ n _ r]) (simp_all add: \<open>w_db w2 = w_db w\<close>)
qed

end
