(* ===== verification/Auth_Props.thy ===== *)
theory Auth_Props
  imports Auth_Service
begin

text \<open>The properties of sessions and tokens, over the repository, the token manager and the service.\<close>

section \<open>A world to evaluate in\<close>

definition auth_env :: env where
  "auth_env = calm_env\<lparr>
     x_rand := (\<lambda>n. if n < 2 then Some [char_of n] else None),
     x_jwt_sign := (\<lambda>s c. Some (c_subject c @ '':'' @ c_id c))\<rparr>"

definition auth_manager :: token_manager where
  "auth_manager = \<lparr>tm_secret = replicate 32 (CHR ''k''), tm_issuer = ''nd'', tm_access_ttl = 900000000000,
     tm_refresh_ttl = 604800000000000\<rparr>"

definition live_session :: session_row where
  "live_session = \<lparr>s_id = ''s'', s_token_hash = ''7474'', s_expires_at = stamp 864000000000000,
     s_revoked_at = None, s_created_at = stamp 0\<rparr>"

definition auth_world :: world where
  "auth_world = calm_world\<lparr>w_db := empty_db\<lparr>sessions := [live_session]\<rparr>\<rparr>"

lemma auth_world_ok: "db_ok (w_db auth_world)"
  by (simp add: auth_world_def calm_world_def empty_db_def db_ok_def table_ok_def table_defs
      first_violated_def parents_exist_def folders_exist_def)

lemma live_session_stamps:
  "parse_time (stamp 864000000000000) = Some 864000000000000" "parse_time (stamp 0) = Some 0"
  using in_range_split [of 864000000000000] parse_second_text [of 864000 0]
    in_range_split [of 0] parse_second_text [of 0 0]
  by (simp_all add: in_range_def)

lemma stamp_before_expiry: "t < 863999000000000 \<Longrightarrow> 0 \<le> t \<Longrightarrow> stamp t < stamp 864000000000000"
  by (rule stamp_order_seconds) (auto simp: in_range_def)


lemma auth_strings:
  "trim_space ''tt'' = ''tt''" "hash_refresh_token auth_env ''tt'' = ''7474''"
  "hash_refresh_token auth_env [url_digit 0, url_digit 0] = ''4141''"
  "hash_refresh_token auth_env [url_digit 0, url_digit 16] = ''4151''"
  "trim_space ''s'' = ''s''"
  by code_simp+

lemma auth_env_sel [simp]:
  "x_clock auth_env n = 86400000000000 + int n * 1000000000" "x_rand auth_env n = (if n < 2 then Some [char_of n] else None)"
  "x_uuid auth_env n = calm_uuid n" "x_sql_fault auth_env n = None"
  "x_jwt_sign auth_env k c = Some (c_subject c @ '':'' @ c_id c)"
  by (simp_all add: auth_env_def calm_env_def)

lemma calm_uuid_long [simp]: "calm_uuid n \<noteq> ''s''" "''s'' \<noteq> calm_uuid n"
  by (auto simp: calm_uuid_def dest: arg_cong [of _ _ length])

lemma auth_world_sel [simp]:
  "w_db auth_world = empty_db\<lparr>sessions := [live_session]\<rparr>" "w_clock auth_world = 0" "w_rand auth_world = 0"
  "w_uuid auth_world = 0"
  by (simp_all add: auth_world_def calm_world_def)

lemma find_live:
  assumes "w_db w = w_db auth_world" "t < 864000000000000"
  shows "find_active_session_by_token_hash auth_env ''7474'' t w =
     (Inr \<lparr>ss_id = ''s'', ss_token_hash = ''7474'', ss_expires_at = 864000000000000, ss_revoked_at = None, ss_created_at = 0\<rparr>,
      w\<lparr>w_sql := Suc (w_sql w)\<rparr>)"
  using assms
  by (simp add: find_active_session_by_token_hash_def wrapE_def sql_query_def sql_io_def handleE_def bindE_def Let_def
    row_with_def session_table_def live_session_def parse_io_def live_session_stamps ret_def)

lemma auth_rotate:
  assumes "w_db w = w_db auth_world" "ss_id s \<noteq> ''s''" "ss_token_hash s \<noteq> ''7474''" "t < 863999000000000" "0 \<le> t"
  shows "\<exists>w1. rotate_session auth_env ''s'' s t w = (Inr (), w1)"
  using assms stamp_before_expiry [OF assms(4,5)]
  by (simp add: rotate_session_def atomically_def wrapE_def sql_query_def sql_io_def handleE_def bindE_def Let_def
    update_where_def insert_into_def put_rows_def session_table_def live_session_def first_violated_def ret_def empty_db_def)

lemma auth_refresh:
  "\<exists>tk w1. refresh auth_env auth_manager ''tt'' auth_world = (Inr tk, w1)"
proof -
  obtain w3 where f: "find_active_session_by_token_hash auth_env ''7474'' 86400000000000 (auth_world\<lparr>w_clock := 1\<rparr>) =
     (Inr \<lparr>ss_id = ''s'', ss_token_hash = ''7474'', ss_expires_at = 864000000000000, ss_revoked_at = None, ss_created_at = 0\<rparr>, w3)"
    and w3: "w3 = auth_world\<lparr>w_clock := 1, w_sql := Suc (w_sql auth_world)\<rparr>"
    by (simp add: find_live)
  obtain tk s w4 where n: "new_session auth_env auth_manager w3 = (Inr (tk, s), w4)"
    by (simp add: w3 new_session_def bindE_def uuid_io_def issue_def now_io_def Let_def wrapE_def handleE_def
      random_token_def rand_io_def ret_def)
  then obtain s': "ss_id s \<noteq> ''s''" "ss_token_hash s \<noteq> ''7474''" "w_db w4 = w_db auth_world"
    by (rule new_session_Inr) (auto simp: w3 auth_strings split: if_splits)
  have c: "w_clock w4 = 3" using n
    by (simp add: w3 new_session_def bindE_def uuid_io_def issue_def now_io_def Let_def wrapE_def handleE_def
      random_token_def rand_io_def ret_def) auto
  obtain w1 where "rotate_session auth_env ''s'' s 86403000000000 (w4\<lparr>w_clock := 4\<rparr>) = (Inr (), w1)"
    using auth_rotate [of "w4\<lparr>w_clock := 4\<rparr>" s 86403000000000] s' by auto
  then have "refresh auth_env auth_manager ''tt'' auth_world = (Inr tk, w1)"
    using f n c by (simp add: refresh_def auth_strings(1,2) now_io_def bindE_def handleE_def)
  then show ?thesis by blast
qed

text \<open>
  C8: a refresh token works once. After a refresh that succeeded, every later refresh
  with the same token is refused, in every run of the service with any outcomes, while
  the random source does not draw that token again.
\<close>

theorem refresh_single_use:
  assumes "db_ok (w_db w)" "hash_undrawn E (hash_refresh_token E tok) w"
    and "refresh E m tok w = (Inr tk, w1)" "(auth_step E m)\<^sup>*\<^sup>* w1 w2"
  shows "\<exists>e. refresh E m tok w2 = (Inl e, snd (refresh E m tok w2))"
proof -
  let ?h = "hash_refresh_token E tok"
  from assms(3) obtain r t w3 w4 w5 s new now w6 where
    n: "new_session E m w4 = (Inr (tk, new), w5)" and
    rot: "rotate_session E (ss_id (s :: session)) new now w6 = (Inr (), w1)" "w_db w6 = w_db w" and
    r: "hash_row ?h (w_db w) = Some r" "ss_id s = s_id r" and d: "draws_on w w4" by (rule refresh_Inr) blast
  have later: "hash_undrawn E ?h w4" using dead_token.undrawn_later [OF d assms(2)] .
  from dead_token.undrawn_new [OF later n] have new: "ss_token_hash new \<noteq> ?h" by simp
  from rot assms(1) have ok: "db_ok (w_db w6)" by simp
  from rot(1) ok obtain q where q: "id_row (ss_id s) (w_db w6) = Some q"
    "hash_row ?h (w_db w1) = (if ?h = ss_token_hash new then Some (session_row_of new)
       else if ?h = s_token_hash q then Some (revoke_row now q) else hash_row ?h (w_db w6))"
    by (rule rotate_session_Inr) blast
  have "id_row (s_id r) (w_db w) = Some r" "s_token_hash r = ?h"
    using session_hashes.row_with_SomeD [OF r(1)] session_ids.row_with_unique [of "w_db w" r] assms(1)
    by (auto simp: db_ok_def)
  with q r(2) rot(2) have "q = r" by simp
  with q new \<open>s_token_hash r = ?h\<close> have "hash_row ?h (w_db w1) = Some (revoke_row now r)" by auto
  moreover have "db_ok (w_db w1)"
    using preserving_snd [OF auth_service_db_ok(2), of w E m tok] assms(1,3) by simp
  ultimately have "dead s_token_hash ?h (w_db w1)" by (simp add: dead_def)
  moreover have "hash_undrawn E ?h w1"
    using dead_token.undrawn_later [OF _ assms(2), of w1] keepsD [OF auth_service_keeps(6), of w E m tok] assms(3) by simp
  ultimately have dead: "dead s_token_hash ?h (w_db w2)"
    by (rule dead_token.dead_run [OF assms(4)])
  show ?thesis
  proof (cases "refresh E m tok w2")
    case (Pair x w3)
    show ?thesis
    proof (cases x)
      case (Inr tk2)
      from Pair [unfolded Inr] obtain r2 where "hash_row ?h (w_db w2) = Some r2" "s_revoked_at r2 = None"
        by (rule refresh_Inr) blast
      with dead show ?thesis by (simp add: dead_def)
    qed (use Pair in simp)
  qed
qed

theorem refresh_single_use_witness:
  "\<exists>tk w1 e. refresh auth_env auth_manager ''tt'' auth_world = (Inr tk, w1)
     \<and> fst (refresh auth_env auth_manager ''tt'' w1) = Inl e"
proof -
  obtain tk w1 where r: "refresh auth_env auth_manager ''tt'' auth_world = (Inr tk, w1)" using auth_refresh by blast
  have "hash_undrawn auth_env (hash_refresh_token auth_env ''tt'') auth_world"
    unfolding hash_undrawn_def by (auto simp: auth_strings(2-) less_2_cases_iff split: if_splits)
  from refresh_single_use [OF auth_world_ok this r rtranclp.rtrancl_refl] show ?thesis
    using r by (metis fst_conv)
qed

lemma refresh_failed:
  assumes "refresh E m tok w = (Inl e, w1)"
  shows "w_db w1 = w_db w"
proof (cases "trim_space tok = []")
  case True
  with assms show ?thesis by (auto simp: refresh_def)
next
  case False
  obtain t w2 where n: "now_io E w = (Inr t, w2)" "w_db w2 = w_db w" by (simp add: now_io_def)
  let ?h = "hash_refresh_token E tok"
  obtain q w3 where f: "find_active_session_by_token_hash E ?h t w2 = (q, w3)" by fastforce
  then have w3: "w_db w3 = w_db w" using keepsD [OF find_active_keeps(1), of w2 E ?h t] n by (simp add: same_db_def)
  show ?thesis
  proof (cases q)
    case (Inl e2)
    with n f False assms w3 show ?thesis by (auto simp: refresh_def)
  next
    case (Inr s)
    obtain p w4 where p: "new_session E m w3 = (p, w4)" by fastforce
    then have w4: "w_db w4 = w_db w" using keepsD [OF new_session_keeps(1), of w3 E m] w3 by (simp add: same_db_def)
    show ?thesis
    proof (cases p)
      case (Inl e2)
      with n f False assms w4 p Inr show ?thesis by (auto simp: refresh_def)
    next
      case p2: (Inr u)
      obtain tk new where u: "u = (tk, new)" by (cases u)
      obtain t2 w5 where n2: "now_io E w4 = (Inr t2, w5)" "w_db w5 = w_db w" using w4 by (simp add: now_io_def)
      obtain z w6 where z: "rotate_session E (ss_id s) new t2 w5 = (z, w6)" by fastforce
      have "refresh E m tok w = (case z of Inl _ \<Rightarrow> (Inl (TextError ''invalid refresh token''), w6) | Inr _ \<Rightarrow> (Inr tk, w6))"
        using n f False p n2 z by (simp add: refresh_def Inr p2 u handleE_def split: sum.split)
      with assms have "w6 = w1" "\<exists>e. z = Inl e" by (auto split: sum.splits)
      with z rotate_session_Inl n2(2) show ?thesis by metis
    qed
  qed
qed

text \<open>
  C25: a refresh is all or nothing. When it fails, whatever the failure and wherever
  it happens, the database is the one before; when it succeeds, the old session is
  revoked, one new live session answers to the new token, and every other session is
  as it was.
\<close>

theorem refresh_effect:
  assumes "db_ok (w_db w)" "refresh E m tok w = (r, w1)"
  shows "case r of
      Inl e \<Rightarrow> w_db w1 = w_db w
    | Inr tk \<Rightarrow> \<exists>old new now. hash_row (hash_refresh_token E tok) (w_db w) = Some old \<and> s_revoked_at old = None
        \<and> stamp now < s_expires_at old \<and> s_revoked_at new = None
        \<and> s_token_hash new = hash_refresh_token E (tk_refresh tk) \<and> s_token_hash new \<noteq> s_token_hash old
        \<and> (\<forall>h. hash_row h (w_db w1) =
               (if h = s_token_hash new then Some new
                else if h = s_token_hash old then Some (revoke_row now old) else hash_row h (w_db w)))"
proof (cases r)
  case (Inl e)
  with refresh_failed assms(2) show ?thesis by simp
next
  case (Inr tk)
  let ?h = "hash_refresh_token E tok"
  from assms(2) [unfolded Inr] obtain row t w3 w4 w5 s new now w6 where
    n: "new_session E m w4 = (Inr (tk, new), w5)" and
    rot: "rotate_session E (ss_id (s :: session)) new now w6 = (Inr (), w1)" "w_db w6 = w_db w" and
    r: "hash_row ?h (w_db w) = Some row" "s_revoked_at row = None" "ss_id s = s_id row" by (rule refresh_Inr) blast
  from rot assms(1) have ok: "db_ok (w_db w6)" by simp
  from rot(1) ok obtain q where q: "id_row (ss_id s) (w_db w6) = Some q" "stamp now < s_expires_at q"
    "\<And>h. hash_row h (w_db w1) = (if h = ss_token_hash new then Some (session_row_of new)
       else if h = s_token_hash q then Some (revoke_row now q) else hash_row h (w_db w6))"
    "ss_token_hash new \<noteq> s_token_hash q"
    by (rule rotate_session_Inr) blast
  have "id_row (s_id row) (w_db w) = Some row" "s_token_hash row = ?h"
    using session_hashes.row_with_SomeD [OF r(1)] session_ids.row_with_unique [of "w_db w" row] assms(1)
    by (auto simp: db_ok_def)
  with q(1) r(3) rot(2) have "q = row" by simp
  moreover have "ss_token_hash new = hash_refresh_token E (tk_refresh tk)" "ss_revoked_at new = None"
    using n by (auto elim!: new_session_Inr)
  ultimately show ?thesis
    unfolding Inr sum.case using q r rot(2)
    by (intro exI [of _ row] exI [of _ "session_row_of new"] exI [of _ now]) auto
qed

theorem refresh_effect_witness:
  "\<exists>tk w1 new. refresh auth_env auth_manager ''tt'' auth_world = (Inr tk, w1)
     \<and> hash_row (hash_refresh_token auth_env (tk_refresh tk)) (w_db w1) = Some new \<and> s_revoked_at new = None"
proof -
  obtain tk w1 where r: "refresh auth_env auth_manager ''tt'' auth_world = (Inr tk, w1)" using auth_refresh by blast
  from refresh_effect [OF auth_world_ok r] r show ?thesis by auto
qed

text \<open>
  The check behind every request (\<^verbatim>\<open>ValidateSession\<close>) and the lookup behind a refresh
  (\<^verbatim>\<open>FindActiveSessionByTokenHash\<close>) accept exactly the sessions that are in the table, are not
  revoked, and whose expiry is readable and strictly after now (the lookup also reads the
  creation time); neither changes the database, and a failing statement is a refusal.
\<close>

theorem session_checks_exact:
  "(fst (validate_session E i now w) = Inr () \<longleftrightarrow>
     x_sql_fault E (w_sql w) = None \<and>
     (\<exists>r expires. id_row i (w_db w) = Some r \<and> s_revoked_at r = None
        \<and> parse_time (s_expires_at r) = Some expires \<and> now < expires))
   \<and> ((\<exists>s. fst (find_active_session_by_token_hash E h now w) = Inr s) \<longleftrightarrow>
     x_sql_fault E (w_sql w) = None \<and>
     (\<exists>r expires created. hash_row h (w_db w) = Some r \<and> s_revoked_at r = None
        \<and> parse_time (s_expires_at r) = Some expires \<and> now < expires
        \<and> parse_time (s_created_at r) = Some created))
   \<and> w_db (snd (validate_session E i now w)) = w_db w
   \<and> w_db (snd (find_active_session_by_token_hash E h now w)) = w_db w"
proof -
  have "(\<exists>s. fst (find_active_session_by_token_hash E h now w) = Inr s)
      \<longleftrightarrow> (\<exists>s w1. find_active_session_by_token_hash E h now w = (Inr s, w1))"
    by (metis fst_conv surjective_pairing)
  also have "\<dots> \<longleftrightarrow> x_sql_fault E (w_sql w) = None \<and>
     (\<exists>r expires created. hash_row h (w_db w) = Some r \<and> s_revoked_at r = None
        \<and> parse_time (s_expires_at r) = Some expires \<and> now < expires
        \<and> parse_time (s_created_at r) = Some created)"
    by (auto simp: find_active_session_by_token_hash_def bindE_eq_Inr sql_query_Inr parse_io_def
        split: option.splits if_splits)
  finally show ?thesis
    using validate_session_accepts keepsD [OF validate_session_keeps(1)] keepsD [OF find_active_keeps(1)]
    by (simp add: same_db_def)
qed

text \<open>
  Logging out ends the session for good. After a successful logout no later check
  accepts the session's access tokens, in every run of the service, while no new session
  gets the same identifier.
\<close>

theorem logout_ends_session:
  assumes "db_ok (w_db w)" "id_undrawn E i w"
    and "logout E i w = (Inr (), w1)" "(auth_step E m)\<^sup>*\<^sup>* w1 w2"
  shows "fst (validate_session E i now w2) \<noteq> Inr ()"
proof -
  from assms(3) obtain w' t where rev: "revoke_session E i t w' = (Inr (), w1)" "w_db w' = w_db w"
    by (auto simp: logout_def bindE_eq_Inr now_io_Inr split: if_splits)
  from rev assms(1) have "db_ok (w_db w')" by simp
  with rev(1) obtain r where "id_row i (w_db w1) = Some (revoke_row t r)"
    by (rule revoke_session_Inr) simp
  moreover have "db_ok (w_db w1)"
    using preserving_snd [OF auth_service_db_ok(4), of w E i] assms(1,3) by simp
  ultimately have "dead s_id i (w_db w1)" by (simp add: dead_def)
  moreover have "id_undrawn E i w1"
    using dead_id.undrawn_later [OF _ assms(2), of w1] keepsD [OF auth_service_keeps(8), of w E i] assms(3) by simp
  ultimately have "dead s_id i (w_db w2)" by (rule dead_id.dead_run [OF assms(4)])
  then show ?thesis unfolding validate_session_accepts by (auto simp: dead_def)
qed

lemma auth_logout: "\<exists>w1. logout auth_env ''s'' auth_world = (Inr (), w1)"
  by (simp add: logout_def now_io_def bindE_def revoke_session_def wrapE_def handleE_def sql_io_def Let_def
    update_where_def put_rows_def session_table_def live_session_def first_violated_def ret_def empty_db_def
    auth_strings(5))

theorem logout_ends_session_witness:
  "\<exists>w1. logout auth_env ''s'' auth_world = (Inr (), w1)
     \<and> fst (validate_session auth_env ''s'' 0 (snd (refresh auth_env auth_manager ''tt'' w1))) \<noteq> Inr ()"
proof -
  obtain w1 where l: "logout auth_env ''s'' auth_world = (Inr (), w1)" using auth_logout by blast
  have "id_undrawn auth_env ''s'' auth_world" by (simp add: id_undrawn_def)
  moreover have "(auth_step auth_env auth_manager)\<^sup>*\<^sup>* w1 (snd (refresh auth_env auth_manager ''tt'' w1))"
    by (intro r_into_rtranclp step_refresh)
  ultimately show ?thesis
    using logout_ends_session [OF auth_world_ok _ l] l by blast
qed

lemma issue_session_outcome:
  assumes "issue_session E m w = (r, w1)"
  shows "case r of
      Inl e \<Rightarrow> w_db w1 = w_db w
    | Inr tk \<Rightarrow> \<exists>s. w_db w1 = (w_db w)\<lparr>sessions := sessions (w_db w) @ [session_row_of s]\<rparr>
        \<and> ss_token_hash s = hash_refresh_token E (tk_refresh tk) \<and> ss_revoked_at s = None
        \<and> ss_expires_at s = tk_refresh_expires_at tk"
proof -
  obtain p w3 where p: "new_session E m w = (p, w3)" by fastforce
  then have w3: "w_db w3 = w_db w" using keepsD [OF new_session_keeps(1), of w E m] by (simp add: same_db_def)
  show ?thesis
  proof (cases p)
    case (Inl e)
    with p assms w3 show ?thesis by (auto simp: issue_session_def)
  next
    case p2: (Inr v)
    obtain tk s where v: "v = (tk, s)" by (cases v)
    from p [unfolded p2 v] have s: "ss_token_hash s = hash_refresh_token E (tk_refresh tk)"
      "ss_revoked_at s = None" "ss_expires_at s = tk_refresh_expires_at tk"
      by (auto simp: new_session_def bindE_eq_Inr now_io_Inr)
    obtain z w4 where z: "create_session E s w3 = (z, w4)" by fastforce
    show ?thesis
    proof (cases z)
      case (Inl e)
      with z have "w_db w4 = w_db w3" by (auto simp: create_session_def wrapE_Inl dest: sql_io_Inl_db)
      with z p Inl p2 v assms w3 show ?thesis by (auto simp: issue_session_def)
    next
      case z2: (Inr y)
      from z [unfolded z2] have "w_db w4 = (w_db w)\<lparr>sessions := sessions (w_db w) @ [session_row_of s]\<rparr>"
        by (auto simp: create_session_Inr insert_into_Inr session_table_def w3)
      with z p z2 p2 v assms s show ?thesis by (auto simp: issue_session_def)
    qed
  qed
qed

text \<open>
  C26: a login opens a session only for the stored account whose bcrypt hash accepts the
  password; every other outcome leaves the database as it was, and an unknown name and a
  wrong password give the same error.
\<close>

theorem login_exact:
  assumes "login E m name password w = (r, w1)"
  shows "case r of
      Inl e \<Rightarrow> w_db w1 = w_db w \<and>
        ((\<forall>row. row_with user_table u_username (trim_space name) (w_db w) = Some row \<longrightarrow>
            \<not> x_bcrypt_check E (u_password_hash row) password) \<longrightarrow> e = ErrInvalidCredentials)
    | Inr (u, tk) \<Rightarrow> trim_space name \<noteq> [] \<and>
        (\<exists>row s. row_with user_table u_username (trim_space name) (w_db w) = Some row
           \<and> us_id u = u_id row \<and> x_bcrypt_check E (u_password_hash row) password
           \<and> w_db w1 = (w_db w)\<lparr>sessions := sessions (w_db w) @ [session_row_of s]\<rparr>
           \<and> ss_token_hash s = hash_refresh_token E (tk_refresh tk) \<and> ss_revoked_at s = None
           \<and> ss_expires_at s = tk_refresh_expires_at tk)"
proof (cases "trim_space name = []")
  case True
  with assms show ?thesis by (auto simp: login_def)
next
  case False
  let ?n = "trim_space name"
  obtain q w2 where f: "find_user_by_username E ?n w = (q, w2)" by fastforce
  then have w2: "w_db w2 = w_db w" using keepsD [OF find_user_keeps(1), of w E ?n] by (simp add: same_db_def)
  show ?thesis
  proof (cases q)
    case (Inl e)
    with f False assms w2 show ?thesis by (auto simp: login_def)
  next
    case (Inr u)
    from f [unfolded Inr] obtain row where row: "row_with user_table u_username ?n (w_db w) = Some row"
      "us_id u = u_id row" "us_password_hash u = u_password_hash row"
      by (auto simp: find_user_by_username_def bindE_eq_Inr sql_query_Inr scan_user_def parse_io_def split: option.splits)
    show ?thesis
    proof (cases "x_bcrypt_check E (us_password_hash u) password")
      case False
      with f Inr \<open>?n \<noteq> []\<close> assms w2 show ?thesis by (auto simp: login_def check_password_def)
    next
      case ok: True
      obtain z w3 where z: "issue_session E m w2 = (z, w3)" by fastforce
      have r: "r = (case z of Inl e \<Rightarrow> Inl e | Inr tk \<Rightarrow> Inr (u, tk))" "w1 = w3"
        using assms f Inr \<open>?n \<noteq> []\<close> ok z by (auto simp: login_def check_password_def bindE_def split: sum.splits)
      from issue_session_outcome [OF z] row ok False w2 show ?thesis
        by (cases z) (auto simp: r)
    qed
  qed
qed

theorem login_exact_witness:
  "fst (login auth_env auth_manager ''n'' ''p'' auth_world) = Inl ErrInvalidCredentials"
proof -
  obtain r w1 where l: "login auth_env auth_manager ''n'' ''p'' auth_world = (r, w1)" by fastforce
  have u: "row_with user_table u_username x (w_db auth_world) = None" for x
    by (simp add: row_with_def user_table_def empty_db_def)
  show ?thesis using login_exact [OF l] l by (cases r) (auto simp: u simp del: auth_world_sel)
qed

text \<open>
  Pruning, which compares texts, is right up to the second. A session that expires in
  a later second than now, and is not revoked or was revoked in a later second than the
  retention limit, stays; one that expired in an earlier second, or was revoked in an
  earlier second than the limit, goes; the result is the number of rows removed.
\<close>

theorem prune_sessions_exact:
  assumes "prune_sessions E now w = (Inr n, w1)"
    and "in_range now" "in_range (now - session_revoked_retention)"
    and "r \<in> set (sessions (w_db w))" "s_expires_at r = stamp x" "in_range x"
    and "s_revoked_at r = map_option stamp rvk" "\<And>y. rvk = Some y \<Longrightarrow> in_range y"
  defines "sec \<equiv> \<lambda>t :: time. t div 1000000000"
  shows "(sec now < sec x \<and> (\<forall>y. rvk = Some y \<longrightarrow> sec (now - session_revoked_retention) < sec y)
            \<longrightarrow> r \<in> set (sessions (w_db w1)))
       \<and> (sec x < sec now \<longrightarrow> r \<notin> set (sessions (w_db w1)))
       \<and> (\<forall>y. rvk = Some y \<and> sec y < sec (now - session_revoked_retention) \<longrightarrow> r \<notin> set (sessions (w_db w1)))
       \<and> n = int (length (sessions (w_db w))) - int (length (sessions (w_db w1)))"
proof -
  have w1: "sessions (w_db w1) = filter (\<lambda>r. \<not> stale_session now r) (sessions (w_db w))"
    and n: "n = int (length (filter (stale_session now) (sessions (w_db w))))"
    using assms(1) by (auto simp: prune_sessions_def sql_io_Inr delete_where_def session_table_def)
  have less: "stamp t < stamp u" if "in_range t" "in_range u" "sec t < sec u" for t u
    using that unfolding sec_def by (rule stamp_order_seconds)
  have "\<not> stale_session now r" if "sec now < sec x" "\<And>y. rvk = Some y \<Longrightarrow> sec (now - session_revoked_retention) < sec y"
    using that less [OF assms(2,6)] less [OF assms(3)] assms(5,7,8)
    by (cases rvk) (auto simp: stale_session_def not_le)
  moreover have "stale_session now r" if "sec x < sec now"
    using less [OF assms(6,2) that] assms(5) by (simp add: stale_session_def less_imp_le)
  moreover have "stale_session now r" if "rvk = Some y" "sec y < sec (now - session_revoked_retention)" for y
    using less [OF assms(8) [OF that(1)] assms(3) that(2)] assms(7) that(1) by (simp add: stale_session_def less_imp_le)
  moreover have "n = int (length (sessions (w_db w))) - int (length (sessions (w_db w1)))"
    unfolding n w1 using sum_length_filter_compl [of "stale_session now" "sessions (w_db w)"] by linarith
  ultimately show ?thesis using assms(4) by (auto simp: w1)
qed

theorem prune_sessions_exact_witness:
  "\<exists>n w1. prune_sessions auth_env 863000000000000 auth_world = (Inr n, w1) \<and> live_session \<in> set (sessions (w_db w1))"
proof -
  obtain n w1 where p: "prune_sessions auth_env 863000000000000 auth_world = (Inr n, w1)"
    by (simp add: prune_sessions_def wrapE_def sql_io_def Let_def delete_where_def handleE_def ret_def)
  have "live_session \<in> set (sessions (w_db w1))"
    using prune_sessions_exact [OF p, of live_session 864000000000000 None]
    by (simp add: in_range_def session_revoked_retention_def live_session_def)
  with p show ?thesis by blast
qed

text \<open>
  C27: an access token is accepted exactly in its window, and nothing else is. A text is accepted exactly when its
  HMAC-SHA256 signature verifies with the server's secret, its claims are current and of this issuer, and
  they name a subject and a session. The token of a session is accepted from the second it was issued
  in up to, not including, the second of its expiry, with the session and user it was issued for. It is stated for ASCII
  texts and dates of the years 1 to 9999, over what the token package documents (\<^const>\<open>jwt_laws\<close>).
\<close>

theorem access_token_window:
  fixes w w2 :: world
  assumes "jwt_laws E verify" "numeric_laws E" "ascii (tm_issuer m)" "ascii user_id" "ascii session_id"
    and "issue E m user_id session_id w = (Inr tk, w1)" "user_id \<noteq> []" "session_id \<noteq> []"
  defines "issued \<equiv> x_clock E (w_clock w)" and "now \<equiv> x_clock E (w_clock w2)"
  assumes "in_range issued" "in_range (issued + tm_access_ttl m)"
  shows "(case fst (validate_access_token E m (tk_access tk) w2) of
            Inl e \<Rightarrow> e = ErrInvalidToken \<and>
              \<not> (issued - issued mod 1000000000 \<le> now \<and>
                 now < (issued + tm_access_ttl m) - (issued + tm_access_ttl m) mod 1000000000)
          | Inr cl \<Rightarrow> c_subject cl = user_id \<and> c_id cl = session_id \<and>
              issued - issued mod 1000000000 \<le> now \<and>
              now < (issued + tm_access_ttl m) - (issued + tm_access_ttl m) mod 1000000000)
         \<and> (\<forall>raw cl. fst (validate_access_token E m raw w2) = Inr cl \<longleftrightarrow>
              verify ''HS256'' (tm_secret m) raw = Some cl \<and> jwt_current (tm_issuer m) now cl \<and>
              c_subject cl \<noteq> [] \<and> c_id cl \<noteq> [])"
proof -
  from assms(6) have signed: "x_jwt_sign E (tm_secret m) (issued_claims E m user_id session_id issued) = Some (tk_access tk)"
    by (rule issue_Inr) (simp add: issued_def issued_claims_def)
  note v = issued_token_verdict [OF assms(1-5) assms(11,12,7,8) signed, of w2, folded now_def]
  have "fst (validate_access_token E m raw w2) = Inr cl \<longleftrightarrow>
      verify ''HS256'' (tm_secret m) raw = Some cl \<and> jwt_current (tm_issuer m) now cl \<and> c_subject cl \<noteq> [] \<and> c_id cl \<noteq> []" for raw cl
    unfolding validate_access_token_verdict [OF assms(1)] now_def by (auto split: option.split)
  then show ?thesis by (simp add: v) (simp add: issued_claims_def)
qed

definition window_claims :: claims where
  "window_claims = \<lparr>c_issuer = ''nd'', c_subject = ''single'', c_id = ''s'', c_issued_at = Some 86400000000000,
     c_not_before = Some 86400000000000, c_expires_at = Some 87300000000000\<rparr>"

text \<open>A package that knows one text, the token of the claims above.\<close>

definition one_token :: "claims \<Rightarrow> string \<Rightarrow> string \<Rightarrow> string \<Rightarrow> claims option" where
  "one_token cl alg key raw = (if alg = ''HS256'' \<and> key = replicate 32 (CHR ''k'') \<and> raw = ''T'' then Some cl else None)"

definition one_token_env :: "claims \<Rightarrow> env" where
  "one_token_env cl = calm_env\<lparr>
     x_jwt_sign := (\<lambda>k c. if k = replicate 32 (CHR ''k'') \<and> c = cl then Some ''T'' else None),
     x_jwt_parse := (\<lambda>kf iss ms t raw.
        if raw = ''T'' \<and> ''HS256'' \<in> set ms \<and> kf ''HS256'' = Inr (replicate 32 (CHR ''k'')) \<and> jwt_current iss t cl
        then Some (cl, True) else None)\<rparr>"

lemma one_token_laws: "jwt_laws (one_token_env cl) (one_token cl)" "numeric_laws (one_token_env cl)"
  by (auto simp: jwt_laws_def numeric_laws_def one_token_env_def one_token_def calm_env_def split: if_splits)

theorem access_token_window_witness:
  "\<exists>tk w1. issue (one_token_env window_claims) auth_manager ''single'' ''s'' calm_world = (Inr tk, w1)
     \<and> (\<exists>cl. fst (validate_access_token (one_token_env window_claims) auth_manager (tk_access tk) w1) = Inr cl \<and> c_id cl = ''s'')"
proof -
  let ?E = "one_token_env window_claims"
  obtain tk w1 where i: "issue ?E auth_manager ''single'' ''s'' calm_world = (Inr tk, w1)" and "w_clock w1 = 1"
    by (simp add: issue_def now_io_def one_token_env_def calm_env_def calm_world_def bindE_def Let_def auth_manager_def
      window_claims_def wrapE_def handleE_def random_token_def rand_io_def ret_def)
  moreover have "x_clock ?E 0 = 86400000000000" "x_clock ?E 1 = 86401000000000" "w_clock calm_world = 0"
    "tm_access_ttl auth_manager = 900000000000" "ascii (tm_issuer auth_manager)" "ascii ''single''" "ascii ''s''"
    by (simp_all add: one_token_env_def calm_env_def calm_world_def auth_manager_def) (simp_all add: ascii_def)
  ultimately show ?thesis
    using access_token_window [OF one_token_laws _ _ _ i, of w1]
    by (cases "fst (validate_access_token ?E auth_manager (tk_access tk) w1)") (auto simp: in_range_def)
qed

end
