(* ===== verification/File_Repository.thy ===== *)
theory File_Repository
  imports Auth_Repository
begin

text \<open>
  src/internal/repository/file_repository.go: folders, files, trash, search and the audit
  log. Each method is modelled statement by statement, with the checks the code makes
  between them. SQL's \<^verbatim>\<open>ORDER BY\<close> compares bytes; rows that tie keep their insertion order.
\<close>

section \<open>The records\<close>

record folder =
  fd_id :: string
  fd_parent_id :: string
  fd_mount :: string
  fd_name :: string
  fd_created_at :: time
  fd_updated_at :: time

record file_item =
  fl_id :: string
  fl_folder_id :: string
  fl_mount :: string
  fl_storage_key :: string
  fl_name :: string
  fl_content_type :: string
  fl_size :: int
  fl_checksum :: string
  fl_created_at :: time
  fl_updated_at :: time
  fl_deleted_at :: "time option"

record audit_event =
  ev_id :: string
  ev_action :: string
  ev_resource_id :: string
  ev_metadata :: string
  ev_created_at :: time

definition nullable_string :: "string \<Rightarrow> string option" where
  "nullable_string v = (if v = [] then None else Some v)"

text \<open>\<^verbatim>\<open>COALESCE(c, '')\<close>\<close>

definition coalesce :: "string option \<Rightarrow> string" where
  "coalesce c = (case c of None \<Rightarrow> [] | Some v \<Rightarrow> v)"

definition folder_of_row :: "folder_row \<Rightarrow> folder" where
  "folder_of_row d =
     \<lparr>fd_id = d_id d, fd_parent_id = coalesce (d_parent_id d), fd_mount = d_mount d, fd_name = d_name d,
      fd_created_at = parse_stamp (d_created_at d), fd_updated_at = parse_stamp (d_updated_at d)\<rparr>"

definition row_of_folder :: "folder \<Rightarrow> folder_row" where
  "row_of_folder d =
     \<lparr>d_id = fd_id d, d_parent_id = nullable_string (fd_parent_id d), d_name = fd_name d, d_mount = fd_mount d,
      d_created_at = stamp (fd_created_at d), d_updated_at = stamp (fd_updated_at d)\<rparr>"

definition file_of_row :: "file_row \<Rightarrow> file_item" where
  "file_of_row f =
     \<lparr>fl_id = f_id f, fl_folder_id = coalesce (f_folder_id f), fl_mount = f_mount f,
      fl_storage_key = f_storage_key f, fl_name = f_name f, fl_content_type = f_content_type f,
      fl_size = f_size f, fl_checksum = f_checksum f,
      fl_created_at = parse_stamp (f_created_at f), fl_updated_at = parse_stamp (f_updated_at f),
      fl_deleted_at = map_option parse_stamp (f_deleted_at f)\<rparr>"

definition row_of_file :: "file_item \<Rightarrow> file_row" where
  "row_of_file f =
     \<lparr>f_id = fl_id f, f_folder_id = nullable_string (fl_folder_id f), f_storage_key = fl_storage_key f,
      f_name = fl_name f, f_content_type = fl_content_type f, f_size = fl_size f, f_checksum = fl_checksum f,
      f_mount = fl_mount f, f_created_at = stamp (fl_created_at f), f_updated_at = stamp (fl_updated_at f),
      f_deleted_at = None\<rparr>"

definition affected :: "int io \<Rightarrow> unit io" where
  "affected m = bindE m (\<lambda>n. if n = 0 then raise ErrNotFound else ret ())"

definition conflict_or :: "string \<Rightarrow> unit io \<Rightarrow> unit io" where
  "conflict_or msg m = handleE m (\<lambda>e. if is_constraint e then raise ErrConflict else raise (Wrapped msg e)) ret"

text \<open>The check before an insertion: the folder exists and is on the same disk.\<close>

definition check_mount :: "env \<Rightarrow> string \<Rightarrow> string \<Rightarrow> unit io" where
  "check_mount E folder_id mount =
     (if folder_id = [] then ret () else
      bindE (sql_query E (row_with folder_table d_id folder_id)) (\<lambda>row.
      case row of None \<Rightarrow> raise ErrNotFound
      | Some d \<Rightarrow> if d_mount d \<noteq> mount then raise ErrMountMismatch else ret ()))"

section \<open>Folders\<close>

definition create_folder :: "env \<Rightarrow> folder \<Rightarrow> unit io" where
  "create_folder E d =
     bindE (check_mount E (fd_parent_id d) (fd_mount d)) (\<lambda>_.
     conflict_or ''create folder'' (sql_io E (insert_into folder_table (row_of_folder d))))"

definition list_folders :: "env \<Rightarrow> string \<Rightarrow> string \<Rightarrow> int \<Rightarrow> int \<Rightarrow> folder list io" where
  "list_folders E mount parent_id limit offset =
     wrapE ''list folders'' (sql_query E (\<lambda>db. map folder_of_row (window limit offset
       (sort_key d_name (filter (\<lambda>d. d_mount d = mount \<and> coalesce (d_parent_id d) = parent_id) (folders db))))))"

definition find_folder :: "env \<Rightarrow> string \<Rightarrow> folder io" where
  "find_folder E i =
     bindE (wrapE ''find folder'' (sql_query E (row_with folder_table d_id i))) (\<lambda>row.
     case row of None \<Rightarrow> raise ErrNotFound | Some d \<Rightarrow> ret (folder_of_row d))"

definition rename_folder :: "env \<Rightarrow> string \<Rightarrow> string \<Rightarrow> time \<Rightarrow> unit io" where
  "rename_folder E i name now =
     affected (sql_io E (update_where folder_table (\<lambda>d. d_id d = i)
       (\<lambda>d. d\<lparr>d_name := name, d_updated_at := stamp now\<rparr>)))"

definition delete_folder :: "env \<Rightarrow> string \<Rightarrow> unit io" where
  "delete_folder E i =
     bindE (sql_query E (\<lambda>db. (length (filter (\<lambda>d. d_parent_id d = Some i) (folders db)),
                               length (filter (\<lambda>f. f_folder_id f = Some i) (files db))))) (\<lambda>(children, fs).
     if children > 0 \<or> fs > 0 then raise ErrConflict else
     affected (sql_io E (delete_folders (\<lambda>d. d_id d = i))))"

section \<open>Files\<close>

definition active :: "file_row \<Rightarrow> bool" where
  "active f \<longleftrightarrow> f_deleted_at f = None"

definition scan_file :: "file_row option \<Rightarrow> file_item io" where
  "scan_file row = (case row of None \<Rightarrow> raise ErrNotFound | Some f \<Rightarrow> ret (file_of_row f))"

definition find_active_by_checksum :: "env \<Rightarrow> string \<Rightarrow> string \<Rightarrow> file_item io" where
  "find_active_by_checksum E mount checksum =
     bindE (sql_query E (\<lambda>db. find (\<lambda>f. f_mount f = mount \<and> f_checksum f = checksum \<and> active f) (files db))) scan_file"

definition create_file :: "env \<Rightarrow> file_item \<Rightarrow> unit io" where
  "create_file E f =
     bindE (check_mount E (fl_folder_id f) (fl_mount f)) (\<lambda>_.
     conflict_or ''create file'' (sql_io E (insert_into file_table (row_of_file f))))"

definition find_file :: "env \<Rightarrow> string \<Rightarrow> file_item io" where
  "find_file E i = bindE (sql_query E (\<lambda>db. find (\<lambda>f. f_id f = i \<and> active f) (files db))) scan_file"

definition list_files :: "env \<Rightarrow> string \<Rightarrow> string \<Rightarrow> int \<Rightarrow> int \<Rightarrow> file_item list io" where
  "list_files E mount folder_id limit offset =
     sql_query E (\<lambda>db. map file_of_row (window limit offset (sort_key f_name
       (filter (\<lambda>f. f_mount f = mount \<and> coalesce (f_folder_id f) = folder_id \<and> active f) (files db)))))"

definition soft_delete_file :: "env \<Rightarrow> string \<Rightarrow> time \<Rightarrow> unit io" where
  "soft_delete_file E i now =
     affected (sql_io E (update_where file_table (\<lambda>f. f_id f = i \<and> active f)
       (\<lambda>f. f\<lparr>f_deleted_at := Some (stamp now), f_updated_at := stamp now\<rparr>)))"

definition restore_file :: "env \<Rightarrow> string \<Rightarrow> unit io" where
  "restore_file E i =
     affected (sql_io E (update_where file_table (\<lambda>f. f_id f = i \<and> \<not> active f) (\<lambda>f. f\<lparr>f_deleted_at := None\<rparr>)))"

text \<open>\<^verbatim>\<open>ORDER BY deleted_at DESC\<close>\<close>

definition list_trash :: "env \<Rightarrow> string \<Rightarrow> int \<Rightarrow> int \<Rightarrow> file_item list io" where
  "list_trash E mount limit offset =
     sql_query E (\<lambda>db. map file_of_row (window limit offset
       (rev (sort_key (\<lambda>f. coalesce (f_deleted_at f))
               (rev (filter (\<lambda>f. f_mount f = mount \<and> \<not> active f) (files db)))))))"

definition find_trashed_file :: "env \<Rightarrow> string \<Rightarrow> file_item io" where
  "find_trashed_file E i = bindE (sql_query E (\<lambda>db. find (\<lambda>f. f_id f = i \<and> \<not> active f) (files db))) scan_file"

definition delete_file_permanently :: "env \<Rightarrow> string \<Rightarrow> unit io" where
  "delete_file_permanently E i = affected (sql_io E (delete_where file_table (\<lambda>f. f_id f = i \<and> \<not> active f)))"

definition rename_file :: "env \<Rightarrow> string \<Rightarrow> string \<Rightarrow> time \<Rightarrow> unit io" where
  "rename_file E i name now =
     affected (sql_io E (update_where file_table (\<lambda>f. f_id f = i \<and> active f)
       (\<lambda>f. f\<lparr>f_name := name, f_updated_at := stamp now\<rparr>)))"

definition move_file :: "env \<Rightarrow> string \<Rightarrow> string \<Rightarrow> time \<Rightarrow> unit io" where
  "move_file E i folder_id now =
     bindE (if folder_id = [] then ret () else
            bindE (sql_query E (row_with folder_table d_id folder_id)) (\<lambda>row.
            guardE (row \<noteq> None) ErrNotFound)) (\<lambda>_.
     affected (sql_io E (update_where file_table (\<lambda>f. f_id f = i \<and> active f)
       (\<lambda>f. f\<lparr>f_folder_id := nullable_string folder_id, f_updated_at := stamp now\<rparr>))))"

section \<open>Search\<close>

text \<open>\<^verbatim>\<open>strings.NewReplacer("!", "!!", "%", "!%", "_", "!_")\<close>, between two wildcards.\<close>

definition escape_char :: "char \<Rightarrow> string" where
  "escape_char c = (if c = CHR ''!'' \<or> c = CHR ''%'' \<or> c = CHR ''_'' then [CHR ''!'', c] else [c])"

definition like_pattern :: "string \<Rightarrow> string" where
  "like_pattern query = ''%'' @ concat (map escape_char query) @ ''%''"

text \<open>
  SQLite's \<^verbatim>\<open>LIKE ... ESCAPE\<close>: ASCII letters match in either case, a pattern that ends in
  the escape character matches nothing, and both texts end at a NUL.
\<close>

fun like :: "char \<Rightarrow> string \<Rightarrow> string \<Rightarrow> bool" where
  "like esc [] s \<longleftrightarrow> s = []"
| "like esc (p # ps) s \<longleftrightarrow>
     (if p = CHR ''%'' then list_ex (like esc ps) (suffixes s)
      else if p = esc then
        (case (ps, s) of (q # qs, c # cs) \<Rightarrow> lower_byte c = lower_byte q \<and> like esc qs cs | _ \<Rightarrow> False)
      else (case s of [] \<Rightarrow> False | c # cs \<Rightarrow>
              (p = CHR ''_'' \<or> lower_byte c = lower_byte p) \<and> like esc ps cs))"

definition c_text :: "string \<Rightarrow> string" where
  "c_text s = takeWhile (\<lambda>c. c \<noteq> CHR 0x00) s"

definition like_limit :: nat where "like_limit = 50000"

text \<open>A pattern above SQLite's limit is an error as soon as one row has to be tested.\<close>

definition search_rows :: "string \<Rightarrow> string \<Rightarrow> database \<Rightarrow> string + file_row list" where
  "search_rows mount query db =
     (let candidates = filter (\<lambda>f. f_mount f = mount \<and> active f) (files db);
          pattern = like_pattern query
      in if candidates \<noteq> [] \<and> length pattern > like_limit then Inl ''LIKE or GLOB pattern too complex''
         else Inr (filter (\<lambda>f. like (CHR ''!'') (c_text pattern) (c_text (f_name f))) candidates))"

definition search :: "env \<Rightarrow> string \<Rightarrow> string \<Rightarrow> int \<Rightarrow> int \<Rightarrow> file_item list io" where
  "search E mount query limit offset =
     sql_io E (\<lambda>db. case search_rows mount query db of
        Inl m \<Rightarrow> Inl m
      | Inr rows \<Rightarrow> Inr (map file_of_row (window limit offset (sort_key f_name rows)), db))"

section \<open>Counters and the audit log\<close>

text \<open>\<^verbatim>\<open>COALESCE(SUM(size),0)\<close> fails when the sum leaves 64 bits.\<close>

fun sum_sizes :: "int \<Rightarrow> file_row list \<Rightarrow> string + int" where
  "sum_sizes acc [] = Inr acc"
| "sum_sizes acc (f # fs) =
     (let s = acc + f_size f in
      if s > max_int64 \<or> s < min_int64 then Inl ''integer overflow'' else sum_sizes s fs)"

definition count_and_sum :: "env \<Rightarrow> (file_row \<Rightarrow> bool) \<Rightarrow> (int \<times> int) io" where
  "count_and_sum E p = sql_io E (\<lambda>db.
     let rows = filter p (files db) in
     case sum_sizes 0 rows of Inl m \<Rightarrow> Inl m | Inr s \<Rightarrow> Inr ((int (length rows), s), db))"

record dashboard_counts =
  dc_files :: int
  dc_folders :: int
  dc_bytes :: int
  dc_trash :: int

definition dashboard :: "env \<Rightarrow> dashboard_counts io" where
  "dashboard E =
     bindE (count_and_sum E active) (\<lambda>(fs, bytes).
     bindE (sql_query E (\<lambda>db. int (length (folders db)))) (\<lambda>ds.
     bindE (sql_query E (\<lambda>db. int (length (filter (\<lambda>f. \<not> active f) (files db))))) (\<lambda>trash.
     ret \<lparr>dc_files = fs, dc_folders = ds, dc_bytes = bytes, dc_trash = trash\<rparr>)))"

definition count_active_by_mount :: "env \<Rightarrow> string \<Rightarrow> (int \<times> int) io" where
  "count_active_by_mount E mount = count_and_sum E (\<lambda>f. f_mount f = mount \<and> active f)"

definition audit_retention :: duration where
  "audit_retention = 90 * 24 * 3600 * 1000000000"

definition prune_audit :: "env \<Rightarrow> time \<Rightarrow> int io" where
  "prune_audit E now = wrapE ''prune audit events''
     (sql_io E (delete_where audit_table (\<lambda>a. a_created_at a \<le> stamp (now - audit_retention))))"

definition audit :: "env \<Rightarrow> audit_event \<Rightarrow> unit io" where
  "audit E ev = sql_io E (insert_into audit_table
     \<lparr>a_id = ev_id ev, a_action = ev_action ev, a_resource_id = ev_resource_id ev,
      a_metadata = ev_metadata ev, a_created_at = stamp (ev_created_at ev)\<rparr>)"

section \<open>Frames\<close>

lemma keeps_affected [keeps_intro]: "reflp R \<Longrightarrow> transp R \<Longrightarrow> keeps R m \<Longrightarrow> keeps R (affected m)"
  unfolding affected_def by (auto intro!: keeps_intro)

lemma keeps_conflict_or [keeps_intro]: "reflp R \<Longrightarrow> transp R \<Longrightarrow> keeps R m \<Longrightarrow> keeps R (conflict_or msg m)"
  unfolding conflict_or_def by (auto intro!: keeps_intro)

lemma keeps_scan_file [keeps_intro]: "reflp R \<Longrightarrow> transp R \<Longrightarrow> keeps R (scan_file row)"
  by (auto simp: scan_file_def intro!: keeps_intro split: option.split)

lemma check_mount_keeps [keeps_intro]:
  "keeps same_db (check_mount E i m)" "keeps same_fs (check_mount E i m)" "keeps draws_on (check_mount E i m)"
  unfolding check_mount_def by (auto intro!: keeps_intro split: option.split)

lemma folder_reads_keep [keeps_intro]:
  "keeps same_db (find_folder E i)" "keeps same_fs (find_folder E i)" "keeps draws_on (find_folder E i)"
  unfolding find_folder_def by (auto intro!: keeps_intro split: option.split)

lemma file_reads_keep [keeps_intro]:
  "keeps same_db (find_file E i)" "keeps same_fs (find_file E i)" "keeps draws_on (find_file E i)"
  "keeps same_db (find_trashed_file E i)" "keeps same_fs (find_trashed_file E i)" "keeps draws_on (find_trashed_file E i)"
  "keeps same_db (find_active_by_checksum E m c)" "keeps same_fs (find_active_by_checksum E m c)"
  "keeps draws_on (find_active_by_checksum E m c)"
  unfolding find_file_def find_trashed_file_def find_active_by_checksum_def by (auto intro!: keeps_intro)

lemma search_keeps_db: "keeps (preserving J) (search E m q l off)"
  unfolding search_def by (rule sql_io_preserving) (auto split: sum.splits)

lemma same_db_iff: "keeps same_db m \<longleftrightarrow> (\<forall>J. keeps (preserving J) m)"
proof
  assume "\<forall>J. keeps (preserving J) m"
  then have "w_db (snd (m w)) = w_db w" for w
    using preserving_snd [of "\<lambda>db. db = w_db w" m w] by simp
  then show "keeps same_db m" by (simp add: keeps_def same_db_def)
qed (simp add: same_db_preserving)

lemma listings_keep [keeps_intro]:
  "keeps same_db (list_folders E m p l off)" "keeps same_db (list_files E m p l off)"
  "keeps same_db (list_trash E m l off)" "keeps same_db (search E m q l off)"
  "keeps same_fs (list_folders E m p l off)" "keeps same_fs (list_files E m p l off)"
  "keeps same_fs (list_trash E m l off)" "keeps same_fs (search E m q l off)"
  unfolding list_folders_def list_files_def list_trash_def
  by (auto intro!: keeps_intro simp: same_db_iff search_keeps_db) (auto simp: search_def intro: keeps_intro)

lemma file_writes_keep [keeps_intro]:
  "keeps same_fs (create_folder E d)" "keeps same_fs (rename_folder E i n t)" "keeps same_fs (delete_folder E i)"
  "keeps same_fs (create_file E f)" "keeps same_fs (soft_delete_file E i t)" "keeps same_fs (restore_file E i)"
  "keeps same_fs (delete_file_permanently E i)" "keeps same_fs (rename_file E i n t)"
  "keeps same_fs (move_file E i fid t)" "keeps same_fs (prune_audit E t)" "keeps same_fs (audit E ev)"
  unfolding create_folder_def rename_folder_def delete_folder_def create_file_def soft_delete_file_def
    restore_file_def delete_file_permanently_def rename_file_def move_file_def prune_audit_def audit_def
  by (auto intro!: keeps_intro split: prod.split option.split)

lemma file_writes_db_ok:
  "keeps (preserving db_ok) (create_folder E d)" "keeps (preserving db_ok) (rename_folder E i n t)"
  "keeps (preserving db_ok) (delete_folder E i)" "keeps (preserving db_ok) (create_file E f)"
  "keeps (preserving db_ok) (soft_delete_file E i t)" "keeps (preserving db_ok) (restore_file E i)"
  "keeps (preserving db_ok) (delete_file_permanently E i)" "keeps (preserving db_ok) (rename_file E i n t)"
  "keeps (preserving db_ok) (move_file E i fid t)" "keeps (preserving db_ok) (prune_audit E t)"
  "keeps (preserving db_ok) (audit E ev)"
  unfolding create_folder_def rename_folder_def delete_folder_def create_file_def soft_delete_file_def
    restore_file_def delete_file_permanently_def rename_file_def move_file_def prune_audit_def audit_def
  by (auto intro!: keeps_intro sql_io_preserving same_db_preserving [OF check_mount_keeps(1)]
      elim: statement_db_ok split: prod.split option.split)

section \<open>Outcomes of the writes\<close>

lemma affected_Inr: "affected m w = (Inr x, w1) \<longleftrightarrow> (\<exists>n. n \<noteq> 0 \<and> m w = (Inr n, w1))"
  by (auto simp: affected_def bindE_eq_Inr split: if_splits)

lemma conflict_or_Inr [simp]: "conflict_or msg m w = (Inr x, w1) \<longleftrightarrow> m w = (Inr x, w1)"
  by (auto simp: conflict_or_def handleE_eq split: if_splits)

lemma check_mount_Inr:
  "check_mount E i m w = (Inr x, w1) \<Longrightarrow>
     w_db w1 = w_db w \<and> (i \<noteq> [] \<longrightarrow> (\<exists>d. row_with folder_table d_id i (w_db w) = Some d \<and> d_mount d = m))"
  by (auto simp: check_mount_def bindE_eq_Inr sql_query_Inr split: if_splits option.splits)

lemma create_folder_Inr:
  assumes "create_folder E d w = (Inr x, w1)"
  shows "insert_into folder_table (row_of_folder d) (w_db w) = Inr ((), w_db w1)"
    and "w_db w1 = (w_db w)\<lparr>folders := folders (w_db w) @ [row_of_folder d]\<rparr>"
    and "fd_parent_id d \<noteq> [] \<Longrightarrow>
      \<exists>p. row_with folder_table d_id (fd_parent_id d) (w_db w) = Some p \<and> d_mount p = fd_mount d"
proof -
  from assms obtain y w2 where c: "check_mount E (fd_parent_id d) (fd_mount d) w = (Inr y, w2)" and
    i: "sql_io E (insert_into folder_table (row_of_folder d)) w2 = (Inr x, w1)"
    by (auto simp: create_folder_def bindE_eq_Inr)
  note c' = check_mount_Inr [OF c]
  from i c' show ins: "insert_into folder_table (row_of_folder d) (w_db w) = Inr ((), w_db w1)"
    by (auto simp: sql_io_Inr)
  then show "w_db w1 = (w_db w)\<lparr>folders := folders (w_db w) @ [row_of_folder d]\<rparr>"
    by (simp add: insert_into_Inr folder_table_def)
  show "fd_parent_id d \<noteq> [] \<Longrightarrow>
      \<exists>p. row_with folder_table d_id (fd_parent_id d) (w_db w) = Some p \<and> d_mount p = fd_mount d"
    using c' by simp
qed

lemma create_file_Inr:
  assumes "create_file E f w = (Inr x, w1)"
  shows "insert_into file_table (row_of_file f) (w_db w) = Inr ((), w_db w1)"
    and "w_db w1 = (w_db w)\<lparr>files := files (w_db w) @ [row_of_file f]\<rparr>"
    and "fl_folder_id f \<noteq> [] \<Longrightarrow>
      \<exists>p. row_with folder_table d_id (fl_folder_id f) (w_db w) = Some p \<and> d_mount p = fl_mount f"
proof -
  from assms obtain y w2 where c: "check_mount E (fl_folder_id f) (fl_mount f) w = (Inr y, w2)" and
    i: "sql_io E (insert_into file_table (row_of_file f)) w2 = (Inr x, w1)"
    by (auto simp: create_file_def bindE_eq_Inr)
  note c' = check_mount_Inr [OF c]
  from i c' show ins: "insert_into file_table (row_of_file f) (w_db w) = Inr ((), w_db w1)"
    by (auto simp: sql_io_Inr)
  then show "w_db w1 = (w_db w)\<lparr>files := files (w_db w) @ [row_of_file f]\<rparr>"
    by (simp add: insert_into_Inr file_table_def)
  show "fl_folder_id f \<noteq> [] \<Longrightarrow>
      \<exists>p. row_with folder_table d_id (fl_folder_id f) (w_db w) = Some p \<and> d_mount p = fl_mount f"
    using c' by simp
qed

text \<open>A method that returns an error has not written: each runs one writing statement, the last.\<close>

lemma sql_io_Inl_same: "sql_io E f w = (Inl e, w1) \<Longrightarrow> w_db w1 = w_db w"
  by (simp add: sql_io_Inl_db)

lemma same_db_result: "keeps same_db m \<Longrightarrow> m w = (r, w1) \<Longrightarrow> w_db w1 = w_db w"
  by (metis keepsD same_db_def snd_conv)

lemma same_fs_result: "keeps same_fs m \<Longrightarrow> m w = (r, w1) \<Longrightarrow> w_fs w1 = w_fs w"
  by (metis keepsD same_fs_def snd_conv)

lemma create_file_Inl: "create_file E f w = (Inl e, w1) \<Longrightarrow> w_db w1 = w_db w"
  by (auto simp: create_file_def bindE_eq_Inl conflict_or_def handleE_eq split: if_splits
      dest!: sql_io_Inl_same same_db_result [OF check_mount_keeps(1)])

lemma create_folder_Inl: "create_folder E f w = (Inl e, w1) \<Longrightarrow> w_db w1 = w_db w"
  by (auto simp: create_folder_def bindE_eq_Inl conflict_or_def handleE_eq split: if_splits
      dest!: sql_io_Inl_same same_db_result [OF check_mount_keeps(1)])

end
