(* ===== verification/File_Service.thy ===== *)
theory File_Service
  imports File_Repository Storage
begin

text \<open>
  src/internal/service/file_service.go: the operations that keep metadata and stored
  objects together. Names that clash with the repository's methods carry the prefix
  \<open>svc\<close>. The audit record that ends most operations is best effort, as in the code.
\<close>

section \<open>The operations\<close>

definition validate_folder_name :: "string \<Rightarrow> err + unit" where
  "validate_folder_name name =
     (if name = [] \<or> length name > 255 then Inl (TextError ''folder name is invalid'')
      else if contains_any name [CHR 0x0D, CHR 0x0A, CHR ''/'', CHR 0x5C, CHR 0x00]
      then Inl (TextError ''folder name is invalid'')
      else Inr ())"

definition record_audit :: "env \<Rightarrow> string \<Rightarrow> string \<Rightarrow> unit io" where
  "record_audit E action i =
     bindE (uuid_io E) (\<lambda>event_id.
     bindE (now_io E) (\<lambda>now.
     ignoreE (audit E \<lparr>ev_id = event_id, ev_action = action, ev_resource_id = i, ev_metadata = [],
                       ev_created_at = now\<rparr>)))"

definition svc_create_folder :: "env \<Rightarrow> mounts \<Rightarrow> string \<Rightarrow> string \<Rightarrow> string \<Rightarrow> folder io" where
  "svc_create_folder E ms mount_id parent_id name0 =
     (let name = trim_space name0 in
      bindE (liftE (validate_folder_name name)) (\<lambda>_.
      bindE (if parent_id = [] then ret mount_id
             else bindE (find_folder E parent_id) (\<lambda>parent. ret (fd_mount parent))) (\<lambda>mount.
      bindE (liftE (get_mount ms mount)) (\<lambda>_.
      bindE (now_io E) (\<lambda>now.
      bindE (uuid_io E) (\<lambda>i.
      let item = \<lparr>fd_id = i, fd_parent_id = parent_id, fd_mount = mount, fd_name = name,
                  fd_created_at = now, fd_updated_at = now\<rparr>
      in bindE (create_folder E item) (\<lambda>_. ret item)))))))"

text \<open>The second half of \<^verbatim>\<open>Upload\<close>: the object is stored and no active file has its content.\<close>

definition register_upload :: "env \<Rightarrow> mount \<Rightarrow> string \<Rightarrow> file_info \<Rightarrow> time \<Rightarrow> file_item io" where
  "register_upload E m folder_id stored now =
     bindE (uuid_io E) (\<lambda>i.
     let item = \<lparr>fl_id = i, fl_folder_id = folder_id, fl_mount = m_id m, fl_storage_key = i_key stored,
                 fl_name = i_filename stored, fl_content_type = i_content_type stored, fl_size = i_size stored,
                 fl_checksum = i_checksum stored, fl_created_at = now, fl_updated_at = now, fl_deleted_at = None\<rparr>
     in handleE (create_file E item)
          (\<lambda>e. bindE (ignoreE (delete_object E (m_store m) (i_key stored))) (\<lambda>_. raise e))
          (\<lambda>_. bindE (uuid_io E) (\<lambda>event_id.
               bindE (ignoreE (audit E \<lparr>ev_id = event_id, ev_action = ''upload'', ev_resource_id = i,
                                        ev_metadata = fl_name item, ev_created_at = now\<rparr>)) (\<lambda>_. ret item))))"

definition upload :: "env \<Rightarrow> mounts \<Rightarrow> string \<Rightarrow> string \<Rightarrow> string \<Rightarrow> bytes \<times> err option \<Rightarrow> file_item io" where
  "upload E ms mount_id folder_id filename src =
     bindE (if folder_id = [] then ret mount_id
            else bindE (find_folder E folder_id) (\<lambda>d. ret (fd_mount d))) (\<lambda>mid.
     bindE (liftE (get_mount ms mid)) (\<lambda>m.
     bindE (save_object E (m_store m) src filename) (\<lambda>stored.
     bindE (now_io E) (\<lambda>now.
     handleE (find_active_by_checksum E (m_id m) (i_checksum stored))
       (\<lambda>_. register_upload E m folder_id stored now)
       (\<lambda>existing. if fl_id existing \<noteq> []
          then bindE (ignoreE (delete_object E (m_store m) (i_key stored))) (\<lambda>_. ret existing)
          else register_upload E m folder_id stored now)))))"

definition delete_file :: "env \<Rightarrow> string \<Rightarrow> unit io" where
  "delete_file E i =
     bindE (now_io E) (\<lambda>now.
     bindE (soft_delete_file E i now) (\<lambda>_. record_audit E ''delete'' i))"

definition svc_rename_folder :: "env \<Rightarrow> string \<Rightarrow> string \<Rightarrow> unit io" where
  "svc_rename_folder E i name0 =
     (let name = trim_space name0 in
      bindE (liftE (validate_folder_name name)) (\<lambda>_.
      bindE (now_io E) (\<lambda>now. rename_folder E i name now)))"

definition svc_restore_file :: "env \<Rightarrow> string \<Rightarrow> unit io" where
  "svc_restore_file E i = bindE (restore_file E i) (\<lambda>_. record_audit E ''restore'' i)"

definition svc_rename_file :: "env \<Rightarrow> string \<Rightarrow> string \<Rightarrow> unit io" where
  "svc_rename_file E i name =
     (case sanitize_filename name of
        Inl _ \<Rightarrow> raise (TextError ''file name is invalid'')
      | Inr clean_name \<Rightarrow> bindE (now_io E) (\<lambda>now. rename_file E i clean_name now))"

definition svc_move_file :: "env \<Rightarrow> string \<Rightarrow> string \<Rightarrow> unit io" where
  "svc_move_file E i folder_id =
     bindE (if folder_id = [] then ret () else
            bindE (find_file E i) (\<lambda>source.
            bindE (find_folder E folder_id) (\<lambda>d.
            guardE (fl_mount source = fd_mount d) ErrMountMismatch))) (\<lambda>_.
     bindE (now_io E) (\<lambda>now. move_file E i folder_id now))"

definition copy_file :: "env \<Rightarrow> mounts \<Rightarrow> string \<Rightarrow> string \<Rightarrow> file_item io" where
  "copy_file E ms i folder_id =
     bindE (find_file E i) (\<lambda>source.
     bindE (liftE (get_mount ms (fl_mount source))) (\<lambda>m.
     bindE (copy_object E (m_store m) (fl_storage_key source) (fl_name source)) (\<lambda>stored.
     bindE (now_io E) (\<lambda>now.
     bindE (uuid_io E) (\<lambda>new_id.
     let copy = source\<lparr>fl_id := new_id, fl_folder_id := folder_id, fl_mount := fl_mount source,
                       fl_storage_key := i_key stored, fl_created_at := now, fl_updated_at := now\<rparr>
     in handleE (create_file E copy)
          (\<lambda>e. bindE (ignoreE (delete_object E (m_store m) (i_key stored))) (\<lambda>_. raise e))
          (\<lambda>_. ret copy))))))"

definition permanently_delete :: "env \<Rightarrow> mounts \<Rightarrow> string \<Rightarrow> unit io" where
  "permanently_delete E ms i =
     bindE (find_trashed_file E i) (\<lambda>item.
     bindE (delete_file_permanently E i) (\<lambda>_.
     bindE (liftE (get_mount ms (fl_mount item))) (\<lambda>m.
     bindE (delete_object E (m_store m) (fl_storage_key item)) (\<lambda>_.
     record_audit E ''purge'' i))))"

section \<open>Runs\<close>

text \<open>
  One call of the service, with any arguments and any outcome, or one of the
  repository's own operations that the handlers and router.go call directly.
\<close>

inductive file_step :: "env \<Rightarrow> mounts \<Rightarrow> world \<Rightarrow> world \<Rightarrow> bool" for E ms where
  step_create_folder: "file_step E ms w (snd (svc_create_folder E ms m p n w))"
| step_upload: "file_step E ms w (snd (upload E ms m d n src w))"
| step_delete: "file_step E ms w (snd (delete_file E i w))"
| step_rename_folder: "file_step E ms w (snd (svc_rename_folder E i n w))"
| step_delete_folder: "file_step E ms w (snd (delete_folder E i w))"
| step_restore: "file_step E ms w (snd (svc_restore_file E i w))"
| step_rename_file: "file_step E ms w (snd (svc_rename_file E i n w))"
| step_move: "file_step E ms w (snd (svc_move_file E i d w))"
| step_copy: "file_step E ms w (snd (copy_file E ms i d w))"
| step_purge: "file_step E ms w (snd (permanently_delete E ms i w))"
| step_audit: "file_step E ms w (snd (record_audit E a i w))"
| step_prune_audit: "file_step E ms w (snd (prune_audit E t w))"

inductive_cases file_step_cases: "file_step E ms w w1"

section \<open>Frames and the database invariant\<close>

lemma storage_keeps_db [keeps_intro]:
  "keeps same_db (save_object E s src n)" "keeps same_db (open_object E s k)" "keeps same_db (delete_object E s k)"
  "keeps same_db (copy_object E s k n)"
proof -
  show s: "keeps same_db (save_object E s src n)" for src
    unfolding keeps_def same_db_def using ls.save_extends by (metis surjective_pairing)
  show o': "keeps same_db (open_object E s k)" by (rule open_object_keeps)
  show "keeps same_db (delete_object E s k)" by (simp add: keeps_def same_db_def ls.delete_db)
  show "keeps same_db (copy_object E s k n)" unfolding copy_object_def by (intro keeps_intro s o') simp_all
qed

lemmas same_db_reads = storage_keeps_db folder_reads_keep(1) file_reads_keep(1,4,7)

lemma record_audit_db_ok: "keeps (preserving db_ok) (record_audit E a i)"
  unfolding record_audit_def by (intro keeps_intro file_writes_db_ok) simp_all

lemma record_audit_fs [keeps_intro]: "keeps same_fs (record_audit E a i)"
  unfolding record_audit_def by (intro keeps_intro) simp_all

lemma register_upload_db_ok: "keeps (preserving db_ok) (register_upload E m d st now)"
  unfolding register_upload_def Let_def
  by (intro keeps_intro file_writes_db_ok same_db_preserving [OF storage_keeps_db(3)]) simp_all

lemma service_db_ok:
  "keeps (preserving db_ok) (svc_create_folder E ms m p n)" "keeps (preserving db_ok) (upload E ms m d n src)"
  "keeps (preserving db_ok) (delete_file E i)" "keeps (preserving db_ok) (svc_rename_folder E i n)"
  "keeps (preserving db_ok) (svc_restore_file E i)" "keeps (preserving db_ok) (svc_rename_file E i n)"
  "keeps (preserving db_ok) (svc_move_file E i d)" "keeps (preserving db_ok) (copy_file E ms i d)"
  "keeps (preserving db_ok) (permanently_delete E ms i)"
  unfolding svc_create_folder_def upload_def delete_file_def svc_rename_folder_def svc_restore_file_def
    svc_rename_file_def svc_move_file_def copy_file_def permanently_delete_def Let_def
  by (auto intro!: keeps_intro file_writes_db_ok record_audit_db_ok register_upload_db_ok
      same_db_preserving [OF storage_keeps_db(1)] same_db_preserving [OF storage_keeps_db(3)]
      same_db_preserving [OF storage_keeps_db(4)] same_db_preserving [OF folder_reads_keep(1)]
      same_db_preserving [OF file_reads_keep(1)] same_db_preserving [OF file_reads_keep(4)]
      same_db_preserving [OF file_reads_keep(7)] split: sum.split)

lemma file_step_db_ok: "file_step E ms w w1 \<Longrightarrow> db_ok (w_db w) \<Longrightarrow> db_ok (w_db w1)"
  by (erule file_step_cases)
    (auto intro: preserving_snd [OF service_db_ok(1)] preserving_snd [OF service_db_ok(2)]
      preserving_snd [OF service_db_ok(3)] preserving_snd [OF service_db_ok(4)] preserving_snd [OF service_db_ok(5)]
      preserving_snd [OF service_db_ok(6)] preserving_snd [OF service_db_ok(7)] preserving_snd [OF service_db_ok(8)]
      preserving_snd [OF service_db_ok(9)] preserving_snd [OF file_writes_db_ok(3)]
      preserving_snd [OF record_audit_db_ok] preserving_snd [OF file_writes_db_ok(10)])

end
