(* ===== verification/File_Objects.thy ===== *)
theory File_Objects
  imports File_Service
begin

text \<open>
  The first invariant of the file service, \<open>objects_ok\<close>: every file row on a configured disk
  has its object, with the size and the checksum the row says. It is proved for each
  operation and hence for every run, whatever the statements and system calls that fail.
\<close>

section \<open>Different keys, different files\<close>

lemma object_key_elems:
  assumes "uuid_text u"
  shows "clean_path (object_key u) = join_with slash [take 2 u, u]"
proof -
  note c = uuid_text_canonical(1) [OF assms]
  have e: "object_key u = join_with slash [take 2 u, u]" using object_key_eq [OF assms] by simp
  have na: "\<not> is_abs (object_key u)" unfolding e is_abs_def using canonical_join_head [OF c] by simp
  have nd: "''..'' \<notin> set [take 2 u, u]" using c by (auto simp: canonical_def)
  have "path_elems (object_key u) = [take 2 u, u]" unfolding e by (rule path_elems_join [OF c])
  then show ?thesis unfolding clean_path_def Let_def using na clean_elems_plain [OF nd] by simp
qed

lemma object_path_inj:
  assumes "uuid_text u" "uuid_text v" and cwd: "\<And>d. x_cwd E = Some d \<Longrightarrow> is_abs d"
    and "safe_path E s (object_key u) = Inr p" "safe_path E s' (object_key v) = Inr p"
  shows "u = v"
proof -
  have el: "\<exists>r. canonical (r @ [take 2 x, x]) \<and> q = slash # join_with slash (r @ [take 2 x, x])"
    if x: "uuid_text x" and q: "safe_path E t (object_key x) = Inr q" for x t q
  proof -
    obtain r k where r: "canonical r" "canonical k" "k \<noteq> []" "clean_path (object_key x) = join_with slash k"
      "q = slash # join_with slash (r @ k)"
      using safe_path_shape [OF q cwd] by metis
    note c = uuid_text_canonical(1) [OF x]
    have "path_elems (join_with slash k) = [take 2 x, x]"
      using r(4) path_elems_join [OF c] by (simp only: object_key_elems [OF x])
    then have "k = [take 2 x, x]" using path_elems_join [OF r(2)] by simp
    with r c show ?thesis by auto
  qed
  from el [OF assms(1,4)] el [OF assms(2,5)] obtain r r' where
    r: "canonical (r @ [take 2 u, u])" "canonical (r' @ [take 2 v, v])"
    "join_with slash (r @ [take 2 u, u]) = join_with slash (r' @ [take 2 v, v])" by auto
  then have "r @ [take 2 u, u] = r' @ [take 2 v, v]" using path_elems_join by metis
  then show ?thesis by simp
qed

section \<open>Every row has its object\<close>

definition env_ok :: "env \<Rightarrow> bool" where
  "env_ok E \<longleftrightarrow> (\<forall>n. uuid_text (x_uuid E n)) \<and> (\<forall>d. x_cwd E = Some d \<longrightarrow> is_abs d)"

definition disks_ok :: "mounts \<Rightarrow> bool" where
  "disks_ok ms \<longleftrightarrow> mounts_ok ms \<and> by_id ms [] = None \<and>
     (\<forall>m \<in> set (order ms). 0 < l_max_bytes (m_store m) \<and> l_max_bytes (m_store m) < max_int64)"

definition stored :: "env \<Rightarrow> mounts \<Rightarrow> (string \<rightharpoonup> bytes) \<Rightarrow> file_row \<Rightarrow> bool" where
  "stored E ms fs f \<longleftrightarrow> (\<exists>u. uuid_text u \<and> f_storage_key f = object_key u) \<and>
     (\<forall>m. by_id ms (f_mount f) = Some m \<longrightarrow>
        (\<exists>p b. safe_path E (m_store m) (f_storage_key f) = Inr p \<and> fs p = Some b \<and>
               f_size f = int (length b) \<and> f_checksum f = checksum_of E b))"

definition rows_stored :: "env \<Rightarrow> mounts \<Rightarrow> (string \<rightharpoonup> bytes) \<Rightarrow> database \<Rightarrow> bool" where
  "rows_stored E ms fs db \<longleftrightarrow> db_ok db \<and> (\<forall>f \<in> set (files db). stored E ms fs f)"

definition objects_ok :: "env \<Rightarrow> mounts \<Rightarrow> world \<Rightarrow> bool" where
  "objects_ok E ms w \<longleftrightarrow> rows_stored E ms (w_fs w) (w_db w)"

lemma stored_mono: "fs \<subseteq>\<^sub>m fs' \<Longrightarrow> stored E ms fs f \<Longrightarrow> stored E ms fs' f"
  unfolding stored_def map_le_def by (metis domI)

lemma rows_stored_mono: "fs \<subseteq>\<^sub>m fs' \<Longrightarrow> rows_stored E ms fs db \<Longrightarrow> rows_stored E ms fs' db"
  by (auto simp: rows_stored_def intro: stored_mono)

lemma stored_cong:
  assumes "f_storage_key g = f_storage_key f" "f_mount g = f_mount f" "f_size g = f_size f" "f_checksum g = f_checksum f"
  shows "stored E ms fs g = stored E ms fs f"
  using assms by (simp add: stored_def)

lemma rows_stored_update:
  assumes "update_where file_table p g db = Inr (n, db1)" "rows_stored E ms fs db"
    and "\<And>f. f_storage_key (g f) = f_storage_key f \<and> f_mount (g f) = f_mount f \<and> f_size (g f) = f_size f
             \<and> f_checksum (g f) = f_checksum f"
  shows "rows_stored E ms fs db1"
proof -
  have "files db1 = map (\<lambda>f. if p f then g f else f) (files db)"
    using assms(1) by (auto simp: update_where_Inr file_table_def)
  moreover have "stored E ms fs (g f) = stored E ms fs f" for f
    using assms(3) by (intro stored_cong) auto
  ultimately show ?thesis
    using assms(2) update_db_ok(2) [OF assms(1)] by (auto simp: rows_stored_def)
qed

lemma rows_stored_delete:
  "delete_where file_table p db = Inr (n, db1) \<Longrightarrow> rows_stored E ms fs db \<Longrightarrow> rows_stored E ms fs db1"
  using delete_db_ok(2) [of p db n db1] by (auto simp: rows_stored_def delete_where_def file_table_def)

lemma rows_stored_delete_folders:
  assumes "delete_folders p db = Inr (n, db1)" "rows_stored E ms fs db"
  shows "rows_stored E ms fs db1"
proof -
  have "\<exists>f \<in> set (files db). f_storage_key g = f_storage_key f \<and> f_mount g = f_mount f \<and> f_size g = f_size f
      \<and> f_checksum g = f_checksum f" if "g \<in> set (files db1)" for g
  proof -
    from that assms(1) obtain f where "f \<in> set (files db)" "g = f \<or> g = f\<lparr>f_folder_id := None\<rparr>"
      by (auto simp: delete_folders_def Let_def split: option.splits if_splits)
    then show ?thesis by (intro bexI [of _ f]) auto
  qed
  then have "stored E ms fs g" if "g \<in> set (files db1)" for g
    using that assms(2) unfolding rows_stored_def by (metis stored_cong)
  then show ?thesis using assms delete_folders_db_ok by (auto simp: rows_stored_def)
qed

lemma rows_stored_other:
  assumes "db_ok db1" "files db1 = files db" "rows_stored E ms fs db"
  shows "rows_stored E ms fs db1"
  using assms by (simp add: rows_stored_def)

lemma rows_stored_folder_insert:
  "insert_into folder_table d db = Inr (x, db1) \<Longrightarrow> rows_stored E ms fs db \<Longrightarrow> rows_stored E ms fs db1"
  using insert_db_ok(3) [of d db x db1] by (auto simp: rows_stored_def insert_into_Inr folder_table_def)

lemma rows_stored_audit_insert:
  "insert_into audit_table a db = Inr (x, db1) \<Longrightarrow> rows_stored E ms fs db \<Longrightarrow> rows_stored E ms fs db1"
  using insert_db_ok(5) [of a db x db1] by (auto simp: rows_stored_def insert_into_Inr audit_table_def)

lemma rows_stored_audit_delete:
  "delete_where audit_table p db = Inr (n, db1) \<Longrightarrow> rows_stored E ms fs db \<Longrightarrow> rows_stored E ms fs db1"
  using delete_db_ok(3) [of p db n db1] by (auto simp: rows_stored_def delete_where_def audit_table_def)

lemma rows_stored_folder_update:
  assumes "update_where folder_table p g db = Inr (n, db1)" "rows_stored E ms fs db" "\<And>d. d_id (g d) = d_id d"
  shows "rows_stored E ms fs db1"
  using update_folder_db_ok [OF assms(1) _ assms(3)] assms(1,2)
  by (auto simp: rows_stored_def update_where_Inr folder_table_def)

text \<open>The operations on metadata alone keep the rows over any object files.\<close>

lemma repository_rows_stored:
  "keeps (preserving (rows_stored E ms fs)) (create_folder E d)"
  "keeps (preserving (rows_stored E ms fs)) (rename_folder E i n t)"
  "keeps (preserving (rows_stored E ms fs)) (delete_folder E i)"
  "keeps (preserving (rows_stored E ms fs)) (soft_delete_file E i t)"
  "keeps (preserving (rows_stored E ms fs)) (restore_file E i)"
  "keeps (preserving (rows_stored E ms fs)) (delete_file_permanently E i)"
  "keeps (preserving (rows_stored E ms fs)) (rename_file E i n t)"
  "keeps (preserving (rows_stored E ms fs)) (move_file E i fid t)"
  "keeps (preserving (rows_stored E ms fs)) (prune_audit E t)"
  "keeps (preserving (rows_stored E ms fs)) (audit E ev)"
  unfolding create_folder_def rename_folder_def delete_folder_def soft_delete_file_def
    restore_file_def delete_file_permanently_def rename_file_def move_file_def prune_audit_def audit_def
  by (auto intro!: keeps_intro sql_io_preserving same_db_preserving [OF check_mount_keeps(1)]
      elim: rows_stored_update rows_stored_delete rows_stored_delete_folders rows_stored_folder_insert
        rows_stored_audit_insert rows_stored_audit_delete rows_stored_folder_update
      split: prod.split option.split)

lemma record_audit_rows_stored: "keeps (preserving (rows_stored E ms fs)) (record_audit E a i)"
  unfolding record_audit_def by (intro keeps_intro repository_rows_stored) simp_all

lemma service_rows_stored:
  "keeps (preserving (rows_stored E ms fs)) (svc_create_folder E ms' m p n)"
  "keeps (preserving (rows_stored E ms fs)) (delete_file E i)"
  "keeps (preserving (rows_stored E ms fs)) (svc_rename_folder E i n)"
  "keeps (preserving (rows_stored E ms fs)) (svc_restore_file E i)"
  "keeps (preserving (rows_stored E ms fs)) (svc_rename_file E i n)"
  "keeps (preserving (rows_stored E ms fs)) (svc_move_file E i d)"
  unfolding svc_create_folder_def delete_file_def svc_rename_folder_def svc_restore_file_def
    svc_rename_file_def svc_move_file_def Let_def
  by (auto intro!: keeps_intro repository_rows_stored record_audit_rows_stored
      same_db_preserving [OF folder_reads_keep(1)] same_db_preserving [OF file_reads_keep(1)] split: sum.split)

lemma service_same_fs [keeps_intro]:
  "keeps same_fs (svc_create_folder E ms' m p n)" "keeps same_fs (delete_file E i)"
  "keeps same_fs (svc_rename_folder E i n)" "keeps same_fs (svc_restore_file E i)"
  "keeps same_fs (svc_rename_file E i n)" "keeps same_fs (svc_move_file E i d)"
  unfolding svc_create_folder_def delete_file_def svc_rename_folder_def svc_restore_file_def
    svc_rename_file_def svc_move_file_def Let_def
  by (auto intro!: keeps_intro split: sum.split)

lemma metadata_step_ok:
  assumes "\<And>fs. keeps (preserving (rows_stored E ms fs)) m" "keeps same_fs m" "objects_ok E ms w"
  shows "objects_ok E ms (snd (m w))"
  using preserving_snd [OF assms(1), of "w_fs w" w] keepsD [OF assms(2), of w] assms(3)
  by (simp add: objects_ok_def same_fs_def)

section \<open>The operations on objects\<close>

lemma map_le_upd: "fs p = None \<Longrightarrow> fs \<subseteq>\<^sub>m fs(p \<mapsto> c)"
  by (auto simp: map_le_def)

lemma discard_ok:
  assumes "w_fs w = fs(p \<mapsto> c)" "fs p = None" "safe_path E s k = Inr p"
  shows "fs \<subseteq>\<^sub>m w_fs (snd (delete_object E s k w))" and "w_db (snd (delete_object E s k w)) = w_db w"
proof -
  show "w_db (snd (delete_object E s k w)) = w_db w" by (rule ls.delete_db)
  obtain r w1 where d: "delete_object E s k w = (r, w1)" by fastforce
  show "fs \<subseteq>\<^sub>m w_fs (snd (delete_object E s k w))"
  proof (cases r)
    case (Inl e)
    with d assms show ?thesis using delete_object_Inl [of E s k w e w1] map_le_upd by simp
  next
    case (Inr u)
    with d delete_object_Inr [of E s k w u w1] assms have "w_fs w1 = fs" by (auto simp: fun_eq_iff)
    with d show ?thesis by simp
  qed
qed

lemma create_or_discard_ok:
  assumes w: "w_fs w = fs(p \<mapsto> c)" "fs p = None" "rows_stored E ms fs (w_db w)"
    and k: "safe_path E (m_store m) (i_key st) = Inr p"
    and new: "stored E ms (fs(p \<mapsto> c)) (row_of_file item)"
    and rest: "\<And>fs. keeps (preserving (rows_stored E ms fs)) rest" "keeps same_fs rest"
  shows "objects_ok E ms (snd (handleE (create_file E item)
    (\<lambda>e. bindE (ignoreE (delete_object E (m_store m) (i_key st))) (\<lambda>_. raise e)) (\<lambda>_. rest) w))"
proof -
  obtain r w1 where c: "create_file E item w = (r, w1)" by fastforce
  have fs1: "w_fs w1 = fs(p \<mapsto> c)" using same_fs_result [OF file_writes_keep(4) c] w(1) by simp
  show ?thesis
  proof (cases r)
    case (Inl e)
    have "w_db w1 = w_db w" using create_file_Inl c Inl by blast
    with discard_ok [OF fs1 w(2) k] w(3) have "objects_ok E ms (snd (delete_object E (m_store m) (i_key st) w1))"
      by (auto simp: objects_ok_def intro: rows_stored_mono)
    with c Inl show ?thesis by (simp add: bindE_def)
  next
    case (Inr u)
    note i = create_file_Inr [OF c [unfolded Inr]]
    have "db_ok (w_db w1)" using insert_db_ok(4) [OF i(1)] w(3) by (simp add: rows_stored_def)
    moreover have "stored E ms (fs(p \<mapsto> c)) f" if "f \<in> set (files (w_db w1))" for f
      using that i(2) new w(3) stored_mono [OF map_le_upd [of fs p c]] w(2) by (auto simp: rows_stored_def)
    ultimately have "objects_ok E ms w1" by (simp add: objects_ok_def rows_stored_def fs1)
    from metadata_step_ok [OF rest this] c Inr show ?thesis by simp
  qed
qed

lemma save_object_new:
  assumes "env_ok E" "save_object E s src name w = (Inr st, w1)"
  obtains p c u where "uuid_text u" "i_key st = object_key u" "safe_path E s (i_key st) = Inr p" "w_fs w p = None"
    "w_fs w1 = (w_fs w)(p \<mapsto> c)" "w_db w1 = w_db w" "i_size st = int (length c)" "i_checksum st = checksum_of E c"
    "limit_read src (int64_add (l_max_bytes s) 1) = (c, None)" "int (length c) \<le> l_max_bytes s"
  using assms(1) by (rule_tac save_object_Inr [OF assms(2)]) (auto simp: env_ok_def)

lemma get_mount_by_id:
  assumes "disks_ok ms" "get_mount ms k = Inr m"
  shows "by_id ms (m_id m) = Some m" "k \<noteq> [] \<Longrightarrow> m_id m = k" "m \<in> set (order ms)"
proof -
  have ok: "mounts_ok ms" using assms(1) by (simp add: disks_ok_def)
  from assms(2) show "k \<noteq> [] \<Longrightarrow> m_id m = k" and mem: "m \<in> set (order ms)"
    by (simp_all add: get_mount_Inr [OF ok])
  then show "by_id ms (m_id m) = Some m" using by_id_order [OF ok] by blast
qed

lemma register_upload_ok:
  assumes "env_ok E" "disks_ok ms" "by_id ms (m_id m) = Some m"
    and w: "w_fs w = fs(p \<mapsto> c)" "fs p = None" "rows_stored E ms fs (w_db w)"
    and st: "uuid_text u" "i_key st = object_key u" "safe_path E (m_store m) (i_key st) = Inr p"
      "i_size st = int (length c)" "i_checksum st = checksum_of E c"
  shows "objects_ok E ms (snd (register_upload E m d st now w))"
proof -
  obtain i w1 where i: "uuid_io E w = (Inr i, w1)" by (simp add: uuid_io_def)
  then have w1: "w_fs w1 = w_fs w" "w_db w1 = w_db w" by (auto simp: uuid_io_def)
  let ?item = "\<lparr>fl_id = i, fl_folder_id = d, fl_mount = m_id m, fl_storage_key = i_key st,
                 fl_name = i_filename st, fl_content_type = i_content_type st, fl_size = i_size st,
                 fl_checksum = i_checksum st, fl_created_at = now, fl_updated_at = now, fl_deleted_at = None\<rparr>"
  have new: "stored E ms (fs(p \<mapsto> c)) (row_of_file ?item)"
    using assms(3) st by (auto simp: stored_def row_of_file_def)
  have "objects_ok E ms (snd (handleE (create_file E ?item)
      (\<lambda>e. bindE (ignoreE (delete_object E (m_store m) (i_key st))) (\<lambda>_. raise e))
      (\<lambda>_. bindE (uuid_io E) (\<lambda>event_id.
               bindE (ignoreE (audit E \<lparr>ev_id = event_id, ev_action = ''upload'', ev_resource_id = i,
                                        ev_metadata = fl_name ?item, ev_created_at = now\<rparr>)) (\<lambda>_. ret ?item))) w1))"
    by (rule create_or_discard_ok [OF _ w(2) _ st(3) new])
      (use w w1 in \<open>auto intro!: keeps_intro repository_rows_stored\<close>)
  with i show ?thesis by (simp add: register_upload_def Let_def)
qed

lemma upload_ok:
  assumes "env_ok E" "disks_ok ms" "objects_ok E ms w"
  shows "objects_ok E ms (snd (upload E ms mount_id folder_id name src w))"
proof -
  let ?pre = "if folder_id = [] then ret mount_id else bindE (find_folder E folder_id) (\<lambda>d. ret (fd_mount d))"
  obtain r w1 where pre: "?pre w = (r, w1)" by fastforce
  have kp: "keeps same_db ?pre" "keeps same_fs ?pre" by (auto intro!: keeps_intro)
  note s1 = same_db_result [OF kp(1) pre] same_fs_result [OF kp(2) pre]
  from s1 assms(3) have ok1: "objects_ok E ms w1" by (simp add: objects_ok_def)
  show ?thesis
  proof (cases r)
    case (Inl e)
    with pre ok1 show ?thesis by (simp add: upload_def)
  next
    case (Inr mid)
    show ?thesis
    proof (cases "get_mount ms mid")
      case (Inl e)
      with pre Inr ok1 show ?thesis by (simp add: upload_def)
    next
      case m: (Inr m)
      note mt = get_mount_by_id [OF assms(2) m]
      obtain q w2 where sv: "save_object E (m_store m) src name w1 = (q, w2)" by fastforce
      show ?thesis
      proof (cases q)
        case (Inl e)
        have "objects_ok E ms w2"
          using ls.save_Inl [OF sv [unfolded Inl]] ok1 by (auto simp: objects_ok_def intro: rows_stored_mono)
        with pre Inr m sv Inl show ?thesis by (simp add: upload_def)
      next
        case st: (Inr st)
        obtain p c u where u: "uuid_text u" "i_key st = object_key u" "safe_path E (m_store m) (i_key st) = Inr p"
          "w_fs w1 p = None" "w_fs w2 = (w_fs w1)(p \<mapsto> c)" "w_db w2 = w_db w1"
          "i_size st = int (length c)" "i_checksum st = checksum_of E c"
          using save_object_new [OF assms(1) sv [unfolded st]] by metis
        obtain now w3 where n: "now_io E w2 = (Inr now, w3)" "w_db w3 = w_db w1" "w_fs w3 = w_fs w2"
          using u(6) by (simp add: now_io_def)
        let ?f = "find_active_by_checksum E (m_id m) (i_checksum st)"
        obtain z w4 where f: "?f w3 = (z, w4)" by fastforce
        have s4: "w_db w4 = w_db w1" "w_fs w4 = (w_fs w1)(p \<mapsto> c)"
          using same_db_result [OF file_reads_keep(7) f] same_fs_result [OF file_reads_keep(8) f] n u(5) by simp_all
        have rows: "rows_stored E ms (w_fs w1) (w_db w4)" using ok1 s4(1) by (simp add: objects_ok_def)
        have reg: "objects_ok E ms (snd (register_upload E m folder_id st now w4))"
          by (rule register_upload_ok [OF assms(1,2) mt(1) s4(2) u(4) rows u(1,2,3,7,8)])
        have dis: "objects_ok E ms (snd (delete_object E (m_store m) (i_key st) w4))"
          using discard_ok [OF s4(2) u(4,3)] rows by (auto simp: objects_ok_def intro: rows_stored_mono)
        from pre Inr m sv st n(1) f reg dis show ?thesis
          by (cases z) (simp_all add: upload_def bindE_def handleE_def)
      qed
    qed
  qed
qed

lemma find_file_Inr:
  assumes "find_file E i w = (Inr f, w1)"
  obtains r where "r \<in> set (files (w_db w))" "f_id r = i" "active r" "f = file_of_row r"
proof -
  from assms obtain r where "find (\<lambda>f. f_id f = i \<and> active f) (files (w_db w)) = Some r" "f = file_of_row r"
    by (auto simp: find_file_def bindE_eq_Inr sql_query_Inr scan_file_def split: option.splits)
  then show thesis using that [of r] find_SomeD [of _ "files (w_db w)" r] by auto
qed

lemma find_trashed_file_Inr:
  assumes "find_trashed_file E i w = (Inr f, w1)"
  obtains r where "r \<in> set (files (w_db w))" "f_id r = i" "\<not> active r" "f = file_of_row r"
proof -
  from assms obtain r where "find (\<lambda>f. f_id f = i \<and> \<not> active f) (files (w_db w)) = Some r" "f = file_of_row r"
    by (auto simp: find_trashed_file_def bindE_eq_Inr sql_query_Inr scan_file_def split: option.splits)
  then show thesis using that [of r] find_SomeD [of _ "files (w_db w)" r] by auto
qed

lemma file_of_row_sel [simp]:
  "fl_id (file_of_row r) = f_id r" "fl_mount (file_of_row r) = f_mount r"
  "fl_storage_key (file_of_row r) = f_storage_key r" "fl_size (file_of_row r) = f_size r"
  "fl_checksum (file_of_row r) = f_checksum r" "fl_name (file_of_row r) = f_name r"
  "fl_content_type (file_of_row r) = f_content_type r" "fl_folder_id (file_of_row r) = coalesce (f_folder_id r)"
  by (simp_all add: file_of_row_def)

lemma row_of_file_sel [simp]:
  "f_id (row_of_file f) = fl_id f" "f_mount (row_of_file f) = fl_mount f"
  "f_storage_key (row_of_file f) = fl_storage_key f" "f_size (row_of_file f) = fl_size f"
  "f_checksum (row_of_file f) = fl_checksum f" "f_name (row_of_file f) = fl_name f"
  "f_folder_id (row_of_file f) = nullable_string (fl_folder_id f)" "f_deleted_at (row_of_file f) = None"
  by (simp_all add: row_of_file_def)

lemma copy_content:
  assumes "disks_ok ms" "objects_ok E ms w" "r \<in> set (files (w_db w))" "get_mount ms (f_mount r) = Inr m" "f_mount r \<noteq> []"
    and "open_object E (m_store m) (f_storage_key r) w = (Inr b, w1)"
  shows "f_size r = int (length b) \<and> f_checksum r = checksum_of E b"
proof -
  note g = get_mount_by_id [OF assms(1,4)]
  from g(1,2) assms(5) have "by_id ms (f_mount r) = Some m" by simp
  with assms(2,3) obtain p c where "safe_path E (m_store m) (f_storage_key r) = Inr p" "w_fs w p = Some c"
    "f_size r = int (length c)" "f_checksum r = checksum_of E c"
    unfolding objects_ok_def rows_stored_def stored_def by blast
  with open_object_Inr(1) [OF assms(6)] show ?thesis by auto
qed

text \<open>The second half of a copy, once the object of the copy is saved.\<close>

lemma register_copy_ok:
  fixes j folder_id :: string and now :: time
  assumes env: "env_ok E" "disks_ok ms" and ok: "objects_ok E ms w"
    and m: "get_mount ms (f_mount r) = Inr m"
    and content: "f_mount r \<noteq> [] \<Longrightarrow> f_size r = int (length b) \<and> f_checksum r = checksum_of E b"
    and sv: "save_object E (m_store m) (b, None) name w = (Inr st, w1)"
    and w2: "w_db w2 = w_db w1" "w_fs w2 = w_fs w1"
  defines "item \<equiv> (file_of_row r)\<lparr>fl_id := j, fl_folder_id := folder_id, fl_storage_key := i_key st, fl_created_at := now, fl_updated_at := now\<rparr>"
  shows "objects_ok E ms (snd (handleE (create_file E item)
    (\<lambda>e. bindE (ignoreE (delete_object E (m_store m) (i_key st))) (\<lambda>_. raise e)) (\<lambda>_. ret item) w2))"
proof -
  note mt = get_mount_by_id [OF env(2) m]
  obtain p c u where u: "uuid_text u" "i_key st = object_key u" "safe_path E (m_store m) (i_key st) = Inr p"
    "w_fs w p = None" "w_fs w1 = (w_fs w)(p \<mapsto> c)" "w_db w1 = w_db w"
    "limit_read (b, None) (int64_add (l_max_bytes (m_store m)) 1) = (c, None)"
    "int (length c) \<le> l_max_bytes (m_store m)"
    using save_object_new [OF env(1) sv] by metis
  have "0 < l_max_bytes (m_store m)" "l_max_bytes (m_store m) < max_int64"
    using env(2) mt(3) by (auto simp: disks_ok_def)
  from limit_read_fits [OF u(7,8) this] have bc: "c = b" by simp
  have new: "stored E ms ((w_fs w)(p \<mapsto> c)) (row_of_file item)"
  proof (cases "f_mount r = []")
    case True
    then show ?thesis using env(2) u(1,2) by (auto simp: stored_def item_def disks_ok_def)
  next
    case False
    then have "by_id ms (f_mount r) = Some m" using mt by simp
    with content [OF False] show ?thesis using u(1,2,3) by (auto simp: stored_def item_def bc)
  qed
  have fs: "w_fs w2 = (w_fs w)(p \<mapsto> c)" using w2 u(5) by simp
  have rows: "rows_stored E ms (w_fs w) (w_db w2)" using ok w2 u(6) by (simp add: objects_ok_def)
  show ?thesis
    by (rule create_or_discard_ok [OF fs u(4) rows u(3) new]) (auto intro!: keeps_intro)
qed

lemma copy_file_ok:
  assumes "env_ok E" "disks_ok ms" "objects_ok E ms w"
  shows "objects_ok E ms (snd (copy_file E ms i folder_id w))"
proof -
  obtain q w1 where f: "find_file E i w = (q, w1)" by fastforce
  have s1: "w_db w1 = w_db w" "w_fs w1 = w_fs w"
    using same_db_result [OF file_reads_keep(1) f] same_fs_result [OF file_reads_keep(2) f] by auto
  then have ok1: "objects_ok E ms w1" using assms(3) by (simp add: objects_ok_def)
  show ?thesis
  proof (cases q)
    case (Inl e)
    with f ok1 show ?thesis by (simp add: copy_file_def)
  next
    case q2: (Inr src)
    obtain r where r: "r \<in> set (files (w_db w1))" "src = file_of_row r"
      using find_file_Inr [OF f [unfolded q2]] s1 by metis
    show ?thesis
    proof (cases "get_mount ms (f_mount r)")
      case (Inl e)
      with f q2 r ok1 show ?thesis by (simp add: copy_file_def)
    next
      case m: (Inr m)
      note mt = get_mount_by_id [OF assms(2) m]
      obtain z w2 where o': "open_object E (m_store m) (f_storage_key r) w1 = (z, w2)" by fastforce
      have s2: "w_db w2 = w_db w1" "w_fs w2 = w_fs w1"
        using same_db_result [OF open_object_keeps(2) o'] same_fs_result [OF open_object_keeps(1) o'] by auto
      then have ok2: "objects_ok E ms w2" using ok1 by (simp add: objects_ok_def)
      show ?thesis
      proof (cases z)
        case (Inl e)
        with f q2 r m o' ok2 show ?thesis by (simp add: copy_file_def copy_object_def)
      next
        case z2: (Inr b)
        obtain y w3 where sv: "save_object E (m_store m) (b, None) (f_name r) w2 = (y, w3)" by fastforce
        show ?thesis
        proof (cases y)
          case (Inl e)
          have "objects_ok E ms w3"
            using ls.save_Inl [OF sv [unfolded Inl]] ok2 by (auto simp: objects_ok_def intro: rows_stored_mono)
          with f q2 r m o' z2 sv Inl show ?thesis by (simp add: copy_file_def copy_object_def)
        next
          case st: (Inr st)
          obtain now w4 where n: "now_io E w3 = (Inr now, w4)" "w_db w4 = w_db w3" "w_fs w4 = w_fs w3"
            by (simp add: now_io_def)
          obtain j w5 where j: "uuid_io E w4 = (Inr j, w5)" "w_db w5 = w_db w3" "w_fs w5 = w_fs w3"
            using n(2,3) by (simp add: uuid_io_def)
          let ?copy = "src\<lparr>fl_id := j, fl_folder_id := folder_id,
                       fl_storage_key := i_key st, fl_created_at := now, fl_updated_at := now\<rparr>"
          have "objects_ok E ms (snd (handleE (create_file E ?copy)
             (\<lambda>e. bindE (ignoreE (delete_object E (m_store m) (i_key st))) (\<lambda>_. raise e)) (\<lambda>_. ret ?copy) w5))"
            unfolding r(2)
            by (rule register_copy_ok [OF assms(1,2) ok2 m copy_content [OF assms(2) ok1 r(1) m _ o' [unfolded z2]] sv [unfolded st] j(2,3)])
          with f q2 r m o' z2 sv st n(1) j(1) show ?thesis
            by (simp add: copy_file_def copy_object_def Let_def)
        qed
      qed
    qed
  qed
qed

text \<open>Deleting an object whose key no row has.\<close>

lemma delete_unreferenced_ok:
  assumes "env_ok E" "objects_ok E ms w" "delete_object E s k w = (y, w1)" "k = object_key a" "uuid_text a"
    and other: "\<And>g. g \<in> set (files (w_db w)) \<Longrightarrow> f_storage_key g \<noteq> k"
  shows "objects_ok E ms w1"
proof -
  have db: "w_db w1 = w_db w" using ls.delete_db [of E s k w] assms(3) by simp
  have "stored E ms (w_fs w1) g" if g: "g \<in> set (files (w_db w))" for g
  proof -
    have sg: "stored E ms (w_fs w) g" using assms(2) g by (simp add: objects_ok_def rows_stored_def)
    show ?thesis
    proof (cases y)
      case (Inl e)
      with assms(3) delete_object_Inl sg show ?thesis by metis
    next
      case (Inr u)
      obtain p where p: "safe_path E s k = Inr p" "w_fs w1 = (w_fs w)(p := None)"
        using delete_object_Inr [OF assms(3) [unfolded Inr]] by blast
      obtain b where b: "uuid_text b" "f_storage_key g = object_key b" using sg by (auto simp: stored_def)
      have "p' \<noteq> p" if "safe_path E (m_store m') (f_storage_key g) = Inr p'" for m' p'
      proof
        assume "p' = p"
        with that p(1) b assms(1,4) have "a = b"
          using object_path_inj [OF assms(5) b(1), of E s p "m_store m'"] by (auto simp: env_ok_def)
        with b other [OF g] assms(4) show False by simp
      qed
      with sg p(2) show ?thesis unfolding stored_def by (metis fun_upd_other)
    qed
  qed
  with assms(2) db show ?thesis by (simp add: objects_ok_def rows_stored_def)
qed

text \<open>Once the row of a trashed file is gone, no row has its key.\<close>

lemma trashed_key_gone:
  assumes "table_ok file_table (w_db w)" "r \<in> set (files (w_db w))" "f_id r = i" "\<not> active r"
    and "delete_file_permanently E i w = (Inr u, w1)" "g \<in> set (files (w_db w1))"
  shows "f_storage_key g \<noteq> f_storage_key r"
proof
  assume "f_storage_key g = f_storage_key r"
  moreover have g: "g \<in> set (files (w_db w))" "\<not> (f_id g = i \<and> \<not> active g)"
    using assms(5,6) by (auto simp: delete_file_permanently_def affected_Inr sql_io_Inr delete_where_def file_table_def)
  then have "g \<in> set (t_rows file_table (w_db w))" "r \<in> set (t_rows file_table (w_db w))"
    using assms(2) by (auto simp: file_table_def)
  ultimately have "g = r" using file_keys.row_with_unique [OF assms(1)] by (metis option.inject)
  with g assms(3,4) show False by auto
qed

lemma permanently_delete_ok:
  assumes "env_ok E" "disks_ok ms" "objects_ok E ms w"
  shows "objects_ok E ms (snd (permanently_delete E ms i w))"
proof -
  obtain q w1 where f: "find_trashed_file E i w = (q, w1)" by fastforce
  have s1: "w_db w1 = w_db w" "w_fs w1 = w_fs w"
    using same_db_result [OF file_reads_keep(4) f] same_fs_result [OF file_reads_keep(5) f] by auto
  then have ok1: "objects_ok E ms w1" using assms(3) by (simp add: objects_ok_def)
  show ?thesis
  proof (cases q)
    case (Inl e)
    with f ok1 show ?thesis by (simp add: permanently_delete_def)
  next
    case q2: (Inr item)
    obtain r where r: "r \<in> set (files (w_db w1))" "f_id r = i" "\<not> active r" "item = file_of_row r"
      using find_trashed_file_Inr [OF f [unfolded q2]] s1 by metis
    obtain z w2 where d: "delete_file_permanently E i w1 = (z, w2)" by fastforce
    have ok2: "objects_ok E ms w2"
      using metadata_step_ok [OF repository_rows_stored(6) file_writes_keep(7) ok1, of i] d by simp
    show ?thesis
    proof (cases z)
      case (Inl e)
      with f q2 d ok2 show ?thesis by (simp add: permanently_delete_def)
    next
      case z2: (Inr u)
      have t: "table_ok file_table (w_db w1)" using ok1 by (simp add: objects_ok_def rows_stored_def db_ok_def)
      obtain a where a: "f_storage_key r = object_key a" "uuid_text a"
        using ok1 r(1) by (auto simp: objects_ok_def rows_stored_def stored_def)
      show ?thesis
      proof (cases "get_mount ms (f_mount r)")
        case (Inl e)
        with f q2 r d z2 ok2 show ?thesis by (simp add: permanently_delete_def)
      next
        case m: (Inr m)
        obtain y w3 where dl: "delete_object E (m_store m) (f_storage_key r) w2 = (y, w3)" by fastforce
        have ok3: "objects_ok E ms w3"
          by (rule delete_unreferenced_ok [OF assms(1) ok2 dl a trashed_key_gone [OF t r(1-3) d [unfolded z2]]])
        have "objects_ok E ms (snd (record_audit E ''purge'' i w3))"
          by (rule metadata_step_ok [OF record_audit_rows_stored record_audit_fs ok3])
        with ok3 f q2 r d z2 m dl show ?thesis
          by (cases y) (simp_all add: permanently_delete_def)
      qed
    qed
  qed
qed

lemma file_step_objects:
  assumes "env_ok E" "disks_ok ms" "file_step E ms w w1" "objects_ok E ms w"
  shows "objects_ok E ms w1"
  using assms(3)
proof cases
  case step_upload
  then show ?thesis using upload_ok [OF assms(1,2,4)] by simp
next
  case step_copy
  then show ?thesis using copy_file_ok [OF assms(1,2,4)] by simp
next
  case step_purge
  then show ?thesis using permanently_delete_ok [OF assms(1,2,4)] by simp
qed (use assms(4) in \<open>auto intro: metadata_step_ok service_rows_stored service_same_fs repository_rows_stored
      file_writes_keep record_audit_rows_stored record_audit_fs\<close>)

end
