(* ===== verification/File_Layout.thy ===== *)
theory File_Layout
  imports File_Service
begin

text \<open>
  The second invariant of the file service, \<open>layout_ok\<close>: the folders form a forest in which
  a folder is on its parent's disk, and every file is on its folder's disk.
\<close>

section \<open>The layout\<close>

fun forest :: "folder_row list \<Rightarrow> folder_row list \<Rightarrow> bool" where
  "forest seen [] = True"
| "forest seen (d # ds) =
     ((case d_parent_id d of None \<Rightarrow> True | Some p \<Rightarrow> \<exists>q \<in> set seen. d_id q = p \<and> d_mount q = d_mount d)
      \<and> forest (d # seen) ds)"

definition placed :: "folder_row list \<Rightarrow> file_row \<Rightarrow> bool" where
  "placed ds f \<longleftrightarrow> (case f_folder_id f of None \<Rightarrow> True | Some p \<Rightarrow> \<exists>d \<in> set ds. d_id d = p \<and> d_mount d = f_mount f)"

definition files_placed :: "folder_row list \<Rightarrow> file_row list \<Rightarrow> bool" where
  "files_placed ds fs \<longleftrightarrow> (\<forall>f \<in> set fs. placed ds f)"

definition layout_ok :: "database \<Rightarrow> bool" where
  "layout_ok db \<longleftrightarrow> db_ok db \<and> forest [] (folders db) \<and> files_placed (folders db) (files db)"

lemma forest_append:
  "forest seen (ds @ [d]) \<longleftrightarrow> forest seen ds \<and>
     (case d_parent_id d of None \<Rightarrow> True | Some p \<Rightarrow> \<exists>q \<in> set seen \<union> set ds. d_id q = p \<and> d_mount q = d_mount d)"
  by (induction ds arbitrary: seen) (auto split: option.splits)

lemma forest_map:
  assumes "\<And>d. d_id (g d) = d_id d" "\<And>d. d_parent_id (g d) = d_parent_id d" "\<And>d. d_mount (g d) = d_mount d"
  shows "forest seen ds \<Longrightarrow> forest (map g seen) (map g ds)"
proof (induction ds arbitrary: seen)
  case (Cons d ds)
  from Cons.IH [of "d # seen"] Cons.prems show ?case by (auto simp: assms split: option.splits)
qed simp

lemma forest_filter:
  assumes "\<And>d p. d \<in> set ds \<Longrightarrow> d_parent_id d = Some p \<Longrightarrow> p \<in> G \<Longrightarrow> d_id d \<in> G"
  shows "forest seen ds \<Longrightarrow> forest (filter (\<lambda>d. d_id d \<notin> G) seen) (filter (\<lambda>d. d_id d \<notin> G) ds)"
  using assms
proof (induction ds arbitrary: seen)
  case (Cons d ds)
  have IH: "forest (filter (\<lambda>d. d_id d \<notin> G) (d # seen)) (filter (\<lambda>d. d_id d \<notin> G) ds)"
    by (rule Cons.IH) (use Cons.prems in auto)
  show ?case
  proof (cases "d_id d \<in> G")
    case False
    then have "p \<notin> G" if "d_parent_id d = Some p" for p using Cons.prems(2) that by auto
    with False IH Cons.prems(1) show ?thesis by (auto split: option.splits)
  qed (use IH in simp)
qed simp

lemma files_placed_subset:
  "files_placed ds fs \<Longrightarrow> set ds \<subseteq> set ds' \<Longrightarrow> set fs' \<subseteq> set fs \<Longrightarrow> files_placed ds' fs'"
proof -
  assume "files_placed ds fs" "set ds \<subseteq> set ds'" "set fs' \<subseteq> set fs"
  moreover from this(2) have "placed ds f \<Longrightarrow> placed ds' f" for f
    unfolding placed_def by (cases "f_folder_id f") auto
  ultimately show ?thesis by (auto simp: files_placed_def)
qed

lemma layout_create_folder: "keeps (preserving layout_ok) (create_folder E d)"
  unfolding keeps_def preserving_def
proof (intro allI impI)
  fix w :: world assume l: "layout_ok (w_db w)"
  obtain r w1 where c: "create_folder E d w = (r, w1)" by fastforce
  show "layout_ok (w_db (snd (create_folder E d w)))"
  proof (cases r)
    case (Inl e)
    with c l create_folder_Inl show ?thesis by (metis snd_conv)
  next
    case (Inr x)
    note i = create_folder_Inr [OF c [unfolded Inr]]
    have par: "case d_parent_id (row_of_folder d) of None \<Rightarrow> True
        | Some p \<Rightarrow> \<exists>q \<in> set [] \<union> set (folders (w_db w)). d_id q = p \<and> d_mount q = d_mount (row_of_folder d)"
    proof (cases "fd_parent_id d = []")
      case False
      with i(3) obtain p where p: "row_with folder_table d_id (fd_parent_id d) (w_db w) = Some p" "d_mount p = fd_mount d"
        by blast
      have "p \<in> set (folders (w_db w)) \<and> d_id p = fd_parent_id d"
        using folder_ids.row_with_SomeD [OF p(1)] by (simp add: folder_table_def)
      with p(2) False show ?thesis by (auto simp: row_of_folder_def nullable_string_def)
    qed (simp add: row_of_folder_def nullable_string_def)
    have "forest [] (folders (w_db w1))" unfolding i(2) using par l by (simp add: forest_append layout_ok_def)
    with i(2) l insert_db_ok(3) [OF i(1)] c show ?thesis
      by (auto simp: layout_ok_def elim!: files_placed_subset)
  qed
qed

lemma layout_create_file: "keeps (preserving layout_ok) (create_file E f)"
  unfolding keeps_def preserving_def
proof (intro allI impI)
  fix w :: world assume l: "layout_ok (w_db w)"
  obtain r w1 where c: "create_file E f w = (r, w1)" by fastforce
  show "layout_ok (w_db (snd (create_file E f w)))"
  proof (cases r)
    case (Inl e)
    with c l create_file_Inl show ?thesis by (metis snd_conv)
  next
    case (Inr x)
    note i = create_file_Inr [OF c [unfolded Inr]]
    have "placed (folders (w_db w)) (row_of_file f)"
    proof (cases "fl_folder_id f = []")
      case False
      with i(3) obtain p where p: "row_with folder_table d_id (fl_folder_id f) (w_db w) = Some p" "d_mount p = fl_mount f"
        by blast
      have "p \<in> set (folders (w_db w)) \<and> d_id p = fl_folder_id f"
        using folder_ids.row_with_SomeD [OF p(1)] by (simp add: folder_table_def)
      with p(2) False show ?thesis by (auto simp: placed_def row_of_file_def nullable_string_def)
    qed (simp add: placed_def row_of_file_def nullable_string_def)
    with i(2) l insert_db_ok(4) [OF i(1)] c show ?thesis
      by (auto simp: layout_ok_def files_placed_def)
  qed
qed

lemma layout_update_file:
  assumes "update_where file_table p g db = Inr (n, db1)" "layout_ok db"
    and "\<And>f. p f \<Longrightarrow> f_mount (g f) = f_mount f"
    and "\<And>f q. p f \<Longrightarrow> f_folder_id (g f) = Some q \<Longrightarrow> f_folder_id f \<noteq> Some q \<Longrightarrow>
           f \<in> set (files db) \<Longrightarrow> \<exists>d \<in> set (folders db). d_id d = q \<and> d_mount d = f_mount f"
  shows "layout_ok db1"
proof -
  have d: "files db1 = map (\<lambda>f. if p f then g f else f) (files db)" "folders db1 = folders db"
    using assms(1) by (auto simp: update_where_Inr file_table_def)
  have "files_placed (folders db) (files db1)"
    unfolding files_placed_def d(1)
  proof
    fix h assume "h \<in> set (map (\<lambda>f. if p f then g f else f) (files db))"
    then obtain f where f: "f \<in> set (files db)" "h = (if p f then g f else f)" by auto
    then have pl: "placed (folders db) f"
      using assms(2) by (auto simp: layout_ok_def files_placed_def)
    show "placed (folders db) h"
    proof (cases "p f \<and> f_folder_id (g f) \<noteq> f_folder_id f")
      case True
      with f assms(3) [of f] assms(4) [of f] show ?thesis
        by (cases "f_folder_id (g f)") (auto simp: placed_def)
    next
      case False
      with f assms(3) [of f] pl show ?thesis by (cases "p f"; cases "f_folder_id f") (simp_all add: placed_def)
    qed
  qed
  with assms(2) d update_db_ok(2) [OF assms(1)] show ?thesis by (simp add: layout_ok_def)
qed

lemma layout_delete_file: "delete_where file_table p db = Inr (n, db1) \<Longrightarrow> layout_ok db \<Longrightarrow> layout_ok db1"
  using delete_db_ok(2) [of p db n db1]
  by (auto simp: layout_ok_def delete_where_def file_table_def elim!: files_placed_subset)

lemma layout_rename_folder:
  assumes "update_where folder_table p (\<lambda>d. d\<lparr>d_name := a, d_updated_at := b\<rparr>) db = Inr (n, db1)" "layout_ok db"
  shows "layout_ok db1"
proof -
  let ?g = "\<lambda>d. if p d then d\<lparr>d_name := a, d_updated_at := b\<rparr> else d"
  have d: "folders db1 = map ?g (folders db)" "files db1 = files db"
    using assms(1) by (auto simp: update_where_Inr folder_table_def)
  have "forest (map ?g []) (map ?g (folders db))"
    by (rule forest_map) (use assms(2) in \<open>auto simp: layout_ok_def\<close>)
  moreover have "files_placed (map ?g (folders db)) (files db)"
    unfolding files_placed_def
  proof
    fix f assume "f \<in> set (files db)"
    then have "placed (folders db) f" using assms(2) by (auto simp: layout_ok_def files_placed_def)
    moreover have "d_id (?g d) = d_id d" "d_mount (?g d) = d_mount d" for d by simp_all
    ultimately show "placed (map ?g (folders db)) f"
      unfolding placed_def set_map by (cases "f_folder_id f") (auto simp only: option.case bex_simps)
  qed
  moreover have "db_ok db1"
    by (rule update_folder_db_ok [OF assms(1)]) (use assms(2) in \<open>auto simp: layout_ok_def\<close>)
  ultimately show ?thesis by (simp add: layout_ok_def d)
qed

lemma layout_delete_folders:
  assumes "delete_folders p db = Inr (n, db1)" "layout_ok db"
  shows "layout_ok db1"
proof -
  let ?gone = "cascade (length (folders db)) (folders db) (map d_id (filter p (folders db)))"
  let ?move = "\<lambda>f. case f_folder_id f of None \<Rightarrow> f | Some i \<Rightarrow> if i \<in> set ?gone then f\<lparr>f_folder_id := None\<rparr> else f"
  have db1: "db1 = db\<lparr>folders := filter (\<lambda>d. d_id d \<notin> set ?gone) (folders db), files := map ?move (files db)\<rparr>"
    using assms(1) by (simp add: delete_folders_def Let_def)
  have closed: "closed_below (folders db) (set ?gone)" by (rule cascade_closed) auto
  have "forest (filter (\<lambda>d. d_id d \<notin> set ?gone) []) (filter (\<lambda>d. d_id d \<notin> set ?gone) (folders db))"
    by (rule forest_filter) (use closed assms(2) in \<open>auto simp: closed_below_def layout_ok_def\<close>)
  moreover have "files_placed (filter (\<lambda>d. d_id d \<notin> set ?gone) (folders db)) (map ?move (files db))"
    unfolding files_placed_def
  proof
    fix h assume "h \<in> set (map ?move (files db))"
    then obtain f where f: "f \<in> set (files db)" "h = ?move f" by auto
    then have pl: "placed (folders db) f" using assms(2) by (auto simp: layout_ok_def files_placed_def)
    show "placed (filter (\<lambda>d. d_id d \<notin> set ?gone) (folders db)) h"
    proof (cases "f_folder_id f")
      case None
      with f show ?thesis by (simp add: placed_def)
    next
      case (Some q)
      with f pl show ?thesis by (cases "q \<in> set ?gone") (auto simp: placed_def)
    qed
  qed
  ultimately show ?thesis
    using assms delete_folders_db_ok by (simp add: layout_ok_def db1)
qed

lemma layout_other:
  "insert_into audit_table a db = Inr (x, db1) \<Longrightarrow> layout_ok db \<Longrightarrow> layout_ok db1"
  "delete_where audit_table q db = Inr (n, db1) \<Longrightarrow> layout_ok db \<Longrightarrow> layout_ok db1"
  using insert_db_ok(5) [of a db x db1] delete_db_ok(3) [of q db n db1]
  by (auto simp: layout_ok_def insert_into_Inr delete_where_def audit_table_def)

lemma layout_repository:
  "keeps (preserving layout_ok) (rename_folder E i n t)" "keeps (preserving layout_ok) (delete_folder E i)"
  "keeps (preserving layout_ok) (soft_delete_file E i t)" "keeps (preserving layout_ok) (restore_file E i)"
  "keeps (preserving layout_ok) (delete_file_permanently E i)" "keeps (preserving layout_ok) (rename_file E i n t)"
  "keeps (preserving layout_ok) (prune_audit E t)" "keeps (preserving layout_ok) (audit E ev)"
  unfolding rename_folder_def delete_folder_def soft_delete_file_def restore_file_def delete_file_permanently_def
    rename_file_def prune_audit_def audit_def
  by (auto intro!: keeps_intro sql_io_preserving elim: layout_update_file layout_delete_file layout_rename_folder
      layout_delete_folders layout_other split: prod.split)

section \<open>The service\<close>

lemma find_folder_Inr:
  assumes "find_folder E i w = (Inr d, w1)"
  obtains r where "row_with folder_table d_id i (w_db w) = Some r" "d = folder_of_row r" "w_db w1 = w_db w"
  using assms by (auto simp: find_folder_def bindE_eq_Inr sql_query_Inr split: option.splits)

lemma find_file_row:
  assumes "find_file E i w = (Inr f, w1)"
  obtains r where "r \<in> set (files (w_db w))" "f_id r = i" "f_deleted_at r = None" "f = file_of_row r" "w_db w1 = w_db w"
proof -
  from assms obtain r where "find (\<lambda>f. f_id f = i \<and> active f) (files (w_db w)) = Some r" "f = file_of_row r" "w_db w1 = w_db w"
    by (auto simp: find_file_def bindE_eq_Inr sql_query_Inr scan_file_def split: option.splits)
  with find_SomeD [OF this(1)] that [of r] show thesis by (simp add: active_def)
qed

lemma move_file_layout:
  assumes "layout_ok (w_db w)"
    and "folder_id \<noteq> [] \<Longrightarrow> \<exists>d. row_with folder_table d_id folder_id (w_db w) = Some d \<and>
           (\<forall>f \<in> set (files (w_db w)). f_id f = i \<longrightarrow> f_mount f = d_mount d)"
  shows "layout_ok (w_db (snd (move_file E i folder_id now w)))"
proof -
  let ?pre = "if folder_id = [] then ret () else
            bindE (sql_query E (row_with folder_table d_id folder_id)) (\<lambda>row. guardE (row \<noteq> None) ErrNotFound)"
  let ?s = "update_where file_table (\<lambda>f. f_id f = i \<and> active f)
       (\<lambda>f. f\<lparr>f_folder_id := nullable_string folder_id, f_updated_at := stamp now\<rparr>)"
  obtain q w1 where pre: "?pre w = (q, w1)" by fastforce
  have "keeps same_db ?pre" by (auto intro!: keeps_intro)
  from same_db_result [OF this pre] have s1: "w_db w1 = w_db w" .
  have "layout_ok (w_db (snd (affected (sql_io E ?s) w1)))"
  proof -
    obtain r w2 where r: "sql_io E ?s w1 = (r, w2)" by fastforce
    have "layout_ok (w_db w2)"
    proof (cases r)
      case (Inl e)
      with r s1 assms(1) sql_io_Inl_same show ?thesis by metis
    next
      case (Inr n)
      with r s1 have u: "?s (w_db w) = Inr (n, w_db w2)" by (auto simp: sql_io_Inr)
      show ?thesis
      proof (rule layout_update_file [OF u assms(1)])
        fix f k
        assume f: "f_id f = i \<and> active f" "f \<in> set (files (w_db w))"
          and k: "f_folder_id (f\<lparr>f_folder_id := nullable_string folder_id, f_updated_at := stamp now\<rparr>) = Some k"
        then have ne: "folder_id \<noteq> []" "k = folder_id" by (auto simp: nullable_string_def split: if_splits)
        with assms(2) f obtain d where d: "row_with folder_table d_id folder_id (w_db w) = Some d" "f_mount f = d_mount d"
          by blast
        with folder_ids.row_with_SomeD [OF d(1)] ne show "\<exists>d\<in>set (folders (w_db w)). d_id d = k \<and> d_mount d = f_mount f"
          by (auto simp: folder_table_def)
      qed simp
    qed
    moreover have "w_db (snd (affected (sql_io E ?s) w1)) = w_db w2"
      by (cases r) (simp_all add: affected_def bindE_def r)
    ultimately show ?thesis by simp
  qed
  with pre s1 assms(1) show ?thesis
    by (cases q) (simp_all add: move_file_def bindE_def)
qed

lemma svc_move_file_layout:
  assumes "layout_ok (w_db w)"
  shows "layout_ok (w_db (snd (svc_move_file E i folder_id w)))"
proof (cases "folder_id = []")
  case True
  obtain now w1 where n: "now_io E w = (Inr now, w1)" "w_db w1 = w_db w" by (simp add: now_io_def)
  with True move_file_layout [of w1 folder_id i E now] assms show ?thesis
    by (simp add: svc_move_file_def bindE_def)
next
  case False
  obtain q w1 where f: "find_file E i w = (q, w1)" by fastforce
  note s1 = same_db_result [OF file_reads_keep(1) f]
  show ?thesis
  proof (cases q)
    case (Inl e)
    with f s1 assms False show ?thesis by (simp add: svc_move_file_def bindE_def)
  next
    case q2: (Inr src)
    obtain z w2 where d: "find_folder E folder_id w1 = (z, w2)" by fastforce
    note s2 = same_db_result [OF folder_reads_keep(1) d]
    show ?thesis
    proof (cases z)
      case (Inl e)
      with f d q2 s1 s2 assms False show ?thesis by (simp add: svc_move_file_def bindE_def)
    next
      case z2: (Inr dir)
      show ?thesis
      proof (cases "fl_mount src = fd_mount dir")
        case neq: False
        with f d q2 z2 s1 s2 assms False show ?thesis by (simp add: svc_move_file_def bindE_def)
      next
        case eq: True
        obtain r where r: "r \<in> set (files (w_db w))" "f_id r = i" "src = file_of_row r"
          using find_file_row [OF f [unfolded q2]] by metis
        obtain dr where dr: "row_with folder_table d_id folder_id (w_db w1) = Some dr" "dir = folder_of_row dr"
          using find_folder_Inr [OF d [unfolded z2]] by metis
        obtain now w3 where n: "now_io E w2 = (Inr now, w3)" "w_db w3 = w_db w2" by (simp add: now_io_def)
        have ok: "table_ok file_table (w_db w)" using assms by (simp add: layout_ok_def db_ok_def)
        have "g = r" if "g \<in> set (files (w_db w))" "f_id g = i" for g
        proof -
          have "g \<in> set (t_rows file_table (w_db w))" "r \<in> set (t_rows file_table (w_db w))"
            using that r(1) by (simp_all add: file_table_def)
          with file_ids.row_with_unique [OF ok] that(2) r(2) show ?thesis by (metis option.inject)
        qed
        moreover have "f_mount r = d_mount dr" using eq r(3) dr(2) by (simp add: file_of_row_def folder_of_row_def)
        ultimately have "layout_ok (w_db (snd (move_file E i folder_id now w3)))"
          using n(2) s1 s2 assms dr(1) by (intro move_file_layout) auto
        with f d q2 z2 eq n(1) False show ?thesis by (simp add: svc_move_file_def bindE_def)
      qed
    qed
  qed
qed

lemma record_audit_layout: "keeps (preserving layout_ok) (record_audit E a i)"
  unfolding record_audit_def by (intro keeps_intro layout_repository) simp_all

lemma service_layout:
  "keeps (preserving layout_ok) (svc_create_folder E ms m p n)" "keeps (preserving layout_ok) (upload E ms m d n src)"
  "keeps (preserving layout_ok) (delete_file E i)" "keeps (preserving layout_ok) (svc_rename_folder E i n)"
  "keeps (preserving layout_ok) (svc_restore_file E i)" "keeps (preserving layout_ok) (svc_rename_file E i n)"
  "keeps (preserving layout_ok) (copy_file E ms i d)" "keeps (preserving layout_ok) (permanently_delete E ms i)"
proof -
  have "keeps (preserving layout_ok) (register_upload E m d st now)" for m d st now
    unfolding register_upload_def Let_def
    by (intro keeps_intro layout_create_file layout_repository same_db_preserving [OF storage_keeps_db(3)]) simp_all
  then show "keeps (preserving layout_ok) (svc_create_folder E ms m p n)" "keeps (preserving layout_ok) (upload E ms m d n src)"
    "keeps (preserving layout_ok) (delete_file E i)" "keeps (preserving layout_ok) (svc_rename_folder E i n)"
    "keeps (preserving layout_ok) (svc_restore_file E i)" "keeps (preserving layout_ok) (svc_rename_file E i n)"
    "keeps (preserving layout_ok) (copy_file E ms i d)" "keeps (preserving layout_ok) (permanently_delete E ms i)"
    unfolding svc_create_folder_def upload_def delete_file_def svc_rename_folder_def svc_restore_file_def
      svc_rename_file_def copy_file_def permanently_delete_def Let_def
    by (auto intro!: keeps_intro layout_create_folder layout_create_file layout_repository record_audit_layout
      same_db_preserving [OF storage_keeps_db(1)] same_db_preserving [OF storage_keeps_db(3)]
      same_db_preserving [OF storage_keeps_db(4)] same_db_preserving [OF folder_reads_keep(1)]
      same_db_preserving [OF file_reads_keep(1)] same_db_preserving [OF file_reads_keep(4)]
      same_db_preserving [OF file_reads_keep(7)] split: sum.split)
qed

lemma file_step_layout:
  assumes "file_step E ms w w1" "layout_ok (w_db w)"
  shows "layout_ok (w_db w1)"
  using assms(1)
  by cases (use assms(2) in \<open>auto intro: preserving_snd service_layout layout_repository record_audit_layout
    svc_move_file_layout\<close>)

end
