(* ===== verification/System.thy ===== *)
theory System
  imports File_Objects File_Layout Auth_Service
begin

text \<open>
  The services together. \<open>sys_step\<close> is one operation of the file service or of the
  authentication service; a run of the server is its reflexive transitive closure. The
  invariants of the parts hold in every run of the whole.
\<close>

section \<open>The whole server as a step relation\<close>

inductive sys_step :: "env \<Rightarrow> token_manager \<Rightarrow> mounts \<Rightarrow> world \<Rightarrow> world \<Rightarrow> bool" for E m ms where
  sys_file: "file_step E ms w w1 \<Longrightarrow> sys_step E m ms w w1"
| sys_auth: "auth_step E m w w1 \<Longrightarrow> sys_step E m ms w w1"

text \<open>The authentication service touches no file, no folder and no object.\<close>

definition docs :: "folder_row list \<Rightarrow> file_row list \<Rightarrow> database \<Rightarrow> bool" where
  "docs D F db \<longleftrightarrow> folders db = D \<and> files db = F"

lemma session_statements_docs:
  "keeps (preserving (docs D F)) (sql_io E (insert_into session_table s))"
  "keeps (preserving (docs D F)) (sql_io E (update_where session_table p g))"
  "keeps (preserving (docs D F)) (sql_io E (delete_where session_table p))"
  by (auto intro!: sql_io_preserving simp: docs_def insert_into_Inr update_where_Inr delete_where_def session_table_def)

lemma session_writes_docs:
  "keeps (preserving (docs D F)) (create_session E s)" "keeps (preserving (docs D F)) (rotate_session E i s t)"
  "keeps (preserving (docs D F)) (revoke_session E i t)" "keeps (preserving (docs D F)) (prune_sessions E t)"
  unfolding create_session_def rotate_session_def revoke_session_def prune_sessions_def
  by (auto intro!: keeps_intro keeps_atomically_db session_statements_docs)

lemma auth_service_docs:
  "keeps (preserving (docs D F)) (login E m u p)" "keeps (preserving (docs D F)) (refresh E m tok)"
  "keeps (preserving (docs D F)) (me E i)" "keeps (preserving (docs D F)) (logout E i)"
  unfolding login_def refresh_def me_def logout_def issue_session_def Let_def
  by (auto intro!: keeps_intro session_writes_docs split: sum.split prod.split
      intro: same_db_preserving keeps_intro)

lemma auth_step_docs:
  assumes "auth_step E m w w1"
  shows "folders (w_db w1) = folders (w_db w)" "files (w_db w1) = files (w_db w)" "w_fs w1 = w_fs w"
proof -
  have start: "docs (folders (w_db w)) (files (w_db w)) (w_db w)" by (simp add: docs_def)
  have "docs (folders (w_db w)) (files (w_db w)) (w_db w1)"
    using assms by cases (use start in \<open>auto intro: preserving_snd auth_service_docs session_writes_docs\<close>)
  then show "folders (w_db w1) = folders (w_db w)" "files (w_db w1) = files (w_db w)" by (auto simp: docs_def)
  show "w_fs w1 = w_fs w"
    using assms
    by cases (auto dest: keepsD simp: keepsD [OF auth_service_keeps(1), unfolded same_fs_def]
      keepsD [OF auth_service_keeps(2), unfolded same_fs_def] keepsD [OF auth_service_keeps(3), unfolded same_fs_def]
      keepsD [OF auth_service_keeps(4), unfolded same_fs_def] keepsD [OF session_writes_keep(4), unfolded same_fs_def])
qed

lemma sys_step_objects:
  assumes "env_ok E" "disks_ok ms" "sys_step E m ms w w1" "objects_ok E ms w"
  shows "objects_ok E ms w1"
  using assms(3)
proof cases
  case sys_file
  from file_step_objects [OF assms(1,2) this assms(4)] show ?thesis .
next
  case sys_auth
  have "db_ok (w_db w1)" using auth_step_db_ok [OF sys_auth] assms(4) by (simp add: objects_ok_def rows_stored_def)
  with assms(4) auth_step_docs [OF sys_auth] show ?thesis by (simp add: objects_ok_def rows_stored_def)
qed

lemma sys_step_layout:
  assumes "sys_step E m ms w w1" "layout_ok (w_db w)"
  shows "layout_ok (w_db w1)"
  using assms(1)
proof cases
  case sys_file
  from file_step_layout [OF this assms(2)] show ?thesis .
next
  case sys_auth
  have "db_ok (w_db w1)" using auth_step_db_ok [OF sys_auth] assms(2) by (simp add: layout_ok_def)
  with assms(2) auth_step_docs [OF sys_auth] show ?thesis by (simp add: layout_ok_def)
qed

lemma sys_run_objects:
  "(sys_step E m ms)\<^sup>*\<^sup>* w w1 \<Longrightarrow> env_ok E \<Longrightarrow> disks_ok ms \<Longrightarrow> objects_ok E ms w \<Longrightarrow> objects_ok E ms w1"
  by (induction rule: rtranclp_induct) (auto intro: sys_step_objects)

lemma sys_run_layout: "(sys_step E m ms)\<^sup>*\<^sup>* w w1 \<Longrightarrow> layout_ok (w_db w) \<Longrightarrow> layout_ok (w_db w1)"
  by (induction rule: rtranclp_induct) (auto intro: sys_step_layout)

end
