(* ===== verification/File_Lifecycle.thy ===== *)
theory File_Lifecycle
  imports File_Repository
begin

text \<open>
  The life of a file: absent, live or in the trash. \<open>life_step\<close> is what the repository
  promises, a guarded step on the map from identifiers to phases; \<open>life_io\<close> are the
  repository's methods. The lemmas relate one UPDATE or DELETE on a single identifier to
  one step of that map.
\<close>

datatype phase = Absent | Live | Trashed

datatype life_op = SoftDelete string | Restore string | Erase string | Rename string string

definition phase_of :: "database \<Rightarrow> string \<Rightarrow> phase" where
  "phase_of db i = (case row_with file_table f_id i db of
     None \<Rightarrow> Absent | Some f \<Rightarrow> if active f then Live else Trashed)"

fun life_step :: "life_op \<Rightarrow> (string \<Rightarrow> phase) \<Rightarrow> err + (string \<Rightarrow> phase)" where
  "life_step (SoftDelete i) \<sigma> = (if \<sigma> i = Live then Inr (\<sigma>(i := Trashed)) else Inl ErrNotFound)"
| "life_step (Restore i) \<sigma> = (if \<sigma> i = Trashed then Inr (\<sigma>(i := Live)) else Inl ErrNotFound)"
| "life_step (Erase i) \<sigma> = (if \<sigma> i = Trashed then Inr (\<sigma>(i := Absent)) else Inl ErrNotFound)"
| "life_step (Rename i n) \<sigma> = (if \<sigma> i = Live then Inr \<sigma> else Inl ErrNotFound)"

fun life_io :: "env \<Rightarrow> time \<Rightarrow> life_op \<Rightarrow> unit io" where
  "life_io E now (SoftDelete i) = soft_delete_file E i now"
| "life_io E now (Restore i) = restore_file E i"
| "life_io E now (Erase i) = delete_file_permanently E i"
| "life_io E now (Rename i n) = rename_file E i n now"

lemma update_file_total:
  assumes "db_ok db" "\<And>f. f_id (g f) = f_id f \<and> f_storage_key (g f) = f_storage_key f \<and> f_folder_id (g f) = f_folder_id f"
  shows "\<exists>n db1. update_where file_table p g db = Inr (n, db1)"
proof -
  let ?h = "\<lambda>f. if p f then g f else f"
  have ok: "first_violated (t_unique file_table) (files db) = None" "folders_exist (folders db) (files db)"
    using assms(1) by (auto simp: db_ok_def table_ok_def file_table_def)
  have "first_violated (t_unique file_table) (map ?h (files db)) = None"
    by (rule first_violated_map [OF ok(1)]) (use assms(2) in \<open>auto simp: file_table_def\<close>)
  moreover have "folders_exist (folders db) (map ?h (files db))"
    using ok(2) assms(2) by (auto simp: folders_exist_def list_all_iff)
  ultimately have "update_where file_table p g db =
      Inr (int (length (filter p (files db))), db\<lparr>files := map ?h (files db)\<rparr>)"
    by (simp add: update_where_def put_rows_def file_table_def Let_def)
  then show ?thesis by blast
qed

text \<open>A method that changes one file and tells by the row count whether it was there.\<close>

lemma affected_sql:
  assumes "x_sql_fault E (w_sql w) = None" "stmt (w_db w) = Inr (n, db1)"
  shows "affected (sql_io E stmt) w =
    (if n = 0 then Inl ErrNotFound else Inr (), w\<lparr>w_sql := Suc (w_sql w), w_db := db1\<rparr>)"
  using assms by (simp add: affected_def sql_io_def bindE_def Let_def ret_def raise_def)

lemma update_nothing:
  assumes "update_where T p g db = Inr (0, db1)" "\<And>rs. t_put T (t_rows T db) db = db"
  shows "db1 = db"
proof -
  have "filter p (t_rows T db) = []" using assms(1) by (auto simp: update_where_Inr)
  then have "map (\<lambda>r. if p r then g r else r) (t_rows T db) = t_rows T db"
    by (simp add: filter_empty_conv map_idI)
  with assms show ?thesis by (simp add: update_where_Inr)
qed

lemma delete_nothing:
  assumes "delete_where T p db = Inr (0, db1)" "\<And>rs. t_put T (t_rows T db) db = db"
  shows "db1 = db"
proof -
  have "filter p (t_rows T db) = []" using assms(1) by (auto simp: delete_where_def)
  then have "filter (\<lambda>r. \<not> p r) (t_rows T db) = t_rows T db"
    by (simp add: filter_empty_conv filter_id_conv)
  with assms show ?thesis by (simp add: delete_where_def)
qed

lemma put_files_same: "t_put file_table (t_rows file_table db) db = db"
  by (simp add: file_table_def)

lemma life_update:
  assumes ok: "db_ok (w_db w)" and nf: "x_sql_fault E (w_sql w) = None"
    and g: "\<And>f. f_id (g f) = f_id f \<and> f_storage_key (g f) = f_storage_key f \<and> f_folder_id (g f) = f_folder_id f"
    and q: "\<And>f. q f \<longleftrightarrow> (if active f then Live else Trashed) = from_phase"
    and to: "\<And>f. q f \<Longrightarrow> (if active (g f) then Live else Trashed) = to_phase"
    and m: "affected (sql_io E (update_where file_table (\<lambda>f. f_id f = i \<and> q f) g)) w = (r, w1)"
    and from_phase: "from_phase \<noteq> Absent"
  shows "if phase_of (w_db w) i = from_phase
    then r = Inr () \<and> phase_of (w_db w1) = (phase_of (w_db w))(i := to_phase)
    else r = Inl ErrNotFound \<and> w_db w1 = w_db w"
proof -
  let ?p = "\<lambda>f. f_id f = i \<and> q f"
  obtain n db1 where u: "update_where file_table ?p g (w_db w) = Inr (n, db1)"
    using update_file_total [OF ok g] by blast
  have tok: "table_ok file_table (w_db w)" using ok by (simp add: db_ok_def)
  have r: "r = (if n = 0 then Inl ErrNotFound else Inr ())" "w_db w1 = db1"
    using m affected_sql [of E w "update_where file_table ?p g" n db1, OF nf u] by auto
  have n: "n = (case row_with file_table f_id i (w_db w) of None \<Rightarrow> 0 | Some f \<Rightarrow> if ?p f then 1 else 0)"
    by (rule file_ids.update_count [OF u tok]) simp
  have here: "f_id f = i" if "row_with file_table f_id i (w_db w) = Some f" for f
    using file_ids.row_with_SomeD [OF that] by simp
  show ?thesis
  proof (cases "phase_of (w_db w) i = from_phase")
    case True
    then obtain f where f: "row_with file_table f_id i (w_db w) = Some f" "?p f"
      using from_phase here q by (auto simp: phase_of_def split: option.splits)
    with n have n0: "n \<noteq> 0" by simp
    have "phase_of db1 k = ((phase_of (w_db w))(i := to_phase)) k" for k
    proof -
      have l: "row_with file_table f_id k db1 = map_option (\<lambda>r. if ?p r then g r else r) (row_with file_table f_id k (w_db w))"
        by (rule file_ids.update_lookup [OF u]) (use g in auto)
      show ?thesis
      proof (cases "k = i")
        case True
        with l f to show ?thesis by (auto simp: phase_of_def)
      next
        case False
        have "\<not> ?p h" if "row_with file_table f_id k (w_db w) = Some h" for h
          using file_ids.row_with_SomeD [OF that] False by auto
        with l False show ?thesis by (cases "row_with file_table f_id k (w_db w)") (auto simp: phase_of_def)
      qed
    qed
    with True r n0 show ?thesis by auto
  next
    case False
    then have "n = 0" using n q by (auto simp: phase_of_def split: option.splits if_splits)
    with u update_nothing put_files_same have "db1 = w_db w" by metis
    with False r \<open>n = 0\<close> show ?thesis by simp
  qed
qed

lemma life_delete:
  assumes ok: "db_ok (w_db w)" and nf: "x_sql_fault E (w_sql w) = None"
    and m: "delete_file_permanently E i w = (r, w1)"
  shows "if phase_of (w_db w) i = Trashed
    then r = Inr () \<and> phase_of (w_db w1) = (phase_of (w_db w))(i := Absent)
    else r = Inl ErrNotFound \<and> w_db w1 = w_db w"
proof -
  let ?p = "\<lambda>f. f_id f = i \<and> \<not> active f"
  obtain n db1 where u: "delete_where file_table ?p (w_db w) = Inr (n, db1)" by (simp add: delete_where_def)
  have tok: "table_ok file_table (w_db w)" using ok by (simp add: db_ok_def)
  have r: "r = (if n = 0 then Inl ErrNotFound else Inr ())" "w_db w1 = db1"
    using m affected_sql [of E w "delete_where file_table ?p" n db1, OF nf u] by (auto simp: delete_file_permanently_def)
  have n: "n = (case row_with file_table f_id i (w_db w) of None \<Rightarrow> 0 | Some f \<Rightarrow> if ?p f then 1 else 0)"
    by (rule file_ids.delete_count [OF u tok]) simp
  have here: "f_id f = i" if "row_with file_table f_id i (w_db w) = Some f" for f
    using file_ids.row_with_SomeD [OF that] by simp
  show ?thesis
  proof (cases "phase_of (w_db w) i = Trashed")
    case True
    then obtain f where f: "row_with file_table f_id i (w_db w) = Some f" "?p f"
      using here by (auto simp: phase_of_def split: option.splits if_splits)
    with n have n0: "n \<noteq> 0" by simp
    have "phase_of db1 k = ((phase_of (w_db w))(i := Absent)) k" for k
    proof -
      note l = file_ids.delete_lookup [OF u tok, of k]
      have o': "\<not> ?p h" if "row_with file_table f_id k (w_db w) = Some h" "k \<noteq> i" for h
        using file_ids.row_with_SomeD [OF that(1)] that(2) by auto
      show ?thesis
        using l f(1,2) o' by (cases "k = i"; cases "row_with file_table f_id k (w_db w)") (auto simp: phase_of_def)
    qed
    with True r n0 show ?thesis by auto
  next
    case False
    then have "n = 0" using n by (auto simp: phase_of_def split: option.splits if_splits)
    with u delete_nothing put_files_same have "db1 = w_db w" by metis
    with False r \<open>n = 0\<close> show ?thesis by simp
  qed
qed

end
