(* ===== verification/File_Outcomes.thy ===== *)
theory File_Outcomes
  imports File_Objects File_Layout
begin

text \<open>
  What the larger operations leave behind on every path: the LIKE pattern as a substring
  test, the upload with its discarded objects, and the deletion of a folder without content.
\<close>

lemma like_escaped:
  "like (CHR ''!'') (concat (map escape_char q) @ ''%'') s \<longleftrightarrow> prefix (map lower_byte q) (map lower_byte s)"
proof (induction q arbitrary: s)
  case Nil
  have "[] \<in> set (suffixes s)" by simp
  then show ?case by (auto simp: list_ex_iff)
next
  case (Cons c q)
  have e: "concat (map escape_char (c # q)) @ ''%'' = escape_char c @ concat (map escape_char q) @ ''%''" by simp
  show ?case unfolding e by (cases s) (auto simp: escape_char_def [of c] Cons.IH)
qed

lemma like_contains:
  "like (CHR ''!'') (like_pattern q) s \<longleftrightarrow> sublist (map lower_byte q) (map lower_byte s)"
proof -
  have "like (CHR ''!'') (like_pattern q) s \<longleftrightarrow> (\<exists>t. suffix t s \<and> prefix (map lower_byte q) (map lower_byte t))"
    by (auto simp: like_pattern_def list_ex_iff like_escaped)
  also have "\<dots> \<longleftrightarrow> sublist (map lower_byte q) (map lower_byte s)"
  proof
    assume "\<exists>t. suffix t s \<and> prefix (map lower_byte q) (map lower_byte t)"
    then obtain t u v where "s = u @ t" "map lower_byte t = map lower_byte q @ v"
      by (auto simp: suffix_def prefix_def)
    then have "map lower_byte s = map lower_byte u @ map lower_byte q @ v" by simp
    then show "sublist (map lower_byte q) (map lower_byte s)" unfolding sublist_def by blast
  next
    assume "sublist (map lower_byte q) (map lower_byte s)"
    then obtain a b where "map lower_byte s = a @ map lower_byte q @ b" by (auto simp: sublist_def)
    then obtain s1 s2 where "s = s1 @ s2" "map lower_byte s2 = map lower_byte q @ b"
      by (auto simp: map_eq_append_conv append_eq_map_conv)
    then show "\<exists>t. suffix t s \<and> prefix (map lower_byte q) (map lower_byte t)"
      by (intro exI [of _ s2]) (auto simp: suffix_def)
  qed
  finally show ?thesis .
qed

lemma c_text_id: "CHR 0x00 \<notin> set s \<Longrightarrow> c_text s = s"
  unfolding c_text_def by (rule takeWhile_eq_all_conv [THEN iffD2]) auto

lemma like_pattern_no_nul: "CHR 0x00 \<notin> set q \<Longrightarrow> CHR 0x00 \<notin> set (like_pattern q)"
  by (auto simp: like_pattern_def escape_char_def)

lemma discard_exact:
  assumes "w_fs w = fs(p \<mapsto> c)" "fs p = None" "safe_path E s k = Inr p"
  shows "w_fs (snd (delete_object E s k w)) = fs \<or>
    w_fs (snd (delete_object E s k w)) = fs(p \<mapsto> c) \<and> (\<exists>n. x_os_fault E n \<noteq> None)"
proof (cases "x_os_fault E (w_os w)")
  case None
  with assms have "w_fs (snd (delete_object E s k w)) = fs(p := None)"
    by (simp add: delete_object_def bindE_def wrapE_def handleE_def os_io_def Let_def)
  with assms(2) show ?thesis by (auto simp: fun_eq_iff)
next
  case (Some a)
  with assms show ?thesis
    by (auto simp: delete_object_def bindE_def wrapE_def handleE_def os_io_def Let_def)
qed

lemma audit_docs:
  "folders (w_db (snd (audit E ev w))) = folders (w_db w)" "files (w_db (snd (audit E ev w))) = files (w_db w)"
  by (auto simp: audit_def sql_io_def Let_def insert_into_Inr audit_table_def split: option.split sum.split prod.split)

lemma register_upload_effect:
  assumes "register_upload E m d st now w = (r, w1)"
    and w: "w_fs w = fs(p \<mapsto> c)" "fs p = None" "safe_path E (m_store m) (i_key st) = Inr p"
  shows "case r of
      Inl e \<Rightarrow> w_db w1 = w_db w \<and> fs \<subseteq>\<^sub>m w_fs w1 \<and> (w_fs w1 = fs \<or> (\<exists>n. x_os_fault E n \<noteq> None))
    | Inr f \<Rightarrow> w_fs w1 = fs(p \<mapsto> c) \<and> folders (w_db w1) = folders (w_db w) \<and>
        files (w_db w1) = files (w_db w) @ [row_of_file f] \<and>
        fl_storage_key f = i_key st \<and> fl_mount f = m_id m \<and> fl_size f = i_size st \<and>
        fl_checksum f = i_checksum st \<and> fl_folder_id f = d \<and> fl_name f = i_filename st"
proof -
  obtain i w2 where i: "uuid_io E w = (Inr i, w2)" by (simp add: uuid_io_def)
  then have w2: "w_fs w2 = w_fs w" "w_db w2 = w_db w" by (auto simp: uuid_io_def)
  let ?item = "\<lparr>fl_id = i, fl_folder_id = d, fl_mount = m_id m, fl_storage_key = i_key st,
                 fl_name = i_filename st, fl_content_type = i_content_type st, fl_size = i_size st,
                 fl_checksum = i_checksum st, fl_created_at = now, fl_updated_at = now, fl_deleted_at = None\<rparr>"
  obtain q w3 where c: "create_file E ?item w2 = (q, w3)" by fastforce
  have fs3: "w_fs w3 = fs(p \<mapsto> c)" using same_fs_result [OF file_writes_keep(4) c] w(1) w2 by simp
  show ?thesis
  proof (cases q)
    case (Inl e)
    obtain y w4 where d: "delete_object E (m_store m) (i_key st) w3 = (y, w4)" by fastforce
    from assms(1) i c Inl d have r: "r = Inl e" "w1 = w4" by (auto simp: register_upload_def Let_def bindE_def)
    have "w_db w4 = w_db w" using create_file_Inl [OF c [unfolded Inl]] w2 ls.delete_db [of E "m_store m" "i_key st" w3] d
      by simp
    with r discard_ok(1) [OF fs3 w(2,3)] discard_exact [OF fs3 w(2,3)] d show ?thesis by auto
  next
    case (Inr u)
    note ins = create_file_Inr(2) [OF c [unfolded Inr]]
    from assms(1) i c Inr have r: "r = Inr ?item"
      "w1 = snd (audit E \<lparr>ev_id = x_uuid E (w_uuid w3), ev_action = ''upload'', ev_resource_id = i,
         ev_metadata = i_filename st, ev_created_at = now\<rparr> (w3\<lparr>w_uuid := Suc (w_uuid w3)\<rparr>))"
      by (auto simp: register_upload_def Let_def bindE_def)
    have "w_fs w1 = w_fs w3" unfolding r(2) using keepsD [OF file_writes_keep(11)] by (simp add: same_fs_def)
    with r(1) ins w2 fs3 show ?thesis unfolding r(2) by (simp add: audit_docs)
  qed
qed

lemma find_duplicate_Inr:
  assumes "find_active_by_checksum E m c w = (Inr f, w1)"
  shows "\<exists>row \<in> set (files (w_db w)). f = file_of_row row \<and> f_mount row = m \<and> f_checksum row = c \<and> active row"
  using assms
  by (auto simp: find_active_by_checksum_def bindE_eq_Inr sql_query_Inr scan_file_def split: option.splits
      dest!: find_SomeD)

text \<open>The end of an upload, once its object is saved: the file that has the content already, or a new row.\<close>

lemma finish_upload_outcome:
  assumes fs: "w_fs w = fs(p \<mapsto> c)" "fs p = None" and k: "safe_path E (m_store m) (i_key st) = Inr p"
    and st: "i_size st = int (length c)" "i_checksum st = checksum_of E c"
    and f: "find_active_by_checksum E (m_id m) (i_checksum st) w = (y, w1)"
    and run: "handleE (\<lambda>w. (y, w1)) (\<lambda>_. register_upload E m folder_id st now)
       (\<lambda>existing. if fl_id existing \<noteq> []
          then bindE (ignoreE (delete_object E (m_store m) (i_key st))) (\<lambda>_. ret existing)
          else register_upload E m folder_id st now) w = (r, w2)"
  shows "case r of
      Inl e \<Rightarrow> w_db w2 = w_db w \<and> fs \<subseteq>\<^sub>m w_fs w2 \<and> (w_fs w2 = fs \<or> (\<exists>n. x_os_fault E n \<noteq> None))
    | Inr f \<Rightarrow> fl_mount f = m_id m \<and> (
        (\<exists>row \<in> set (files (w_db w)). f = file_of_row row \<and> active row \<and> f_checksum row = checksum_of E c \<and>
           w_db w2 = w_db w \<and> fs \<subseteq>\<^sub>m w_fs w2 \<and> (w_fs w2 = fs \<or> (\<exists>n. x_os_fault E n \<noteq> None)))
      \<or> (safe_path E (m_store m) (fl_storage_key f) = Inr p \<and> w_fs w2 = fs(p \<mapsto> c) \<and>
           fl_size f = int (length c) \<and> fl_checksum f = checksum_of E c \<and> fl_folder_id f = folder_id \<and> fl_name f = i_filename st \<and>
           files (w_db w2) = files (w_db w) @ [row_of_file f] \<and> folders (w_db w2) = folders (w_db w)))"
proof -
  have s1: "w_db w1 = w_db w" "w_fs w1 = fs(p \<mapsto> c)"
    using same_db_result [OF file_reads_keep(7) f] same_fs_result [OF file_reads_keep(8) f] fs(1) by simp_all
  show ?thesis
  proof (cases "\<exists>g. y = Inr g \<and> fl_id g \<noteq> []")
    case True
    then obtain g where g: "y = Inr g" "fl_id g \<noteq> []" by blast
    obtain v w3 where d: "delete_object E (m_store m) (i_key st) w1 = (v, w3)" by fastforce
    have r: "r = Inr g" "w2 = w3" using run g d by (auto simp: handleE_def bindE_def)
    have "w_db w2 = w_db w \<and> fs \<subseteq>\<^sub>m w_fs w2 \<and> (w_fs w2 = fs \<or> (\<exists>n. x_os_fault E n \<noteq> None))"
      using discard_ok [OF s1(2) fs(2) k] discard_exact [OF s1(2) fs(2) k] d s1(1) r by auto
    moreover obtain row where "row \<in> set (files (w_db w))" "g = file_of_row row" "f_checksum row = checksum_of E c" "active row"
      "f_mount row = m_id m"
      using find_duplicate_Inr [OF f [unfolded g(1)]] st(2) by auto
    moreover from this have "fl_mount g = m_id m" by simp
    ultimately show ?thesis using r by auto
  next
    case False
    have reg: "register_upload E m folder_id st now w1 = (r, w2)"
      using run False by (cases y) (auto simp: handleE_def)
    note eff = register_upload_effect [OF reg s1(2) fs(2) k]
    show ?thesis using eff s1 k st by (cases r) auto
  qed
qed

text \<open>The disk of an upload: the folder's, or without a folder the one asked for.\<close>

definition upload_disk :: "mounts \<Rightarrow> database \<Rightarrow> string \<Rightarrow> string \<Rightarrow> err + mount" where
  "upload_disk ms db mount_id folder_id =
     (if folder_id = [] then get_mount ms mount_id
      else case row_with folder_table d_id folder_id db of
             None \<Rightarrow> Inl ErrNotFound
           | Some row \<Rightarrow> get_mount ms (d_mount row))"

lemma upload_outcome:
  assumes "env_ok E" "disks_ok ms" "upload E ms mount_id folder_id name src w = (r, w1)"
  shows "case r of
      Inl e \<Rightarrow> w_db w1 = w_db w \<and> w_fs w \<subseteq>\<^sub>m w_fs w1 \<and> (w_fs w1 = w_fs w \<or> (\<exists>n. x_os_fault E n \<noteq> None))
    | Inr f \<Rightarrow> \<exists>d. upload_disk ms (w_db w) mount_id folder_id = Inr d \<and> by_id ms (m_id d) = Some d \<and> fl_mount f = m_id d \<and> (
        (\<exists>row \<in> set (files (w_db w)). f = file_of_row row \<and> active row \<and> f_checksum row = checksum_of E (fst src) \<and>
           w_db w1 = w_db w \<and> w_fs w \<subseteq>\<^sub>m w_fs w1 \<and> (w_fs w1 = w_fs w \<or> (\<exists>n. x_os_fault E n \<noteq> None)))
      \<or> (\<exists>p. safe_path E (m_store d) (fl_storage_key f) = Inr p \<and>
           w_fs w p = None \<and> w_fs w1 = (w_fs w)(p \<mapsto> fst src) \<and> snd src = None \<and>
           fl_size f = int (length (fst src)) \<and> fl_checksum f = checksum_of E (fst src) \<and>
           fl_folder_id f = folder_id \<and> sanitize_filename name = Inr (fl_name f) \<and>
           files (w_db w1) = files (w_db w) @ [row_of_file f] \<and> folders (w_db w1) = folders (w_db w)))"
proof -
  let ?none = "w_db w1 = w_db w \<and> w_fs w \<subseteq>\<^sub>m w_fs w1 \<and> (w_fs w1 = w_fs w \<or> (\<exists>n. x_os_fault E n \<noteq> None))"
  let ?pre = "if folder_id = [] then ret mount_id else bindE (find_folder E folder_id) (\<lambda>d. ret (fd_mount d))"
  obtain q w2 where pre: "?pre w = (q, w2)" by fastforce
  have kp: "keeps same_db ?pre" "keeps same_fs ?pre" by (auto intro!: keeps_intro)
  note s2 = same_db_result [OF kp(1) pre] same_fs_result [OF kp(2) pre]
  show ?thesis
  proof (cases q)
    case (Inl e)
    with pre assms(3) s2 show ?thesis by (auto simp: upload_def)
  next
    case q: (Inr mid)
    show ?thesis
    proof (cases "get_mount ms mid")
      case (Inl e)
      with pre q assms(3) s2 show ?thesis by (auto simp: upload_def)
    next
      case m: (Inr m)
      note mt = get_mount_by_id [OF assms(2) m]
      obtain z w3 where sv: "save_object E (m_store m) src name w2 = (z, w3)" by fastforce
      show ?thesis
      proof (cases z)
        case (Inl e)
        with pre q m sv assms(3) have r: "r = Inl e" "w1 = w3" by (auto simp: upload_def)
        from ls.save_Inl [OF sv [unfolded Inl]] save_object_Inl [OF sv [unfolded Inl]] s2 r
        show ?thesis by (auto simp: map_le_def)
      next
        case st: (Inr st)
        obtain p c u where u: "uuid_text u" "i_key st = object_key u" "safe_path E (m_store m) (i_key st) = Inr p"
          "w_fs w2 p = None" "w_fs w3 = (w_fs w2)(p \<mapsto> c)" "w_db w3 = w_db w2"
          "i_size st = int (length c)" "i_checksum st = checksum_of E c"
          "limit_read src (int64_add (l_max_bytes (m_store m)) 1) = (c, None)" "int (length c) \<le> l_max_bytes (m_store m)"
          using save_object_new [OF assms(1) sv [unfolded st]] by metis
        have nm: "sanitize_filename name = Inr (i_filename st)" using save_object_Inr [OF sv [unfolded st]] by metis
        have src: "src = (c, None)"
          using limit_read_fits [OF u(9,10)] mt(3) assms(2) by (auto simp: disks_ok_def)
        obtain now w4 where n: "now_io E w3 = (Inr now, w4)" "w_db w4 = w_db w" "w_fs w4 = (w_fs w)(p \<mapsto> c)"
          using u(5,6) s2 by (simp add: now_io_def)
        have p: "w_fs w p = None" using u(4) s2 by simp
        have mm: "by_id ms (m_id m) = Some m" by (rule mt(1))
        have disk: "upload_disk ms (w_db w) mount_id folder_id = Inr m"
          using pre q m by (auto simp: upload_disk_def bindE_eq_Inr folder_of_row_def elim!: find_folder_Inr split: if_splits)
        obtain y w5 where f: "find_active_by_checksum E (m_id m) (i_checksum st) w4 = (y, w5)" by fastforce
        have "handleE (\<lambda>w. (y, w5)) (\<lambda>_. register_upload E m folder_id st now)
          (\<lambda>existing. if fl_id existing \<noteq> []
             then bindE (ignoreE (delete_object E (m_store m) (i_key st))) (\<lambda>_. ret existing)
             else register_upload E m folder_id st now) w4 = (r, w1)"
          using pre q m sv st n(1) f assms(3) by (simp add: upload_def bindE_def handleE_def)
        note fin = finish_upload_outcome [OF n(3) p u(3,7,8) f this]
        show ?thesis
        proof (cases r)
          case Inl
          then show ?thesis using fin n(2) by simp
        next
          case Inr
          then show ?thesis using fin n(2) nm p mm disk by (auto simp: src)
        qed
      qed
    qed
  qed
qed

lemma below_childless:
  assumes "\<forall>d \<in> set rows. d_parent_id d \<noteq> Some i" "set ids \<subseteq> {i}" "ids \<noteq> [] \<Longrightarrow> i \<in> d_id ` set rows"
  shows "set (below rows ids) = set ids"
proof
  show "set (below rows ids) \<subseteq> set ids"
    using assms(1,2) by (fastforce simp: below_def split: option.splits)
  show "set ids \<subseteq> set (below rows ids)"
    using assms(2,3) by (cases ids) (auto simp: below_def)
qed

lemma cascade_childless:
  assumes "\<forall>d \<in> set rows. d_parent_id d \<noteq> Some i" "set ids \<subseteq> {i}" "ids \<noteq> [] \<Longrightarrow> i \<in> d_id ` set rows"
  shows "set (cascade n rows ids) = set ids"
  using assms(2,3)
proof (induction n arbitrary: ids)
  case (Suc n)
  note b = below_childless [OF assms(1) Suc.prems]
  have "below rows ids \<noteq> [] \<Longrightarrow> ids \<noteq> []" using b by (metis set_empty)
  with Suc b show ?case by simp
qed simp

lemma delete_childless:
  assumes "\<forall>d \<in> set (folders db). d_parent_id d \<noteq> Some i" "\<forall>f \<in> set (files db). f_folder_id f \<noteq> Some i"
  shows "delete_folders (\<lambda>d. d_id d = i) db =
    Inr (int (length (filter (\<lambda>d. d_id d = i) (folders db))), db\<lparr>folders := filter (\<lambda>d. d_id d \<noteq> i) (folders db)\<rparr>)"
proof -
  let ?ids = "map d_id (filter (\<lambda>d. d_id d = i) (folders db))"
  have "set (cascade n (folders db) ?ids) = set ?ids" for n
    by (rule cascade_childless [OF assms(1)]) (auto simp: filter_empty_conv)
  then have gone: "x \<in> set (cascade n (folders db) ?ids) \<longleftrightarrow> x = i \<and> i \<in> d_id ` set (folders db)" for n x
    by auto
  have "filter (\<lambda>d. d_id d \<notin> set (cascade n (folders db) ?ids)) (folders db) = filter (\<lambda>d. d_id d \<noteq> i) (folders db)" for n
    by (rule filter_cong) (auto simp: gone)
  moreover have "map (\<lambda>f. case f_folder_id f of None \<Rightarrow> f
      | Some k \<Rightarrow> if k \<in> set (cascade n (folders db) ?ids) then f\<lparr>f_folder_id := None\<rparr> else f) (files db) = files db" for n
    by (rule map_idI) (use assms(2) in \<open>auto simp: gone split: option.split\<close>)
  ultimately show ?thesis by (simp add: delete_folders_def Let_def)
qed

text \<open>Consecutive windows are consecutive segments.\<close>

lemma window_pages:
  assumes "0 < n" "length xs \<le> k * n"
  shows "concat (map (\<lambda>j. window (int n) (int (j * n)) xs) [0..<k]) = xs"
proof -
  have "concat (map (\<lambda>j. window (int n) (int (j * n)) xs) [0..<k]) = take (k * n) xs"
  proof (induction k)
    case (Suc k)
    have "take (k * n) xs @ take n (drop (k * n) xs) = take (k * n + n) xs" by (simp add: take_add)
    with Suc show ?case by (simp add: window_def Let_def add.commute del: of_nat_mult)
  qed simp
  with assms(2) show ?thesis by (simp del: of_nat_mult)
qed

end
