(* ===== verification/File_Examples.thy ===== *)
theory File_Examples
  imports File_Objects File_Layout
begin

text \<open>
  A small server to evaluate the properties on: the failure-free environment of World, one
  disk \<open>default\<close> with the root \<open>/d\<close>, and the worlds after one upload and after one new folder.
\<close>

definition one_disk :: mounts where
  "one_disk =
     (let m = \<lparr>m_id = ''default'', m_name = ''Main'',
               m_store = \<lparr>l_root = ''/d'', l_max_bytes = 100, l_allowed_mimes = []\<rparr>\<rparr>
      in \<lparr>by_id = [''default'' \<mapsto> m], order = [m]\<rparr>)"

lemma one_disk_ok: "disks_ok one_disk"
  by (simp add: disks_ok_def one_disk_def mounts_ok_def max_int64_def Let_def)

lemma calm_env_ok: "env_ok calm_env"
proof -
  have digit: "char_of (48 + k) \<in> set ''0123456789abcdef-''" if "k < 10" for k :: nat
  proof -
    have "list_all (\<lambda>k. char_of (48 + k :: nat) \<in> set ''0123456789abcdef-'') [0..<10]" by code_simp
    with that show ?thesis unfolding list_all_iff by simp
  qed
  have "uuid_text (calm_uuid n)" for n
    using digit [of "n div 10 mod 10"] digit [of "n mod 10"]
    unfolding uuid_text_def calm_uuid_def by (simp only: list_all_append list.pred_inject length_append) (simp add: list_all_iff)
  then show ?thesis by (simp add: env_ok_def calm_env_def is_abs_def)
qed

lemma calm_world_ok: "objects_ok E ms calm_world" "layout_ok (w_db calm_world)"
  by (simp_all add: objects_ok_def rows_stored_def layout_ok_def calm_world_def empty_db_def db_ok_def table_ok_def
      table_defs first_violated_def parents_exist_def folders_exist_def files_placed_def)

lemma calm_faults: "x_sql_fault calm_env n = None" "x_os_fault calm_env n = None"
  by (simp_all add: calm_env_def)

lemma one_disk_mount:
  "get_mount one_disk [] = Inr \<lparr>m_id = ''default'', m_name = ''Main'',
     m_store = \<lparr>l_root = ''/d'', l_max_bytes = 100, l_allowed_mimes = []\<rparr>\<rparr>"
  by (simp add: get_mount_def one_disk_def default_mount_def Let_def)

lemma calm_save:
  "\<exists>i w1. save_object calm_env \<lparr>l_root = ''/d'', l_max_bytes = 100, l_allowed_mimes = []\<rparr> (''hi'', None) ''a'' calm_world
     = (Inr i, w1) \<and> w_db w1 = empty_db \<and> i_filename i = ''a'' \<and> i_size i = 2"
proof -
  let ?s = "\<lparr>l_root = ''/d'', l_max_bytes = 100, l_allowed_mimes = []\<rparr>"
  have p: "safe_path calm_env ?s (object_key (x_uuid calm_env (w_uuid calm_world))) =
      Inr (''/d'' @ slash # take 2 (calm_uuid 0) @ slash # calm_uuid 0)" by code_simp
  have n: "sanitize_filename ''a'' = Inr ''a''" by code_simp
  have l: "limit_read (''hi'', None) (int64_add (l_max_bytes ?s) 1) = (''hi'', None)" by code_simp
  have f: "w_fs calm_world p = None" for p by (simp add: calm_world_def)
  from save_object_calm [OF calm_faults(2) n p f l] show ?thesis
    by (auto simp: calm_world_def empty_db_def)
qed

lemma calm_upload:
  "\<exists>f w1. upload calm_env one_disk [] [] ''a'' (''hi'', None) calm_world = (Inr f, w1)
     \<and> files (w_db w1) = [row_of_file f] \<and> fl_mount f = ''default'' \<and> fl_name f = ''a''"
proof -
  obtain i w1 where s: "save_object calm_env \<lparr>l_root = ''/d'', l_max_bytes = 100, l_allowed_mimes = []\<rparr> (''hi'', None) ''a'' calm_world
     = (Inr i, w1)" "w_db w1 = empty_db" "i_filename i = ''a''" using calm_save by blast
  have "files (w_db (snd (upload calm_env one_disk [] [] ''a'' (''hi'', None) calm_world))) =
     [row_of_file f] \<and> fl_mount f = ''default'' \<and> fl_name f = ''a''" 
    if "fst (upload calm_env one_disk [] [] ''a'' (''hi'', None) calm_world) = Inr f" for f
    using that s
    by (auto simp: upload_def bindE_def one_disk_mount now_io_def find_active_by_checksum_def sql_query_def sql_io_def
      handleE_def scan_file_def empty_db_def raise_def register_upload_def uuid_io_def create_file_def check_mount_def
      conflict_or_def insert_into_def put_rows_def file_table_def first_violated_def folders_exist_def Let_def ret_def
      row_of_file_def nullable_string_def audit_def audit_table_def calm_faults)
  moreover have "\<exists>f. fst (upload calm_env one_disk [] [] ''a'' (''hi'', None) calm_world) = Inr f"
    using s
    by (simp add: upload_def bindE_def one_disk_mount now_io_def find_active_by_checksum_def sql_query_def sql_io_def
      handleE_def scan_file_def empty_db_def raise_def register_upload_def uuid_io_def create_file_def check_mount_def
      conflict_or_def insert_into_def put_rows_def file_table_def first_violated_def folders_exist_def Let_def ret_def
      row_of_file_def nullable_string_def audit_def audit_table_def calm_faults)
  ultimately show ?thesis by (metis prod.collapse)
qed

lemma calm_folder:
  "\<exists>d w1. svc_create_folder calm_env one_disk [] [] ''docs'' calm_world = (Inr d, w1) \<and>
     folders (w_db w1) = [row_of_folder d] \<and> fd_parent_id d = [] \<and> files (w_db w1) = []"
proof -
  have v: "validate_folder_name ''docs'' = Inr ()" "trim_space ''docs'' = ''docs''" by code_simp+
  obtain r w1 where c: "svc_create_folder calm_env one_disk [] [] ''docs'' calm_world = (r, w1)" by fastforce
  from c show ?thesis
    by (auto simp: svc_create_folder_def bindE_def v one_disk_mount now_io_def uuid_io_def create_folder_def check_mount_def
      conflict_or_def handleE_def sql_io_def insert_into_def put_rows_def folder_table_def first_violated_def
      parents_exist_def Let_def ret_def row_of_folder_def nullable_string_def empty_db_def calm_faults calm_world_def)
qed

definition trashed_row :: file_row where
  "trashed_row = \<lparr>f_id = ''1'', f_folder_id = None, f_storage_key = object_key (calm_uuid 0), f_name = ''a'',
     f_content_type = [], f_size = 2, f_checksum = [], f_mount = ''default'', f_created_at = [], f_updated_at = [],
     f_deleted_at = Some []\<rparr>"

end
