(* ===== verification/File_Props.thy ===== *)
theory File_Props
  imports System File_Lifecycle File_Outcomes File_Examples
begin

text \<open>
  The properties of the file repository and the file service, each with its witness.
\<close>

section \<open>Invariants of every run\<close>

text \<open>
  C1: no metadata without its object. In every run of the server, with any failures of
  the database and of the file system at any point, every file row on a configured disk
  can be opened and gives as many bytes as the row says, with the checksum the row has;
  the only way to fail is a failing system call.
\<close>

theorem objects_present:
  assumes "env_ok E" "disks_ok ms" "objects_ok E ms w" "(sys_step E m ms)\<^sup>*\<^sup>* w w1"
  shows "\<forall>f \<in> set (files (w_db w1)). \<forall>d. by_id ms (f_mount f) = Some d \<longrightarrow>
     (case fst (open_object E (m_store d) (f_storage_key f) w1) of
        Inl e \<Rightarrow> x_os_fault E (w_os w1) \<noteq> None
      | Inr b \<Rightarrow> f_size f = int (length b) \<and> f_checksum f = checksum_of E b)"
proof (intro ballI allI impI)
  fix f d assume f: "f \<in> set (files (w_db w1))" "by_id ms (f_mount f) = Some d"
  have "objects_ok E ms w1" by (rule sys_run_objects [OF assms(4,1,2,3)])
  with f obtain p b where p: "safe_path E (m_store d) (f_storage_key f) = Inr p" "w_fs w1 p = Some b"
    "f_size f = int (length b)" "f_checksum f = checksum_of E b"
    unfolding objects_ok_def rows_stored_def stored_def by blast
  show "case fst (open_object E (m_store d) (f_storage_key f) w1) of
        Inl e \<Rightarrow> x_os_fault E (w_os w1) \<noteq> None
      | Inr b \<Rightarrow> f_size f = int (length b) \<and> f_checksum f = checksum_of E b"
    using p by (simp add: open_object_def bindE_def os_io_def Let_def split: option.split)
qed

theorem objects_present_witness:
  "\<exists>w1 f b w2. files (w_db w1) = [f] \<and>
     open_object calm_env \<lparr>l_root = ''/d'', l_max_bytes = 100, l_allowed_mimes = []\<rparr> (f_storage_key f) w1 = (Inr b, w2) \<and>
     f_size f = int (length b)"
proof -
  obtain f w1 where u: "upload calm_env one_disk [] [] ''a'' (''hi'', None) calm_world = (Inr f, w1)"
    "files (w_db w1) = [row_of_file f]" "fl_mount f = ''default''" using calm_upload by blast
  have "file_step calm_env one_disk calm_world (snd (upload calm_env one_disk [] [] ''a'' (''hi'', None) calm_world))"
    by (rule step_upload)
  then have step: "(sys_step calm_env m one_disk)\<^sup>*\<^sup>* calm_world w1" for m using u(1) by (auto intro: sys_file)
  let ?d = "\<lparr>m_id = ''default'', m_name = ''Main'', m_store = \<lparr>l_root = ''/d'', l_max_bytes = 100, l_allowed_mimes = []\<rparr>\<rparr>"
  have d: "by_id one_disk (f_mount (row_of_file f)) = Some ?d" using u(3) by (simp add: one_disk_def Let_def)
  have mem: "row_of_file f \<in> set (files (w_db w1))" using u(2) by simp
  note o' = objects_present [OF calm_env_ok one_disk_ok calm_world_ok(1) step, rule_format, OF mem d]
  show ?thesis
  proof (cases "open_object calm_env (m_store ?d) (f_storage_key (row_of_file f)) w1")
    case (Pair r w2)
    with o' calm_faults u(2) show ?thesis
      by (cases r) (auto intro!: exI [of _ w1] exI [of _ "row_of_file f"])
  qed
qed

lemma forest_parent_before:
  assumes "forest seen xs" "i < length xs" "d_parent_id (xs ! i) = Some p"
  shows "\<exists>j < length seen + i. d_id ((rev seen @ xs) ! j) = p \<and> d_mount ((rev seen @ xs) ! j) = d_mount (xs ! i)"
  using assms
proof (induction xs arbitrary: seen i)
  case (Cons x xs)
  show ?case
  proof (cases i)
    case 0
    with Cons.prems obtain q where q: "q \<in> set seen" "d_id q = p" "d_mount q = d_mount x" by auto
    then obtain j where "j < length (rev seen)" "rev seen ! j = q" by (metis in_set_conv_nth set_rev)
    with q 0 show ?thesis by (intro exI [of _ j]) (auto simp: nth_append)
  next
    case (Suc k)
    with Cons.prems Cons.IH [of "x # seen" k] show ?thesis by auto
  qed
qed simp

lemma earlier_parents_acyclic:
  assumes "distinct (map d_id ds)"
    "\<And>i p. i < length ds \<Longrightarrow> d_parent_id (ds ! i) = Some p \<Longrightarrow> \<exists>j < i. d_id (ds ! j) = p"
  shows "acyclic {(d_id d, p) | d p. d \<in> set ds \<and> d_parent_id d = Some p}" (is "acyclic ?up")
proof -
  let ?pos = "\<lambda>k. LEAST i. i < length ds \<and> d_id (ds ! i) = k"
  have pos: "?pos (d_id (ds ! i)) = i" if "i < length ds" for i
  proof (rule Least_equality)
    fix k assume "k < length ds \<and> d_id (ds ! k) = d_id (ds ! i)"
    with assms(1) that have "k = i" by (simp add: distinct_conv_nth) (metis)
    then show "i \<le> k" by simp
  qed (use that in simp)
  have "?up\<inverse> \<subseteq> measure ?pos"
  proof
    fix e assume "e \<in> ?up\<inverse>"
    then obtain i p where e: "e = (p, d_id (ds ! i))" "i < length ds" "d_parent_id (ds ! i) = Some p"
      by (auto simp: in_set_conv_nth)
    with assms(2) obtain j where "j < i" "d_id (ds ! j) = p" by blast
    with e pos [of i] pos [of j] show "e \<in> measure ?pos" by auto
  qed
  then show ?thesis using wf_acyclic [OF wf_subset [OF wf_measure]] acyclic_converse by blast
qed

text \<open>
  C28: disks stay apart and folders form a forest. In every run of the server each
  folder's parent exists, was created before it and is on the same disk, and each file in
  a folder is on that folder's disk; the parent relation therefore has no cycle.
\<close>

theorem disks_isolated:
  assumes "layout_ok (w_db w)" "(sys_step E m ms)\<^sup>*\<^sup>* w w1"
  defines "ds \<equiv> folders (w_db w1)"
  shows "(\<forall>i < length ds. \<forall>p. d_parent_id (ds ! i) = Some p \<longrightarrow>
            (\<exists>j < i. d_id (ds ! j) = p \<and> d_mount (ds ! j) = d_mount (ds ! i)))
    \<and> (\<forall>f \<in> set (files (w_db w1)). \<forall>p. f_folder_id f = Some p \<longrightarrow>
            (\<exists>d \<in> set ds. d_id d = p \<and> d_mount d = f_mount f))
    \<and> acyclic {(d_id d, p) | d p. d \<in> set ds \<and> d_parent_id d = Some p}"
proof -
  have l: "layout_ok (w_db w1)" by (rule sys_run_layout [OF assms(2,1)])
  have par: "\<exists>j < i. d_id (ds ! j) = p \<and> d_mount (ds ! j) = d_mount (ds ! i)"
    if "i < length ds" "d_parent_id (ds ! i) = Some p" for i p
    using forest_parent_before [of "[]" ds i p] that l by (auto simp: layout_ok_def ds_def)
  have fi: "\<exists>d \<in> set ds. d_id d = p \<and> d_mount d = f_mount f"
    if "f \<in> set (files (w_db w1))" "f_folder_id f = Some p" for f p
    using l that by (fastforce simp: layout_ok_def files_placed_def placed_def ds_def)
  have "distinct (map d_id ds)"
    using folder_ids.keys_distinct_ok [of "w_db w1"] l by (simp add: layout_ok_def db_ok_def ds_def folder_table_def)
  then have "acyclic {(d_id d, p) | d p. d \<in> set ds \<and> d_parent_id d = Some p}"
    by (rule earlier_parents_acyclic) (use par in blast)
  with par fi show ?thesis by blast
qed

theorem disks_isolated_witness:
  "\<exists>w1 :: world. length (files (w_db w1)) = 1 \<and>
     (\<forall>f \<in> set (files (w_db w1)). \<forall>p. f_folder_id f = Some p \<longrightarrow>
        (\<exists>d \<in> set (folders (w_db w1)). d_id d = p \<and> d_mount d = f_mount f))"
proof -
  obtain f w1 where u: "upload calm_env one_disk [] [] ''a'' (''hi'', None) calm_world = (Inr f, w1)"
    "files (w_db w1) = [row_of_file f]" using calm_upload by blast
  have "file_step calm_env one_disk calm_world (snd (upload calm_env one_disk [] [] ''a'' (''hi'', None) calm_world))"
    by (rule step_upload)
  then have step: "(sys_step calm_env m one_disk)\<^sup>*\<^sup>* calm_world w1" for m using u(1) by (auto intro: sys_file)
  note iso = disks_isolated [OF calm_world_ok(2) step, THEN conjunct2, THEN conjunct1]
  have "length (files (w_db w1)) = 1" using u(2) by simp
  with iso show ?thesis by blast
qed

section \<open>The life of a file\<close>

text \<open>
  C29: the repository's file methods are the life cycle. Moving to the trash, restoring,
  erasing and renaming succeed exactly when the file is live (or, for restoring and
  erasing, in the trash), change the phase of that file alone, and otherwise answer
  not found and change nothing.
\<close>

theorem life_io_refines:
  assumes "db_ok (w_db w)" "x_sql_fault E (w_sql w) = None" "life_io E now op w = (r, w1)"
  shows "case life_step op (phase_of (w_db w)) of
      Inl e \<Rightarrow> r = Inl e \<and> w_db w1 = w_db w
    | Inr \<sigma> \<Rightarrow> r = Inr () \<and> phase_of (w_db w1) = \<sigma>"
proof (cases op)
  case (SoftDelete i)
  have "if phase_of (w_db w) i = Live
    then r = Inr () \<and> phase_of (w_db w1) = (phase_of (w_db w))(i := Trashed)
    else r = Inl ErrNotFound \<and> w_db w1 = w_db w"
    by (rule life_update [OF assms(1,2), where q = active and
          g = "\<lambda>f. f\<lparr>f_deleted_at := Some (stamp now), f_updated_at := stamp now\<rparr>"])
      (use assms(3) SoftDelete in \<open>auto simp: active_def soft_delete_file_def\<close>)
  with SoftDelete show ?thesis by (auto split: if_splits)
next
  case (Restore i)
  have "if phase_of (w_db w) i = Trashed
    then r = Inr () \<and> phase_of (w_db w1) = (phase_of (w_db w))(i := Live)
    else r = Inl ErrNotFound \<and> w_db w1 = w_db w"
    by (rule life_update [OF assms(1,2), where q = "\<lambda>f. \<not> active f" and g = "\<lambda>f. f\<lparr>f_deleted_at := None\<rparr>"])
      (use assms(3) Restore in \<open>auto simp: active_def restore_file_def\<close>)
  with Restore show ?thesis by (auto split: if_splits)
next
  case (Erase i)
  with life_delete [OF assms(1,2), of i r w1] assms(3) show ?thesis by (auto split: if_splits)
next
  case (Rename i n)
  have "if phase_of (w_db w) i = Live
    then r = Inr () \<and> phase_of (w_db w1) = (phase_of (w_db w))(i := Live)
    else r = Inl ErrNotFound \<and> w_db w1 = w_db w"
    by (rule life_update [OF assms(1,2), where q = active and g = "\<lambda>f. f\<lparr>f_name := n, f_updated_at := stamp now\<rparr>"])
      (use assms(3) Rename in \<open>auto simp: active_def rename_file_def\<close>)
  with Rename show ?thesis by (auto split: if_splits)
qed

theorem life_io_refines_witness:
  "\<exists>f w1. files (w_db w1) = [row_of_file f] \<and>
     fst (life_io calm_env 0 (SoftDelete (fl_id f)) w1) = Inr () \<and>
     phase_of (w_db (snd (life_io calm_env 0 (SoftDelete (fl_id f)) w1))) (fl_id f) = Trashed \<and>
     fst (life_io calm_env 0 (Erase (fl_id f)) w1) = Inl ErrNotFound"
proof -
  obtain f w1 where u: "upload calm_env one_disk [] [] ''a'' (''hi'', None) calm_world = (Inr f, w1)"
    "files (w_db w1) = [row_of_file f]" using calm_upload by blast
  have "db_ok (w_db w1)"
    using preserving_snd [OF service_db_ok(2), of calm_world calm_env one_disk "[]" "[]" "''a''" "(''hi'', None)"]
      u(1) calm_world_ok(2) by (simp add: layout_ok_def)
  moreover have "phase_of (w_db w1) (fl_id f) = Live"
    using u(2) by (simp add: phase_of_def row_with_def file_table_def active_def)
  ultimately show ?thesis
    using life_io_refines [of w1 calm_env 0 "SoftDelete (fl_id f)"] life_io_refines [of w1 calm_env 0 "Erase (fl_id f)"]
      u(2) calm_faults(1)
    by (intro exI [of _ f] exI [of _ w1])
      (cases "soft_delete_file calm_env (fl_id f) 0 w1"; cases "delete_file_permanently calm_env (fl_id f) w1"; auto)
qed

section \<open>Single operations\<close>

text \<open>
  C30: what an upload does, whatever fails on the way. An error leaves the metadata as they
  were and every stored object in place, with nothing left over unless a system call
  failed. A success is for the disk of the folder, or without a folder the disk asked for: it either answers
  a live file of that disk with the checksum of the body, without a new object, or stores all the
  bytes of the body in one new object of that disk and adds the one row that names it, in the requested folder.
\<close>

theorem upload_effect:
  assumes "env_ok E" "disks_ok ms" "upload E ms mount_id folder_id name src w = (r, w1)"
  shows "case r of
      Inl e \<Rightarrow> w_db w1 = w_db w \<and> w_fs w \<subseteq>\<^sub>m w_fs w1 \<and> (w_fs w1 = w_fs w \<or> (\<exists>n. x_os_fault E n \<noteq> None))
    | Inr f \<Rightarrow> \<exists>d. upload_disk ms (w_db w) mount_id folder_id = Inr d \<and> by_id ms (m_id d) = Some d \<and> fl_mount f = m_id d \<and> (
        (\<exists>row \<in> set (files (w_db w)). f = file_of_row row \<and> active row \<and> f_checksum row = checksum_of E (fst src) \<and>
           w_db w1 = w_db w \<and> w_fs w \<subseteq>\<^sub>m w_fs w1 \<and> (w_fs w1 = w_fs w \<or> (\<exists>n. x_os_fault E n \<noteq> None)))
      \<or> (\<exists>p. safe_path E (m_store d) (fl_storage_key f) = Inr p \<and>
           w_fs w p = None \<and> w_fs w1 = (w_fs w)(p \<mapsto> fst src) \<and> snd src = None \<and>
           fl_size f = int (length (fst src)) \<and> fl_checksum f = checksum_of E (fst src) \<and>
           fl_folder_id f = folder_id \<and> sanitize_filename name = Inr (fl_name f) \<and>
           files (w_db w1) = files (w_db w) @ [row_of_file f] \<and> folders (w_db w1) = folders (w_db w)))"
  by (rule upload_outcome [OF assms])

theorem upload_effect_witness:
  "\<exists>f w1. upload calm_env one_disk [] [] ''a'' (''hi'', None) calm_world = (Inr f, w1) \<and>
     fl_size f = 2 \<and> (\<exists>p. w_fs w1 = [p \<mapsto> ''hi''])"
proof -
  obtain f w1 where u: "upload calm_env one_disk [] [] ''a'' (''hi'', None) calm_world = (Inr f, w1)"
    using calm_upload by blast
  have "files (w_db calm_world) = []" "w_fs calm_world = Map.empty" by (simp_all add: calm_world_def empty_db_def)
  with upload_effect [OF calm_env_ok one_disk_ok u] u show ?thesis by auto
qed

lemma delete_row_outcome:
  assumes "db_ok (w_db w)" "row \<in> set (files (w_db w))" "f_id row = i" "\<not> active row" "delete_file_permanently E i w = (z, w1)"
  shows "w_fs w1 = w_fs w \<and> folders (w_db w1) = folders (w_db w) \<and> files (w_db w1) =
    (case z of Inl e \<Rightarrow> files (w_db w) | Inr _ \<Rightarrow> filter (\<lambda>f. f_id f \<noteq> i) (files (w_db w)))"
proof (cases z)
  case (Inl e)
  have "files (w_db w1) = files (w_db w) \<and> folders (w_db w1) = folders (w_db w)"
    using assms(5) Inl by (fastforce simp: delete_file_permanently_def affected_def bindE_eq_Inl sql_io_Inr delete_where_def
        put_rows_def file_table_def filter_empty_conv filter_id_conv Let_def split: if_splits dest: sql_io_Inl_same)
  with Inl same_fs_result [OF file_writes_keep(7) assms(5)] show ?thesis by simp
next
  case z: (Inr u)
  have dist: "distinct (map f_id (files (w_db w)))"
    using file_ids.keys_distinct_ok [of "w_db w"] assms(1) by (simp add: db_ok_def file_table_def)
  have only: "f_id g = i \<and> \<not> active g \<longleftrightarrow> f_id g = i" if "g \<in> set (files (w_db w))" for g
    using dist that assms(2-4) by (metis distinct_map inj_onD)
  have "folders (w_db w1) = folders (w_db w)" "files (w_db w1) = filter (\<lambda>g. \<not> (f_id g = i \<and> \<not> active g)) (files (w_db w))"
    using assms(5) z by (auto simp: delete_file_permanently_def affected_Inr sql_io_Inr delete_where_def file_table_def)
  moreover have "filter (\<lambda>g. \<not> (f_id g = i \<and> \<not> active g)) (files (w_db w)) = filter (\<lambda>g. f_id g \<noteq> i) (files (w_db w))"
    using only by (auto intro: filter_cong)
  ultimately show ?thesis using z same_fs_result [OF file_writes_keep(7) assms(5)] by simp
qed

lemma record_audit_documents:
  assumes "record_audit E a i w = (r, w1)"
  shows "r = Inr () \<and> w_fs w1 = w_fs w \<and> folders (w_db w1) = folders (w_db w) \<and> files (w_db w1) = files (w_db w)"
  using assms same_fs_result [OF record_audit_fs assms] by (auto simp: record_audit_def bindE_def now_io_def audit_docs)

text \<open>
  C39: erasing from the trash. A success removes the one row of that file and the bytes of
  its object, and nothing else; an error either changes nothing or comes after the
  row is gone, and then the object stays behind with no row that names it.
\<close>

theorem purge_effect:
  assumes "db_ok (w_db w)" "permanently_delete E ms i w = (r, w1)"
  shows "folders (w_db w1) = folders (w_db w) \<and> (case r of
      Inl e \<Rightarrow> w_fs w1 = w_fs w \<and> (files (w_db w1) = files (w_db w) \<or>
        files (w_db w1) = filter (\<lambda>f. f_id f \<noteq> i) (files (w_db w)))
    | Inr _ \<Rightarrow> files (w_db w1) = filter (\<lambda>f. f_id f \<noteq> i) (files (w_db w)) \<and>
        (\<exists>f d p. f \<in> set (files (w_db w)) \<and> f_id f = i \<and> \<not> active f \<and> get_mount ms (f_mount f) = Inr d \<and>
           safe_path E (m_store d) (f_storage_key f) = Inr p \<and> w_fs w1 = (w_fs w)(p := None)))"
proof -
  obtain q w2 where f: "find_trashed_file E i w = (q, w2)" by fastforce
  have s2: "w_db w2 = w_db w" "w_fs w2 = w_fs w"
    using same_db_result [OF file_reads_keep(4) f] same_fs_result [OF file_reads_keep(5) f] by auto
  show ?thesis
  proof (cases q)
    case (Inl e)
    with f s2 assms(2) show ?thesis by (auto simp: permanently_delete_def)
  next
    case q: (Inr item)
    obtain row where row: "row \<in> set (files (w_db w))" "f_id row = i" "\<not> active row" "item = file_of_row row"
      using find_trashed_file_Inr [OF f [unfolded q]] by metis
    obtain z w3 where d: "delete_file_permanently E i w2 = (z, w3)" by fastforce
    note del = delete_row_outcome [OF _ _ row(2,3) d, unfolded s2, OF assms(1) row(1)]
    show ?thesis
    proof (cases z)
      case (Inl e)
      with f q d del assms(2) show ?thesis by (auto simp: permanently_delete_def)
    next
      case z: (Inr u)
      show ?thesis
      proof (cases "get_mount ms (f_mount row)")
        case (Inl e)
        with f q d z row del assms(2) show ?thesis by (auto simp: permanently_delete_def)
      next
        case m: (Inr m)
        obtain y w4 where dl: "delete_object E (m_store m) (f_storage_key row) w3 = (y, w4)" by fastforce
        have db4: "w_db w4 = w_db w3" using ls.delete_db [of E "m_store m" "f_storage_key row" w3] dl by simp
        show ?thesis
        proof (cases y)
          case (Inl e)
          with f q d z row m dl assms(2) have "r = Inl e" "w1 = w4" by (auto simp: permanently_delete_def)
          with delete_object_Inl [OF dl [unfolded Inl]] del z show ?thesis by simp
        next
          case y: (Inr v)
          with f q d z row m dl assms(2) have "record_audit E ''purge'' i w4 = (r, w1)" by (auto simp: permanently_delete_def)
          from record_audit_documents [OF this] delete_object_Inr [OF dl [unfolded y]] del z db4 row m show ?thesis by auto
        qed
      qed
    qed
  qed
qed

theorem purge_effect_witness:
  "\<exists>w1. files (w_db w1) = [trashed_row] \<and> fst (permanently_delete calm_env one_disk ''1'' w1) = Inr () \<and>
     files (w_db (snd (permanently_delete calm_env one_disk ''1'' w1))) = []"
proof -
  let ?w = "calm_world\<lparr>w_db := empty_db\<lparr>files := [trashed_row]\<rparr>\<rparr>"
  have p: "safe_path calm_env \<lparr>l_root = ''/d'', l_max_bytes = 100, l_allowed_mimes = []\<rparr> (object_key (calm_uuid 0)) =
      Inr (''/d'' @ slash # take 2 (calm_uuid 0) @ slash # calm_uuid 0)" by code_simp
  have db: "db_ok (w_db ?w)"
    by (simp add: empty_db_def db_ok_def table_ok_def table_defs first_violated_def parents_exist_def
      folders_exist_def trashed_row_def)
  have m: "get_mount one_disk ''default'' = Inr \<lparr>m_id = ''default'', m_name = ''Main'',
     m_store = \<lparr>l_root = ''/d'', l_max_bytes = 100, l_allowed_mimes = []\<rparr>\<rparr>"
    by (simp add: get_mount_def one_disk_def Let_def)
  obtain r w2 where d: "permanently_delete calm_env one_disk ''1'' ?w = (r, w2)" by fastforce
  have "r = Inr ()" using d
    by (auto simp: permanently_delete_def bindE_def find_trashed_file_def sql_query_def sql_io_def Let_def calm_faults
       scan_file_def delete_file_permanently_def affected_def delete_where_def file_table_def m p trashed_row_def active_def
       empty_db_def delete_object_def wrapE_def handleE_def os_io_def record_audit_def now_io_def)
  with purge_effect [OF db d] d show ?thesis
    by (intro exI [of _ ?w]) (simp add: trashed_row_def)
qed

lemma delete_childless_folder:
  assumes "\<forall>d \<in> set (folders (w_db w)). d_parent_id d \<noteq> Some i" "\<forall>f \<in> set (files (w_db w)). f_folder_id f \<noteq> Some i"
    "affected (sql_io E (delete_folders (\<lambda>d. d_id d = i))) w = (r, w1)"
  shows "case r of
      Inl e \<Rightarrow> w_db w1 = w_db w
    | Inr _ \<Rightarrow> i \<in> d_id ` set (folders (w_db w)) \<and>
        w_db w1 = (w_db w)\<lparr>folders := filter (\<lambda>d. d_id d \<noteq> i) (folders (w_db w))\<rparr>"
proof (cases "x_sql_fault E (w_sql w)")
  case (Some m)
  with assms(3) show ?thesis by (auto simp: affected_def bindE_def sql_io_def Let_def)
next
  case None
  with delete_childless [OF assms(1,2)] have st: "sql_io E (delete_folders (\<lambda>d. d_id d = i)) w =
      (Inr (int (length (filter (\<lambda>d. d_id d = i) (folders (w_db w))))),
       w\<lparr>w_sql := Suc (w_sql w), w_db := (w_db w)\<lparr>folders := filter (\<lambda>d. d_id d \<noteq> i) (folders (w_db w))\<rparr>\<rparr>)"
    by (simp add: sql_io_def Let_def)
  show ?thesis
  proof (cases "i \<in> d_id ` set (folders (w_db w))")
    case True
    then have "filter (\<lambda>d. d_id d = i) (folders (w_db w)) \<noteq> []" by (auto simp: filter_empty_conv)
    with assms(3) st True show ?thesis by (auto simp: affected_def bindE_def)
  next
    case False
    then have e: "filter (\<lambda>d. d_id d = i) (folders (w_db w)) = []"
      "filter (\<lambda>d. d_id d \<noteq> i) (folders (w_db w)) = folders (w_db w)"
      by (auto simp: filter_empty_conv filter_id_conv)
    with assms(3) st show ?thesis by (auto simp: affected_def bindE_def)
  qed
qed

text \<open>
  Only an empty folder can be deleted. A successful deletion removes exactly that
  folder's row: the cascade never reaches another folder and no file loses its place; a folder
  with content answers a conflict; every error leaves the database as it was.
\<close>

theorem delete_folder_only_empty:
  assumes "db_ok (w_db w)" "delete_folder E i w = (r, w1)"
  shows "case r of
      Inl e \<Rightarrow> w_db w1 = w_db w
    | Inr _ \<Rightarrow> (\<forall>d \<in> set (folders (w_db w)). d_parent_id d \<noteq> Some i) \<and>
        (\<forall>f \<in> set (files (w_db w)). f_folder_id f \<noteq> Some i) \<and> i \<in> d_id ` set (folders (w_db w)) \<and>
        w_db w1 = (w_db w)\<lparr>folders := filter (\<lambda>d. d_id d \<noteq> i) (folders (w_db w))\<rparr>"
proof -
  let ?q = "\<lambda>db. (length (filter (\<lambda>d. d_parent_id d = Some i) (folders db)),
                 length (filter (\<lambda>f. f_folder_id f = Some i) (files db)))"
  obtain c w2 where q: "sql_query E ?q w = (c, w2)" by fastforce
  have s2: "w_db w2 = w_db w" by (rule same_db_result [OF sql_query_keeps(1) q])
  show ?thesis
  proof (cases c)
    case (Inl e)
    with q s2 assms(2) show ?thesis by (auto simp: delete_folder_def)
  next
    case c: (Inr c')
    with q have c': "c' = ?q (w_db w)" by (simp add: sql_query_Inr)
    show ?thesis
    proof (cases "fst c' > 0 \<or> snd c' > 0")
      case True
      with q c s2 assms(2) show ?thesis by (cases c') (auto simp: delete_folder_def)
    next
      case False
      with c' have no: "\<forall>d \<in> set (folders (w_db w)). d_parent_id d \<noteq> Some i" "\<forall>f \<in> set (files (w_db w)). f_folder_id f \<noteq> Some i"
        by (auto simp: filter_empty_conv)
      from False q c assms(2) have af: "affected (sql_io E (delete_folders (\<lambda>d. d_id d = i))) w2 = (r, w1)"
        by (cases c') (auto simp: delete_folder_def)
      from delete_childless_folder [OF _ _ af] no s2 show ?thesis by (auto split: sum.splits)
    qed
  qed
qed

theorem delete_folder_only_empty_witness:
  "\<exists>d w1. folders (w_db w1) = [row_of_folder d] \<and> fst (delete_folder calm_env (fd_id d) w1) = Inr () \<and>
     folders (w_db (snd (delete_folder calm_env (fd_id d) w1))) = []"
proof -
  obtain d w1 where c: "svc_create_folder calm_env one_disk [] [] ''docs'' calm_world = (Inr d, w1)"
    "folders (w_db w1) = [row_of_folder d]" "fd_parent_id d = []" "files (w_db w1) = []"
    using calm_folder by blast
  have db: "db_ok (w_db w1)"
    using preserving_snd [OF service_db_ok(1), of calm_world calm_env one_disk "[]" "[]" "''docs''"]
      c(1) calm_world_ok(2) by (simp add: layout_ok_def)
  obtain r w2 where d: "delete_folder calm_env (fd_id d) w1 = (r, w2)" by fastforce
  have "r = Inr ()" using d c(2,3,4)
    by (auto simp: delete_folder_def bindE_def sql_query_def sql_io_def Let_def calm_faults affected_def ret_def raise_def
       delete_folders_def row_of_folder_def nullable_string_def)
  with delete_folder_only_empty [OF db d] d c show ?thesis by (intro exI [of _ d] exI [of _ w1]) (auto simp: row_of_folder_def)
qed

text \<open>
  A folder created at the root without naming a disk cannot hold files. It is stored
  with the empty disk name, while every file carries a real one, so no upload into it ever
  adds a row.
\<close>

theorem folder_without_disk_unusable:
  assumes "env_ok E" "disks_ok ms" "layout_ok (w_db w)" "svc_create_folder E ms [] [] n w = (Inr d, w1)"
  shows "(\<exists>row. folders (w_db w1) = folders (w_db w) @ [row] \<and> d_id row = fd_id d \<and> d_mount row = []) \<and>
    files (w_db (snd (upload E ms mid (fd_id d) name src w1))) = files (w_db w1)"
proof
  have l1: "layout_ok (w_db w1)"
    using file_step_layout [OF step_create_folder [of E ms w "[]" "[]" n] assms(3)] assms(4) by simp
  obtain w2 w3 where c: "create_folder E d w2 = (Inr (), w3)" "w3 = w1" "w_db w2 = w_db w"
    and d: "fd_mount d = []" "fd_parent_id d = []" "uuid_text (fd_id d)"
    using assms(1,4) by (auto simp: svc_create_folder_def Let_def bindE_eq_Inr now_io_def env_ok_def)
  let ?row = "row_of_folder d"
  have row: "folders (w_db w1) = folders (w_db w) @ [?row]" "d_id ?row = fd_id d" "d_mount ?row = []"
    using create_folder_Inr(2) [OF c(1)] c d by (simp_all add: row_of_folder_def)
  then show "\<exists>row. folders (w_db w1) = folders (w_db w) @ [row] \<and> d_id row = fd_id d \<and> d_mount row = []" by blast
  obtain r w4 where u: "upload E ms mid (fd_id d) name src w1 = (r, w4)" by fastforce
  have l4: "layout_ok (w_db w4)"
    using file_step_layout [OF step_upload [of E ms w1 mid "fd_id d" name src] l1] u by simp
  have ne: "fd_id d \<noteq> []" using d(3) by (auto simp: uuid_text_def)
  show "files (w_db (snd (upload E ms mid (fd_id d) name src w1))) = files (w_db w1)"
  proof (cases "files (w_db w4) = files (w_db w1)")
    case False
    note out = upload_outcome [OF assms(1,2) u]
    from out False obtain f where r: "r = Inr f" by (cases r) auto
    from out [unfolded r] False obtain e where f: "by_id ms (fl_mount f) = Some e"
      "fl_folder_id f = fd_id d" "files (w_db w4) = files (w_db w1) @ [row_of_file f]" "folders (w_db w4) = folders (w_db w1)"
      by auto
    have "f_folder_id (row_of_file f) = Some (fd_id d)" using f(2) ne by (simp add: nullable_string_def)
    moreover have "placed (folders (w_db w4)) (row_of_file f)" using l4 f(3) by (simp add: layout_ok_def files_placed_def)
    ultimately obtain d' where d': "d' \<in> set (folders (w_db w4))" "d_id d' = fd_id d" "d_mount d' = fl_mount f"
      by (auto simp: placed_def)
    have "distinct (map d_id (folders (w_db w4)))"
      using folder_ids.keys_distinct_ok [of "w_db w4"] l4 by (simp add: layout_ok_def db_ok_def folder_table_def)
    moreover have "?row \<in> set (folders (w_db w4))" using row(1) f(4) by simp
    ultimately have "d' = ?row" using d'(1,2) row(2) unfolding distinct_map by (metis inj_onD)
    with d'(3) row(3) f(1) assms(2) show ?thesis by (simp add: disks_ok_def)
  qed (use u in simp)
qed

theorem folder_without_disk_unusable_witness:
  "\<exists>d w1. svc_create_folder calm_env one_disk [] [] ''docs'' calm_world = (Inr d, w1) \<and>
     files (w_db (snd (upload calm_env one_disk [] (fd_id d) ''a'' (''hi'', None) w1))) = files (w_db w1)"
proof -
  obtain d w1 where c: "svc_create_folder calm_env one_disk [] [] ''docs'' calm_world = (Inr d, w1)"
    using calm_folder by blast
  with folder_without_disk_unusable [OF calm_env_ok one_disk_ok calm_world_ok(2) c] show ?thesis by blast
qed

section \<open>Search and paging\<close>

text \<open>
  C10: a search finds exactly the live files of the disk whose name contains the query,
  upper and lower case of ASCII letters alike, whatever wildcards or escapes the query holds; the
  result is ordered by name and cut to the page, and nothing changes. It is stated for
  queries and names without NUL bytes and queries within SQLite's pattern limit.
\<close>

theorem search_exact:
  assumes "CHR 0x00 \<notin> set query" "length (like_pattern query) \<le> like_limit"
    and "\<forall>f \<in> set (files (w_db w)). CHR 0x00 \<notin> set (f_name f)"
    and "x_sql_fault E (w_sql w) = None"
  shows "search E mount query limit offset w =
    (Inr (map file_of_row (window limit offset (sort_key f_name
       (filter (\<lambda>f. f_mount f = mount \<and> active f \<and> sublist (to_lower query) (to_lower (f_name f)))
          (files (w_db w)))))),
     w\<lparr>w_sql := Suc (w_sql w)\<rparr>)"
proof -
  have "search_rows mount query (w_db w) =
    Inr (filter (\<lambda>f. f_mount f = mount \<and> active f \<and> sublist (to_lower query) (to_lower (f_name f))) (files (w_db w)))"
    using assms(2,3) c_text_id [OF like_pattern_no_nul [OF assms(1)]]
    by (auto simp: search_rows_def Let_def like_contains c_text_id to_lower_def intro!: filter_cong)
  with assms(4) show ?thesis by (simp add: search_def sql_io_def Let_def)
qed

theorem search_exact_witness:
  "\<exists>f (w1 :: world). files (w_db w1) = [row_of_file f] \<and>
     fst (search calm_env ''default'' ''A'' 20 0 w1) = Inr [file_of_row (row_of_file f)] \<and>
     fst (search calm_env ''default'' ''%'' 20 0 w1) = Inr []"
proof -
  obtain f and w1 :: world where u: "files (w_db w1) = [row_of_file f]" "fl_mount f = ''default''" "fl_name f = ''a''"
    using calm_upload by blast
  have l: "length (like_pattern ''A'') \<le> like_limit" "length (like_pattern ''%'') \<le> like_limit"
    by (simp_all add: like_pattern_def escape_char_def like_limit_def)
  have n: "\<forall>g \<in> set (files (w_db w1)). CHR 0x00 \<notin> set (f_name g)" using u by simp
  have s: "sublist (to_lower ''A'') (to_lower ''a'')" "\<not> sublist (to_lower ''%'') (to_lower ''a'')" by code_simp+
  have a: "active (row_of_file f)" by (simp add: active_def row_of_file_def)
  have "fst (search calm_env ''default'' ''A'' 20 0 w1) = Inr [file_of_row (row_of_file f)]"
    using search_exact [OF _ l(1) n calm_faults(1), of "''default''" 20 0] u s a by (simp add: window_def)
  moreover have "fst (search calm_env ''default'' ''%'' 20 0 w1) = Inr []"
    using search_exact [OF _ l(2) n calm_faults(1), of "''default''" 20 0] u s a by (simp add: window_def)
  ultimately show ?thesis using u by blast
qed

text \<open>
  The pages of a directory are a partition of it. With one page size n, the answers
  to the offsets 0, n, 2n and so on, put together, are the live files of the folder in the order of
  their names: no file is lost between two pages and none is shown twice.
\<close>

theorem pages_partition:
  assumes "0 < n" "length (files (w_db w)) \<le> k * n" "\<And>q. x_sql_fault E q = None"
  shows "concat (map (\<lambda>j. case fst (list_files E mount d (int n) (int (j * n)) w) of Inl _ \<Rightarrow> [] | Inr fs \<Rightarrow> fs) [0..<k]) =
    map file_of_row (sort_key f_name
      (filter (\<lambda>f. f_mount f = mount \<and> coalesce (f_folder_id f) = d \<and> active f) (files (w_db w))))"
proof -
  let ?l = "sort_key f_name (filter (\<lambda>f. f_mount f = mount \<and> coalesce (f_folder_id f) = d \<and> active f) (files (w_db w)))"
  have "length ?l \<le> k * n" using assms(2) le_trans [OF length_filter_le] by simp
  from window_pages [OF assms(1) this] show ?thesis
    by (simp add: list_files_def sql_query_def sql_io_def assms(3) Let_def map_concat [symmetric] comp_def del: of_nat_mult)
      (metis (mono_tags, lifting) map_concat list.map_comp comp_apply map_eq_conv)
qed

theorem pages_partition_witness:
  "\<exists>f (w1 :: world). files (w_db w1) = [row_of_file f] \<and>
     concat (map (\<lambda>j. case fst (list_files calm_env ''default'' (coalesce (f_folder_id (row_of_file f))) (int 1) (int (j * 1)) w1)
       of Inl _ \<Rightarrow> [] | Inr fs \<Rightarrow> fs) [0..<2]) = [file_of_row (row_of_file f)]"
proof -
  obtain f and w1 :: world where u: "files (w_db w1) = [row_of_file f]" "fl_mount f = ''default''"
    using calm_upload by blast
  have "length (files (w_db w1)) \<le> 2 * 1" using u(1) by simp
  from pages_partition [OF _ this calm_faults(1), of "''default''" "coalesce (f_folder_id (row_of_file f))"] u
  show ?thesis by (intro exI [of _ f] exI [of _ w1]) (simp add: active_def)
qed

end
