(* ===== verification/Database.thy ===== *)
theory Database
  imports Auth_Service
begin

text \<open>
  src/internal/database/database.go: opening the database. \<open>image\<close> is the database file as
  any earlier version may have left it: a table that does not exist is \<open>None\<close>, and the two
  flags say whether a table has the column \<^verbatim>\<open>mount\<close> yet (while it has not, the field in
  the rows is meaningless). \<open>Legacy_users\<close> is the table of the multi-user versions, told by its
  column \<^verbatim>\<open>email\<close>; only the addresses are kept here, since its rows are dropped. Columns
  of old tables that the rebuild leaves behind are not represented. Plain indexes
  and the pragmas have no effect on rows; they can fail like any statement.
\<close>

section \<open>The database file\<close>

datatype users_table = No_users | Legacy_users "string list" | Users "user_row list"

record image =
  im_users :: users_table
  im_sessions :: "session_row list option"
  im_folders :: "folder_row list option"
  im_folder_mounts :: bool
  im_files :: "file_row list option"
  im_file_mounts :: bool
  im_audit :: "audit_row list option"
  im_root_index :: bool
  im_version :: int

record boot =
  bt_image :: image
  bt_sql :: nat
  bt_os :: nat
  bt_clock :: nat

type_synonym 'a boot_io = "(boot, err, 'a) prog"

definition boot_sql :: "env \<Rightarrow> (image \<Rightarrow> string + 'a \<times> image) \<Rightarrow> 'a boot_io" where
  "boot_sql E stmt = (\<lambda>b.
     let b1 = b\<lparr>bt_sql := Suc (bt_sql b)\<rparr>
     in case x_sql_fault E (bt_sql b) of
          Some m \<Rightarrow> (Inl (SqlError m), b1)
        | None \<Rightarrow> (case stmt (bt_image b) of
              Inl c \<Rightarrow> (Inl (SqlError (x_sql_msg E c)), b1)
            | Inr (x, im) \<Rightarrow> (Inr x, b1\<lparr>bt_image := im\<rparr>)))"

definition boot_query :: "env \<Rightarrow> (image \<Rightarrow> 'a) \<Rightarrow> 'a boot_io" where
  "boot_query E q = boot_sql E (\<lambda>im. Inr (q im, im))"

text \<open>A statement without result, and a statement without effect on rows.\<close>

definition change :: "(image \<Rightarrow> image) \<Rightarrow> image \<Rightarrow> string + unit \<times> image" where
  "change f im = Inr ((), f im)"

definition no_change :: "image \<Rightarrow> string + unit \<times> image" where
  "no_change im = Inr ((), im)"

text \<open>One \<^verbatim>\<open>Exec\<close> with several statements: they run in order until one fails.\<close>

fun script :: "env \<Rightarrow> (image \<Rightarrow> string + unit \<times> image) list \<Rightarrow> unit boot_io" where
  "script E [] = ret ()"
| "script E (s # ss) = bindE (boot_sql E s) (\<lambda>_. script E ss)"

definition wrapB :: "string \<Rightarrow> 'a boot_io \<Rightarrow> 'a boot_io" where
  "wrapB m p = handleE p (\<lambda>e. raise (Wrapped m e)) ret"

section \<open>The legacy rebuild\<close>

definition is_legacy_schema :: "env \<Rightarrow> bool boot_io" where
  "is_legacy_schema E = wrapB ''inspect schema''
     (boot_query E (\<lambda>im. case im_users im of Legacy_users _ \<Rightarrow> True | _ \<Rightarrow> False))"

text \<open>
  \<^verbatim>\<open>INSERT INTO t_new ... SELECT ... FROM t\<close>. The rebuilt folders have no root index yet, and
  foreign keys are off.
\<close>

definition copied :: "string \<Rightarrow> 'r unique_constraint list \<Rightarrow> 'r list option \<Rightarrow> string + 'r list" where
  "copied name cs table = (case table of
       None \<Rightarrow> Inl (''no such table: '' @ name)
     | Some rows \<Rightarrow> (case first_violated cs rows of Some m \<Rightarrow> Inl m | None \<Rightarrow> Inr rows))"

definition folder_copy_constraints :: "folder_row unique_constraint list" where
  "folder_copy_constraints = take 2 (t_unique folder_table)"

text \<open>The whole transaction, from BEGIN to COMMIT.\<close>

definition rebuild :: "image \<Rightarrow> string + unit \<times> image" where
  "rebuild im =
     (case copied ''sessions'' (t_unique session_table) (im_sessions im) of Inl m \<Rightarrow> Inl m | Inr ss \<Rightarrow>
      case copied ''folders'' folder_copy_constraints (im_folders im) of Inl m \<Rightarrow> Inl m | Inr ds \<Rightarrow>
      case copied ''files'' (t_unique file_table) (im_files im) of Inl m \<Rightarrow> Inl m | Inr fs \<Rightarrow>
      case copied ''audit_events'' (t_unique audit_table) (im_audit im) of Inl m \<Rightarrow> Inl m | Inr evs \<Rightarrow>
      Inr ((), im\<lparr>im_users := Users [], im_sessions := Some ss,
                  im_folders := Some ds, im_folder_mounts := False,
                  im_files := Some fs, im_file_mounts := False,
                  im_audit := Some evs, im_root_index := False\<rparr>))"

definition migrate_legacy :: "env \<Rightarrow> unit boot_io" where
  "migrate_legacy E =
     bindE (wrapB ''disable foreign keys for migration'' (boot_sql E no_change)) (\<lambda>_.
     bindE (wrapB ''migrate legacy schema'' (boot_sql E rebuild)) (\<lambda>_.
     wrapB ''re-enable foreign keys after migration'' (boot_sql E no_change)))"

section \<open>The schema\<close>

definition create_users_table :: "image \<Rightarrow> image" where
  "create_users_table im = (case im_users im of No_users \<Rightarrow> im\<lparr>im_users := Users []\<rparr> | _ \<Rightarrow> im)"

definition create_sessions_table :: "image \<Rightarrow> image" where
  "create_sessions_table im = (case im_sessions im of None \<Rightarrow> im\<lparr>im_sessions := Some []\<rparr> | _ \<Rightarrow> im)"

definition create_folders_table :: "image \<Rightarrow> image" where
  "create_folders_table im =
     (case im_folders im of None \<Rightarrow> im\<lparr>im_folders := Some [], im_folder_mounts := True\<rparr> | _ \<Rightarrow> im)"

definition create_files_table :: "image \<Rightarrow> image" where
  "create_files_table im =
     (case im_files im of None \<Rightarrow> im\<lparr>im_files := Some [], im_file_mounts := True\<rparr> | _ \<Rightarrow> im)"

definition create_audit_table :: "image \<Rightarrow> image" where
  "create_audit_table im = (case im_audit im of None \<Rightarrow> im\<lparr>im_audit := Some []\<rparr> | _ \<Rightarrow> im)"

text \<open>The statements of \<^verbatim>\<open>singleUserSchema\<close> in their order, with its four plain indexes.\<close>

definition single_user_schema :: "(image \<Rightarrow> string + unit \<times> image) list" where
  "single_user_schema =
     [change create_users_table, change create_sessions_table, no_change,
      change create_folders_table, change create_files_table, no_change, no_change,
      change create_audit_table, no_change]"

definition add_file_mounts :: "image \<Rightarrow> image" where
  "add_file_mounts im = im\<lparr>im_files := map_option (map (\<lambda>f. f\<lparr>f_mount := ''default''\<rparr>)) (im_files im),
                           im_file_mounts := True\<rparr>"

definition add_folder_mounts :: "image \<Rightarrow> image" where
  "add_folder_mounts im = im\<lparr>im_folders := map_option (map (\<lambda>d. d\<lparr>d_mount := ''default''\<rparr>)) (im_folders im),
                             im_folder_mounts := True\<rparr>"

definition ensure_column :: "env \<Rightarrow> (image \<Rightarrow> bool) \<Rightarrow> (image \<Rightarrow> image) \<Rightarrow> unit boot_io" where
  "ensure_column E present add =
     bindE (boot_query E present) (\<lambda>found. if \<not> found then boot_sql E (change add) else ret ())"

definition ensure_columns :: "env \<Rightarrow> unit boot_io" where
  "ensure_columns E =
     bindE (ensure_column E im_file_mounts add_file_mounts) (\<lambda>_.
     ensure_column E im_folder_mounts add_folder_mounts)"

text \<open>A plain index on \<^verbatim>\<open>mount\<close> needs the column.\<close>

definition mount_index :: "(image \<Rightarrow> bool) \<Rightarrow> image \<Rightarrow> string + unit \<times> image" where
  "mount_index has im = (if has im then Inr ((), im) else Inl ''no such column: mount'')"

definition root_constraint :: "folder_row unique_constraint list" where
  "root_constraint = drop 2 (t_unique folder_table)"

definition create_root_index :: "image \<Rightarrow> string + unit \<times> image" where
  "create_root_index im =
     (if im_root_index im then Inr ((), im) else
      case im_folders im of None \<Rightarrow> Inl ''no such table: folders'' | Some rows \<Rightarrow>
      (case first_violated root_constraint rows of
         Some m \<Rightarrow> Inl m | None \<Rightarrow> Inr ((), im\<lparr>im_root_index := True\<rparr>)))"

section \<open>The account\<close>

record seed_credentials =
  sd_username :: string
  sd_password :: string

definition count_users :: "image \<Rightarrow> string + nat \<times> image" where
  "count_users im = (case im_users im of
       No_users \<Rightarrow> Inl ''no such table: users''
     | Legacy_users us \<Rightarrow> Inr (length us, im)
     | Users us \<Rightarrow> Inr (length us, im))"

definition insert_user :: "user_row \<Rightarrow> image \<Rightarrow> string + unit \<times> image" where
  "insert_user u im = (case im_users im of
       Users us \<Rightarrow> (case first_violated (t_unique user_table) (us @ [u]) of
                      Some m \<Rightarrow> Inl m | None \<Rightarrow> Inr ((), im\<lparr>im_users := Users (us @ [u])\<rparr>))
     | _ \<Rightarrow> Inl ''table users has no column named username'')"

definition boot_now :: "env \<Rightarrow> time boot_io" where
  "boot_now E = (\<lambda>b. (Inr (x_clock E (bt_clock b)), b\<lparr>bt_clock := Suc (bt_clock b)\<rparr>))"

definition seed_single_user :: "env \<Rightarrow> seed_credentials \<Rightarrow> unit boot_io" where
  "seed_single_user E seed =
     (if trim_space (sd_username seed) = [] \<or> sd_password seed = []
      then raise (TextError ''seed credentials must not be empty (set N_DRIVE_USERNAME / N_DRIVE_PASSWORD)'')
      else bindE (wrapB ''count users'' (boot_sql E count_users)) (\<lambda>count.
      if count > 0 then ret () else
      case x_bcrypt_hash E (sd_password seed) bcrypt_cost of
        None \<Rightarrow> raise (Wrapped ''hash seed password'' (TextError ''bcrypt''))
      | Some hash \<Rightarrow>
          bindE (boot_now E) (\<lambda>now.
          wrapB ''seed single user'' (boot_sql E (insert_user
            \<lparr>u_id = single_user_id, u_username = sd_username seed, u_password_hash = hash,
             u_created_at = stamp now\<rparr>)))))"

section \<open>Migrate and Open\<close>

definition migrate :: "env \<Rightarrow> seed_credentials \<Rightarrow> unit boot_io" where
  "migrate E seed =
     bindE (is_legacy_schema E) (\<lambda>legacy.
     bindE (if legacy then migrate_legacy E else ret ()) (\<lambda>_.
     bindE (wrapB ''migrate database'' (script E single_user_schema)) (\<lambda>_.
     bindE (wrapB ''migrate storage mounts'' (ensure_columns E)) (\<lambda>_.
     bindE (wrapB ''index storage mounts'' (boot_sql E (mount_index im_folder_mounts))) (\<lambda>_.
     bindE (wrapB ''index storage mounts'' (boot_sql E (mount_index im_file_mounts))) (\<lambda>_.
     bindE (wrapB ''rebuild root folder index'' (boot_sql E (change (im_root_index_update (\<lambda>_. False))))) (\<lambda>_.
     bindE (wrapB ''rebuild root folder index'' (boot_sql E create_root_index)) (\<lambda>_.
     bindE (seed_single_user E seed) (\<lambda>_.
     ignoreE (boot_sql E (change (im_version_update (\<lambda>_. 2)))))))))))))"

definition boot_os :: "env \<Rightarrow> unit boot_io" where
  "boot_os E = (\<lambda>b. (case x_os_fault E (bt_os b) of Some m \<Rightarrow> Inl (OsError m) | None \<Rightarrow> Inr (),
                     b\<lparr>bt_os := Suc (bt_os b)\<rparr>))"

text \<open>\<^verbatim>\<open>sql.Open\<close> only fails for an unknown driver; the first statement and the ping reach the file.\<close>

definition open_database :: "env \<Rightarrow> string \<Rightarrow> seed_credentials \<Rightarrow> unit boot_io" where
  "open_database E path seed =
     bindE (if path \<noteq> '':memory:'' then wrapB ''create database directory'' (boot_os E) else ret ()) (\<lambda>_.
     bindE (wrapB ''enable sqlite foreign keys'' (boot_sql E no_change)) (\<lambda>_.
     bindE (wrapB ''ping sqlite database'' (boot_sql E no_change)) (\<lambda>_.
     migrate E seed)))"

section \<open>The server's database\<close>

definition rows_of :: "'r list option \<Rightarrow> 'r list" where
  "rows_of table = (case table of None \<Rightarrow> [] | Some rows \<Rightarrow> rows)"

definition database_of :: "image \<Rightarrow> database" where
  "database_of im =
     \<lparr>users = (case im_users im of Users us \<Rightarrow> us | _ \<Rightarrow> []), sessions = rows_of (im_sessions im),
      folders = rows_of (im_folders im), files = rows_of (im_files im), audit_events = rows_of (im_audit im)\<rparr>"

text \<open>What every version keeps of its own tables: their keys and references.\<close>

definition image_ok :: "image \<Rightarrow> bool" where
  "image_ok im \<longleftrightarrow>
     first_violated (t_unique user_table) (users (database_of im)) = None \<and>
     first_violated (t_unique session_table) (rows_of (im_sessions im)) = None \<and>
     first_violated folder_copy_constraints (rows_of (im_folders im)) = None \<and>
     parents_exist (rows_of (im_folders im)) \<and>
     first_violated (t_unique file_table) (rows_of (im_files im)) = None \<and>
     folders_exist (rows_of (im_folders im)) (rows_of (im_files im)) \<and>
     first_violated (t_unique audit_table) (rows_of (im_audit im)) = None"

section \<open>Statements\<close>

lemma boot_sql_Inr:
  "boot_sql E stmt b = (Inr x, b1) \<longleftrightarrow> x_sql_fault E (bt_sql b) = None \<and>
     (\<exists>im. stmt (bt_image b) = Inr (x, im) \<and> b1 = b\<lparr>bt_sql := Suc (bt_sql b), bt_image := im\<rparr>)"
  by (auto simp: boot_sql_def Let_def split: option.splits sum.splits prod.splits)

lemma boot_query_Inr:
  "boot_query E q b = (Inr x, b1) \<longleftrightarrow>
     x_sql_fault E (bt_sql b) = None \<and> x = q (bt_image b) \<and> b1 = b\<lparr>bt_sql := Suc (bt_sql b)\<rparr>"
  by (auto simp: boot_query_def boot_sql_Inr)

lemma wrapB_Inr [simp]: "wrapB m p b = (Inr x, b1) \<longleftrightarrow> p b = (Inr x, b1)"
  by (cases "p b"; cases "fst (p b)") (auto simp: wrapB_def handleE_def ret_def raise_def)

definition settled :: "image \<Rightarrow> image" where
  "settled im = create_audit_table (create_files_table (create_folders_table (create_sessions_table (create_users_table im))))"

lemma schema_Inr:
  assumes "script E single_user_schema b = (Inr x, b1)"
  shows "bt_image b1 = settled (bt_image b)"
  using assms
  by (auto simp: single_user_schema_def bindE_eq_Inr boot_sql_Inr change_def no_change_def settled_def ret_def)

lemma ensure_columns_Inr:
  assumes "ensure_columns E b = (Inr x, b1)"
  shows "bt_image b1 =
    (let im = (if im_file_mounts (bt_image b) then bt_image b else add_file_mounts (bt_image b))
     in if im_folder_mounts im then im else add_folder_mounts im)"
  using assms
  by (auto simp: ensure_columns_def ensure_column_def bindE_eq_Inr boot_sql_Inr boot_query_Inr change_def Let_def ret_def
      split: if_splits)

lemma migrate_legacy_Inr:
  "migrate_legacy E b = (Inr x, b1) \<Longrightarrow> rebuild (bt_image b) = Inr ((), bt_image b1)"
  by (auto simp: migrate_legacy_def bindE_eq_Inr boot_sql_Inr no_change_def)

section \<open>What the migration makes of a file\<close>

definition is_legacy :: "image \<Rightarrow> bool" where
  "is_legacy im = (case im_users im of Legacy_users _ \<Rightarrow> True | _ \<Rightarrow> False)"

definition upgraded :: "image \<Rightarrow> image" where
  "upgraded im = im\<lparr>
     im_users := Users (users (database_of im)),
     im_sessions := Some (rows_of (im_sessions im)),
     im_folders := Some (if im_folder_mounts im \<and> \<not> is_legacy im then rows_of (im_folders im)
                         else map (\<lambda>d. d\<lparr>d_mount := ''default''\<rparr>) (rows_of (im_folders im))),
     im_folder_mounts := True,
     im_files := Some (if im_file_mounts im \<and> \<not> is_legacy im then rows_of (im_files im)
                       else map (\<lambda>f. f\<lparr>f_mount := ''default''\<rparr>) (rows_of (im_files im))),
     im_file_mounts := True,
     im_audit := Some (rows_of (im_audit im)),
     im_root_index := True\<rparr>"

lemma copied_Inr: "copied n cs t = Inr rows \<longleftrightarrow> t = Some rows \<and> first_violated cs rows = None"
  by (auto simp: copied_def split: option.splits)

lemma rebuild_Inr:
  "rebuild im = Inr (x, im1) \<longleftrightarrow> (\<exists>ss ds fs evs. im_sessions im = Some ss \<and> im_folders im = Some ds \<and> im_files im = Some fs \<and>
     im_audit im = Some evs \<and> first_violated (t_unique session_table) ss = None \<and>
     first_violated folder_copy_constraints ds = None \<and> first_violated (t_unique file_table) fs = None \<and>
     first_violated (t_unique audit_table) evs = None \<and>
     im1 = im\<lparr>im_users := Users [], im_sessions := Some ss, im_folders := Some ds, im_folder_mounts := False,
              im_files := Some fs, im_file_mounts := False, im_audit := Some evs, im_root_index := False\<rparr>)"
  by (auto simp: rebuild_def copied_def split: sum.splits option.splits)

lemma settled_sel:
  "im_users (settled im) = (case im_users im of No_users \<Rightarrow> Users [] | t \<Rightarrow> t)"
  "im_sessions (settled im) = Some (rows_of (im_sessions im))"
  "im_folders (settled im) = Some (rows_of (im_folders im))"
  "im_files (settled im) = Some (rows_of (im_files im))"
  "im_audit (settled im) = Some (rows_of (im_audit im))"
  "im_folder_mounts (settled im) \<longleftrightarrow> im_folders im = None \<or> im_folder_mounts im"
  "im_file_mounts (settled im) \<longleftrightarrow> im_files im = None \<or> im_file_mounts im"
  "im_version (settled im) = im_version im"
  by (auto simp: settled_def create_users_table_def create_sessions_table_def create_folders_table_def
      create_files_table_def create_audit_table_def rows_of_def split: users_table.split option.split)

lemma settle_upgrades:
  assumes "im1 = settled im" "\<not> is_legacy im"
    "im2 = (if im_file_mounts im1 then im1 else add_file_mounts im1)"
    "im3 = (if im_folder_mounts im2 then im2 else add_folder_mounts im2)"
  shows "im3\<lparr>im_root_index := True\<rparr> = upgraded im"
proof (rule image.equality)
  have u: "im_users im1 = Users (users (database_of im))"
    using assms(1,2) by (auto simp: settled_sel is_legacy_def database_of_def split: users_table.splits)
  show "im_users (im3\<lparr>im_root_index := True\<rparr>) = im_users (upgraded im)"
    using u assms by (simp add: upgraded_def add_file_mounts_def add_folder_mounts_def)
qed (use assms(2) in \<open>auto simp: assms(1,3,4) settled_sel upgraded_def add_file_mounts_def add_folder_mounts_def rows_of_def
       split: option.split\<close>)

lemma upgraded_rebuilt:
  assumes "rebuild im = Inr (x, im1)" "is_legacy im"
  shows "upgraded im1 = upgraded im" "\<not> is_legacy im1"
  using assms
  by (auto simp: rebuild_Inr upgraded_def is_legacy_def rows_of_def database_of_def split: users_table.splits)

lemma seed_single_user_Inr:
  assumes "seed_single_user E seed b = (Inr x, b1)" "im_users (bt_image b) = Users us"
  shows "trim_space (sd_username seed) \<noteq> [] \<and> sd_password seed \<noteq> [] \<and>
    (if us \<noteq> [] then bt_image b1 = bt_image b
     else \<exists>hash n. x_bcrypt_hash E (sd_password seed) bcrypt_cost = Some hash \<and>
       bt_image b1 = (bt_image b)\<lparr>im_users := Users [\<lparr>u_id = single_user_id, u_username = sd_username seed,
         u_password_hash = hash, u_created_at = stamp (x_clock E n)\<rparr>]\<rparr>)"
  using assms
  by (auto simp: seed_single_user_def bindE_eq_Inr boot_sql_Inr count_users_def boot_now_def insert_user_def ret_def
      split: if_splits option.splits)

text \<open>The three stages of \<^verbatim>\<open>Migrate\<close>: the rebuild, the tables and indexes, the account and the version.\<close>

lemma rebuild_stage:
  assumes "is_legacy_schema E b = (Inr y, b1)" "(if y then migrate_legacy E else ret ()) b1 = (Inr (), b2)"
  shows "upgraded (bt_image b2) = upgraded (bt_image b)" "\<not> is_legacy (bt_image b2)"
    "users (database_of (bt_image b2)) = users (database_of (bt_image b))" "im_version (bt_image b2) = im_version (bt_image b)"
proof -
  let ?im = "bt_image b"
  have y: "y = is_legacy ?im" "bt_image b1 = ?im"
    using assms(1) by (auto simp: is_legacy_schema_def boot_query_Inr is_legacy_def)
  have "upgraded (bt_image b2) = upgraded ?im \<and> \<not> is_legacy (bt_image b2) \<and>
     users (database_of (bt_image b2)) = users (database_of ?im) \<and> im_version (bt_image b2) = im_version ?im"
  proof (cases "is_legacy ?im")
    case True
    with assms(2) y have r: "rebuild ?im = Inr ((), bt_image b2)" using migrate_legacy_Inr [of E b1 "()" b2] by auto
    with upgraded_rebuilt [OF r True] True show ?thesis
      by (auto simp: rebuild_Inr database_of_def is_legacy_def split: users_table.splits)
  next
    case False
    with assms(2) y show ?thesis by (simp add: ret_def)
  qed
  then show "upgraded (bt_image b2) = upgraded ?im" "\<not> is_legacy (bt_image b2)"
    "users (database_of (bt_image b2)) = users (database_of ?im)" "im_version (bt_image b2) = im_version ?im" by auto
qed

lemma schema_stage:
  assumes "script E single_user_schema b = (Inr (), b1)" "ensure_columns E b1 = (Inr (), b2)"
    and i: "boot_sql E (mount_index im_folder_mounts) b2 = (Inr (), b3)" "boot_sql E (mount_index im_file_mounts) b3 = (Inr (), b4)"
      "boot_sql E (change (im_root_index_update (\<lambda>_. False))) b4 = (Inr (), b5)" "boot_sql E create_root_index b5 = (Inr (), b6)"
    and "\<not> is_legacy (bt_image b)"
  shows "bt_image b6 = upgraded (bt_image b)" "first_violated root_constraint (rows_of (im_folders (upgraded (bt_image b)))) = None"
proof -
  let ?up = "upgraded (bt_image b)"
  have b2: "(bt_image b2)\<lparr>im_root_index := True\<rparr> = ?up"
    using ensure_columns_Inr [OF assms(2)] settle_upgrades [OF schema_Inr [OF assms(1)] assms(7) refl refl] by (simp add: Let_def)
  have b5: "bt_image b5 = (bt_image b2)\<lparr>im_root_index := False\<rparr>"
    using i by (auto simp: boot_sql_Inr mount_index_def change_def split: if_splits)
  obtain rows where rows: "im_folders ?up = Some rows" by (simp add: upgraded_def)
  have "im_folders (bt_image b5) = im_folders ?up" unfolding b2 [symmetric] b5 by simp
  with i(4) rows have b6: "bt_image b6 = (bt_image b5)\<lparr>im_root_index := True\<rparr>" "first_violated root_constraint rows = None"
    using b5 by (auto simp: boot_sql_Inr create_root_index_def split: if_splits option.splits)
  from b6(1) b5 have "bt_image b6 = (bt_image b2)\<lparr>im_root_index := True\<rparr>" by simp
  then show "bt_image b6 = ?up" using b2 by simp
  show "first_violated root_constraint (rows_of (im_folders ?up)) = None" using b6(2) rows by (simp add: rows_of_def)
qed

lemma account_stage:
  assumes u: "bindE (seed_single_user E seed) (\<lambda>_. ignoreE (boot_sql E (change (im_version_update (\<lambda>_. 2))))) b = (Inr x, b1)"
    and b: "bt_image b = upgraded im"
  obtains us v where "bt_image b1 = (upgraded im)\<lparr>im_users := Users us, im_version := v\<rparr>"
    "v = 2 \<or> v = im_version im \<and> (\<exists>n. x_sql_fault E n \<noteq> None)"
    "trim_space (sd_username seed) \<noteq> []" "sd_password seed \<noteq> []"
    "if users (database_of im) \<noteq> [] then us = users (database_of im)
     else \<exists>hash n. x_bcrypt_hash E (sd_password seed) bcrypt_cost = Some hash \<and>
       us = [\<lparr>u_id = single_user_id, u_username = sd_username seed, u_password_hash = hash,
              u_created_at = stamp (x_clock E n)\<rparr>]"
proof -
  let ?us = "users (database_of im)" and ?up = "upgraded im"
  have up: "im_users (bt_image b) = Users ?us" "?up\<lparr>im_users := Users ?us\<rparr> = ?up" "im_version ?up = im_version im"
    "?up\<lparr>im_version := im_version im\<rparr> = ?up"
    unfolding b by (simp_all add: upgraded_def)
  from u obtain b2 where v: "seed_single_user E seed b = (Inr (), b2)"
    "b1 = snd (boot_sql E (change (im_version_update (\<lambda>_. 2))) b2)"
    by (auto simp: bindE_eq_Inr)
  note sd = seed_single_user_Inr [OF v(1) up(1)]
  obtain us where us: "bt_image b2 = ?up\<lparr>im_users := Users us\<rparr>"
    "if ?us \<noteq> [] then us = ?us else \<exists>hash n. x_bcrypt_hash E (sd_password seed) bcrypt_cost = Some hash \<and>
       us = [\<lparr>u_id = single_user_id, u_username = sd_username seed, u_password_hash = hash, u_created_at = stamp (x_clock E n)\<rparr>]"
  proof (cases "?us = []")
    case True
    with sd b that show thesis by auto
  next
    case False
    with sd b up(2) that [of ?us] show thesis by auto
  qed
  have "bt_image b1 = (bt_image b2)\<lparr>im_version := 2\<rparr> \<or> bt_image b1 = bt_image b2 \<and> (\<exists>n. x_sql_fault E n \<noteq> None)"
    unfolding v(2) by (auto simp: boot_sql_def change_def Let_def split: option.split)
  then obtain w where "bt_image b1 = ?up\<lparr>im_users := Users us, im_version := w\<rparr>"
    "w = 2 \<or> w = im_version im \<and> (\<exists>n. x_sql_fault E n \<noteq> None)"
  proof
    assume "bt_image b1 = (bt_image b2)\<lparr>im_version := 2\<rparr>"
    with us(1) that [of 2] show thesis by simp
  next
    assume f: "bt_image b1 = bt_image b2 \<and> (\<exists>n. x_sql_fault E n \<noteq> None)"
    have "?up\<lparr>im_users := Users us\<rparr> = ?up\<lparr>im_users := Users us, im_version := im_version im\<rparr>" by (simp add: upgraded_def)
    with f us(1) that [of "im_version im"] show thesis by simp
  qed
  with us(2) sd show thesis by (intro that) auto
qed

lemma migrate_image:
  assumes "migrate E seed b = (Inr x, b1)"
  obtains us v where "bt_image b1 = (upgraded (bt_image b))\<lparr>im_users := Users us, im_version := v\<rparr>"
    "v = 2 \<or> v = im_version (bt_image b) \<and> (\<exists>n. x_sql_fault E n \<noteq> None)"
    "first_violated root_constraint (folders (database_of (bt_image b1))) = None"
    "trim_space (sd_username seed) \<noteq> []" "sd_password seed \<noteq> []"
    "if users (database_of (bt_image b)) \<noteq> [] then us = users (database_of (bt_image b))
     else \<exists>hash n. x_bcrypt_hash E (sd_password seed) bcrypt_cost = Some hash \<and>
       us = [\<lparr>u_id = single_user_id, u_username = sd_username seed, u_password_hash = hash,
              u_created_at = stamp (x_clock E n)\<rparr>]"
proof -
  from assms obtain b2 b3 b4 b5 b6 b7 b8 b9 y where
    l: "is_legacy_schema E b = (Inr y, b2)" "(if y then migrate_legacy E else ret ()) b2 = (Inr (), b3)"
    and s: "script E single_user_schema b3 = (Inr (), b4)" "ensure_columns E b4 = (Inr (), b5)"
    and i: "boot_sql E (mount_index im_folder_mounts) b5 = (Inr (), b6)" "boot_sql E (mount_index im_file_mounts) b6 = (Inr (), b7)"
      "boot_sql E (change (im_root_index_update (\<lambda>_. False))) b7 = (Inr (), b8)" "boot_sql E create_root_index b8 = (Inr (), b9)"
    and u: "bindE (seed_single_user E seed) (\<lambda>_. ignoreE (boot_sql E (change (im_version_update (\<lambda>_. 2))))) b9 = (Inr x, b1)"
    by (auto simp: migrate_def bindE_eq_Inr)
  note up = rebuild_stage [OF l] and sch = schema_stage [OF s i rebuild_stage(2) [OF l]]
  from sch(1) up(1) have b9: "bt_image b9 = upgraded (bt_image b)" by simp
  show thesis
  proof (rule account_stage [OF u b9])
    fix us v
    assume im: "bt_image b1 = (upgraded (bt_image b))\<lparr>im_users := Users us, im_version := v\<rparr>"
      "v = 2 \<or> v = im_version (bt_image b) \<and> (\<exists>n. x_sql_fault E n \<noteq> None)"
      "trim_space (sd_username seed) \<noteq> []" "sd_password seed \<noteq> []"
      "if users (database_of (bt_image b)) \<noteq> [] then us = users (database_of (bt_image b))
       else \<exists>hash n. x_bcrypt_hash E (sd_password seed) bcrypt_cost = Some hash \<and>
         us = [\<lparr>u_id = single_user_id, u_username = sd_username seed, u_password_hash = hash,
                u_created_at = stamp (x_clock E n)\<rparr>]"
    have "first_violated root_constraint (folders (database_of (bt_image b1))) = None"
      using sch(2) unfolding up(1) im(1) by (simp add: database_of_def)
    with im show thesis by (intro that) auto
  qed
qed

section \<open>What an upgraded file holds\<close>

lemma upgraded_rows:
  "rows_of (im_sessions (upgraded im)) = rows_of (im_sessions im)"
  "rows_of (im_audit (upgraded im)) = rows_of (im_audit im)"
  "rows_of (im_folders (upgraded im)) = (if im_folder_mounts im \<and> \<not> is_legacy im then rows_of (im_folders im)
      else map (\<lambda>d. d\<lparr>d_mount := ''default''\<rparr>) (rows_of (im_folders im)))"
  "rows_of (im_files (upgraded im)) = (if im_file_mounts im \<and> \<not> is_legacy im then rows_of (im_files im)
      else map (\<lambda>f. f\<lparr>f_mount := ''default''\<rparr>) (rows_of (im_files im)))"
  by (simp_all add: upgraded_def rows_of_def)

lemma violated_same_keys:
  assumes "\<And>m clash x y. (m, clash) \<in> set cs \<Longrightarrow> clash (g x) (g y) \<longleftrightarrow> clash x y"
  shows "first_violated cs (map g rows) = first_violated cs rows"
proof -
  have "sorted_wrt (\<lambda>x y. \<not> clash x y) (map g rows) \<longleftrightarrow> sorted_wrt (\<lambda>x y. \<not> clash x y) rows"
    if "(m, clash) \<in> set cs" for m clash
    using assms [OF that] by (simp add: sorted_wrt_map)
  then show ?thesis unfolding first_violated_def by (intro arg_cong [where f = "map_option fst"] find_cong refl) auto
qed

lemma mount_default_ok:
  "first_violated folder_copy_constraints (map (\<lambda>d. d\<lparr>d_mount := m\<rparr>) ds) = first_violated folder_copy_constraints ds"
  "first_violated (t_unique file_table) (map (\<lambda>f. f\<lparr>f_mount := m\<rparr>) fs) = first_violated (t_unique file_table) fs"
  "parents_exist (map (\<lambda>d. d\<lparr>d_mount := m\<rparr>) ds) = parents_exist ds"
  "folders_exist (map (\<lambda>d. d\<lparr>d_mount := m\<rparr>) ds) fs = folders_exist ds fs"
  "folders_exist ds (map (\<lambda>f. f\<lparr>f_mount := m\<rparr>) fs) = folders_exist ds fs"
proof -
  have ids: "d_id ` set (map (\<lambda>d. d\<lparr>d_mount := m\<rparr>) ds) = d_id ` set ds" by (simp add: image_image)
  show "parents_exist (map (\<lambda>d. d\<lparr>d_mount := m\<rparr>) ds) = parents_exist ds"
    "folders_exist (map (\<lambda>d. d\<lparr>d_mount := m\<rparr>) ds) fs = folders_exist ds fs"
    "folders_exist ds (map (\<lambda>f. f\<lparr>f_mount := m\<rparr>) fs) = folders_exist ds fs"
    unfolding parents_exist_def folders_exist_def ids by (simp_all add: list_all_iff)
qed (auto intro!: violated_same_keys simp: folder_copy_constraints_def folder_table_def file_table_def)

lemma split_constraints:
  "first_violated (take n cs) rows = None \<Longrightarrow> first_violated (drop n cs) rows = None \<Longrightarrow> first_violated cs rows = None"
  unfolding first_violated_None by (metis Un_iff append_take_drop_id set_append)

lemma upgraded_ok:
  assumes "image_ok im" "im1 = (upgraded im)\<lparr>im_users := Users us, im_version := v\<rparr>"
    "first_violated root_constraint (folders (database_of im1)) = None"
    "first_violated (t_unique user_table) us = None"
  shows "db_ok (database_of im1)"
proof -
  have f: "folders (database_of im1) = rows_of (im_folders (upgraded im))" "files (database_of im1) = rows_of (im_files (upgraded im))"
    "sessions (database_of im1) = rows_of (im_sessions im)" "audit_events (database_of im1) = rows_of (im_audit im)"
    "users (database_of im1) = us"
    using assms(2) by (simp_all add: database_of_def upgraded_rows)
  have fo: "first_violated folder_copy_constraints (folders (database_of im1)) = None"
    "parents_exist (folders (database_of im1))"
    "first_violated (t_unique file_table) (files (database_of im1)) = None"
    "folders_exist (folders (database_of im1)) (files (database_of im1))"
    using assms(1) by (simp_all add: f upgraded_rows mount_default_ok image_ok_def)
  have "first_violated (t_unique folder_table) (folders (database_of im1)) = None"
    by (rule split_constraints [of 2]) (use fo(1) assms(3) in \<open>simp_all add: folder_copy_constraints_def root_constraint_def\<close>)
  with fo assms(1,4) f show ?thesis
    by (simp add: db_ok_def table_ok_def image_ok_def table_defs)
qed

section \<open>Runs without failures\<close>

lemma boot_sql_calm:
  assumes "\<And>n. x_sql_fault E n = None" "stmt (bt_image b) = Inr (x, im)"
  shows "boot_sql E stmt b = (Inr x, b\<lparr>bt_sql := Suc (bt_sql b), bt_image := im\<rparr>)"
  using assms by (simp add: boot_sql_def Let_def)

lemma script_calm:
  assumes "\<And>n. x_sql_fault E n = None" "\<And>s im. s \<in> set ss \<Longrightarrow> \<exists>im1. s im = Inr ((), im1)"
  shows "\<exists>b1. script E ss b = (Inr (), b1)"
  using assms(2)
proof (induction ss arbitrary: b)
  case (Cons s ss)
  obtain im1 where im1: "s (bt_image b) = Inr ((), im1)" using Cons.prems by fastforce
  note r = boot_sql_calm [of E s b "()" im1, OF assms(1) im1]
  obtain b1 where "script E ss (b\<lparr>bt_sql := Suc (bt_sql b), bt_image := im1\<rparr>) = (Inr (), b1)"
    using Cons.IH Cons.prems by (meson list.set_intros(2))
  with r show ?case by simp
qed simp

lemma schema_calm: "(\<And>n. x_sql_fault E n = None) \<Longrightarrow> \<exists>b1. script E single_user_schema b = (Inr (), b1)"
  by (rule script_calm) (auto simp: single_user_schema_def change_def no_change_def)

lemma ensure_columns_calm: "(\<And>n. x_sql_fault E n = None) \<Longrightarrow> \<exists>b1. ensure_columns E b = (Inr (), b1)"
  by (simp add: ensure_columns_def ensure_column_def bindE_def boot_query_def boot_sql_calm change_def)

lemma seed_calm:
  assumes "\<And>n. x_sql_fault E n = None" "im_users (bt_image b) = Users us"
    "trim_space (sd_username seed) \<noteq> []" "sd_password seed \<noteq> []"
    "us \<noteq> [] \<or> x_bcrypt_hash E (sd_password seed) bcrypt_cost \<noteq> None"
  shows "\<exists>b1. seed_single_user E seed b = (Inr (), b1)"
proof -
  have c: "boot_sql E count_users b = (Inr (length us), b\<lparr>bt_sql := Suc (bt_sql b)\<rparr>)"
    using boot_sql_calm [OF assms(1), of count_users b "length us" "bt_image b"] assms(2) by (simp add: count_users_def)
  show ?thesis
  proof (cases "us = []")
    case True
    with assms(5) obtain h where h: "x_bcrypt_hash E (sd_password seed) bcrypt_cost = Some h" by auto
    have i: "insert_user u im = Inr ((), im\<lparr>im_users := Users [u]\<rparr>)" if "im_users im = Users []" for u im
      using that by (simp add: insert_user_def user_table_def first_violated_def)
    from assms(2) True h c show ?thesis
      using boot_sql_calm [OF assms(1) i]
      by (auto simp: seed_single_user_def assms(3,4) wrapB_def handleE_def bindE_def boot_now_def)
  next
    case False
    with c show ?thesis by (simp add: seed_single_user_def assms(3,4) wrapB_def handleE_def)
  qed
qed

lemma migrate_calm:
  assumes calm: "\<And>n. x_sql_fault E n = None"
    and legacy: "is_legacy (bt_image b) \<Longrightarrow> \<exists>im1. rebuild (bt_image b) = Inr ((), im1)"
    and roots: "first_violated root_constraint (rows_of (im_folders (upgraded (bt_image b)))) = None"
    and seed: "trim_space (sd_username seed) \<noteq> []" "sd_password seed \<noteq> []"
      "users (database_of (bt_image b)) \<noteq> [] \<or> x_bcrypt_hash E (sd_password seed) bcrypt_cost \<noteq> None"
  shows "\<exists>b1. migrate E seed b = (Inr (), b1)"
proof -
  let ?im = "bt_image b"
  obtain b2 where l: "is_legacy_schema E b = (Inr (is_legacy ?im), b2)" "bt_image b2 = ?im"
    by (simp add: is_legacy_schema_def boot_query_def wrapB_def handleE_def boot_sql_calm [OF calm] is_legacy_def)
  have "\<exists>b3. (if is_legacy ?im then migrate_legacy E else ret ()) b2 = (Inr (), b3) \<and>
    upgraded (bt_image b3) = upgraded ?im \<and> \<not> is_legacy (bt_image b3) \<and>
    users (database_of (bt_image b3)) = users (database_of ?im)"
  proof (cases "is_legacy ?im")
    case True
    then obtain im1 where r: "rebuild ?im = Inr ((), im1)" using legacy by blast
    have "users (database_of im1) = users (database_of ?im)"
      using r True by (auto simp: rebuild_Inr database_of_def is_legacy_def split: users_table.splits)
    with upgraded_rebuilt [OF r True] True r l(2) show ?thesis
      by (simp add: migrate_legacy_def bindE_def wrapB_def handleE_def boot_sql_calm [OF calm] no_change_def)
  next
    case False
    with l(2) show ?thesis by simp
  qed
  then obtain b3 where b3: "(if is_legacy ?im then migrate_legacy E else ret ()) b2 = (Inr (), b3)"
    "upgraded (bt_image b3) = upgraded ?im" "\<not> is_legacy (bt_image b3)"
    "users (database_of (bt_image b3)) = users (database_of ?im)" by blast
  obtain b4 b5 where s: "script E single_user_schema b3 = (Inr (), b4)" "ensure_columns E b4 = (Inr (), b5)"
    using schema_calm [OF calm] ensure_columns_calm [OF calm] by metis
  note st = settle_upgrades [OF schema_Inr [OF s(1)] b3(3) refl refl]
  have b5: "(bt_image b5)\<lparr>im_root_index := True\<rparr> = upgraded ?im"
    using ensure_columns_Inr [OF s(2)] st b3(2) by (simp add: Let_def)
  have "im_folder_mounts ((bt_image b5)\<lparr>im_root_index := True\<rparr>)" "im_file_mounts ((bt_image b5)\<lparr>im_root_index := True\<rparr>)"
    "im_users ((bt_image b5)\<lparr>im_root_index := True\<rparr>) = Users (users (database_of ?im))"
    "im_folders ((bt_image b5)\<lparr>im_root_index := True\<rparr>) = Some (rows_of (im_folders (upgraded ?im)))"
    unfolding b5 by (simp_all add: upgraded_def rows_of_def)
  then have f5: "im_folder_mounts (bt_image b5)" "im_file_mounts (bt_image b5)"
    "im_users (bt_image b5) = Users (users (database_of ?im))"
    "im_folders (bt_image b5) = Some (rows_of (im_folders (upgraded ?im)))" by simp_all
  obtain b9 where b9: "bindE (boot_sql E (mount_index im_folder_mounts)) (\<lambda>_. bindE (boot_sql E (mount_index im_file_mounts)) (\<lambda>_.
      bindE (boot_sql E (change (im_root_index_update (\<lambda>_. False)))) (\<lambda>_. boot_sql E create_root_index))) b5 = (Inr (), b9)"
      "im_users (bt_image b9) = Users (users (database_of ?im))"
    using f5 roots by (simp add: bindE_def boot_sql_calm [OF calm] mount_index_def change_def create_root_index_def)
  from seed_calm [OF calm b9(2) seed] obtain b10 where b10: "seed_single_user E seed b9 = (Inr (), b10)" by blast
  obtain b6 b7 b8 where i: "boot_sql E (mount_index im_folder_mounts) b5 = (Inr (), b6)"
      "boot_sql E (mount_index im_file_mounts) b6 = (Inr (), b7)"
      "boot_sql E (change (im_root_index_update (\<lambda>_. False))) b7 = (Inr (), b8)" "boot_sql E create_root_index b8 = (Inr (), b9)"
    using b9(1) by (auto simp: bindE_eq_Inr)
  have w: "wrapB m (script E single_user_schema) b3 = (Inr (), b4)" "wrapB m (ensure_columns E) b4 = (Inr (), b5)"
    "wrapB m (boot_sql E (mount_index im_folder_mounts)) b5 = (Inr (), b6)"
    "wrapB m (boot_sql E (mount_index im_file_mounts)) b6 = (Inr (), b7)"
    "wrapB m (boot_sql E (change (im_root_index_update (\<lambda>_. False)))) b7 = (Inr (), b8)"
    "wrapB m (boot_sql E create_root_index) b8 = (Inr (), b9)" for m
    using s i by simp_all
  show ?thesis unfolding migrate_def using l(1) b3(1) w b10 by simp
qed

lemma database_of_upgraded:
  assumes "im1 = (upgraded im)\<lparr>im_users := Users us, im_version := v\<rparr>"
  shows "users (database_of im1) = us" "sessions (database_of im1) = sessions (database_of im)"
    "audit_events (database_of im1) = audit_events (database_of im)"
    "folders (database_of im1) = (if im_folder_mounts im \<and> \<not> is_legacy im then folders (database_of im)
       else map (\<lambda>d. d\<lparr>d_mount := ''default''\<rparr>) (folders (database_of im)))"
    "files (database_of im1) = (if im_file_mounts im \<and> \<not> is_legacy im then files (database_of im)
       else map (\<lambda>f. f\<lparr>f_mount := ''default''\<rparr>) (files (database_of im)))"
  using assms by (simp_all add: database_of_def upgraded_rows)

lemma seeded_ok: "first_violated (t_unique user_table) [u] = None"
  by (simp add: user_table_def first_violated_def)

definition root_names :: "image \<Rightarrow> (string \<times> string) list" where
  "root_names im = map (\<lambda>d. (d_name d, if im_folder_mounts im \<and> \<not> is_legacy im then d_mount d else ''default''))
     (filter (\<lambda>d. d_parent_id d = None) (rows_of (im_folders im)))"

lemma root_constraint_distinct:
  "first_violated root_constraint (rows_of (im_folders (upgraded im))) = None \<longleftrightarrow> distinct (root_names im)"
proof -
  have d: "sorted_wrt (\<lambda>x y. \<not> (d_parent_id x = None \<and> d_parent_id y = None \<and> d_name x = d_name y \<and> d_mount x = d_mount y)) ds
    \<longleftrightarrow> distinct (map (\<lambda>d. (d_name d, d_mount d)) (filter (\<lambda>d. d_parent_id d = None) ds))" for ds
    by (induction ds) (auto simp: image_iff)
  have p: "filter (\<lambda>d. d_parent_id d = None) (map (\<lambda>d. d\<lparr>d_mount := m\<rparr>) ds) =
      map (\<lambda>d. d\<lparr>d_mount := m\<rparr>) (filter (\<lambda>d. d_parent_id d = None) ds)" for ds m
    by (induction ds) auto
  have r: "first_violated root_constraint ds = None \<longleftrightarrow>
      distinct (map (\<lambda>d. (d_name d, d_mount d)) (filter (\<lambda>d. d_parent_id d = None) ds))" for ds
    unfolding d [symmetric] by (simp add: first_violated_None root_constraint_def folder_table_def)
  show ?thesis
    unfolding r upgraded_rows root_names_def
    by (cases "im_folder_mounts im \<and> \<not> is_legacy im") (simp_all only: p if_True if_False simp_thms list.map_comp comp_def folder_row.simps folder_row.update_convs, auto)
qed

end
