(* ===== verification/Database_Props.thy ===== *)
theory Database_Props
  imports Database
begin

text \<open>
  The properties of opening a database, and a multi-user file to evaluate them on.
\<close>

definition legacy_image :: "string \<Rightarrow> image" where
  "legacy_image second = \<lparr>im_users = Legacy_users [''ann@example.org'', ''bob@example.org''], im_sessions = Some [],
     im_folders = Some [\<lparr>d_id = ''1'', d_parent_id = None, d_name = ''Documents'', d_mount = [], d_created_at = [], d_updated_at = []\<rparr>,
                        \<lparr>d_id = ''2'', d_parent_id = None, d_name = second, d_mount = [], d_created_at = [], d_updated_at = []\<rparr>],
     im_folder_mounts = False, im_files = Some [], im_file_mounts = False, im_audit = Some [], im_root_index = False, im_version = 0\<rparr>"

definition booting :: "image \<Rightarrow> boot" where
  "booting im = \<lparr>bt_image = im, bt_sql = 0, bt_os = 0, bt_clock = 0\<rparr>"

definition drive_seed :: seed_credentials where
  "drive_seed = \<lparr>sd_username = ''admin'', sd_password = ''secret''\<rparr>"

lemma legacy_image_ok: "image_ok (bt_image (booting (legacy_image second)))"
  by (simp add: legacy_image_def booting_def image_ok_def database_of_def rows_of_def first_violated_def folder_copy_constraints_def
      table_defs parents_exist_def folders_exist_def)

lemma legacy_image_roots: "distinct (root_names (bt_image (booting (legacy_image second)))) \<longleftrightarrow> second \<noteq> ''Documents''"
  by (auto simp: legacy_image_def booting_def root_names_def rows_of_def is_legacy_def)

lemma drive_seed_ok: "trim_space (sd_username drive_seed) \<noteq> []" "sd_password drive_seed \<noteq> []"
  "x_bcrypt_hash calm_env (sd_password drive_seed) bcrypt_cost \<noteq> None"
  by (code_simp, simp_all add: drive_seed_def calm_env_def)

lemma legacy_tables:
  "im_sessions (bt_image (booting (legacy_image s))) \<noteq> None \<and> im_folders (bt_image (booting (legacy_image s))) \<noteq> None \<and>
   im_files (bt_image (booting (legacy_image s))) \<noteq> None \<and> im_audit (bt_image (booting (legacy_image s))) \<noteq> None"
  by (simp add: legacy_image_def booting_def)

lemma calm_sql: "x_sql_fault calm_env n = None"
  by (simp add: calm_env_def)

lemma legacy_boots: "\<exists>b1. migrate calm_env drive_seed (booting (legacy_image ''Pictures'')) = (Inr (), b1)"
proof -
  have "\<exists>im1. rebuild (bt_image (booting (legacy_image ''Pictures''))) = Inr ((), im1)"
    by (simp add: rebuild_def copied_def legacy_image_def booting_def first_violated_def folder_copy_constraints_def table_defs)
  then show ?thesis
    using migrate_calm [OF calm_sql, of "booting (legacy_image ''Pictures'')" drive_seed] drive_seed_ok
    by (simp add: root_constraint_distinct legacy_image_roots)
qed



text \<open>
  C32: when a start succeeds. If no statement fails, a start on a sound file succeeds
  exactly when no two root folders share name and disk. A file that breaks this, such as a multi-user
  file in which two users each had a folder \<open>Documents\<close>, cannot be opened at all.
\<close>

theorem migrate_succeeds_iff:
  assumes "image_ok (bt_image b)" "\<And>n. x_sql_fault E n = None"
    and "is_legacy (bt_image b) \<Longrightarrow> im_sessions (bt_image b) \<noteq> None \<and> im_folders (bt_image b) \<noteq> None \<and>
       im_files (bt_image b) \<noteq> None \<and> im_audit (bt_image b) \<noteq> None"
    and "trim_space (sd_username seed) \<noteq> []" "sd_password seed \<noteq> []"
      "x_bcrypt_hash E (sd_password seed) bcrypt_cost \<noteq> None"
  shows "(\<exists>b1. migrate E seed b = (Inr (), b1)) \<longleftrightarrow> distinct (root_names (bt_image b))"
proof
  assume "\<exists>b1. migrate E seed b = (Inr (), b1)"
  then obtain b1 where "migrate E seed b = (Inr (), b1)" by blast
  then show "distinct (root_names (bt_image b))"
    by (rule migrate_image) (simp add: root_constraint_distinct [symmetric] database_of_def)
next
  assume d: "distinct (root_names (bt_image b))"
  have "\<exists>im1. rebuild (bt_image b) = Inr ((), im1)" if "is_legacy (bt_image b)"
    using assms(1) assms(3) [OF that] by (auto simp: rebuild_Inr image_ok_def rows_of_def)
  with d show "\<exists>b1. migrate E seed b = (Inr (), b1)"
    using migrate_calm [of E b seed] assms(2,4,5,6) by (simp add: root_constraint_distinct)
qed

theorem migrate_succeeds_iff_witness:
  "(\<exists>b1. migrate calm_env drive_seed (booting (legacy_image ''Pictures'')) = (Inr (), b1)) \<and>
   \<not> (\<exists>b1. migrate calm_env drive_seed (booting (legacy_image ''Documents'')) = (Inr (), b1))"
  using migrate_succeeds_iff [OF legacy_image_ok calm_sql legacy_tables drive_seed_ok, of "''Pictures''"]
    migrate_succeeds_iff [OF legacy_image_ok calm_sql legacy_tables drive_seed_ok, of "''Documents''"]
  by (simp add: legacy_image_roots)

text \<open>
  Restarting is idempotent. On a file that one start has upgraded, a further start, with
  any other configured account, succeeds when no statement fails and leaves
  the file as it is; only the version number may still be written.
\<close>

theorem migrate_idempotent:
  assumes "migrate E seed b = (Inr (), b1)" "bt_image b2 = bt_image b1"
    "\<And>n. x_sql_fault E2 n = None" "trim_space (sd_username seed2) \<noteq> []" "sd_password seed2 \<noteq> []"
  shows "\<exists>b3. migrate E2 seed2 b2 = (Inr (), b3) \<and> bt_image b3 = (bt_image b1)\<lparr>im_version := 2\<rparr>"
proof -
  obtain us v where m: "bt_image b1 = (upgraded (bt_image b))\<lparr>im_users := Users us, im_version := v\<rparr>"
    "first_violated root_constraint (folders (database_of (bt_image b1))) = None" "us \<noteq> []"
    by (rule migrate_image [OF assms(1)]) (auto split: if_splits)
  have up: "upgraded (bt_image b2) = bt_image b1"
    unfolding assms(2) m(1) by (simp add: upgraded_def rows_of_def database_of_def is_legacy_def)
  have "users (database_of (bt_image b2)) = us" "\<not> is_legacy (bt_image b2)"
    unfolding assms(2) m(1) by (simp_all add: database_of_def is_legacy_def)
  with m(3) have us: "users (database_of (bt_image b2)) \<noteq> []" "\<not> is_legacy (bt_image b2)" by auto
  have "first_violated root_constraint (rows_of (im_folders (upgraded (bt_image b2)))) = None"
    using m(2) unfolding up by (simp add: database_of_def)
  then obtain b3 where b3: "migrate E2 seed2 b2 = (Inr (), b3)"
    using migrate_calm [where E = E2 and b = b2 and seed = seed2] assms(3,4,5) us by blast
  have "bt_image b3 = (bt_image b1)\<lparr>im_version := 2\<rparr>"
  proof (rule migrate_image [OF b3])
    fix us2 v2
    assume a: "bt_image b3 = (upgraded (bt_image b2))\<lparr>im_users := Users us2, im_version := v2\<rparr>"
      "v2 = 2 \<or> v2 = im_version (bt_image b2) \<and> (\<exists>n. x_sql_fault E2 n \<noteq> None)"
      "if users (database_of (bt_image b2)) \<noteq> [] then us2 = users (database_of (bt_image b2))
       else \<exists>hash n. x_bcrypt_hash E2 (sd_password seed2) bcrypt_cost = Some hash \<and>
         us2 = [\<lparr>u_id = single_user_id, u_username = sd_username seed2, u_password_hash = hash,
              u_created_at = stamp (x_clock E2 n)\<rparr>]"
    have "us2 = us" using a(3) us(1) m(1) unfolding assms(2) by (simp add: database_of_def)
    with a(1,2) assms(3) up m(1) show ?thesis by simp
  qed
  with b3 show ?thesis by blast
qed

theorem migrate_idempotent_witness:
  "\<exists>b1 b3. migrate calm_env drive_seed (booting (legacy_image ''Pictures'')) = (Inr (), b1) \<and>
     migrate calm_env \<lparr>sd_username = ''eve'', sd_password = ''x''\<rparr> (booting (bt_image b1)) = (Inr (), b3) \<and>
     im_users (bt_image b3) = im_users (bt_image b1)"
proof -
  obtain b1 where b1: "migrate calm_env drive_seed (booting (legacy_image ''Pictures'')) = (Inr (), b1)"
    using legacy_boots by blast
  have s: "trim_space (sd_username \<lparr>sd_username = ''eve'', sd_password = ''x''\<rparr>) \<noteq> []" by code_simp
  from migrate_idempotent [OF b1 _ calm_sql s, of "booting (bt_image b1)"] b1 show ?thesis
    by (auto simp: booting_def)
qed

text \<open>
  A legacy file loses its accounts. After a successful start on the multi-user schema
  the users table holds exactly one account, the configured one, whatever accounts there were.
\<close>

theorem legacy_accounts_dropped:
  assumes "im_users (bt_image b) = Legacy_users emails" "migrate E seed b = (Inr (), b1)"
  shows "\<exists>hash n. im_users (bt_image b1) = Users [\<lparr>u_id = single_user_id, u_username = sd_username seed,
     u_password_hash = hash, u_created_at = stamp (x_clock E n)\<rparr>]"
proof -
  have "users (database_of (bt_image b)) = []" using assms(1) by (simp add: database_of_def)
  then show ?thesis by (rule_tac migrate_image [OF assms(2)]) auto
qed

theorem legacy_accounts_dropped_witness:
  "\<exists>b1 u. migrate calm_env drive_seed (booting (legacy_image ''Pictures'')) = (Inr (), b1) \<and>
     im_users (bt_image b1) = Users [u] \<and> u_username u = ''admin''"
proof -
  obtain b1 where b1: "migrate calm_env drive_seed (booting (legacy_image ''Pictures'')) = (Inr (), b1)"
    using legacy_boots by blast
  have "im_users (bt_image (booting (legacy_image ''Pictures''))) = Legacy_users [''ann@example.org'', ''bob@example.org'']"
    by (simp add: legacy_image_def booting_def)
  from legacy_accounts_dropped [OF this b1] b1 show ?thesis by (auto simp: drive_seed_def)
qed

end
