(* ===== verification/Rate_Limiter.thy ===== *)
theory Rate_Limiter
  imports World
begin

text \<open>
  src/internal/middleware/auth.go, \<^verbatim>\<open>RateLimiter\<close>: fixed windows per client in one table that
  every call sweeps. The mutex makes calls atomic, so a run is the sequence of calls in the
  order in which they took the lock, with the clock readings in that order.
  \<open>window_run\<close> is the contract for one client; the lemmas relate the table to it and count
  what it admits.
\<close>

section \<open>The limiter\<close>

record rate_entry =
  re_started :: time
  re_count :: int

record rate_limiter =
  rl_limit :: int
  rl_window :: duration
  rl_entries :: "string \<rightharpoonup> rate_entry"

definition new_rate_limiter :: "int \<Rightarrow> duration \<Rightarrow> rate_limiter" where
  "new_rate_limiter limit window = \<lparr>rl_limit = limit, rl_window = window, rl_entries = Map.empty\<rparr>"

text \<open>\<^verbatim>\<open>time.Time.Sub\<close> saturates at the bounds of a 64-bit duration.\<close>

definition time_sub :: "time \<Rightarrow> time \<Rightarrow> duration" where
  "time_sub t u = max min_int64 (min max_int64 (t - u))"

definition sweep :: "duration \<Rightarrow> time \<Rightarrow> (string \<rightharpoonup> rate_entry) \<Rightarrow> (string \<rightharpoonup> rate_entry)" where
  "sweep window now es = (\<lambda>k. case es k of
     None \<Rightarrow> None | Some e \<Rightarrow> if time_sub now (re_started e) \<ge> window then None else Some e)"

text \<open>A key without entry reads as Go's zero value; the zero instant is 0.\<close>

definition entry_of :: "(string \<rightharpoonup> rate_entry) \<Rightarrow> string \<Rightarrow> rate_entry" where
  "entry_of es k = (case es k of None \<Rightarrow> \<lparr>re_started = 0, re_count = 0\<rparr> | Some e \<Rightarrow> e)"

definition allow :: "rate_limiter \<Rightarrow> string \<Rightarrow> time \<Rightarrow> bool \<times> rate_limiter" where
  "allow l key now =
     (let es = sweep (rl_window l) now (rl_entries l);
          entry = entry_of es key
      in if re_started entry = 0 \<or> time_sub now (re_started entry) \<ge> rl_window l
         then (True, l\<lparr>rl_entries := es(key \<mapsto> \<lparr>re_started = now, re_count = 1\<rparr>)\<rparr>)
         else if re_count entry \<ge> rl_limit l then (False, l\<lparr>rl_entries := es\<rparr>)
         else (True, l\<lparr>rl_entries := es(key \<mapsto> entry\<lparr>re_count := re_count entry + 1\<rparr>)\<rparr>))"

text \<open>The answers to a sequence of requests, each with its client and its time.\<close>

fun answers :: "rate_limiter \<Rightarrow> (string \<times> time) list \<Rightarrow> bool list" where
  "answers l [] = []"
| "answers l ((k, t) # rs) = (case allow l k t of (a, l1) \<Rightarrow> a # answers l1 rs)"

section \<open>One client alone\<close>

text \<open>The contract: a window opens with an admitted request and admits at most the limit.\<close>

fun window_step :: "int \<Rightarrow> duration \<Rightarrow> (time \<times> int) option \<Rightarrow> time \<Rightarrow> bool \<times> (time \<times> int) option" where
  "window_step limit W None t = (True, Some (t, 1))"
| "window_step limit W (Some (s, c)) t =
     (if t \<ge> s + W then (True, Some (t, 1)) else if c \<ge> limit then (False, Some (s, c)) else (True, Some (s, c + 1)))"

fun window_run :: "int \<Rightarrow> duration \<Rightarrow> (time \<times> int) option \<Rightarrow> time list \<Rightarrow> bool list" where
  "window_run limit W st [] = []"
| "window_run limit W st (t # ts) = (case window_step limit W st t of (a, st1) \<Rightarrow> a # window_run limit W st1 ts)"

definition limiter_ok :: "rate_limiter \<Rightarrow> time \<Rightarrow> bool" where
  "limiter_ok l now \<longleftrightarrow> 0 < rl_window l \<and> rl_window l \<le> max_int64 \<and>
     (\<forall>k e. rl_entries l k = Some e \<longrightarrow> 0 < re_started e \<and> re_started e \<le> now)"

lemma time_sub_ge: "s \<le> t \<Longrightarrow> W \<le> max_int64 \<Longrightarrow> time_sub t s \<ge> W \<longleftrightarrow> t \<ge> s + W"
  by (auto simp: time_sub_def max_int64_def min_int64_def)

text \<open>What one client's entry is worth at a time: nothing once its window is over.\<close>

definition live :: "rate_limiter \<Rightarrow> string \<Rightarrow> time \<Rightarrow> (time \<times> int) option" where
  "live l k t = (case rl_entries l k of None \<Rightarrow> None
     | Some e \<Rightarrow> if t \<ge> re_started e + rl_window l then None else Some (re_started e, re_count e))"

lemma allow_ok:
  assumes "limiter_ok l now" "now \<le> t" "0 < t" "allow l k t = (a, l1)"
  shows "limiter_ok l1 t" "rl_window l1 = rl_window l" "rl_limit l1 = rl_limit l"
  using assms
  by (auto simp: allow_def limiter_ok_def sweep_def entry_of_def Let_def split: if_splits option.splits) force+

lemma sweep_live:
  assumes "limiter_ok l now" "now \<le> t"
  shows "sweep (rl_window l) t (rl_entries l) k =
    map_option (\<lambda>(s, c). \<lparr>re_started = s, re_count = c\<rparr>) (live l k t)"
proof (cases "rl_entries l k")
  case (Some e)
  with assms have "re_started e \<le> t" "rl_window l \<le> max_int64" by (auto simp: limiter_ok_def intro: order_trans)
  with Some show ?thesis by (simp add: sweep_def live_def time_sub_ge)
qed (simp add: sweep_def live_def)

lemma allow_self:
  assumes "limiter_ok l now" "now \<le> t" "0 < t" "allow l k t = (a, l1)"
  shows "window_step (rl_limit l) (rl_window l) (live l k t) t = (a, live l1 k t)"
proof -
  have W: "0 < rl_window l" "rl_window l \<le> max_int64" using assms(1) by (simp_all add: limiter_ok_def)
  show ?thesis
  proof (cases "live l k t")
    case None
    with assms(4) sweep_live [OF assms(1,2), of k] W show ?thesis
      by (auto simp: allow_def entry_of_def Let_def live_def)
  next
    case (Some sc)
    then obtain s c where sc: "live l k t = Some (s, c)" by (cases sc) auto
    then have "s + rl_window l > t" "0 < s" "s \<le> t"
      using assms(1,2) by (force simp: live_def limiter_ok_def split: option.splits if_splits)+
    with assms(4) sweep_live [OF assms(1,2), of k] sc W show ?thesis
      by (auto simp: allow_def entry_of_def Let_def time_sub_ge live_def [of l1] split: if_splits)
  qed
qed

lemma allow_other:
  assumes "limiter_ok l now" "now \<le> t" "allow l k' t = (a, l1)" "k' \<noteq> k" "t \<le> u"
  shows "live l1 k u = live l k u"
proof -
  have "rl_entries l1 k = sweep (rl_window l) t (rl_entries l) k" "rl_window l1 = rl_window l"
    using assms(3,4) by (auto simp: allow_def Let_def split: if_splits)
  with sweep_live [OF assms(1,2), of k] assms(5) show ?thesis
    by (auto simp: live_def split: option.split)
qed

lemma live_later: "live l k t = Some (s, c) \<Longrightarrow> t \<le> u \<Longrightarrow> live l k u = (if u \<ge> s + rl_window l then None else Some (s, c))"
  by (auto simp: live_def split: option.splits if_splits)

lemma live_window_step:
  "live l k t = st \<Longrightarrow> t \<le> u \<Longrightarrow> window_step n (rl_window l) (live l k u) u = window_step n (rl_window l) st u"
  by (cases st) (auto simp: live_later, auto simp: live_def split: option.splits if_splits)

definition tracks :: "rate_limiter \<Rightarrow> string \<Rightarrow> time \<Rightarrow> (time \<times> int) option \<Rightarrow> bool" where
  "tracks l k now st \<longleftrightarrow> (\<forall>u \<ge> now. window_step (rl_limit l) (rl_window l) st u =
     window_step (rl_limit l) (rl_window l) (live l k u) u)"

lemma tracks_self:
  assumes "tracks l k now st" "limiter_ok l now" "now \<le> t" "0 < t" "allow l k t = (a, l1)"
  shows "\<exists>st1. window_step (rl_limit l) (rl_window l) st t = (a, st1) \<and> tracks l1 k t st1"
proof -
  have "window_step (rl_limit l) (rl_window l) st t = (a, live l1 k t)"
    using assms(1,3) allow_self [OF assms(2-5)] by (simp add: tracks_def)
  moreover have "tracks l1 k t (live l1 k t)" unfolding tracks_def using live_window_step [OF refl] by metis
  ultimately show ?thesis by blast
qed

lemma tracks_other:
  assumes "tracks l k now st" "limiter_ok l now" "now \<le> t" "0 < t" "allow l k' t = (a, l1)" "k' \<noteq> k"
  shows "tracks l1 k t st"
  using assms(1,3) allow_other [OF assms(2,3,5,6)] allow_ok(2,3) [OF assms(2-5)] by (simp add: tracks_def)

lemma answers_of_client:
  assumes "tracks l k now st" "limiter_ok l now" "sorted (now # map snd rs)" "\<forall>x \<in> set rs. 0 < snd x"
  shows "map fst (filter (\<lambda>(a, k', t). k' = k) (zip (answers l rs) rs)) =
    window_run (rl_limit l) (rl_window l) st (map snd (filter (\<lambda>(k', t). k' = k) rs))"
  using assms
proof (induction rs arbitrary: l now st)
  case (Cons r rs)
  obtain k' t where r: "r = (k', t)" by (cases r)
  obtain a l1 where a: "allow l k' t = (a, l1)" by fastforce
  have t: "now \<le> t" "0 < t" "sorted (t # map snd rs)" "\<forall>x \<in> set rs. 0 < snd x" using Cons.prems(3,4) r by auto
  note ok = allow_ok [OF Cons.prems(2) t(1,2) a]
  show ?case
  proof (cases "k' = k")
    case True
    then obtain st1 where "window_step (rl_limit l) (rl_window l) st t = (a, st1)" "tracks l1 k t st1"
      using tracks_self [OF Cons.prems(1,2) t(1,2), of a l1] a by auto
    with Cons.IH [OF this(2) ok(1) t(3,4)] ok(2,3) r a True show ?thesis by simp
  next
    case False
    from Cons.IH [OF tracks_other [OF Cons.prems(1,2) t(1,2) a False] ok(1) t(3,4)] ok(2,3) r a False
    show ?thesis by simp
  qed
qed simp

lemma new_limiter_ok: "0 < W \<Longrightarrow> W \<le> max_int64 \<Longrightarrow> limiter_ok (new_rate_limiter n W) t"
  by (simp add: limiter_ok_def new_rate_limiter_def)

lemma new_limiter_tracks: "tracks (new_rate_limiter n W) k t None"
  by (simp add: tracks_def live_def new_rate_limiter_def)

lemma new_limiter_sel [simp]: "rl_limit (new_rate_limiter n W) = n" "rl_window (new_rate_limiter n W) = W"
  by (simp_all add: new_rate_limiter_def)

lemma client_answers:
  assumes "0 < W" "W \<le> max_int64" "sorted (map snd rs)" "\<forall>x \<in> set rs. 0 < snd x"
  shows "map fst (filter (\<lambda>(a, k', t). k' = k) (zip (answers (new_rate_limiter n W) rs) rs)) =
    window_run n W None (map snd (filter (\<lambda>(k', t). k' = k) rs))"
proof -
  have "sorted (0 # map snd rs)" using assms(3,4) by (auto simp: less_imp_le)
  from answers_of_client [OF new_limiter_tracks new_limiter_ok [OF assms(1,2)] this assms(4)]
  show ?thesis by simp
qed

section \<open>How many requests get through\<close>

text \<open>
  The most a client can still be granted within \<open>[x, x + W)\<close>, seen at a time \<open>now\<close>: at
  most two windows meet that interval.
\<close>

definition budget :: "int \<Rightarrow> duration \<Rightarrow> time \<Rightarrow> time \<Rightarrow> (time \<times> int) option \<Rightarrow> int" where
  "budget n W x now st =
     (let fresh = (if now \<ge> x + W then 0 else if now \<ge> x then n else 2 * n - 1) in
      case st of None \<Rightarrow> fresh
      | Some (s, c) \<Rightarrow> if now \<ge> s + W then fresh else if now \<ge> x + W then 0
          else if s \<ge> x then n - c else if s > x - W then 2 * n - c else 2 * n - 1)"

definition granted :: "time \<Rightarrow> duration \<Rightarrow> bool list \<Rightarrow> time list \<Rightarrow> int" where
  "granted x W as ts = int (length (filter (\<lambda>(a, t). a \<and> x \<le> t \<and> t < x + W) (zip as ts)))"

fun state_ok :: "int \<Rightarrow> time \<Rightarrow> (time \<times> int) option \<Rightarrow> bool" where
  "state_ok n now None \<longleftrightarrow> True"
| "state_ok n now (Some (s, c)) \<longleftrightarrow> s \<le> now \<and> 1 \<le> c \<and> c \<le> n"

lemma budget_step:
  assumes "state_ok n now st" "now \<le> t" "1 \<le> n" "0 < W" "window_step n W st t = (a, st1)"
  shows "state_ok n t st1" "budget n W x t st1 + (if a \<and> x \<le> t \<and> t < x + W then 1 else 0) \<le> budget n W x now st"
    "0 \<le> budget n W x now st"
  using assms by (cases st; auto simp: budget_def Let_def split: if_splits)+

lemma granted_bound:
  assumes "state_ok n now st" "sorted (now # ts)" "1 \<le> n" "0 < W"
  shows "granted x W (window_run n W st ts) ts \<le> budget n W x now st"
  using assms(1,2)
proof (induction ts arbitrary: st now)
  case Nil
  then show ?case using budget_step(3) [OF Nil(1) order_refl assms(3,4)] by (simp add: granted_def) (metis surj_pair)
next
  case (Cons t ts)
  obtain a st1 where s: "window_step n W st t = (a, st1)" by fastforce
  have t: "now \<le> t" "sorted (t # ts)" using Cons.prems(2) by auto
  note b = budget_step [OF Cons.prems(1) t(1) assms(3,4) s]
  from Cons.IH [OF b(1) t(2)] b(2) [of x] s show ?case by (auto simp: granted_def split: if_splits)
qed

lemma length_answers [simp]: "length (answers l rs) = length rs"
  by (induction l rs rule: answers.induct) (auto split: prod.split)

lemma zip_of_client:
  "length xs = length rs \<Longrightarrow>
    map (\<lambda>(a, k', t). (a, t)) (filter (\<lambda>(a, k', t). k' = k) (zip xs rs)) =
    zip (map fst (filter (\<lambda>(a, k', t). k' = k) (zip xs rs))) (map snd (filter (\<lambda>(k', t). k' = k) rs))"
  by (induction xs rs rule: list_induct2) auto

lemma granted_of_client:
  assumes "length as = length rs"
  shows "int (length (filter (\<lambda>(a, k', t). a \<and> k' = k \<and> x \<le> t \<and> t < x + W) (zip as rs))) =
    granted x W (map fst (filter (\<lambda>(a, k', t). k' = k) (zip as rs))) (map snd (filter (\<lambda>(k', t). k' = k) rs))"
proof -
  have "length (filter (\<lambda>(a, k', t). a \<and> k' = k \<and> x \<le> t \<and> t < x + W) zs) =
      length (filter (\<lambda>(a, t). a \<and> x \<le> t \<and> t < x + W) (map (\<lambda>(a, k', t). (a, t)) (filter (\<lambda>(a, k', t). k' = k) zs)))" for zs
    by (induction zs) auto
  then show ?thesis unfolding granted_def zip_of_client [OF assms, symmetric] by simp
qed

lemma sorted_client: "sorted (map snd rs) \<Longrightarrow> sorted (map snd (filter p rs))"
  by (rule sorted_filter)

section \<open>A refused client comes back\<close>

fun limiter_after :: "rate_limiter \<Rightarrow> (string \<times> time) list \<Rightarrow> rate_limiter" where
  "limiter_after l [] = l"
| "limiter_after l ((k, t) # rs) = limiter_after (snd (allow l k t)) rs"

lemma answers_append: "answers l (xs @ ys) = answers l xs @ answers (limiter_after l xs) ys"
  by (induction l xs rule: limiter_after.induct) (auto split: prod.split)

lemma limiter_after_ok:
  assumes "limiter_ok l now" "sorted (now # map snd rs)" "\<forall>x \<in> set rs. 0 < snd x"
  shows "limiter_ok (limiter_after l rs) (last (now # map snd rs)) \<and> rl_window (limiter_after l rs) = rl_window l"
  using assms
proof (induction rs arbitrary: l now)
  case (Cons r rs)
  obtain k t where r: "r = (k, t)" by (cases r)
  obtain a l1 where a: "allow l k t = (a, l1)" by fastforce
  have t: "now \<le> t" "0 < t" "sorted (t # map snd rs)" "\<forall>x \<in> set rs. 0 < snd x" using Cons.prems(2,3) r by auto
  note ok = allow_ok [OF Cons.prems(1) t(1,2) a]
  from Cons.IH [OF ok(1) t(3,4)] ok(2) r a show ?case by auto
qed simp

lemma unserved_live:
  assumes "limiter_ok l now" "sorted (now # map snd rs)" "\<forall>x \<in> set rs. 0 < snd x"
    and "\<forall>i < length rs. fst (rs ! i) = k \<longrightarrow> \<not> answers l rs ! i" "last (now # map snd rs) \<le> u"
  shows "live (limiter_after l rs) k u = live l k u"
  using assms
proof (induction rs arbitrary: l now)
  case (Cons r rs)
  obtain k' t where r: "r = (k', t)" by (cases r)
  obtain a l1 where a: "allow l k' t = (a, l1)" by fastforce
  have t: "now \<le> t" "0 < t" "sorted (t # map snd rs)" "\<forall>x \<in> set rs. 0 < snd x" using Cons.prems(2,3) r by auto
  note ok = allow_ok [OF Cons.prems(1) t(1,2) a]
  have last: "last (t # map snd rs) \<le> u" using Cons.prems(5) r by (auto split: if_splits)
  have "t \<le> last (t # map snd rs)" using t(3) last_in_set [of "t # map snd rs"] by (auto simp del: last.simps)
  with last have tu: "t \<le> u" by (rule order_trans [rotated])
  have rest: "\<forall>i < length rs. fst (rs ! i) = k \<longrightarrow> \<not> answers l1 rs ! i"
  proof (intro allI impI)
    fix i assume "i < length rs" "fst (rs ! i) = k"
    with Cons.prems(4) [rule_format, of "Suc i"] r a show "\<not> answers l1 rs ! i" by simp
  qed
  have "live l1 k u = live l k u"
  proof (cases "k' = k")
    case False
    from allow_other [OF Cons.prems(1) t(1) a False tu] show ?thesis .
  next
    case True
    with Cons.prems(4) [rule_format, of 0] r a have "\<not> a" by simp
    then have st: "window_step (rl_limit l) (rl_window l) (live l k t) t = (False, live l1 k t)"
      using allow_self [OF Cons.prems(1) t(1,2), of k a l1] a True by simp
    then obtain s c where "live l k t = Some (s, c)" by (cases "live l k t") auto
    with st live_later [of l k t s c u] live_later [of l1 k t s c u] tu ok(2) show ?thesis
      by (auto split: if_splits)
  qed
  with Cons.IH [OF ok(1) t(3,4) rest last] r a show ?case by simp
qed simp

end
