(* ===== verification/Rate_Limiter_Props.thy ===== *)
theory Rate_Limiter_Props
  imports Rate_Limiter
begin

text \<open>
  The properties of the rate limiter, each with its witness.
\<close>

text \<open>
  C33: clients do not disturb one another. Whatever the other clients send, the limiter
  answers each client as a limiter for that client alone would, although it sweeps and shares
  one table: the table refines one fixed window per client.
\<close>

theorem limiter_refines_windows:
  assumes "0 < W" "W \<le> max_int64" "sorted (map snd rs)" "\<forall>x \<in> set rs. 0 < snd x"
  shows "map fst (filter (\<lambda>(a, k', t). k' = k) (zip (answers (new_rate_limiter n W) rs) rs)) =
    window_run n W None (map snd (filter (\<lambda>(k', t). k' = k) rs))"
  by (rule client_answers [OF assms])

theorem limiter_refines_windows_witness:
  "map fst (filter (\<lambda>(a, k', t). k' = ''a'') (zip (answers (new_rate_limiter 1 10)
     [(''a'', 1 :: time), (''b'', 2), (''a'', 3), (''b'', 11), (''a'', 12)])
     [(''a'', 1 :: time), (''b'', 2), (''a'', 3), (''b'', 11), (''a'', 12)])) = [True, False, True]"
  using limiter_refines_windows [of 10 "[(''a'', 1 :: time), (''b'', 2), (''a'', 3), (''b'', 11), (''a'', 12)]" "''a''" 1]
  by (simp add: max_int64_def)

text \<open>
  C34: no client gets more than its share. In any stretch of time as long as the window a
  client is admitted at most twice the limit less one, whatever it and the others send. The
  bound is attained.
\<close>

theorem limiter_bounds_bursts:
  assumes "0 < W" "W \<le> max_int64" "sorted (map snd rs)" "\<forall>x \<in> set rs. 0 < snd x" "1 \<le> n"
  shows "int (length (filter (\<lambda>(a, k', t). a \<and> k' = k \<and> x \<le> t \<and> t < x + W)
    (zip (answers (new_rate_limiter n W) rs) rs))) \<le> 2 * n - 1"
proof -
  let ?ts = "map snd (filter (\<lambda>(k', t). k' = k) rs)"
  have "sorted ?ts" using sorted_client [OF assms(3)] .
  moreover have "\<forall>t \<in> set ?ts. 0 < t" using assms(4) by auto
  ultimately have "sorted (0 # ?ts)" by (auto simp: less_imp_le)
  from granted_bound [of n 0 None, OF _ this assms(5,1), of x]
  have "granted x W (window_run n W None ?ts) ?ts \<le> 2 * n - 1"
    using assms(5) by (auto simp: budget_def split: if_splits)
  then show ?thesis unfolding granted_of_client [OF length_answers] client_answers [OF assms(1-4)] .
qed

theorem limiter_bounds_bursts_witness:
  "int (length (filter (\<lambda>(a, k', t). a \<and> k' = ''a'' \<and> 3 \<le> t \<and> t < 3 + 10)
    (zip (answers (new_rate_limiter 2 10) [(''a'', 1 :: time), (''a'', 10), (''a'', 11), (''a'', 12), (''a'', 12)])
       [(''a'', 1 :: time), (''a'', 10), (''a'', 11), (''a'', 12), (''a'', 12)]))) = 2 * 2 - 1"
proof (rule antisym)
  show "int (length (filter (\<lambda>(a, k', t). a \<and> k' = ''a'' \<and> 3 \<le> t \<and> t < 3 + 10)
    (zip (answers (new_rate_limiter 2 10) [(''a'', 1 :: time), (''a'', 10), (''a'', 11), (''a'', 12), (''a'', 12)])
       [(''a'', 1 :: time), (''a'', 10), (''a'', 11), (''a'', 12), (''a'', 12)]))) \<le> 2 * 2 - 1"
    by (rule limiter_bounds_bursts) (simp_all add: max_int64_def)
  show "2 * 2 - 1 \<le> int (length (filter (\<lambda>(a, k', t). a \<and> k' = ''a'' \<and> 3 \<le> t \<and> t < 3 + 10)
    (zip (answers (new_rate_limiter 2 10) [(''a'', 1 :: time), (''a'', 10), (''a'', 11), (''a'', 12), (''a'', 12)])
       [(''a'', 1 :: time), (''a'', 10), (''a'', 11), (''a'', 12), (''a'', 12)])))"
    by code_simp
qed

text \<open>
  C35: nobody is locked out. If a client is refused and asks again, at the latest one window
  after the refusal it is admitted, or an earlier repetition of its request was, no matter how often it
  repeated it and what the others send.
\<close>

theorem refused_client_returns:
  fixes xs ys :: "(string \<times> time) list" and k :: string and t t' :: time
  defines "rs \<equiv> xs @ (k, t) # ys @ [(k, t')]"
  assumes "0 < W" "W \<le> max_int64" "sorted (map snd rs)" "\<forall>x \<in> set rs. 0 < snd x"
    and "\<not> answers (new_rate_limiter n W) rs ! length xs" "t + W \<le> t'"
  shows "\<exists>i. length xs < i \<and> i < length rs \<and> fst (rs ! i) = k \<and>
    answers (new_rate_limiter n W) rs ! i"
proof (rule ccontr)
  assume none: "\<not> ?thesis"
  let ?l0 = "limiter_after (new_rate_limiter n W) xs"
  let ?t0 = "last (0 # map snd xs)"
  have s: "sorted (0 # map snd xs)" "sorted (t # map snd ys)" "?t0 \<le> t" "0 < t" "last (t # map snd ys) \<le> t'"
    using assms(4,5) unfolding rs_def
    by (auto simp: sorted_append less_imp_le last_map)
  have l0: "limiter_ok ?l0 ?t0" "rl_window ?l0 = W"
    using limiter_after_ok [OF new_limiter_ok [OF assms(2,3)] s(1)] assms(5) by (auto simp: rs_def)
  obtain a l1 where a: "allow ?l0 k t = (a, l1)" by fastforce
  note ok = allow_ok [OF l0(1) s(3,4) a]
  have "\<not> a" using assms(6) a by (simp add: rs_def answers_append nth_append)
  then have st: "window_step (rl_limit ?l0) W (live ?l0 k t) t = (False, live l1 k t)"
    using allow_self [OF l0(1) s(3,4) a] l0(2) by simp
  then obtain q c where q: "live ?l0 k t = Some (q, c)" "live l1 k t = Some (q, c)"
    by (cases "live ?l0 k t") (auto split: if_splits)
  have "q \<le> t" using q(2) ok(1) by (auto simp: live_def limiter_ok_def split: option.splits if_splits)
  have un: "\<forall>i < length ys. fst (ys ! i) = k \<longrightarrow> \<not> answers l1 ys ! i"
  proof (intro allI impI)
    fix i assume i: "i < length ys" "fst (ys ! i) = k"
    then have "\<not> answers (new_rate_limiter n W) rs ! (length xs + Suc i)"
      using none by (auto simp: rs_def nth_append)
    with i a show "\<not> answers l1 ys ! i" by (simp add: rs_def answers_append nth_append)
  qed
  have pos: "\<forall>x \<in> set ys. 0 < snd x" using assms(5) by (simp add: rs_def)
  have "live (limiter_after l1 ys) k t' = live l1 k t'"
    by (rule unserved_live [OF ok(1) s(2) pos un s(5)])
  moreover have "live l1 k t' = None"
    using live_later [OF q(2), of t'] \<open>q \<le> t\<close> assms(2,7) ok(2) l0(2) by auto
  ultimately have n1: "live (limiter_after l1 ys) k t' = None" by simp
  obtain b l2 where b: "allow (limiter_after l1 ys) k t' = (b, l2)" by fastforce
  have "limiter_ok (limiter_after l1 ys) (last (t # map snd ys))"
    using limiter_after_ok [OF ok(1) s(2) pos] by simp
  from allow_self [OF this s(5) _ b] n1 s(4) assms(2,7) have "b" by simp
  moreover have "\<not> answers (new_rate_limiter n W) rs ! (length xs + Suc (length ys))"
    using none by (auto simp: rs_def nth_append)
  ultimately show False using a b by (simp add: rs_def answers_append nth_append)
qed

theorem refused_client_returns_witness:
  "\<exists>i. 1 < i \<and> i < 4 \<and> fst ([(''a'', 1 :: time), (''a'', 3), (''b'', 4), (''a'', 14)] ! i) = ''a'' \<and>
    answers (new_rate_limiter 1 10) [(''a'', 1 :: time), (''a'', 3), (''b'', 4), (''a'', 14)] ! i"
proof -
  have "\<not> answers (new_rate_limiter 1 10) [(''a'', 1 :: time), (''a'', 3), (''b'', 4), (''a'', 14)] ! 1" by code_simp
  with refused_client_returns [of 10 "[(''a'', 1)]" "''a''" 3 "[(''b'', 4)]" 14 1] show ?thesis
    by (simp add: max_int64_def eval_nat_numeral del: answers.simps)
qed

end
