(* ===== verification/Http.thy ===== *)
theory Http
  imports System Rate_Limiter
begin

text \<open>
  What the handlers see of net/http. \<open>request\<close> is a request as the package presents it: headers
  and query parameters by name (the empty text when absent), cookies by name, the decoded path
  cut at its slashes, and the body through the decoders the handlers use: \<open>rq_json\<close> is
  the result of decoding the body, at most so many bytes of it, into the text fields named,
  refusing unknown fields or not: what the fields hold then, and whether it succeeded; \<open>rq_multipart\<close> gives the parts that a multipart
  reader finds when the body is cut at so many bytes. \<open>response\<close> is what the client gets;
  headers count until the status is written, and the status is written once.
  Handlers are programs on \<open>conn\<close>: the server's world, its two rate limiters, and the
  response under way. A handler that panics ends with the panic as its error.
\<close>

section \<open>Requests\<close>

record part =
  pt_form_name :: string
  pt_file_name :: string
  pt_content :: "bytes \<times> err option"

record request =
  rq_method :: string
  rq_segments :: "string list"
  rq_header :: "string \<Rightarrow> string"
  rq_cookie :: "string \<Rightarrow> string option"
  rq_query :: "string \<Rightarrow> string"
  rq_remote :: string
  rq_length :: int
  rq_json :: "nat \<Rightarrow> bool \<Rightarrow> string list \<Rightarrow> (string \<Rightarrow> string) \<times> bool"
  rq_multipart :: "int \<Rightarrow> (part list \<times> err option) option"
  rq_path_id :: string
  rq_claims :: "claims option"
  rq_request_id :: string

section \<open>Responses\<close>

datatype same_site = Lax | Strict

record cookie =
  ck_name :: string
  ck_value :: string
  ck_path :: string
  ck_domain :: string
  ck_expires :: "time option"
  ck_max_age :: int
  ck_http_only :: bool
  ck_secure :: bool
  ck_same_site :: same_site

datatype json = JNull | JString string | JInt int | JTime time | JArray "json list" | JObject "(string \<times> json) list"

datatype payload = Json json | Text string

record response =
  rs_header :: "(string \<times> string) list"
  rs_cookies :: "cookie list"
  rs_status :: "nat option"
  rs_body :: "payload list"

definition no_response :: response where
  "no_response = \<lparr>rs_header = [], rs_cookies = [], rs_status = None, rs_body = []\<rparr>"

record conn =
  cn_world :: world
  cn_login :: rate_limiter
  cn_refresh :: rate_limiter
  cn_deadline :: "time option"
  cn_response :: response

type_synonym 'a http = "(conn, err, 'a) prog"
type_synonym handler = "request \<Rightarrow> unit http"

definition header :: "response \<Rightarrow> string \<Rightarrow> string option" where
  "header rs k = map_of (rs_header rs) k"

definition respond :: "(response \<Rightarrow> response) \<Rightarrow> unit http" where
  "respond f = (\<lambda>c. (Inr (), c\<lparr>cn_response := f (cn_response c)\<rparr>))"

lemma respond_run: "respond f c = (Inr (), c\<lparr>cn_response := f (cn_response c)\<rparr>)"
  by (simp add: respond_def)

text \<open>\<^verbatim>\<open>Header().Set\<close>, \<^verbatim>\<open>Header().Add\<close> and \<^verbatim>\<open>http.SetCookie\<close> have no effect once the status is written.\<close>

definition set_header :: "string \<Rightarrow> string \<Rightarrow> unit http" where
  "set_header k v = respond (\<lambda>rs. if rs_status rs = None
     then rs\<lparr>rs_header := (k, v) # filter (\<lambda>(k', v'). k' \<noteq> k) (rs_header rs)\<rparr> else rs)"

definition add_header :: "string \<Rightarrow> string \<Rightarrow> unit http" where
  "add_header k v = respond (\<lambda>rs. if rs_status rs = None then rs\<lparr>rs_header := rs_header rs @ [(k, v)]\<rparr> else rs)"

definition set_cookie :: "cookie \<Rightarrow> unit http" where
  "set_cookie ck = respond (\<lambda>rs. if rs_status rs = None then rs\<lparr>rs_cookies := rs_cookies rs @ [ck]\<rparr> else rs)"

definition write_status :: "nat \<Rightarrow> unit http" where
  "write_status s = respond (\<lambda>rs. if rs_status rs = None then rs\<lparr>rs_status := Some s\<rparr> else rs)"

definition write_body :: "payload \<Rightarrow> unit http" where
  "write_body p = bindE (write_status 200) (\<lambda>_. respond (\<lambda>rs. rs\<lparr>rs_body := rs_body rs @ [p]\<rparr>))"

text \<open>\<^verbatim>\<open>http.Error\<close>\<close>

definition http_error :: "string \<Rightarrow> nat \<Rightarrow> unit http" where
  "http_error msg code =
     bindE (respond (\<lambda>rs. if rs_status rs = None
              then rs\<lparr>rs_header := filter (\<lambda>(k, v). k \<noteq> ''Content-Length'') (rs_header rs)\<rparr> else rs)) (\<lambda>_.
     bindE (set_header ''Content-Type'' ''text/plain; charset=utf-8'') (\<lambda>_.
     bindE (set_header ''X-Content-Type-Options'' ''nosniff'') (\<lambda>_.
     bindE (write_status code) (\<lambda>_.
     write_body (Text (msg @ [CHR 0x0A]))))))"

section \<open>helpers.go\<close>

definition write_json :: "nat \<Rightarrow> json \<Rightarrow> unit http" where
  "write_json status v =
     bindE (set_header ''Content-Type'' ''application/json'') (\<lambda>_.
     bindE (write_status status) (\<lambda>_. write_body (Json v)))"

definition write_error :: "nat \<Rightarrow> string \<Rightarrow> unit http" where
  "write_error status message = write_json status (JObject [(''error'', JString message)])"

section \<open>The world behind the handlers\<close>

text \<open>A call that returns its error as a value; only a panic goes further.\<close>

definition attempt :: "'a io \<Rightarrow> (err + 'a) http" where
  "attempt m = (\<lambda>c. let (r, w) = m (cn_world c); c1 = c\<lparr>cn_world := w\<rparr> in
     case r of Inl (Panic p) \<Rightarrow> (Inl (Panic p), c1) | _ \<Rightarrow> (Inr r, c1))"

definition clock :: "env \<Rightarrow> time http" where
  "clock E = (\<lambda>c. (Inr (x_clock E (w_clock (cn_world c))), c\<lparr>cn_world := snd (now_io E (cn_world c))\<rparr>))"

text \<open>\<^verbatim>\<open>int(d.Seconds())\<close>: whole seconds, towards zero.\<close>

definition whole_seconds :: "duration \<Rightarrow> int" where
  "whole_seconds d = (if d \<ge> 0 then d div 1000000000 else - (- d div 1000000000))"

definition quote_char :: "char \<Rightarrow> string" where
  "quote_char c =
     (if c = CHR 0x22 \<or> c = CHR 0x5C then [CHR 0x5C, c]
      else if c = CHR 0x07 then CHR 0x5C # ''a'' else if c = CHR 0x08 then CHR 0x5C # ''b''
      else if c = CHR 0x0C then CHR 0x5C # ''f'' else if c = CHR 0x0A then CHR 0x5C # ''n''
      else if c = CHR 0x0D then CHR 0x5C # ''r'' else if c = CHR 0x09 then CHR 0x5C # ''t''
      else if c = CHR 0x0B then CHR 0x5C # ''v''
      else if c < CHR 0x20 \<or> c = CHR 0x7F then CHR 0x5C # ''x'' @ hex_encode [c]
      else [c])"

text \<open>
  \<^verbatim>\<open>strconv.Quote\<close> on ASCII texts; the names the store admits are printable ASCII.
\<close>

definition quote :: "string \<Rightarrow> string" where
  "quote s = CHR 0x22 # concat (map quote_char s) @ [CHR 0x22]"

section \<open>Frames\<close>

definition same_world :: "conn \<Rightarrow> conn \<Rightarrow> bool" where
  "same_world c c1 \<longleftrightarrow> cn_world c1 = cn_world c"

text \<open>Rows and objects as they were; clock, identifiers and statement counters may move on.\<close>

definition same_data :: "conn \<Rightarrow> conn \<Rightarrow> bool" where
  "same_data c c1 \<longleftrightarrow> w_db (cn_world c1) = w_db (cn_world c) \<and> w_fs (cn_world c1) = w_fs (cn_world c)"

lemma same_data_preorder [simp]: "reflp same_data" "transp same_data"
  by (auto simp: same_data_def reflp_def transp_def)

lemma keeps_respond [keeps_intro]: "keeps same_data (respond f)"
  by (simp add: keeps_def respond_def same_data_def)

lemma response_keeps [keeps_intro]:
  "keeps same_data (set_header k v)" "keeps same_data (add_header k v)" "keeps same_data (set_cookie ck)"
  "keeps same_data (write_status s)" "keeps same_data (write_body p)" "keeps same_data (http_error m s)"
  "keeps same_data (write_json s j)" "keeps same_data (write_error s m)" "keeps same_data (clock E)"
  unfolding set_header_def add_header_def set_cookie_def write_status_def write_body_def http_error_def write_json_def
    write_error_def
  by (auto intro!: keeps_intro) (simp add: clock_def keeps_def same_data_def now_io_def)

lemma keeps_attempt [keeps_intro]: "keeps same_db m \<Longrightarrow> keeps same_fs m \<Longrightarrow> keeps same_data (attempt m)"
  by (auto simp: keeps_def attempt_def same_data_def same_db_def same_fs_def Let_def split: prod.split sum.split err.split)
     (metis snd_conv)+

end
