(* ===== verification/Middleware.thy ===== *)
theory Middleware
  imports Http
begin

text \<open>
  src/internal/middleware: the access check (auth.go), the rate limit in front of a handler,
  CORS (cors.go), and request identifiers, security headers, recovery from panics and
  logging (middleware.go). A middleware maps a handler to a handler.
\<close>

section \<open>auth.go\<close>

definition token_from :: "string \<Rightarrow> request \<Rightarrow> string" where
  "token_from cookie_name r =
     (case rq_cookie r cookie_name of
        Some v \<Rightarrow> if v \<noteq> [] then v
                  else let h = rq_header r ''Authorization'' in
                       if has_prefix h ''Bearer '' then trim_space (trim_prefix h ''Bearer '') else []
      | None \<Rightarrow> let h = rq_header r ''Authorization'' in
                if has_prefix h ''Bearer '' then trim_space (trim_prefix h ''Bearer '') else [])"

text \<open>\<^verbatim>\<open>subtle.ConstantTimeCompare\<close> is equality.\<close>

definition csrf_token_valid :: "request \<Rightarrow> bool" where
  "csrf_token_valid r =
     (case rq_cookie r ''csrf_token'' of
        None \<Rightarrow> False
      | Some v \<Rightarrow> if v = [] then False else
          let h = rq_header r ''X-CSRF-Token'' in
          if h = [] \<or> length h \<noteq> length v then False else h = v)"

definition safe_cookie_mutation :: "request \<Rightarrow> bool" where
  "safe_cookie_mutation r =
     (if rq_method r = ''GET'' \<or> rq_method r = ''HEAD'' \<or> rq_method r = ''OPTIONS'' then True else csrf_token_valid r)"

definition write_auth_error :: "unit http" where
  "write_auth_error = http_error ''authentication required'' 401"

definition require_access_token :: "env \<Rightarrow> token_manager \<Rightarrow> handler \<Rightarrow> handler" where
  "require_access_token E m next r =
     bindE (attempt (validate_access_token E m (token_from ''access_token'' r))) (\<lambda>checked.
     case checked of Inl e \<Rightarrow> write_auth_error | Inr cl \<Rightarrow>
     let has_cookie = rq_cookie r ''access_token'' \<noteq> None;
         has_bearer = has_prefix (rq_header r ''Authorization'') ''Bearer '' in
     if has_cookie \<and> has_bearer then write_auth_error
     else if \<not> has_cookie \<and> \<not> has_bearer then write_auth_error
     else if has_cookie \<and> \<not> has_bearer \<and> \<not> safe_cookie_mutation r then write_auth_error
     else bindE (clock E) (\<lambda>now.
          bindE (attempt (validate_session E (c_id cl) now)) (\<lambda>session.
          case session of Inl e \<Rightarrow> write_auth_error | Inr _ \<Rightarrow> next (r\<lparr>rq_claims := Some cl\<rparr>))))"

section \<open>The rate limit in front of a handler\<close>

text \<open>\<^verbatim>\<open>net.SplitHostPort\<close>: the host of \<open>host:port\<close> or \<open>[host]:port\<close>.\<close>

definition index_of :: "char \<Rightarrow> string \<Rightarrow> nat option" where
  "index_of c s = (let n = length (takeWhile (\<lambda>x. x \<noteq> c) s) in if n < length s then Some n else None)"

definition last_index :: "char \<Rightarrow> string \<Rightarrow> nat option" where
  "last_index c s = map_option (\<lambda>n. length s - 1 - n) (index_of c (rev s))"

definition split_host :: "string \<Rightarrow> string option" where
  "split_host a = (case last_index (CHR '':'') a of None \<Rightarrow> None | Some i \<Rightarrow>
     if take 1 a = ''['' then
       (case index_of (CHR '']'') a of None \<Rightarrow> None | Some e \<Rightarrow>
          if e + 1 \<noteq> i then None
          else if CHR ''['' \<in> set (drop 1 a) \<or> CHR '']'' \<in> set (drop (e + 1) a) then None
          else Some (take (e - 1) (drop 1 a)))
     else let host = take i a in
       if CHR '':'' \<in> set host then None
       else if CHR ''['' \<in> set a \<or> CHR '']'' \<in> set a then None
       else Some host)"

definition client_key :: "request \<Rightarrow> string" where
  "client_key r = (case split_host (rq_remote r) of Some host \<Rightarrow> host | None \<Rightarrow> rq_remote r)"

text \<open>One of the server's limiters: how to read and to replace it.\<close>

definition rate_limited ::
  "env \<Rightarrow> (conn \<Rightarrow> rate_limiter) \<Rightarrow> (rate_limiter \<Rightarrow> conn \<Rightarrow> conn) \<Rightarrow> handler \<Rightarrow> handler" where
  "rate_limited E get put next r =
     bindE (clock E) (\<lambda>now.
     bindE (\<lambda>c. let (ok, l) = allow (get c) (client_key r) now in (Inr (ok, rl_window l), put l c)) (\<lambda>(ok, window).
     if \<not> ok then
       bindE (set_header ''Retry-After'' (format_int (whole_seconds window))) (\<lambda>_.
       http_error ''rate limit exceeded'' 429)
     else next r))"

definition new_csrf_token :: "env \<Rightarrow> string io" where
  "new_csrf_token E = random_token E"

section \<open>cors.go\<close>

definition clean_origin :: "string \<Rightarrow> string" where
  "clean_origin origin = trim_right_char (CHR ''/'') (trim_space origin)"

definition new_cors :: "string list \<Rightarrow> string list" where
  "new_cors allowed = filter (\<lambda>origin. origin \<noteq> []) (map clean_origin allowed)"

definition cors :: "string list \<Rightarrow> handler \<Rightarrow> handler" where
  "cors allowed next r =
     (let origin = clean_origin (rq_header r ''Origin'') in
      if origin = [] then next r else
      bindE (add_header ''Vary'' ''Origin'') (\<lambda>_.
      if origin \<notin> set allowed then next r else
      bindE (set_header ''Access-Control-Allow-Origin'' origin) (\<lambda>_.
      bindE (set_header ''Access-Control-Allow-Credentials'' ''true'') (\<lambda>_.
      bindE (set_header ''Access-Control-Allow-Methods'' ''GET, POST, PATCH, DELETE, OPTIONS'') (\<lambda>_.
      bindE (set_header ''Access-Control-Allow-Headers'' ''Authorization, Content-Type, X-CSRF-Token, X-Request-ID'') (\<lambda>_.
      bindE (set_header ''Access-Control-Expose-Headers'' ''X-Request-ID'') (\<lambda>_.
      bindE (set_header ''Access-Control-Max-Age'' ''86400'') (\<lambda>_.
      if rq_method r = ''OPTIONS'' \<and> rq_header r ''Access-Control-Request-Method'' \<noteq> []
      then write_status 204 else next r))))))))"

section \<open>middleware.go\<close>

text \<open>The pattern \<^verbatim>\<open>^[A-Za-z0-9._-]{1,128}$\<close>.\<close>

definition valid_request_id :: "string \<Rightarrow> bool" where
  "valid_request_id s \<longleftrightarrow> 1 \<le> length s \<and> length s \<le> 128 \<and> list_all id_char s"

text \<open>The layout \<^verbatim>\<open>20060102150405.000000000\<close>.\<close>

definition compact_stamp :: "time \<Rightarrow> string" where
  "compact_stamp t =
     (let secs = nat (t div 1000000000); (y, m, day) = civil (secs div 86400); s = secs mod 86400
      in pad4 y @ pad2 m @ pad2 day @ pad2 (s div 3600) @ pad2 (s div 60 mod 60) @ pad2 (s mod 60)
         @ CHR ''.'' # digits9 (nat (t mod 1000000000)))"

definition new_request_id :: "env \<Rightarrow> string io" where
  "new_request_id E = handleE (rand_io E) (\<lambda>_. bindE (now_io E) (\<lambda>t. ret (compact_stamp t))) (\<lambda>b. ret (hex_encode b))"

definition request_id :: "env \<Rightarrow> handler \<Rightarrow> handler" where
  "request_id E next r =
     (let given = rq_header r ''X-Request-ID'' in
      bindE (if valid_request_id given then ret (Inr given) else attempt (new_request_id E)) (\<lambda>made.
      case made of Inl e \<Rightarrow> raise e | Inr i \<Rightarrow>
      bindE (set_header ''X-Request-ID'' i) (\<lambda>_. next (r\<lparr>rq_request_id := i\<rparr>))))"

definition none_source :: string where
  "none_source = CHR 0x27 # ''none'' @ [CHR 0x27]"

definition security_headers :: "handler \<Rightarrow> handler" where
  "security_headers next r =
     bindE (set_header ''X-Content-Type-Options'' ''nosniff'') (\<lambda>_.
     bindE (set_header ''X-Frame-Options'' ''DENY'') (\<lambda>_.
     bindE (set_header ''Referrer-Policy'' ''no-referrer'') (\<lambda>_.
     bindE (set_header ''Content-Security-Policy''
       (''default-src '' @ none_source @ ''; frame-ancestors '' @ none_source)) (\<lambda>_.
     bindE (set_header ''Permissions-Policy'' ''camera=(), microphone=(), geolocation=()'') (\<lambda>_.
     next r)))))"

text \<open>
  The status writer of \<^verbatim>\<open>Recover\<close> has seen a status exactly when the response has one, since
  only CORS is outside and it does not call the next handler after writing.
\<close>

definition recover :: "handler \<Rightarrow> handler" where
  "recover next r = handleE (next r) (\<lambda>_.
     bindE (getW (\<lambda>c. rs_status (cn_response c) \<noteq> None)) (\<lambda>wrote.
     if wrote then ret () else http_error ''internal server error'' 500)) ret"

text \<open>The log line itself is output; the clock is read before and after.\<close>

definition logging :: "env \<Rightarrow> handler \<Rightarrow> handler" where
  "logging E next r =
     bindE (clock E) (\<lambda>started. bindE (next r) (\<lambda>_. bindE (clock E) (\<lambda>_. ret ())))"

definition chain :: "handler \<Rightarrow> (handler \<Rightarrow> handler) list \<Rightarrow> handler" where
  "chain handler ms = foldr (\<lambda>m h. m h) ms handler"

end
