(* ===== verification/Auth_Handlers.thy ===== *)
theory Auth_Handlers
  imports Middleware
begin

text \<open>
  src/internal/handler/httpapi/auth.go and health.go: login, refresh, identity and logout over
  the authentication service, with their cookies. Go encodes a map with its keys in
  order and leaves out empty fields marked \<^verbatim>\<open>omitempty\<close>.
\<close>

record auth_handler =
  ah_tokens :: token_manager
  ah_secure_cookies :: bool
  ah_cookie_domain :: string

section \<open>Bodies and cookies\<close>

definition decode_json :: "string list \<Rightarrow> request \<Rightarrow> (string \<Rightarrow> string) option http" where
  "decode_json names r =
     (if \<not> has_prefix (rq_header r ''Content-Type'') ''application/json''
      then bindE (write_error 415 ''content type must be application/json'') (\<lambda>_. ret None)
      else case rq_json r 16384 True names of (f, ok) \<Rightarrow>
        if \<not> ok then bindE (write_error 400 ''invalid request body'') (\<lambda>_. ret None) else ret (Some f))"

definition set_csrf_token :: "env \<Rightarrow> auth_handler \<Rightarrow> unit http" where
  "set_csrf_token E h =
     bindE (attempt (new_csrf_token E)) (\<lambda>made.
     case made of Inl e \<Rightarrow> ret () | Inr token \<Rightarrow>
     set_cookie \<lparr>ck_name = ''csrf_token'', ck_value = token, ck_path = ''/'', ck_domain = ah_cookie_domain h,
       ck_expires = None, ck_max_age = 7 * 24 * 60 * 60, ck_http_only = False, ck_secure = ah_secure_cookies h,
       ck_same_site = Lax\<rparr>)"

definition set_access_cookie :: "env \<Rightarrow> auth_handler \<Rightarrow> string \<Rightarrow> time \<Rightarrow> unit http" where
  "set_access_cookie E h token expires =
     bindE (clock E) (\<lambda>now.
     set_cookie \<lparr>ck_name = ''access_token'', ck_value = token, ck_path = ''/'', ck_domain = ah_cookie_domain h,
       ck_expires = Some expires, ck_max_age = whole_seconds (time_sub expires now), ck_http_only = True,
       ck_secure = ah_secure_cookies h, ck_same_site = Lax\<rparr>)"

definition set_refresh_cookie :: "env \<Rightarrow> auth_handler \<Rightarrow> string \<Rightarrow> time \<Rightarrow> unit http" where
  "set_refresh_cookie E h token expires =
     bindE (clock E) (\<lambda>now.
     set_cookie \<lparr>ck_name = ''refresh_token'', ck_value = token, ck_path = ''/api/auth/refresh'',
       ck_domain = ah_cookie_domain h, ck_expires = Some expires, ck_max_age = whole_seconds (time_sub expires now),
       ck_http_only = True, ck_secure = ah_secure_cookies h, ck_same_site = Strict\<rparr>)"

definition expired_cookie :: "auth_handler \<Rightarrow> string \<Rightarrow> string \<Rightarrow> bool \<Rightarrow> same_site \<Rightarrow> cookie" where
  "expired_cookie h name path http_only site =
     \<lparr>ck_name = name, ck_value = [], ck_path = path, ck_domain = ah_cookie_domain h, ck_expires = None,
      ck_max_age = -1, ck_http_only = http_only, ck_secure = ah_secure_cookies h, ck_same_site = site\<rparr>"

definition clear_cookies :: "auth_handler \<Rightarrow> unit http" where
  "clear_cookies h =
     bindE (set_cookie (expired_cookie h ''access_token'' ''/'' True Lax)) (\<lambda>_.
     bindE (set_cookie (expired_cookie h ''refresh_token'' ''/api/auth/refresh'' True Strict)) (\<lambda>_.
     set_cookie (expired_cookie h ''csrf_token'' ''/'' False Lax)))"

section \<open>Handlers\<close>

definition auth_response :: "string \<Rightarrow> string \<Rightarrow> string \<Rightarrow> string \<Rightarrow> time \<Rightarrow> json" where
  "auth_response user_id username access refresh_token expires =
     JObject ([(''user_id'', JString user_id), (''username'', JString username), (''access_token'', JString access)]
       @ (if refresh_token = [] then [] else [(''refresh_token'', JString refresh_token)])
       @ [(''expires_at'', JTime expires)])"

definition write_tokens :: "env \<Rightarrow> auth_handler \<Rightarrow> user \<Rightarrow> tokens \<Rightarrow> unit http" where
  "write_tokens E h u tk =
     bindE (set_csrf_token E h) (\<lambda>_.
     bindE (set_access_cookie E h (tk_access tk) (tk_expires_at tk)) (\<lambda>_.
     bindE (set_refresh_cookie E h (tk_refresh tk) (tk_refresh_expires_at tk)) (\<lambda>_.
     write_json 200 (auth_response (us_id u) (us_username u) (tk_access tk) (tk_refresh tk) (tk_expires_at tk)))))"

definition login_handler :: "env \<Rightarrow> auth_handler \<Rightarrow> handler" where
  "login_handler E h r =
     bindE (decode_json [''username'', ''password''] r) (\<lambda>body.
     case body of None \<Rightarrow> ret () | Some f \<Rightarrow>
     bindE (attempt (login E (ah_tokens h) (f ''username'') (f ''password''))) (\<lambda>outcome.
     case outcome of
       Inl e \<Rightarrow> write_error 401 ''invalid username or password''
     | Inr (u, tk) \<Rightarrow> write_tokens E h u tk))"

definition refresh_handler :: "env \<Rightarrow> auth_handler \<Rightarrow> handler" where
  "refresh_handler E h r =
     (if rq_cookie r ''refresh_token'' \<noteq> None \<and> rq_header r ''Authorization'' \<noteq> []
      then write_error 401 ''mixed token transport is not allowed''
      else if rq_cookie r ''refresh_token'' \<noteq> None \<and> \<not> csrf_token_valid r
      then write_error 401 ''csrf validation failed''
      else let refresh_token = token_from ''refresh_token'' r in
      if refresh_token = [] then write_error 401 ''refresh token required'' else
      bindE (attempt (refresh E (ah_tokens h) refresh_token)) (\<lambda>outcome.
      case outcome of Inl e \<Rightarrow> write_error 401 ''invalid refresh token'' | Inr tk \<Rightarrow>
      bindE (set_access_cookie E h (tk_access tk) (tk_expires_at tk)) (\<lambda>_.
      bindE (set_refresh_cookie E h (tk_refresh tk) (tk_refresh_expires_at tk)) (\<lambda>_.
      write_json 200 (JObject [(''access_token'', JString (tk_access tk)), (''expires_at'', JTime (tk_expires_at tk)),
        (''refresh_token'', JString (tk_refresh tk))])))))"

text \<open>A token without expiry would be a nil pointer in \<^verbatim>\<open>claims.ExpiresAt.Time\<close>.\<close>

definition me_handler :: "env \<Rightarrow> auth_handler \<Rightarrow> handler" where
  "me_handler E h r =
     (case rq_claims r of None \<Rightarrow> write_error 401 ''authentication required'' | Some cl \<Rightarrow>
      bindE (attempt (me E (c_subject cl))) (\<lambda>found.
      case found of Inl e \<Rightarrow> write_error 401 ''authentication required'' | Inr u \<Rightarrow>
      bindE (set_csrf_token E h) (\<lambda>_.
      case c_expires_at cl of
        None \<Rightarrow> raise (Panic ''nil pointer dereference'')
      | Some expires \<Rightarrow> write_json 200 (auth_response (us_id u) (us_username u) [] [] expires))))"

definition logout_handler :: "env \<Rightarrow> auth_handler \<Rightarrow> handler" where
  "logout_handler E h r =
     (case rq_claims r of None \<Rightarrow> write_error 401 ''authentication required'' | Some cl \<Rightarrow>
      bindE (attempt (logout E (c_id cl))) (\<lambda>outcome.
      case outcome of Inl e \<Rightarrow> write_error 401 ''session is invalid''
      | Inr _ \<Rightarrow> bindE (clear_cookies h) (\<lambda>_. write_status 204)))"

definition health :: handler where
  "health r = write_json 200 (JObject [(''status'', JString ''ok'')])"

end
