(* ===== verification/File_Handlers.thy ===== *)
theory File_Handlers
  imports Auth_Handlers
begin

text \<open>
  src/internal/handler/httpapi/files.go: the file API over the file service and the repository,
  byte ranges, and the write deadlines of long transfers. The disk usage of a mount is what
  the operating system says (disk_usage_unix.go), given here as a function of the mount.
\<close>

record file_handler =
  fh_mounts :: mounts
  fh_max_bytes :: int
  fh_usage :: "mount \<Rightarrow> int \<times> int \<times> int"

section \<open>Parameters\<close>

definition mount_param :: "file_handler \<Rightarrow> request \<Rightarrow> string http" where
  "mount_param h r =
     (if rq_query r ''mount'' \<noteq> [] then ret (rq_query r ''mount'')
      else case default_mount (fh_mounts h) of Inl e \<Rightarrow> raise e | Inr m \<Rightarrow> ret (m_id m))"

definition page :: "request \<Rightarrow> int \<times> int" where
  "page r =
     (let limit = (let v = fst (atoi (rq_query r ''limit'')) in if v > 0 then v else 50);
          limit = (if limit > 100 then 100 else limit);
          offset = (let v = fst (atoi (rq_query r ''offset'')) in if v \<ge> 0 then v else 0)
      in (limit, offset))"

section \<open>Replies\<close>

text \<open>A nil slice is null.\<close>

definition json_items :: "json list \<Rightarrow> json" where
  "json_items items = (if items = [] then JNull else JArray items)"

definition omit_empty :: "string \<Rightarrow> string \<Rightarrow> (string \<times> json) list" where
  "omit_empty k v = (if v = [] then [] else [(k, JString v)])"

definition folder_json :: "folder \<Rightarrow> json" where
  "folder_json d = JObject ([(''id'', JString (fd_id d))] @ omit_empty ''parent_id'' (fd_parent_id d)
     @ omit_empty ''mount'' (fd_mount d) @ [(''name'', JString (fd_name d)),
      (''created_at'', JTime (fd_created_at d)), (''updated_at'', JTime (fd_updated_at d))])"

definition file_json :: "file_item \<Rightarrow> json" where
  "file_json f = JObject ([(''id'', JString (fl_id f))] @ omit_empty ''folder_id'' (fl_folder_id f)
     @ omit_empty ''mount'' (fl_mount f) @ [(''name'', JString (fl_name f)),
      (''content_type'', JString (fl_content_type f)), (''size'', JInt (fl_size f)),
      (''checksum'', JString (fl_checksum f)), (''created_at'', JTime (fl_created_at f)),
      (''updated_at'', JTime (fl_updated_at f))]
     @ (case fl_deleted_at f of None \<Rightarrow> [] | Some t \<Rightarrow> [(''deleted_at'', JTime t)]))"

definition write_page :: "json list \<Rightarrow> int \<times> int \<Rightarrow> unit http" where
  "write_page items p = write_json 200 (JObject [(''items'', json_items items),
     (''limit'', JInt (fst p)), (''offset'', JInt (snd p))])"

text \<open>A listing: the rows of a page, or one message for every error.\<close>

definition listing ::
  "file_handler \<Rightarrow> request \<Rightarrow> (string \<Rightarrow> int \<Rightarrow> int \<Rightarrow> 'a list io) \<Rightarrow> ('a \<Rightarrow> json) \<Rightarrow> string \<Rightarrow> unit http" where
  "listing h r query enc message =
     (let p = page r in
      bindE (mount_param h r) (\<lambda>mount.
      bindE (attempt (query mount (fst p) (snd p))) (\<lambda>items.
      case items of Inl e \<Rightarrow> write_error 500 message | Inr xs \<Rightarrow> write_page (map enc xs) p)))"

section \<open>Folders\<close>

definition list_folders_handler :: "env \<Rightarrow> file_handler \<Rightarrow> handler" where
  "list_folders_handler E h r =
     listing h r (\<lambda>mount. list_folders E mount (rq_query r ''parent_id'')) folder_json ''could not list folders''"

definition create_folder_handler :: "env \<Rightarrow> file_handler \<Rightarrow> handler" where
  "create_folder_handler E h r =
     bindE (decode_json [''mount'', ''parent_id'', ''name''] r) (\<lambda>body.
     case body of None \<Rightarrow> ret () | Some f \<Rightarrow>
     bindE (attempt (svc_create_folder E (fh_mounts h) (f ''mount'') (f ''parent_id'') (trim_space (f ''name'')))) (\<lambda>made.
     case made of
       Inl e \<Rightarrow> if errors_is e ErrConflict then write_error 409 ''folder already exists'' else write_error 400 (err_text e)
     | Inr item \<Rightarrow> write_json 201 (folder_json item)))"

definition rename_folder_handler :: "env \<Rightarrow> file_handler \<Rightarrow> handler" where
  "rename_folder_handler E h r =
     bindE (decode_json [''name''] r) (\<lambda>body.
     case body of None \<Rightarrow> ret () | Some f \<Rightarrow>
     bindE (attempt (svc_rename_folder E (rq_path_id r) (trim_space (f ''name'')))) (\<lambda>renamed.
     case renamed of
       Inl e \<Rightarrow> if errors_is e ErrConflict then write_error 409 ''folder already exists''
                else if contains_str (err_text e) ''folder name'' then write_error 400 (err_text e)
                else write_error 404 ''folder not found''
     | Inr _ \<Rightarrow> write_status 204))"

definition delete_folder_handler :: "env \<Rightarrow> file_handler \<Rightarrow> handler" where
  "delete_folder_handler E h r =
     bindE (attempt (delete_folder E (rq_path_id r))) (\<lambda>deleted.
     case deleted of
       Inl e \<Rightarrow> if errors_is e ErrConflict then write_error 409 ''folder is not empty''
                else write_error 404 ''folder not found''
     | Inr _ \<Rightarrow> write_status 204)"

section \<open>Deadlines\<close>

text \<open>Signed 64-bit arithmetic of durations, with its wrap-around.\<close>

definition wrap64 :: "int \<Rightarrow> int" where
  "wrap64 n = sint (word_of_int n :: 64 word)"

definition write_budget_for_body :: "int \<Rightarrow> int \<Rightarrow> duration \<Rightarrow> duration" where
  "write_budget_for_body content_length min_throughput min_budget =
     (let headroom = 2 * 60 * 1000000000 in
      if content_length > 0 then
        let scaled = wrap64 (wrap64 (content_length div min_throughput * 1000000000) + headroom)
        in if scaled > min_budget then scaled else min_budget
      else min_budget)"

definition upload_write_budget :: "int \<Rightarrow> duration" where
  "upload_write_budget n = write_budget_for_body n (2 ^ 20) (30 * 60 * 1000000000)"

definition download_write_budget :: "int \<Rightarrow> duration" where
  "download_write_budget n = write_budget_for_body n (2 ^ 18) (30 * 60 * 1000000000)"

definition set_write_deadline :: "env \<Rightarrow> duration \<Rightarrow> unit http" where
  "set_write_deadline E span =
     bindE (clock E) (\<lambda>now c. (Inr (), c\<lparr>cn_deadline := Some (now + span)\<rparr>))"

section \<open>Uploads\<close>

definition upload_error :: "err \<Rightarrow> nat \<times> string" where
  "upload_error e =
     (if errors_is e ErrTooLarge \<or> errors_is e MaxBytesError then (413, ''file too large'')
      else if errors_is e ErrInvalidMIME then (415, ''file type is not allowed'')
      else if errors_is e ErrMountNotFound \<or> errors_is e ErrMountMismatch then (400, ''disk not found'')
      else (400, ''upload failed''))"

text \<open>A form field: at most 1024 bytes of it, read errors ignored.\<close>

definition field_text :: "part \<Rightarrow> string" where
  "field_text p = trim_space (take 1024 (fst (pt_content p)))"

text \<open>
  The loop over the parts, up to the first file: it ends with the stored file, with none
  (an empty identifier in the code), or with the reply already written.
\<close>

fun upload_parts ::
  "env \<Rightarrow> file_handler \<Rightarrow> string \<Rightarrow> string \<Rightarrow> err option \<Rightarrow> part list \<Rightarrow> (file_item option) option http" where
  "upload_parts E h folder_id mount_id final [] =
     (case final of
        None \<Rightarrow> ret (Some None)
      | Some e \<Rightarrow> bindE (write_error 400 ''invalid multipart upload'') (\<lambda>_. ret None))"
| "upload_parts E h folder_id mount_id final (p # ps) =
     (if pt_form_name p = ''folder_id'' then upload_parts E h (field_text p) mount_id final ps
      else if pt_form_name p = ''mount'' then upload_parts E h folder_id (field_text p) final ps
      else if pt_form_name p \<noteq> ''file'' then upload_parts E h folder_id mount_id final ps
      else bindE (attempt (upload E (fh_mounts h) mount_id folder_id (pt_file_name p) (pt_content p))) (\<lambda>stored.
           case stored of
             Inl e \<Rightarrow> bindE (write_error (fst (upload_error e)) (snd (upload_error e))) (\<lambda>_. ret None)
           | Inr f \<Rightarrow> ret (Some (Some f))))"

definition upload_handler :: "env \<Rightarrow> file_handler \<Rightarrow> handler" where
  "upload_handler E h r =
     bindE (set_write_deadline E (upload_write_budget (rq_length r))) (\<lambda>_.
     case rq_multipart r (wrap64 (fh_max_bytes h + 2 ^ 20)) of
       None \<Rightarrow> write_error 400 ''multipart upload required''
     | Some (parts, final) \<Rightarrow>
         bindE (upload_parts E h [] [] final parts) (\<lambda>result.
         case result of
           None \<Rightarrow> ret ()
         | Some None \<Rightarrow> write_error 400 ''file part is required''
         | Some (Some f) \<Rightarrow> if fl_id f = [] then write_error 400 ''file part is required''
                             else write_json 201 (file_json f)))"

section \<open>Ranges and downloads\<close>

datatype range_mode = RangeIgnore | RangeServe | RangeUnsatisfiable

definition single_byte_range :: "string \<Rightarrow> int \<Rightarrow> int \<times> int \<times> range_mode" where
  "single_byte_range v full =
     (if v = [] \<or> full \<le> 0 \<or> \<not> has_prefix v ''bytes='' then (0, 0, RangeIgnore) else
      let spec = trim_space (trim_prefix v ''bytes='') in
      if spec = [] \<or> CHR '','' \<in> set spec then (0, 0, RangeIgnore) else
      let (prior, post, found) = cut_at (CHR ''-'') spec in
      if \<not> found then (0, 0, RangeIgnore) else
      let start_text = trim_space prior; end_text = trim_space post in
      if start_text = [] then
        (case parse_int end_text of (n, err) \<Rightarrow>
           if err \<noteq> None \<or> n \<le> 0 then (0, 0, RangeIgnore)
           else let n = (if n > full then full else n) in (full - n, n, RangeServe))
      else (case parse_int start_text of (start, err) \<Rightarrow>
        if err \<noteq> None \<or> start < 0 then (0, 0, RangeIgnore)
        else if start \<ge> full then (0, 0, RangeUnsatisfiable)
        else if end_text = [] then (start, full - 1 - start + 1, RangeServe)
        else (case parse_int end_text of (final, err) \<Rightarrow>
          if err \<noteq> None \<or> final < start then (0, 0, RangeIgnore)
          else let final = (if final \<ge> full then full - 1 else final)
               in (start, final - start + 1, RangeServe))))"

text \<open>The bytes of the opened object are \<open>content\<close>; \<open>full\<close> is the size in the metadata.\<close>

definition serve_range :: "request \<Rightarrow> bytes \<Rightarrow> int \<Rightarrow> unit http" where
  "serve_range r content full =
     (case single_byte_range (rq_header r ''Range'') full of (start, len, mode) \<Rightarrow>
      case mode of
        RangeUnsatisfiable \<Rightarrow>
          bindE (set_header ''Content-Range'' (''bytes */'' @ format_int full)) (\<lambda>_. write_status 416)
      | RangeServe \<Rightarrow>
          bindE (set_header ''Content-Range'' (''bytes '' @ format_int start @ ''-'' @ format_int (start + len - 1)
                   @ ''/'' @ format_int full)) (\<lambda>_.
          bindE (set_header ''Content-Length'' (format_int len)) (\<lambda>_.
          bindE (write_status 206) (\<lambda>_.
          if rq_method r = ''HEAD'' then ret ()
          else write_body (Text (take (nat len) (drop (nat start) content))))))
      | RangeIgnore \<Rightarrow>
          bindE (set_header ''Content-Length'' (format_int full)) (\<lambda>_.
          bindE (write_status 200) (\<lambda>_.
          if rq_method r = ''HEAD'' then ret () else write_body (Text content))))"

definition download_handler :: "env \<Rightarrow> file_handler \<Rightarrow> handler" where
  "download_handler E h r =
     bindE (attempt (find_file E (rq_path_id r))) (\<lambda>found.
     case found of Inl e \<Rightarrow> write_error 404 ''file not found'' | Inr item \<Rightarrow>
     bindE (set_write_deadline E (download_write_budget (fl_size item))) (\<lambda>_.
     bindE (attempt (liftE (get_mount (fh_mounts h) (fl_mount item)))) (\<lambda>mount.
     case mount of Inl e \<Rightarrow> write_error 404 ''file content not found'' | Inr m \<Rightarrow>
     bindE (attempt (open_object E (m_store m) (fl_storage_key item))) (\<lambda>opened.
     case opened of Inl e \<Rightarrow> write_error 404 ''file content not found'' | Inr content \<Rightarrow>
     bindE (set_header ''Content-Type'' (fl_content_type item)) (\<lambda>_.
     bindE (set_header ''Content-Disposition'' (''attachment; filename='' @ quote (fl_name item))) (\<lambda>_.
     bindE (set_header ''Accept-Ranges'' ''bytes'') (\<lambda>_.
     bindE (attempt (record_audit E ''download'' (fl_id item))) (\<lambda>_.
     serve_range r content (fl_size item)))))))))"

section \<open>Files\<close>

definition list_files_handler :: "env \<Rightarrow> file_handler \<Rightarrow> handler" where
  "list_files_handler E h r =
     listing h r (\<lambda>mount. list_files E mount (rq_query r ''folder_id'')) file_json ''could not list files''"

text \<open>The outcome of decoding is ignored; what was read counts.\<close>

definition copy_file_handler :: "env \<Rightarrow> file_handler \<Rightarrow> handler" where
  "copy_file_handler E h r =
     (let folder_id = fst (rq_json r 4096 False [''folder_id'']) ''folder_id'' in
      bindE (attempt (copy_file E (fh_mounts h) (rq_path_id r) folder_id)) (\<lambda>copied.
      case copied of Inl e \<Rightarrow> write_error 404 ''file not found'' | Inr item \<Rightarrow> write_json 201 (file_json item)))"

definition rename_file_handler :: "env \<Rightarrow> file_handler \<Rightarrow> handler" where
  "rename_file_handler E h r =
     bindE (decode_json [''name''] r) (\<lambda>body.
     case body of None \<Rightarrow> ret () | Some f \<Rightarrow>
     bindE (attempt (svc_rename_file E (rq_path_id r) (trim_space (f ''name'')))) (\<lambda>renamed.
     case renamed of Inl e \<Rightarrow> write_error 404 ''file not found'' | Inr _ \<Rightarrow> write_status 204))"

definition move_file_handler :: "env \<Rightarrow> file_handler \<Rightarrow> handler" where
  "move_file_handler E h r =
     bindE (decode_json [''folder_id''] r) (\<lambda>body.
     case body of None \<Rightarrow> ret () | Some f \<Rightarrow>
     bindE (attempt (svc_move_file E (rq_path_id r) (f ''folder_id''))) (\<lambda>moved.
     case moved of
       Inl e \<Rightarrow> if errors_is e ErrMountMismatch then write_error 400 ''cannot move a file between disks''
                else write_error 404 ''file or folder not found''
     | Inr _ \<Rightarrow> write_status 204))"

definition delete_file_handler :: "env \<Rightarrow> file_handler \<Rightarrow> handler" where
  "delete_file_handler E h r =
     bindE (attempt (delete_file E (rq_path_id r))) (\<lambda>deleted.
     case deleted of Inl e \<Rightarrow> write_error 404 ''file not found'' | Inr _ \<Rightarrow> write_status 204)"

definition trash_handler :: "env \<Rightarrow> file_handler \<Rightarrow> handler" where
  "trash_handler E h r = listing h r (list_trash E) file_json ''could not list trash''"

definition restore_handler :: "env \<Rightarrow> file_handler \<Rightarrow> handler" where
  "restore_handler E h r =
     bindE (attempt (svc_restore_file E (rq_path_id r))) (\<lambda>restored.
     case restored of Inl e \<Rightarrow> write_error 404 ''trash item not found'' | Inr _ \<Rightarrow> write_status 204)"

definition purge_handler :: "env \<Rightarrow> file_handler \<Rightarrow> handler" where
  "purge_handler E h r =
     bindE (attempt (permanently_delete E (fh_mounts h) (rq_path_id r))) (\<lambda>purged.
     case purged of Inl e \<Rightarrow> write_error 404 ''trash item not found'' | Inr _ \<Rightarrow> write_status 204)"

definition search_handler :: "env \<Rightarrow> file_handler \<Rightarrow> handler" where
  "search_handler E h r =
     listing h r (\<lambda>mount. search E mount (rq_query r ''q'')) file_json ''search failed''"

section \<open>Disks and dashboard\<close>

definition disk_view :: "file_handler \<Rightarrow> mount \<Rightarrow> int \<times> int \<Rightarrow> json" where
  "disk_view h m counts =
     (case fh_usage h m of (capacity, free, used) \<Rightarrow>
      JObject [(''bytes'', JInt (snd counts)), (''files'', JInt (fst counts)), (''free'', JInt free),
               (''id'', JString (m_id m)), (''name'', JString (m_name m)), (''total'', JInt capacity), (''used'', JInt used)])"

text \<open>An error of the count is ignored and leaves zeros.\<close>

fun disk_views :: "env \<Rightarrow> file_handler \<Rightarrow> mount list \<Rightarrow> json list http" where
  "disk_views E h [] = ret []"
| "disk_views E h (m # ms) =
     bindE (attempt (count_active_by_mount E (m_id m))) (\<lambda>counted.
     let view = disk_view h m (case counted of Inl e \<Rightarrow> (0, 0) | Inr c \<Rightarrow> c)
     in bindE (disk_views E h ms) (\<lambda>views. ret (view # views)))"

definition disks_handler :: "env \<Rightarrow> file_handler \<Rightarrow> handler" where
  "disks_handler E h r =
     bindE (disk_views E h (list_mounts (fh_mounts h))) (\<lambda>views. write_json 200 (JObject [(''items'', JArray views)]))"

definition dashboard_handler :: "env \<Rightarrow> file_handler \<Rightarrow> handler" where
  "dashboard_handler E h r =
     bindE (attempt (dashboard E)) (\<lambda>data.
     case data of Inl e \<Rightarrow> write_error 500 ''dashboard unavailable'' | Inr d \<Rightarrow>
     case default_mount (fh_mounts h) of Inl e \<Rightarrow> raise e | Inr m \<Rightarrow>
     case fh_usage h m of (capacity, free, used) \<Rightarrow>
     bindE (disk_views E h (list_mounts (fh_mounts h))) (\<lambda>views.
     write_json 200 (JObject [(''bytes'', JInt (dc_bytes d)), (''disks'', JArray views), (''files'', JInt (dc_files d)),
       (''folders'', JInt (dc_folders d)),
       (''storage'', JObject [(''free'', JInt free), (''total'', JInt capacity), (''used'', JInt used)]),
       (''trash'', JInt (dc_trash d))])))"

end
