(* ===== verification/Url.thy ===== *)
theory Url
  imports Go_Strings
begin

text \<open>
  \<^verbatim>\<open>url.Parse\<close> of Go's net/url (the version of go.mod), as far as the program looks at its
  result: scheme, host, path, query and fragment. src/internal/config/config.go decides with it
  which origins are admitted, src/internal/handler/httpapi/web.go which origin a page may
  connect to. \<open>None\<close> is an error. User information is checked and dropped.
\<close>

record url =
  url_scheme :: string
  url_host :: string
  url_path :: string
  url_query :: string
  url_fragment :: string

section \<open>Character classes\<close>

definition letter :: "char \<Rightarrow> bool" where
  "letter c \<longleftrightarrow> CHR ''A'' \<le> c \<and> c \<le> CHR ''Z'' \<or> CHR ''a'' \<le> c \<and> c \<le> CHR ''z''"

definition digit :: "char \<Rightarrow> bool" where
  "digit c \<longleftrightarrow> CHR ''0'' \<le> c \<and> c \<le> CHR ''9''"

definition hex_val :: "char \<Rightarrow> nat option" where
  "hex_val c =
     (if digit c then Some (of_char c - 48)
      else if CHR ''a'' \<le> c \<and> c \<le> CHR ''f'' then Some (of_char c - 87)
      else if CHR ''A'' \<le> c \<and> c \<le> CHR ''F'' then Some (of_char c - 55)
      else None)"

definition control_char :: "char \<Rightarrow> bool" where
  "control_char c \<longleftrightarrow> c < CHR 0x20 \<or> c = CHR 0x7F"

text \<open>The characters a host may contain unescaped.\<close>

definition host_char :: "char \<Rightarrow> bool" where
  "host_char c \<longleftrightarrow> letter c \<or> digit c \<or> c \<in> set (CHR 0x27 # CHR 0x22 # ''!$&()*+,;=:[]<>-_.~'')"

definition user_char :: "char \<Rightarrow> bool" where
  "user_char c \<longleftrightarrow> letter c \<or> digit c \<or> c \<in> set (CHR 0x27 # ''-._:~!$&()*+,;=%@'')"

section \<open>Percent escapes\<close>

datatype encoding = Encode_path | Encode_host | Encode_zone | Encode_user | Encode_fragment

definition escape_ok :: "encoding \<Rightarrow> nat \<Rightarrow> nat \<Rightarrow> bool" where
  "escape_ok m x y =
     (case m of
        Encode_host \<Rightarrow> x \<ge> 8 \<or> x = 2 \<and> y = 5
      | Encode_zone \<Rightarrow> x = 2 \<and> y = 5 \<or> char_of (16 * x + y) = CHR '' '' \<or> host_char (char_of (16 * x + y))
      | _ \<Rightarrow> True)"

definition literal_ok :: "encoding \<Rightarrow> char \<Rightarrow> bool" where
  "literal_ok m c \<longleftrightarrow> c \<noteq> CHR ''%'' \<and> ((m = Encode_host \<or> m = Encode_zone) \<and> c < CHR 0x80 \<longrightarrow> host_char c)"

fun unescape :: "encoding \<Rightarrow> string \<Rightarrow> string option" where
  "unescape m (c # a # b # s) =
     (if c = CHR ''%'' then
        (case (hex_val a, hex_val b) of
           (Some x, Some y) \<Rightarrow>
             if escape_ok m x y then map_option ((#) (char_of (16 * x + y))) (unescape m s) else None
         | _ \<Rightarrow> None)
      else if literal_ok m c then map_option ((#) c) (unescape m (a # b # s)) else None)"
| "unescape m (c # s) = (if literal_ok m c then map_option ((#) c) (unescape m s) else None)"
| "unescape m [] = Some []"

section \<open>Scheme and authority\<close>

text \<open>\<open>None\<close> is the error \<^verbatim>\<open>missing protocol scheme\<close>; the position tells the first character from the others.\<close>

fun scheme_end :: "string \<Rightarrow> nat \<Rightarrow> nat option option" where
  "scheme_end [] i = Some None"
| "scheme_end (c # s) i =
     (if letter c then scheme_end s (i + 1)
      else if digit c \<or> c \<in> set ''+-.'' then (if i = 0 then Some None else scheme_end s (i + 1))
      else if c = CHR '':'' then (if i = 0 then None else Some (Some i))
      else Some None)"

definition get_scheme :: "string \<Rightarrow> (string \<times> string) option" where
  "get_scheme s = map_option (\<lambda>e. case e of Some i \<Rightarrow> (take i s, drop (i + 1) s) | None \<Rightarrow> ([], s)) (scheme_end s 0)"

definition before_last :: "char \<Rightarrow> string \<Rightarrow> (string \<times> string) option" where
  "before_last c s =
     (let n = length (takeWhile (\<lambda>x. x \<noteq> c) (rev s))
      in if n = length s then None else Some (take (length s - n - 1) s, drop (length s - n) s))"

definition valid_optional_port :: "string \<Rightarrow> bool" where
  "valid_optional_port p \<longleftrightarrow> p = [] \<or> hd p = CHR '':'' \<and> list_all digit (tl p)"

text \<open>What precedes the first occurrence of a text, and the rest from it on.\<close>

fun cut_before :: "string \<Rightarrow> string \<Rightarrow> string \<times> string \<times> bool" where
  "cut_before p [] = ([], [], False)"
| "cut_before p (c # s) =
     (if has_prefix (c # s) p then ([], c # s, True)
      else (let (a, b, found) = cut_before p s in (c # a, b, found)))"

definition parse_host :: "string \<Rightarrow> string option" where
  "parse_host host =
     (if has_prefix host ''['' then
        (case before_last (CHR '']'') host of
           None \<Rightarrow> None
         | Some (inner, port) \<Rightarrow>
             if \<not> valid_optional_port port then None else
             (case cut_before ''%25'' inner of (name, zone, found) \<Rightarrow>
                if found then
                  (case (unescape Encode_host name, unescape Encode_zone zone, unescape Encode_host (CHR '']'' # port)) of
                     (Some h1, Some h2, Some h3) \<Rightarrow> Some (h1 @ h2 @ h3)
                   | _ \<Rightarrow> None)
                else unescape Encode_host host))
      else
        (case before_last (CHR '':'') host of
           None \<Rightarrow> unescape Encode_host host
         | Some (name, port) \<Rightarrow> if list_all digit port then unescape Encode_host host else None))"

definition user_ok :: "string \<Rightarrow> bool" where
  "user_ok user \<longleftrightarrow> list_all user_char user \<and>
     (case cut_at (CHR '':'') user of (name, password, found) \<Rightarrow>
        unescape Encode_user name \<noteq> None \<and> (found \<longrightarrow> unescape Encode_user password \<noteq> None))"

definition parse_authority :: "string \<Rightarrow> string option" where
  "parse_authority authority =
     (case before_last (CHR ''@'') authority of
        None \<Rightarrow> parse_host authority
      | Some (user, host) \<Rightarrow>
          (case parse_host host of
             None \<Rightarrow> None
           | Some h \<Rightarrow> if user_ok user then Some h else None))"

section \<open>URLs\<close>

definition cut_query :: "string \<Rightarrow> string \<times> string" where
  "cut_query rest =
     (if rest \<noteq> [] \<and> last rest = CHR ''?'' \<and> CHR ''?'' \<notin> set (butlast rest) then (butlast rest, [])
      else (case cut_at (CHR ''?'') rest of (prior, post, found) \<Rightarrow> (prior, post)))"

definition finish_url :: "string \<Rightarrow> string \<Rightarrow> string \<Rightarrow> string \<Rightarrow> url option" where
  "finish_url scheme host query rest =
     map_option (\<lambda>p. \<lparr>url_scheme = scheme, url_host = host, url_path = p, url_query = query, url_fragment = []\<rparr>)
       (unescape Encode_path rest)"

definition parse_hierarchical :: "string \<Rightarrow> string \<Rightarrow> string \<Rightarrow> url option" where
  "parse_hierarchical scheme query rest =
     (if (scheme \<noteq> [] \<or> \<not> has_prefix rest ''///'') \<and> has_prefix rest ''//'' then
        (let (authority, slashed) = (takeWhile (\<lambda>c. c \<noteq> CHR ''/'') (drop 2 rest), dropWhile (\<lambda>c. c \<noteq> CHR ''/'') (drop 2 rest))
         in case parse_authority authority of
              None \<Rightarrow> None
            | Some host \<Rightarrow> finish_url scheme host query slashed)
      else finish_url scheme [] query rest)"

definition parse_without_fragment :: "string \<Rightarrow> url option" where
  "parse_without_fragment raw =
     (if list_ex control_char raw then None
      else if raw = ''*'' then Some \<lparr>url_scheme = [], url_host = [], url_path = ''*'', url_query = [], url_fragment = []\<rparr>
      else case get_scheme raw of None \<Rightarrow> None | Some (scheme, rest) \<Rightarrow>
        let scheme = to_lower scheme; (rest, query) = cut_query rest in
        if \<not> has_prefix rest ''/'' then
          (if scheme \<noteq> [] then Some \<lparr>url_scheme = scheme, url_host = [], url_path = [], url_query = query, url_fragment = []\<rparr>
           else if CHR '':'' \<in> set (takeWhile (\<lambda>c. c \<noteq> CHR ''/'') rest) then None
           else parse_hierarchical scheme query rest)
        else parse_hierarchical scheme query rest)"

definition parse_url :: "string \<Rightarrow> url option" where
  "parse_url raw =
     (case cut_at (CHR ''#'') raw of (prior, fragment, found) \<Rightarrow>
      case parse_without_fragment prior of None \<Rightarrow> None | Some u \<Rightarrow>
      if fragment = [] then Some u
      else map_option (\<lambda>f. u\<lparr>url_fragment := f\<rparr>) (unescape Encode_fragment fragment))"

section \<open>Facts\<close>

text \<open>A URL with a host starts with its scheme and two slashes.\<close>

lemma to_lower_nonempty [simp]: "to_lower s = [] \<longleftrightarrow> s = []"
  by (simp add: to_lower_def)

lemma get_scheme_text: "get_scheme s = Some (scheme, rest) \<Longrightarrow> scheme \<noteq> [] \<Longrightarrow> s = scheme @ '':'' @ rest"
proof -
  have e: "scheme_end t i = Some (Some j) \<Longrightarrow> i \<le> j \<and> j - i < length t \<and> t ! (j - i) = CHR '':''" for t i j
    by (induction t i rule: scheme_end.induct) (auto simp: nth_Cons' split: if_splits)
  assume "get_scheme s = Some (scheme, rest)" "scheme \<noteq> []"
  then obtain i where i: "scheme_end s 0 = Some (Some i)" "scheme = take i s" "rest = drop (i + 1) s"
    by (auto simp: get_scheme_def split: option.splits)
  with e [of s 0 i] have "i < length s" "s ! i = CHR '':''" by auto
  then have "s = take i s @ CHR '':'' # drop (Suc i) s"
    using id_take_nth_drop [of i s] by simp
  with i(2,3) show ?thesis by simp
qed

end
