(* ===== verification/Config.thy ===== *)
theory Config
  imports Url Storage
begin

text \<open>
  src/internal/config/config.go: reading the configuration from environment variables, and the
  checks it must pass. The variables are a parameter (\<open>se_lookup\<close>, \<^verbatim>\<open>os.LookupEnv\<close>), and so is
  \<^verbatim>\<open>time.ParseDuration\<close> (\<open>se_duration\<close>); the errors are values that name the check and what
  failed it.
\<close>

record settings =
  se_lookup :: "string \<Rightarrow> string option"
  se_duration :: "string \<Rightarrow> duration option"

section \<open>Data\<close>

record http_config =
  hc_address :: string
  hc_read_header_timeout :: duration
  hc_read_timeout :: duration
  hc_write_timeout :: duration
  hc_idle_timeout :: duration
  hc_shutdown_timeout :: duration
  hc_max_header_bytes :: int

record auth_config =
  ac_jwt_secret :: string
  ac_jwt_issuer :: string
  ac_access_token_ttl :: duration
  ac_refresh_token_ttl :: duration
  ac_secure_cookies :: bool
  ac_cookie_domain :: string
  ac_login_rate_limit :: int
  ac_login_rate_window :: duration
  ac_refresh_rate_limit :: int
  ac_refresh_rate_window :: duration
  ac_username :: string
  ac_password :: string

record storage_config =
  sc_root :: string
  sc_max_bytes :: int
  sc_allowed_mimes :: "string list"
  sc_mounts :: "mount_spec list"

record remote_server =
  rm_name :: string
  rm_base :: string

record ui_config =
  uc_api_base :: string
  uc_remote_servers :: "remote_server list"
  uc_disabled :: bool

record config =
  cf_environment :: string
  cf_http :: http_config
  cf_auth :: auth_config
  cf_database_path :: string
  cf_storage :: storage_config
  cf_allowed_origins :: "string list"
  cf_ui :: ui_config

datatype config_error =
    Bad_mount_entry string | Empty_mount_path string | No_disk_named
  | Bad_server_entry string | Bad_server_url string
  | Environment_empty | Address_empty | Timeouts_not_positive | Header_limit_small
  | Secret_short | Secret_unchanged | Username_empty | Password_empty | Password_unchanged | Password_short
  | Insecure_cookies | Issuer_empty | Lifetimes_invalid | Rate_limits_invalid | Database_path_empty
  | Storage_invalid | No_mounts | Mount_invalid string | Mount_duplicate string
  | Origin_invalid string | Api_base_invalid
  | Server_invalid string | Server_duplicate string | Server_base_duplicate string

definition default_username :: string where "default_username = ''Naman''"
definition default_password :: string where "default_password = ''7564''"
definition development_secret :: string where "development_secret = ''development-only-change-me-please-32-bytes!''"

section \<open>Variables\<close>

definition get_string :: "settings \<Rightarrow> string \<Rightarrow> string \<Rightarrow> string" where
  "get_string S key fallback = (case se_lookup S key of Some v \<Rightarrow> v | None \<Rightarrow> fallback)"

definition get_env :: "settings \<Rightarrow> string \<Rightarrow> string" where
  "get_env S key = (case se_lookup S key of Some v \<Rightarrow> v | None \<Rightarrow> [])"

text \<open>The common shape of the typed readers: unset or blank gives the fallback, unreadable the zero value.\<close>

definition get_typed :: "settings \<Rightarrow> (string \<Rightarrow> 'a option) \<Rightarrow> 'a \<Rightarrow> string \<Rightarrow> 'a \<Rightarrow> 'a" where
  "get_typed S parse zero key fallback =
     (case se_lookup S key of
        None \<Rightarrow> fallback
      | Some v \<Rightarrow> if trim_space v = [] then fallback else (case parse v of None \<Rightarrow> zero | Some x \<Rightarrow> x))"

definition get_duration :: "settings \<Rightarrow> string \<Rightarrow> duration \<Rightarrow> duration" where
  "get_duration S = get_typed S (se_duration S) 0"

definition get_int :: "settings \<Rightarrow> string \<Rightarrow> int \<Rightarrow> int" where
  "get_int S = get_typed S (\<lambda>v. case atoi v of (n, None) \<Rightarrow> Some n | _ \<Rightarrow> None) 0"

definition get_int64 :: "settings \<Rightarrow> string \<Rightarrow> int \<Rightarrow> int" where
  "get_int64 S = get_typed S (\<lambda>v. case parse_int v of (n, None) \<Rightarrow> Some n | _ \<Rightarrow> None) 0"

text \<open>\<^verbatim>\<open>strconv.ParseBool\<close>\<close>

definition parse_bool :: "string \<Rightarrow> bool option" where
  "parse_bool v =
     (if v \<in> set [''1'', ''t'', ''T'', ''true'', ''TRUE'', ''True''] then Some True
      else if v \<in> set [''0'', ''f'', ''F'', ''false'', ''FALSE'', ''False''] then Some False else None)"

definition get_bool :: "settings \<Rightarrow> string \<Rightarrow> bool \<Rightarrow> bool" where
  "get_bool S = get_typed S parse_bool False"

definition parse_csv :: "settings \<Rightarrow> string \<Rightarrow> string list" where
  "parse_csv S key =
     map (trim_right_char (CHR ''/'')) (filter (\<lambda>item. item \<noteq> []) (map trim_space (split_on (CHR '','') (get_env S key))))"

section \<open>Disks\<close>

text \<open>The pattern \<^verbatim>\<open>^[A-Za-z0-9._-]{1,64}$\<close>.\<close>

definition valid_mount_id :: "string \<Rightarrow> bool" where
  "valid_mount_id s \<longleftrightarrow> 1 \<le> length s \<and> length s \<le> 64 \<and> list_all id_char s"

text \<open>\<open>None\<close> for a blank entry, the empty \<^verbatim>\<open>MountSpec\<close> of the code.\<close>

definition parse_mount_entry :: "string \<Rightarrow> config_error + mount_spec option" where
  "parse_mount_entry raw =
     (let entry = trim_space raw in
      if entry = [] then Inr None else
      (case cut_at (CHR ''='') entry of (prior, post, found) \<Rightarrow>
       let name = trim_space prior; path = trim_space post in
       if \<not> found \<or> \<not> valid_mount_id name then Inl (Bad_mount_entry entry)
       else if path = [] then Inl (Empty_mount_path entry)
       else Inr (Some \<lparr>ms_id = name, ms_name = name, ms_root = path\<rparr>)))"

fun parse_entries :: "string list \<Rightarrow> config_error + mount_spec list" where
  "parse_entries [] = Inr []"
| "parse_entries (e # es) =
     (case parse_mount_entry e of
        Inl x \<Rightarrow> Inl x
      | Inr spec \<Rightarrow>
          (case parse_entries es of
             Inl x \<Rightarrow> Inl x
           | Inr specs \<Rightarrow> Inr (case spec of None \<Rightarrow> specs | Some s \<Rightarrow> s # specs)))"

text \<open>The first disk gets the identifier \<open>default\<close> unless some disk has it already.\<close>

definition mark_default :: "mount_spec list \<Rightarrow> mount_spec list" where
  "mark_default specs =
     (if list_ex (\<lambda>s. ms_id s = ''default'') specs then specs
      else (case specs of [] \<Rightarrow> [] | s # ss \<Rightarrow> s\<lparr>ms_id := ''default''\<rparr> # ss))"

definition parse_mounts :: "string \<Rightarrow> string \<Rightarrow> config_error + mount_spec list" where
  "parse_mounts v root =
     (if trim_space v = [] then Inr [\<lparr>ms_id = ''default'', ms_name = ''Main'', ms_root = trim_space root\<rparr>]
      else (case parse_entries (split_on (CHR '';'') v) of
              Inl e \<Rightarrow> Inl e
            | Inr specs \<Rightarrow> if specs = [] then Inl No_disk_named else Inr (mark_default specs)))"

section \<open>Origins and remote servers\<close>

definition http_scheme :: "url \<Rightarrow> bool" where
  "http_scheme u \<longleftrightarrow> (url_scheme u = ''http'' \<or> url_scheme u = ''https'') \<and> url_host u \<noteq> []"

definition valid_origin :: "string \<Rightarrow> bool" where
  "valid_origin v = (case parse_url (trim_space v) of None \<Rightarrow> False | Some u \<Rightarrow> http_scheme u)"

definition valid_cors_origin :: "string \<Rightarrow> bool" where
  "valid_cors_origin v = (case parse_url (trim_space v) of None \<Rightarrow> False | Some u \<Rightarrow>
     http_scheme u \<and> url_path u = [] \<and> url_query u = [] \<and> url_fragment u = [])"

fun parse_servers :: "string list \<Rightarrow> config_error + remote_server list" where
  "parse_servers [] = Inr []"
| "parse_servers (raw # es) =
     (let entry = trim_space raw in
      if entry = [] then parse_servers es else
      (case cut_at (CHR ''='') entry of (prior, post, found) \<Rightarrow>
       let name = trim_space prior; base = trim_right_char (CHR ''/'') (trim_space post) in
       if \<not> found \<or> name = [] \<or> \<not> valid_mount_id name \<or> base = [] then Inl (Bad_server_entry entry)
       else if \<not> valid_origin base then Inl (Bad_server_url entry)
       else (case parse_servers es of
               Inl x \<Rightarrow> Inl x
             | Inr servers \<Rightarrow> Inr (\<lparr>rm_name = name, rm_base = base\<rparr> # servers))))"

definition parse_remote_servers :: "string \<Rightarrow> config_error + remote_server list" where
  "parse_remote_servers v = parse_servers (split_on (CHR '';'') v)"

section \<open>The checks\<close>

fun validate_mounts :: "string list \<Rightarrow> mount_spec list \<Rightarrow> config_error option" where
  "validate_mounts seen [] = None"
| "validate_mounts seen (m # ms) =
     (if \<not> valid_mount_id (ms_id m) \<or> trim_space (ms_name m) = [] \<or> trim_space (ms_root m) = []
      then Some (Mount_invalid (ms_id m))
      else if ms_id m \<in> set seen then Some (Mount_duplicate (ms_id m))
      else validate_mounts (ms_id m # seen) ms)"

fun validate_servers :: "string list \<Rightarrow> string list \<Rightarrow> remote_server list \<Rightarrow> config_error option" where
  "validate_servers names bases [] = None"
| "validate_servers names bases (s # ss) =
     (if \<not> valid_mount_id (rm_name s) \<or> trim_space (rm_base s) = [] then Some (Server_invalid (rm_name s))
      else if \<not> valid_origin (rm_base s) then Some (Bad_server_url (rm_name s))
      else if rm_name s \<in> set names then Some (Server_duplicate (rm_name s))
      else if rm_base s \<in> set bases then Some (Server_base_duplicate (rm_name s))
      else validate_servers (rm_name s # names) (rm_base s # bases) ss)"

definition production :: "config \<Rightarrow> bool" where
  "production c = equal_fold (cf_environment c) ''production''"

definition validate_auth :: "config \<Rightarrow> config_error option" where
  "validate_auth c =
     (let a = cf_auth c in
      if length (ac_jwt_secret a) < 32 then Some Secret_short
      else if production c \<and> ac_jwt_secret a = development_secret then Some Secret_unchanged
      else if trim_space (ac_username a) = [] then Some Username_empty
      else if ac_password a = [] then Some Password_empty
      else if production c \<and> ac_password a = default_password then Some Password_unchanged
      else if production c \<and> length (ac_password a) < 8 then Some Password_short
      else if production c \<and> \<not> ac_secure_cookies a then Some Insecure_cookies
      else if trim_space (ac_jwt_issuer a) = [] then Some Issuer_empty
      else if ac_access_token_ttl a \<le> 0 \<or> ac_refresh_token_ttl a \<le> ac_access_token_ttl a then Some Lifetimes_invalid
      else if ac_login_rate_limit a \<le> 0 \<or> ac_refresh_rate_limit a \<le> 0 \<or> ac_login_rate_window a \<le> 0
        \<or> ac_refresh_rate_window a \<le> 0 then Some Rate_limits_invalid
      else None)"

definition validate_ui :: "config \<Rightarrow> config_error option" where
  "validate_ui c =
     (case List.find (\<lambda>origin. \<not> valid_cors_origin origin) (cf_allowed_origins c) of
        Some origin \<Rightarrow> Some (Origin_invalid origin)
      | None \<Rightarrow>
          if trim_space (uc_api_base (cf_ui c)) \<noteq> [] \<and> \<not> valid_origin (uc_api_base (cf_ui c)) then Some Api_base_invalid
          else validate_servers [] [] (uc_remote_servers (cf_ui c)))"

definition validate_storage :: "config \<Rightarrow> config_error option" where
  "validate_storage c =
     (if trim_space (cf_database_path c) = [] then Some Database_path_empty
      else if sc_max_bytes (cf_storage c) \<le> 0 then Some Storage_invalid
      else if sc_mounts (cf_storage c) = [] then Some No_mounts
      else validate_mounts [] (sc_mounts (cf_storage c)))"

definition validate :: "config \<Rightarrow> config_error option" where
  "validate c =
     (let h = cf_http c in
      if trim_space (cf_environment c) = [] then Some Environment_empty
      else if trim_space (hc_address h) = [] then Some Address_empty
      else if hc_read_header_timeout h \<le> 0 \<or> hc_read_timeout h \<le> 0 \<or> hc_write_timeout h \<le> 0
        \<or> hc_idle_timeout h \<le> 0 \<or> hc_shutdown_timeout h \<le> 0 then Some Timeouts_not_positive
      else if hc_max_header_bytes h < 1024 then Some Header_limit_small
      else (case validate_auth c of Some e \<Rightarrow> Some e | None \<Rightarrow>
            case validate_storage c of Some e \<Rightarrow> Some e | None \<Rightarrow> validate_ui c))"

section \<open>Loading\<close>

definition seconds :: "int \<Rightarrow> duration" where "seconds n = n * 1000000000"
definition minutes :: "int \<Rightarrow> duration" where "minutes n = seconds (60 * n)"

definition read_http :: "settings \<Rightarrow> http_config" where
  "read_http S =
     \<lparr>hc_address = get_string S ''HTTP_ADDRESS'' '':8080'',
      hc_read_header_timeout = get_duration S ''HTTP_READ_HEADER_TIMEOUT'' (seconds 5),
      hc_read_timeout = get_duration S ''HTTP_READ_TIMEOUT'' (minutes 30),
      hc_write_timeout = get_duration S ''HTTP_WRITE_TIMEOUT'' (seconds 30),
      hc_idle_timeout = get_duration S ''HTTP_IDLE_TIMEOUT'' (seconds 60),
      hc_shutdown_timeout = get_duration S ''HTTP_SHUTDOWN_TIMEOUT'' (seconds 10),
      hc_max_header_bytes = get_int S ''HTTP_MAX_HEADER_BYTES'' (2 ^ 20)\<rparr>"

definition read_auth :: "settings \<Rightarrow> auth_config" where
  "read_auth S =
     \<lparr>ac_jwt_secret = get_string S ''JWT_SECRET'' development_secret,
      ac_jwt_issuer = get_string S ''JWT_ISSUER'' ''fileservice'',
      ac_access_token_ttl = get_duration S ''JWT_ACCESS_TTL'' (minutes 15),
      ac_refresh_token_ttl = get_duration S ''JWT_REFRESH_TTL'' (minutes (7 * 24 * 60)),
      ac_secure_cookies = get_bool S ''SECURE_COOKIES'' False,
      ac_cookie_domain = get_string S ''COOKIE_DOMAIN'' [],
      ac_login_rate_limit = get_int S ''LOGIN_RATE_LIMIT'' 5,
      ac_login_rate_window = get_duration S ''LOGIN_RATE_WINDOW'' (minutes 1),
      ac_refresh_rate_limit = get_int S ''REFRESH_RATE_LIMIT'' 10,
      ac_refresh_rate_window = get_duration S ''REFRESH_RATE_WINDOW'' (minutes 1),
      ac_username = get_string S ''N_DRIVE_USERNAME'' default_username,
      ac_password = get_string S ''N_DRIVE_PASSWORD'' default_password\<rparr>"

definition load :: "settings \<Rightarrow> config_error + config" where
  "load S =
     (case parse_remote_servers (get_env S ''UI_REMOTE_SERVERS'') of Inl e \<Rightarrow> Inl e | Inr servers \<Rightarrow>
      let root = get_string S ''STORAGE_ROOT'' ''data/objects'';
          ui = \<lparr>uc_api_base = trim_right_char (CHR ''/'') (trim_space (get_string S ''UI_API_BASE'' [])),
                uc_remote_servers = servers, uc_disabled = get_bool S ''UI_DISABLED'' False\<rparr> in
      (case parse_mounts (get_env S ''STORAGE_MOUNTS'') root of Inl e \<Rightarrow> Inl e | Inr specs \<Rightarrow>
      let c = \<lparr>cf_environment = get_string S ''APP_ENV'' ''development'', cf_http = read_http S, cf_auth = read_auth S,
               cf_database_path = get_string S ''DATABASE_PATH'' ''data/fileservice.db'',
               cf_storage = \<lparr>sc_root = root, sc_max_bytes = get_int64 S ''UPLOAD_MAX_BYTES'' (5 * 2 ^ 30),
                 sc_allowed_mimes = [], sc_mounts = specs\<rparr>,
               cf_allowed_origins = parse_csv S ''CORS_ALLOWED_ORIGINS'', cf_ui = ui\<rparr>
      in (case validate c of Some e \<Rightarrow> Inl e | None \<Rightarrow> Inr c)))"

end
