(* ===== verification/Web_Pages.thy ===== *)
theory Web_Pages
  imports Middleware Config
begin

text \<open>
  The pages of the built-in UI: src/internal/handler/httpapi/landing.go and web.go. The HTML
  texts of the two constants are parameters; the code that puts a fresh nonce and the addresses of
  the servers into them, and the policy that says what the page may load and connect to, is
  translated. \<^verbatim>\<open>strconv.Quote\<close> and the JSON of a text are modelled on ASCII texts;
  other bytes stand for themselves.
\<close>

section \<open>Replacing text\<close>

text \<open>\<^verbatim>\<open>strings.Replace(s, old, new, 1)\<close> and \<^verbatim>\<open>strings.ReplaceAll\<close>, for a nonempty \<open>old\<close>.\<close>

definition replace_first :: "string \<Rightarrow> string \<Rightarrow> string \<Rightarrow> string" where
  "replace_first old new s =
     (case cut_before old s of (prior, rest, found) \<Rightarrow> if found then prior @ new @ drop (length old) rest else s)"

function replace_all :: "string \<Rightarrow> string \<Rightarrow> string \<Rightarrow> string" where
  "replace_all old new [] = []"
| "replace_all old new (c # s) =
     (if old \<noteq> [] \<and> has_prefix (c # s) old then new @ replace_all old new (drop (length old) (c # s))
      else c # replace_all old new s)"
  by pat_completeness auto
termination
  by (relation "measure (\<lambda>(old, new, s). length s)") (auto simp: neq_Nil_conv)

section \<open>Texts in scripts\<close>

definition json_char :: "char \<Rightarrow> string" where
  "json_char c =
     (if c = CHR 0x22 \<or> c = CHR 0x5C then [CHR 0x5C, c]
      else if c = CHR 0x08 then CHR 0x5C # ''b'' else if c = CHR 0x0C then CHR 0x5C # ''f''
      else if c = CHR 0x0A then CHR 0x5C # ''n'' else if c = CHR 0x0D then CHR 0x5C # ''r''
      else if c = CHR 0x09 then CHR 0x5C # ''t''
      else if c < CHR 0x20 \<or> c \<in> set ''<>&'' then CHR 0x5C # ''u00'' @ hex_encode [c]
      else [c])"

definition json_text :: "string \<Rightarrow> string" where
  "json_text s = CHR 0x22 # concat (map json_char s) @ [CHR 0x22]"

text \<open>One server as \<^verbatim>\<open>json.Marshal\<close> writes the map: the keys in order.\<close>

definition server_json :: "remote_server \<Rightarrow> string" where
  "server_json s = ''{'' @ json_text ''base'' @ '':'' @ json_text (rm_base s) @ '','' @ json_text ''name'' @ '':''
     @ json_text (rm_name s) @ ''}''"

definition servers_json :: "remote_server list \<Rightarrow> string" where
  "servers_json ss = ''['' @ join_with (CHR '','') (map server_json ss) @ '']''"

section \<open>web.go\<close>

definition origin_of :: "string \<Rightarrow> string option" where
  "origin_of v = (case parse_url (trim_space v) of None \<Rightarrow> None | Some u \<Rightarrow>
     if url_scheme u = [] \<or> url_host u = [] then None else Some (url_scheme u @ ''://'' @ url_host u))"

definition quoted :: "string \<Rightarrow> string" where
  "quoted s = CHR 0x27 # s @ [CHR 0x27]"

text \<open>The address of a server as one more source of the policy.\<close>

definition source_of :: "string \<Rightarrow> string" where
  "source_of base = (case origin_of base of None \<Rightarrow> [] | Some origin \<Rightarrow> '' '' @ origin)"

definition connect_sources :: "string \<Rightarrow> remote_server list \<Rightarrow> string" where
  "connect_sources api_base remotes =
     (if remotes \<noteq> [] then quoted ''self'' @ concat (map (\<lambda>s. source_of (rm_base s)) remotes)
      else if trim_space api_base \<noteq> [] then quoted ''self'' @ source_of api_base
      else quoted ''self'')"

definition nonce_mark :: string where "nonce_mark = ''__NONCE__''"

definition script_tag :: string where
  "script_tag = ''<script nonce='' @ CHR 0x22 # nonce_mark @ [CHR 0x22] @ ''>''"

definition app_text :: "string \<Rightarrow> string \<Rightarrow> remote_server list \<Rightarrow> string" where
  "app_text html api_base remotes =
     (if remotes \<noteq> [] then
        replace_first script_tag (script_tag @ ''window.NDRIVE_SERVERS='' @ servers_json remotes @ '';'') html
      else if trim_space api_base \<noteq> [] then
        replace_first script_tag (script_tag @ ''window.NDRIVE_API_BASE='' @ quote api_base @ '';'') html
      else html)"

text \<open>16 random bytes; an error of the source is ignored and leaves zeros.\<close>

definition page_nonce :: "env \<Rightarrow> string http" where
  "page_nonce E = bindE (attempt (rand_io E)) (\<lambda>made.
     ret (raw_url_encode (case made of Inl e \<Rightarrow> replicate 16 (CHR 0x00) | Inr b \<Rightarrow> b)))"

definition serve_page :: "string \<Rightarrow> string \<Rightarrow> unit http" where
  "serve_page policy body =
     bindE (set_header ''Content-Security-Policy'' policy) (\<lambda>_.
     bindE (set_header ''Cache-Control'' ''no-store'') (\<lambda>_.
     bindE (set_header ''Content-Type'' ''text/html; charset=utf-8'') (\<lambda>_.
     bindE (write_status 200) (\<lambda>_.
     write_body (Text body)))))"

definition app_policy :: "string \<Rightarrow> string \<Rightarrow> string" where
  "app_policy nonce sources =
     ''default-src '' @ quoted ''none'' @ ''; style-src '' @ quoted (''nonce-'' @ nonce) @ ''; script-src ''
       @ quoted (''nonce-'' @ nonce) @ ''; connect-src '' @ sources @ ''; frame-ancestors '' @ quoted ''none''"

definition web_home_with :: "env \<Rightarrow> string \<Rightarrow> string \<Rightarrow> remote_server list \<Rightarrow> handler" where
  "web_home_with E html api_base remotes r =
     bindE (page_nonce E) (\<lambda>nonce.
     serve_page (app_policy nonce (connect_sources api_base remotes))
       (replace_all nonce_mark nonce (app_text html api_base remotes)))"

section \<open>landing.go\<close>

definition landing_policy :: "string \<Rightarrow> string" where
  "landing_policy nonce =
     ''default-src '' @ quoted ''none'' @ ''; style-src '' @ quoted (''nonce-'' @ nonce) @ ''; script-src ''
       @ quoted (''nonce-'' @ nonce) @ ''; frame-ancestors '' @ quoted ''none''"

definition web_landing :: "env \<Rightarrow> string \<Rightarrow> handler" where
  "web_landing E html r =
     bindE (page_nonce E) (\<lambda>nonce. serve_page (landing_policy nonce) (replace_all nonce_mark nonce html))"

section \<open>Frames\<close>

lemma serve_page_keeps [keeps_intro]: "keeps same_data (serve_page policy body)"
  unfolding serve_page_def by (intro keeps_intro) simp_all

lemma page_nonce_keeps [keeps_intro]: "keeps same_data (page_nonce E)"
  unfolding page_nonce_def by (intro keeps_intro) simp_all

lemma pages_keep: "keeps same_data (web_home_with E html api_base remotes r)" "keeps same_data (web_landing E page_html r)"
  unfolding web_home_with_def web_landing_def by (intro keeps_intro; simp)+

end
