(* ===== verification/Router.thy ===== *)
theory Router
  imports File_Handlers Web_Pages
begin

text \<open>
  src/internal/handler/httpapi/router.go: which handler serves which request, which routes
  require an access token or are limited in rate, and the middleware around all of them;
  and what the server sets up before it serves. \<open>route_of\<close> is net/http's ServeMux on the
  patterns the program registers: exact paths, \<^verbatim>\<open>{id}\<close> for one segment, GET patterns for HEAD too,
  405 where only other methods are registered, and a redirect (of which only the status is
  kept) where the path is not clean. The HTML of the two pages of the built-in UI is a parameter.
\<close>

section \<open>Routes\<close>

datatype route =
    Landing_page | App_page | Health
  | Login | Refresh | Logout | Me
  | List_folders | Create_folder | Rename_folder string | Delete_folder string
  | List_files | Upload | Download string | Rename_file string | Copy_file string | Move_file string | Delete_file string
  | Trash | Restore string | Purge string
  | Search | Disks | Dashboard
  | Moved_permanently | Not_found | Method_not_allowed

text \<open>The routes registered for a path, by method.\<close>

fun api_routes :: "string list \<Rightarrow> (string \<times> route) list" where
  "api_routes [p] = (if p = ''health'' then [(''GET'', Health)] else [])"
| "api_routes [api, a] =
     (if api \<noteq> ''api'' then [] else
      if a = ''folders'' then [(''GET'', List_folders), (''POST'', Create_folder)]
      else if a = ''files'' then [(''GET'', List_files)]
      else if a = ''trash'' then [(''GET'', Trash)]
      else if a = ''search'' then [(''GET'', Search)]
      else if a = ''disks'' then [(''GET'', Disks)]
      else if a = ''dashboard'' then [(''GET'', Dashboard)]
      else [])"
| "api_routes [api, a, b] =
     (if api \<noteq> ''api'' \<or> b = [] then [] else
      if a = ''auth'' then
        (if b = ''login'' then [(''POST'', Login)] else if b = ''refresh'' then [(''POST'', Refresh)]
         else if b = ''logout'' then [(''POST'', Logout)] else if b = ''me'' then [(''GET'', Me)] else [])
      else if a = ''folders'' then [(''PATCH'', Rename_folder b), (''DELETE'', Delete_folder b)]
      else if a = ''files'' then
        (if b = ''upload'' then [(''POST'', Upload)] else []) @ [(''PATCH'', Rename_file b), (''DELETE'', Delete_file b)]
      else if a = ''trash'' then [(''DELETE'', Purge b)]
      else [])"
| "api_routes [api, a, b, d] =
     (if api \<noteq> ''api'' \<or> b = [] then [] else
      if a = ''files'' then
        (if d = ''download'' then [(''GET'', Download b)] else if d = ''copy'' then [(''POST'', Copy_file b)]
         else if d = ''move'' then [(''POST'', Move_file b)] else [])
      else if a = ''trash'' \<and> d = ''restore'' then [(''POST'', Restore b)]
      else [])"
| "api_routes _ = []"

definition ui_routes :: "string list \<Rightarrow> (string \<times> route) list" where
  "ui_routes segs = (if segs = [''app''] then [(''GET'', App_page)] else [(''GET'', Landing_page)])"

definition match_method :: "string \<Rightarrow> (string \<times> route) list \<Rightarrow> route option" where
  "match_method m rs = map_of rs (if m = ''HEAD'' then ''GET'' else m)"

definition clean_segments :: "string list \<Rightarrow> bool" where
  "clean_segments segs \<longleftrightarrow> list_all (\<lambda>s. s \<noteq> ''.'' \<and> s \<noteq> ''..'') segs \<and> list_all (\<lambda>s. s \<noteq> []) (butlast segs)"

definition route_of :: "bool \<Rightarrow> string \<Rightarrow> string list \<Rightarrow> route" where
  "route_of ui_disabled m segs =
     (if m \<noteq> ''CONNECT'' \<and> \<not> clean_segments segs then Moved_permanently else
      case match_method m (api_routes segs) of
        Some r \<Rightarrow> r
      | None \<Rightarrow>
          let ui = (if ui_disabled then [] else ui_routes segs) in
          (case match_method m ui of
             Some r \<Rightarrow> r
           | None \<Rightarrow> if api_routes segs = [] \<and> ui = [] then Not_found else Method_not_allowed))"

section \<open>The server\<close>

record server =
  sv_auth :: auth_handler
  sv_files :: file_handler
  sv_origins :: "string list"
  sv_ui_disabled :: bool
  sv_api_base :: string
  sv_remotes :: "remote_server list"
  sv_index_html :: string
  sv_landing_html :: string

fun path_id :: "route \<Rightarrow> string" where
  "path_id (Rename_folder i) = i" | "path_id (Delete_folder i) = i"
| "path_id (Download i) = i" | "path_id (Rename_file i) = i" | "path_id (Copy_file i) = i" | "path_id (Move_file i) = i"
| "path_id (Delete_file i) = i" | "path_id (Restore i) = i" | "path_id (Purge i) = i" | "path_id _ = []"

definition protected :: "env \<Rightarrow> server \<Rightarrow> handler \<Rightarrow> handler" where
  "protected E S h = require_access_token E (ah_tokens (sv_auth S)) h"

fun serve_route :: "env \<Rightarrow> server \<Rightarrow> route \<Rightarrow> handler" where
  "serve_route E S Landing_page = web_landing E (sv_landing_html S)"
| "serve_route E S App_page = web_home_with E (sv_index_html S) (sv_api_base S) (sv_remotes S)"
| "serve_route E S Health = health"
| "serve_route E S Login = rate_limited E cn_login (\<lambda>l c. c\<lparr>cn_login := l\<rparr>) (login_handler E (sv_auth S))"
| "serve_route E S Refresh = rate_limited E cn_refresh (\<lambda>l c. c\<lparr>cn_refresh := l\<rparr>) (refresh_handler E (sv_auth S))"
| "serve_route E S Logout = protected E S (logout_handler E (sv_auth S))"
| "serve_route E S Me = protected E S (me_handler E (sv_auth S))"
| "serve_route E S List_folders = protected E S (list_folders_handler E (sv_files S))"
| "serve_route E S Create_folder = protected E S (create_folder_handler E (sv_files S))"
| "serve_route E S (Rename_folder i) = protected E S (rename_folder_handler E (sv_files S))"
| "serve_route E S (Delete_folder i) = protected E S (delete_folder_handler E (sv_files S))"
| "serve_route E S List_files = protected E S (list_files_handler E (sv_files S))"
| "serve_route E S Upload = protected E S (upload_handler E (sv_files S))"
| "serve_route E S (Download i) = protected E S (download_handler E (sv_files S))"
| "serve_route E S (Rename_file i) = protected E S (rename_file_handler E (sv_files S))"
| "serve_route E S (Copy_file i) = protected E S (copy_file_handler E (sv_files S))"
| "serve_route E S (Move_file i) = protected E S (move_file_handler E (sv_files S))"
| "serve_route E S (Delete_file i) = protected E S (delete_file_handler E (sv_files S))"
| "serve_route E S Trash = protected E S (trash_handler E (sv_files S))"
| "serve_route E S (Restore i) = protected E S (restore_handler E (sv_files S))"
| "serve_route E S (Purge i) = protected E S (purge_handler E (sv_files S))"
| "serve_route E S Search = protected E S (search_handler E (sv_files S))"
| "serve_route E S Disks = protected E S (disks_handler E (sv_files S))"
| "serve_route E S Dashboard = protected E S (dashboard_handler E (sv_files S))"
| "serve_route E S Moved_permanently = (\<lambda>r. write_status 301)"
| "serve_route E S Not_found = (\<lambda>r. http_error ''404 page not found'' 404)"
| "serve_route E S Method_not_allowed = (\<lambda>r. http_error ''Method Not Allowed'' 405)"

definition mux :: "env \<Rightarrow> server \<Rightarrow> handler" where
  "mux E S r =
     (let route = route_of (sv_ui_disabled S) (rq_method r) (rq_segments r)
      in serve_route E S route (r\<lparr>rq_path_id := path_id route\<rparr>))"

definition router :: "env \<Rightarrow> server \<Rightarrow> handler" where
  "router E S = chain (mux E S)
     [cors (sv_origins S), recover, request_id E, security_headers, logging E]"

text \<open>One request from arrival to the response.\<close>

definition handle_request :: "env \<Rightarrow> server \<Rightarrow> request \<Rightarrow> conn \<Rightarrow> conn" where
  "handle_request E S r c =
     snd (router E S (r\<lparr>rq_claims := None, rq_request_id := []\<rparr>) (c\<lparr>cn_deadline := None, cn_response := no_response\<rparr>))"

end
