(* ===== verification/Http_Guard.thy ===== *)
theory Http_Guard
  imports Router
begin

text \<open>
  What a request must carry before the server changes anything: the access check of
  \<open>require_access_token\<close> as a condition on the request, the stored sessions and the clock; and the
  way of a request through the middleware to its route, with what it draws on the way.
\<close>

section \<open>What a request must carry\<close>

text \<open>
  The access check, for a request that reaches it in the world \<open>w\<close>: the token is accepted by the
  parser at the reading of the clock that the check makes, the session it names is stored, not revoked, and
  expires after the next reading, only one transport is used, and a cookie that asks for a change comes
  with its CSRF token.
\<close>

definition authorized :: "env \<Rightarrow> token_manager \<Rightarrow> request \<Rightarrow> world \<Rightarrow> bool" where
  "authorized E m r w \<longleftrightarrow>
     (\<exists>cl. x_jwt_parse E (key_func m) (tm_issuer m) [''HS256''] (x_clock E (w_clock w)) (token_from ''access_token'' r) = Some (cl, True) \<and>
        c_subject cl \<noteq> [] \<and> c_id cl \<noteq> [] \<and>
        (\<exists>s expires. row_with session_table s_id (c_id cl) (w_db w) = Some s \<and> s_revoked_at s = None \<and>
           parse_time (s_expires_at s) = Some expires \<and> x_clock E (Suc (w_clock w)) < expires)) \<and>
     (rq_cookie r ''access_token'' \<noteq> None \<longleftrightarrow> \<not> has_prefix (rq_header r ''Authorization'') ''Bearer '') \<and>
     (rq_cookie r ''access_token'' \<noteq> None \<longrightarrow> safe_cookie_mutation r)"

text \<open>The world in which the check of a request that arrives in \<open>w\<close> starts: its identifier drawn, its start logged.\<close>

definition arrival :: "env \<Rightarrow> request \<Rightarrow> world \<Rightarrow> world" where
  "arrival E r w =
     (let w1 = (if valid_request_id (rq_header r ''X-Request-ID'') then w else snd (new_request_id E w))
      in w1\<lparr>w_clock := Suc (w_clock w1)\<rparr>)"

text \<open>The world in which an admitted request starts its handler.\<close>

definition admission :: "world \<Rightarrow> world" where
  "admission w = w\<lparr>w_clock := Suc (Suc (w_clock w)), w_sql := Suc (w_sql w)\<rparr>"

lemma request_update [simp]:
  "token_from n (r\<lparr>rq_claims := x\<rparr>) = token_from n r" "token_from n (r\<lparr>rq_request_id := i\<rparr>) = token_from n r"
  "token_from n (r\<lparr>rq_path_id := i\<rparr>) = token_from n r"
  "safe_cookie_mutation (r\<lparr>rq_claims := x\<rparr>) = safe_cookie_mutation r"
  "safe_cookie_mutation (r\<lparr>rq_request_id := i\<rparr>) = safe_cookie_mutation r"
  "safe_cookie_mutation (r\<lparr>rq_path_id := i\<rparr>) = safe_cookie_mutation r"
  by (simp_all add: token_from_def safe_cookie_mutation_def csrf_token_valid_def Let_def split: option.split)

lemma authorized_update [simp]:
  "authorized E m (r\<lparr>rq_claims := x\<rparr>) w = authorized E m r w"
  "authorized E m (r\<lparr>rq_request_id := i\<rparr>) w = authorized E m r w"
  "authorized E m (r\<lparr>rq_path_id := i\<rparr>) w = authorized E m r w"
  by (simp_all add: authorized_def)

lemma arrival_update [simp]:
  "arrival E (r\<lparr>rq_claims := x\<rparr>) w = arrival E r w" "arrival E (r\<lparr>rq_request_id := i\<rparr>) w = arrival E r w"
  by (simp_all add: arrival_def)

section \<open>The access check\<close>

lemma attempt_eq: "attempt m c =
    (case m (cn_world c) of (Inl (Panic p), w) \<Rightarrow> (Inl (Panic p), c\<lparr>cn_world := w\<rparr>) | (r, w) \<Rightarrow> (Inr r, c\<lparr>cn_world := w\<rparr>))"
  by (auto simp: attempt_def Let_def split: prod.split sum.split err.split)

lemma attempt_Inr:
  "attempt m c = (Inr (Inr x), c1) \<longleftrightarrow> (\<exists>w. m (cn_world c) = (Inr x, w) \<and> c1 = c\<lparr>cn_world := w\<rparr>)"
  by (auto simp: attempt_eq split: prod.splits sum.splits err.splits)

lemma validate_session_world: "snd (validate_session E i now w) = w\<lparr>w_sql := Suc (w_sql w)\<rparr>"
  by (auto simp: validate_session_def bindE_def wrapE_def handleE_def sql_query_def sql_io_def Let_def parse_io_def guardE_def
      ret_def raise_def split: option.split sum.split)

lemma write_auth_error_keeps [keeps_intro]: "keeps same_data write_auth_error"
  unfolding write_auth_error_def by (intro keeps_intro)

text \<open>
  The check ends in the reply 401 or hands the request on, and then the request is authorized;
  in between nothing is written.
\<close>

lemma no_panic: "fst (validate_access_token E m raw w) \<noteq> Inl (Panic p)" "fst (validate_session E i now w) \<noteq> Inl (Panic p)"
proof -
  have "validate_access_token E m raw w \<noteq> (Inl (Panic p), w1)" "validate_session E i now w \<noteq> (Inl (Panic p), w1)" for w1
    by (auto simp: validate_access_token_def validate_session_def bindE_eq_Inl wrapE_Inl now_io_def parse_io_def
        split: option.splits prod.splits if_splits)
  then show "fst (validate_access_token E m raw w) \<noteq> Inl (Panic p)" "fst (validate_session E i now w) \<noteq> Inl (Panic p)"
    by (metis prod.collapse)+
qed

lemma attempt_total:
  assumes "\<And>w p. fst (m w) \<noteq> Inl (Panic p)"
  shows "attempt m c = (Inr (fst (m (cn_world c))), c\<lparr>cn_world := snd (m (cn_world c))\<rparr>)"
proof (cases "m (cn_world c)")
  case (Pair q w)
  have "q \<noteq> Inl (Panic p)" for p using assms [of "cn_world c" p] Pair by simp
  then show ?thesis by (auto simp: attempt_eq Pair split: sum.split err.split)
qed

text \<open>The check in full: refused with nothing written, or admitted with the claims of the token.\<close>

lemma require_run:
  "\<not> (authorized E m r (cn_world c) \<and> x_sql_fault E (w_sql (cn_world c)) = None) \<Longrightarrow>
   \<exists>c1. same_data c c1 \<and> cn_response c1 = cn_response c \<and> require_access_token E m nxt r c = write_auth_error c1"
  "authorized E m r (cn_world c) \<Longrightarrow> x_sql_fault E (w_sql (cn_world c)) = None \<Longrightarrow>
   \<exists>cl. x_jwt_parse E (key_func m) (tm_issuer m) [''HS256''] (x_clock E (w_clock (cn_world c))) (token_from ''access_token'' r) = Some (cl, True) \<and>
      require_access_token E m nxt r c = nxt (r\<lparr>rq_claims := Some cl\<rparr>) (c\<lparr>cn_world := admission (cn_world c)\<rparr>)"
proof -
  let ?w = "cn_world c" and ?raw = "token_from ''access_token'' r"
  let ?parsed = "\<lambda>cl. x_jwt_parse E (key_func m) (tm_issuer m) [''HS256''] (x_clock E (w_clock ?w)) ?raw = Some (cl, True) \<and>
    c_subject cl \<noteq> [] \<and> c_id cl \<noteq> []"
  let ?cookie = "rq_cookie r ''access_token'' \<noteq> None" and ?bearer = "has_prefix (rq_header r ''Authorization'') ''Bearer ''"
  let ?transport = "(?cookie \<longleftrightarrow> \<not> ?bearer) \<and> (?cookie \<longrightarrow> safe_cookie_mutation r)"
  let ?w1 = "?w\<lparr>w_clock := Suc (w_clock ?w)\<rparr>" and ?w2 = "?w\<lparr>w_clock := Suc (Suc (w_clock ?w))\<rparr>"
  let ?now = "x_clock E (Suc (w_clock ?w))"
  have a: "attempt (validate_access_token E m ?raw) c =
      (Inr (fst (validate_access_token E m ?raw ?w)), c\<lparr>cn_world := ?w1\<rparr>)"
    using attempt_total [of "validate_access_token E m ?raw" c] no_panic(1) by (simp add: validate_access_token_run(2))
  have n: "clock E (c\<lparr>cn_world := ?w1\<rparr>) = (Inr ?now, c\<lparr>cn_world := ?w2\<rparr>)" by (simp add: clock_def now_io_def)
  have z: "attempt (validate_session E i ?now) (c\<lparr>cn_world := ?w2\<rparr>) =
      (Inr (fst (validate_session E i ?now ?w2)), c\<lparr>cn_world := snd (validate_session E i ?now ?w2)\<rparr>)" for i
    using attempt_total [of "validate_session E i ?now" "c\<lparr>cn_world := ?w2\<rparr>"] no_panic(2) by simp
  have sw: "snd (validate_session E i ?now ?w2) = admission ?w" for i
    by (rule validate_session_world [THEN trans]) (simp add: admission_def)
  have refused: "\<exists>c1. same_data c c1 \<and> cn_response c1 = cn_response c \<and> require_access_token E m nxt r c = write_auth_error c1"
    if "require_access_token E m nxt r c = write_auth_error (c\<lparr>cn_world := v\<rparr>)" "v \<in> {?w1, admission ?w}" for v
    using that by (intro exI [of _ "c\<lparr>cn_world := v\<rparr>"]) (auto simp: same_data_def admission_def)
  have live: "fst (validate_session E i ?now ?w2) = Inr () \<longleftrightarrow>
      x_sql_fault E (w_sql ?w) = None \<and> (\<exists>s expires. row_with session_table s_id i (w_db ?w) = Some s \<and> s_revoked_at s = None \<and>
         parse_time (s_expires_at s) = Some expires \<and> ?now < expires)" for i
    unfolding validate_session_accepts by auto
  have run: "require_access_token E m nxt r c =
      (case fst (validate_access_token E m ?raw ?w) of Inl e \<Rightarrow> write_auth_error (c\<lparr>cn_world := ?w1\<rparr>)
       | Inr cl \<Rightarrow> if \<not> ?transport then write_auth_error (c\<lparr>cn_world := ?w1\<rparr>)
           else if fst (validate_session E (c_id cl) ?now ?w2) = Inr ()
             then nxt (r\<lparr>rq_claims := Some cl\<rparr>) (c\<lparr>cn_world := admission ?w\<rparr>)
             else write_auth_error (c\<lparr>cn_world := admission ?w\<rparr>))"
    unfolding require_access_token_def bindE_def a
    by (auto simp: n z sw Let_def bindE_def split: sum.split)
  have tok: "fst (validate_access_token E m ?raw ?w) = Inr cl \<longleftrightarrow> ?parsed cl" for cl
    unfolding validate_access_token_run(1) by (auto split: option.split)
  { assume n: "\<not> (authorized E m r ?w \<and> x_sql_fault E (w_sql ?w) = None)"
    show "\<exists>c1. same_data c c1 \<and> cn_response c1 = cn_response c \<and> require_access_token E m nxt r c = write_auth_error c1"
    proof (cases "fst (validate_access_token E m ?raw ?w)")
      case (Inl e)
      then show ?thesis using refused [of ?w1] by (simp add: run)
    next
      case (Inr cl)
      note p = Inr [unfolded tok]
      have "\<not> (?transport \<and> fst (validate_session E (c_id cl) ?now ?w2) = Inr ())"
        using n p live [of "c_id cl"] unfolding authorized_def by blast
      then show ?thesis using refused [of ?w1] refused [of "admission ?w"] by (auto simp: run Inr)
    qed
  next
  assume auth: "authorized E m r ?w" and f: "x_sql_fault E (w_sql ?w) = None"
  then obtain cl s expires where p: "?parsed cl" and t: ?transport
    and s: "row_with session_table s_id (c_id cl) (w_db ?w) = Some s" "s_revoked_at s = None"
      "parse_time (s_expires_at s) = Some expires" "?now < expires"
    unfolding authorized_def by blast
  have "fst (validate_session E (c_id cl) ?now ?w2) = Inr ()" unfolding live using f s by blast
  moreover have "fst (validate_access_token E m ?raw ?w) = Inr cl" unfolding tok by (rule p)
  ultimately show "\<exists>cl. x_jwt_parse E (key_func m) (tm_issuer m) [''HS256''] (x_clock E (w_clock ?w)) ?raw = Some (cl, True) \<and>
      require_access_token E m nxt r c = nxt (r\<lparr>rq_claims := Some cl\<rparr>) (c\<lparr>cn_world := admission ?w\<rparr>)"
    using p t by (intro exI [of _ cl]) (simp add: run)
  }
qed

section \<open>Through the middleware\<close>

lemma same_data_refl [simp]: "same_data c c"
  by (simp add: same_data_def)

lemma same_data_sym: "same_data c c1 \<Longrightarrow> same_data c1 c"
  by (simp add: same_data_def)

lemma keeps_if [keeps_intro]: "keeps R m \<Longrightarrow> keeps R n \<Longrightarrow> keeps R (if b then m else n)"
  by simp

lemma hex_id_keeps: "keeps same_db (new_request_id E)" "keeps same_fs (new_request_id E)"
  unfolding new_request_id_def by (auto intro!: keeps_intro)

lemma arrival_data [simp]: "w_db (arrival E r w) = w_db w" "w_fs (arrival E r w) = w_fs w"
  using keepsD [OF hex_id_keeps(1), of w E] keepsD [OF hex_id_keeps(2), of w E]
  by (simp_all add: arrival_def same_db_def same_fs_def Let_def)

text \<open>The same world and the same limiters; only the response differs.\<close>

definition same_service :: "conn \<Rightarrow> conn \<Rightarrow> bool" where
  "same_service c c1 \<longleftrightarrow> cn_world c1 = cn_world c \<and> cn_login c1 = cn_login c \<and> cn_refresh c1 = cn_refresh c"

text \<open>A program that only adds to the response before it goes on.\<close>

definition leads :: "'a http \<Rightarrow> 'a http \<Rightarrow> bool" where
  "leads p k \<longleftrightarrow> (\<forall>c. \<exists>c1. same_service c c1 \<and> p c = k c1)"

lemma leads_refl: "leads k k"
  by (auto simp: leads_def same_service_def)

lemma leads_respond: "leads p k \<Longrightarrow> leads (bindE (respond f) (\<lambda>_. p)) k"
  unfolding leads_def
proof
  fix c :: conn
  let ?c = "c\<lparr>cn_response := f (cn_response c)\<rparr>"
  assume "\<forall>c. \<exists>c1. same_service c c1 \<and> p c = k c1"
  then obtain c1 where "same_service ?c c1" "p ?c = k c1" by blast
  then have "same_service c c1 \<and> bindE (respond f) (\<lambda>_. p) c = k c1" by (simp add: same_service_def bindE_def respond_run)
  then show "\<exists>c1. same_service c c1 \<and> bindE (respond f) (\<lambda>_. p) c = k c1" by blast
qed

lemma cors_leads:
  "rq_method r = ''OPTIONS'' \<and> keeps same_data (cors allowed nxt r) \<or> leads (cors allowed nxt r) (nxt r)"
proof -
  let ?origin = "clean_origin (rq_header r ''Origin'')"
  let ?ask = "rq_method r = ''OPTIONS'' \<and> rq_header r ''Access-Control-Request-Method'' \<noteq> []"
  show ?thesis
  proof (cases "?origin \<noteq> [] \<and> ?origin \<in> set allowed \<and> ?ask")
    case True
    then have "keeps same_data (cors allowed nxt r)"
      unfolding cors_def Let_def by (simp, intro keeps_intro same_data_preorder response_keeps)
    with True show ?thesis by blast
  next
    case False
    then have "leads (cors allowed nxt r) (nxt r)"
      unfolding cors_def Let_def set_header_def add_header_def
      by (cases "?origin = []"; cases "?origin \<in> set allowed"; cases ?ask) (simp_all only: if_True if_False simp_thms, (intro leads_respond leads_refl)+)
    then show ?thesis ..
  qed
qed

lemma security_leads: "leads (security_headers nxt r) (nxt r)"
  unfolding security_headers_def set_header_def by (intro leads_respond leads_refl)

lemma recover_leads: "same_data (snd (nxt r c)) (snd (recover nxt r c))"
proof -
  have "keeps same_data (bindE (getW (\<lambda>c. rs_status (cn_response c) \<noteq> None)) (\<lambda>wrote.
     if wrote then ret () else http_error ''internal server error'' 500))"
    by (intro keeps_intro same_data_preorder response_keeps)
  then show ?thesis
    by (cases "nxt r c") (auto simp: recover_def handleE_def ret_def keeps_def split: sum.split)
qed

lemma new_request_id_total: "\<exists>i. fst (new_request_id E w) = Inr i"
  by (auto simp: new_request_id_def handleE_def rand_io_def bindE_def now_io_def split: option.split)

lemma request_id_leads:
  "\<exists>i c1. cn_world c1 = (if valid_request_id (rq_header r ''X-Request-ID'') then cn_world c else snd (new_request_id E (cn_world c))) \<and>
     cn_login c1 = cn_login c \<and> cn_refresh c1 = cn_refresh c \<and>
     snd (request_id E nxt r c) = snd (nxt (r\<lparr>rq_request_id := i\<rparr>) c1)"
proof -
  let ?given = "rq_header r ''X-Request-ID''"
  obtain j where j: "fst (new_request_id E (cn_world c)) = Inr j" using new_request_id_total by blast
  define i c0 where "i = (if valid_request_id ?given then ?given else j)"
    and "c0 = (if valid_request_id ?given then c else c\<lparr>cn_world := snd (new_request_id E (cn_world c))\<rparr>)"
  then have "(if valid_request_id ?given then ret (Inr ?given) else attempt (new_request_id E)) c = (Inr (Inr i), c0)"
    using j by (cases "new_request_id E (cn_world c)") (simp add: attempt_def ret_def)
  then have run: "request_id E nxt r c = bindE (set_header ''X-Request-ID'' i) (\<lambda>_. nxt (r\<lparr>rq_request_id := i\<rparr>)) c0"
    unfolding request_id_def Let_def bindE_def by simp
  have "leads (bindE (set_header ''X-Request-ID'' i) (\<lambda>_. nxt (r\<lparr>rq_request_id := i\<rparr>))) (nxt (r\<lparr>rq_request_id := i\<rparr>))"
    unfolding set_header_def by (intro leads_respond leads_refl)
  then obtain c1 where "same_service c0 c1" "request_id E nxt r c = nxt (r\<lparr>rq_request_id := i\<rparr>) c1"
    unfolding leads_def run by blast
  then show ?thesis
    by (intro exI [of _ i] exI [of _ c1]) (simp add: same_service_def c0_def)
qed

lemma logging_leads:
  "\<exists>c1. cn_world c1 = (cn_world c)\<lparr>w_clock := Suc (w_clock (cn_world c))\<rparr> \<and> cn_login c1 = cn_login c \<and> cn_refresh c1 = cn_refresh c \<and>
     same_data (snd (nxt r c1)) (snd (logging E nxt r c))"
proof -
  let ?c1 = "c\<lparr>cn_world := (cn_world c)\<lparr>w_clock := Suc (w_clock (cn_world c))\<rparr>\<rparr>"
  have "same_data (snd (nxt r ?c1)) (snd (logging E nxt r c))"
    by (cases "nxt r ?c1") (auto simp: logging_def bindE_def clock_def now_io_def ret_def same_data_def split: sum.split)
  then show ?thesis by (intro exI [of _ ?c1]) simp
qed

text \<open>Every request is a preflight that changes nothing, or reaches its route in the world of its arrival.\<close>

lemma router_leads:
  "rq_method r = ''OPTIONS'' \<and> same_data c (snd (router E S r c)) \<or>
   (\<exists>i c1. cn_world c1 = arrival E r (cn_world c) \<and> cn_login c1 = cn_login c \<and> cn_refresh c1 = cn_refresh c \<and>
      same_data (snd (mux E S (r\<lparr>rq_request_id := i\<rparr>) c1)) (snd (router E S r c)))"
proof -
  let ?log = "logging E (mux E S)"
  let ?sec = "security_headers ?log"
  let ?rid = "request_id E ?sec"
  have router: "router E S r = cors (sv_origins S) (recover ?rid) r" by (simp add: router_def chain_def)
  show ?thesis
  proof (cases "rq_method r = ''OPTIONS'' \<and> keeps same_data (router E S r)")
    case True
    then show ?thesis by (simp add: keepsD)
  next
    case False
    then obtain c2 where c2: "same_service c c2" "router E S r c = recover ?rid r c2"
      using cors_leads [of r "sv_origins S" "recover ?rid"] unfolding router leads_def by blast
    obtain i c3 where c3: "cn_world c3 = (if valid_request_id (rq_header r ''X-Request-ID'') then cn_world c2 else snd (new_request_id E (cn_world c2)))"
      "cn_login c3 = cn_login c2" "cn_refresh c3 = cn_refresh c2" "snd (?rid r c2) = snd (?sec (r\<lparr>rq_request_id := i\<rparr>) c3)"
      using request_id_leads [where c = c2 and r = r and E = E and nxt = ?sec] by blast
    obtain c4 where c4: "same_service c3 c4" "?sec (r\<lparr>rq_request_id := i\<rparr>) c3 = ?log (r\<lparr>rq_request_id := i\<rparr>) c4"
      using security_leads [where nxt = ?log and r = "r\<lparr>rq_request_id := i\<rparr>"] unfolding leads_def by blast
    obtain c5 where c5: "cn_world c5 = (cn_world c4)\<lparr>w_clock := Suc (w_clock (cn_world c4))\<rparr>"
      "cn_login c5 = cn_login c4" "cn_refresh c5 = cn_refresh c4"
      "same_data (snd (mux E S (r\<lparr>rq_request_id := i\<rparr>) c5)) (snd (?log (r\<lparr>rq_request_id := i\<rparr>) c4))"
      using logging_leads [where c = c4 and nxt = "mux E S" and r = "r\<lparr>rq_request_id := i\<rparr>" and E = E] by blast
    have "same_data (snd (mux E S (r\<lparr>rq_request_id := i\<rparr>) c5)) (snd (router E S r c))"
      using recover_leads [where nxt = ?rid and r = r and c = c2] c2(2) c3(4) c4(2) c5(4) by (simp add: same_data_def)
    moreover have "cn_world c5 = arrival E r (cn_world c)"
      using c2(1) c3(1) c4(1) c5(1) by (simp add: same_service_def arrival_def Let_def)
    moreover have "cn_login c5 = cn_login c" "cn_refresh c5 = cn_refresh c"
      using c2(1) c3(2,3) c4(1) c5(2,3) by (simp_all add: same_service_def)
    ultimately show ?thesis by blast
  qed
qed

text \<open>A route behind the check changes nothing for a request that is not authorized.\<close>

lemma serve_route_unauthorized:
  assumes "route \<notin> {Login, Refresh}" "\<not> authorized E (ah_tokens (sv_auth S)) r (cn_world c)"
  shows "same_data c (snd (serve_route E S route r c))"
proof -
  have "same_data c (snd (require_access_token E (ah_tokens (sv_auth S)) h r c))" for h
    using require_run(1) [where c = c and E = E and m = "ah_tokens (sv_auth S)" and nxt = h and r = r] assms(2) keepsD [OF write_auth_error_keeps]
    by (metis same_data_preorder(2) transpD)
  then show ?thesis
    using assms(1)
    by (cases route) (auto simp: protected_def health_def intro!: keepsD [where R = same_data] keeps_intro pages_keep)
qed

end
