(* ===== verification/Http_Answers.thy ===== *)
theory Http_Answers
  imports Http_Guard
begin

text \<open>
  Every handler that returns has written a status: triples over the connection, one
  lemma per handler, and the middleware around them.
\<close>

section \<open>Every handler answers\<close>

definition written :: "conn \<Rightarrow> bool" where
  "written c \<longleftrightarrow> rs_status (cn_response c) \<noteq> None"

text \<open>From a state with \<open>P\<close> a program that returns ends with \<open>Q\<close> of its result.\<close>

definition triple :: "(conn \<Rightarrow> bool) \<Rightarrow> 'a http \<Rightarrow> ('a \<Rightarrow> conn \<Rightarrow> bool) \<Rightarrow> bool" where
  "triple P m Q \<longleftrightarrow> (\<forall>c x c1. P c \<longrightarrow> m c = (Inr x, c1) \<longrightarrow> Q x c1)"

abbreviation answers_with :: "'a http \<Rightarrow> bool" where
  "answers_with m \<equiv> triple (\<lambda>_. True) m (\<lambda>_. written)"

lemma triple_bind: "triple P m Q \<Longrightarrow> (\<And>x. triple (Q x) (f x) R) \<Longrightarrow> triple P (bindE m f) R"
  by (fastforce simp: triple_def bindE_eq_Inr)

lemma triple_skip: "(\<And>x. triple (\<lambda>_. True) (f x) R) \<Longrightarrow> triple P (bindE m f) R"
  by (fastforce simp: triple_def bindE_eq_Inr)

lemma triple_ret: "(\<And>c. P c \<Longrightarrow> Q x c) \<Longrightarrow> triple P (ret x) Q"
  by (simp add: triple_def)

lemma triple_raise [intro]: "triple P (raise e) Q"
  by (simp add: triple_def)

lemma triple_weaken: "triple (\<lambda>_. True) m Q \<Longrightarrow> triple P m Q"
  by (simp add: triple_def)

lemma triple_if: "(b \<Longrightarrow> triple P m Q) \<Longrightarrow> (\<not> b \<Longrightarrow> triple P n Q) \<Longrightarrow> triple P (if b then m else n) Q"
  by simp

lemma answers_status: "answers_with (write_status s)"
  by (simp add: triple_def write_status_def respond_def written_def)

lemma answers_body: "answers_with (write_body p)"
  by (auto simp: triple_def write_body_def bindE_def write_status_def respond_def written_def)

lemma answers_replies:
  "answers_with (write_json s j)" "answers_with (write_error s m)" "answers_with (http_error m s)" "answers_with write_auth_error"
  unfolding write_error_def write_json_def http_error_def write_auth_error_def by (intro triple_skip answers_body)+

lemmas answer_rules = triple_raise triple_if answers_status answers_body answers_replies triple_skip

lemma answers_writeback: "triple (\<lambda>_. True) m (\<lambda>_. written) \<Longrightarrow> triple (\<lambda>_. True) (bindE m (\<lambda>_. ret x)) (\<lambda>_. written)"
  by (rule triple_bind, assumption, rule triple_ret)

lemma decode_json_answers: "triple P (decode_json names r) (\<lambda>x c. x = None \<longrightarrow> written c)"
  unfolding decode_json_def
  by (auto split: prod.split intro!: triple_bind [OF triple_weaken [OF answers_replies(2)]] triple_ret)

lemma answers_decoded:
  assumes "\<And>f. answers_with (k f)"
  shows "answers_with (bindE (decode_json names r) (\<lambda>body. case body of None \<Rightarrow> ret () | Some f \<Rightarrow> k f))"
  by (rule triple_bind [OF decode_json_answers]) (auto split: option.split intro: triple_ret triple_weaken assms)

lemma answers_attempt:
  assumes "\<And>e. answers_with (g e)" "\<And>x. answers_with (f x)"
  shows "answers_with (bindE m (\<lambda>y. case y of Inl e \<Rightarrow> g e | Inr x \<Rightarrow> f x))"
  by (rule triple_skip) (simp add: assms split: sum.split)

lemma login_handler_answers: "answers_with (login_handler E h r)"
  unfolding login_handler_def write_tokens_def
  by (rule answers_decoded) (auto intro!: answer_rules split: prod.split sum.split)

lemma auth_handlers_answer:
  "answers_with (refresh_handler E h r)" "answers_with (me_handler E h r)"
  "answers_with (logout_handler E h r)" "answers_with (health r)"
  unfolding refresh_handler_def me_handler_def logout_handler_def health_def Let_def
  by (auto intro!: answer_rules split: option.split sum.split)

lemma listing_answers: "answers_with (listing h r q enc msg)"
  unfolding listing_def write_page_def Let_def by (intro answers_attempt answer_rules)

lemma upload_parts_answers: "triple P (upload_parts E h d m final ps) (\<lambda>x c. x = None \<longrightarrow> written c)"
proof (induction ps arbitrary: d m P)
  case Nil
  show ?case
    by (auto split: option.split intro!: triple_bind [OF triple_weaken [OF answers_replies(2)]] triple_ret)
next
  case (Cons p ps)
  have e: "triple (\<lambda>_. True) (bindE (write_error s t) (\<lambda>_. ret None)) (\<lambda>(x :: file_item option option) c. x = None \<longrightarrow> written c)" for s t
    by (rule triple_bind [OF answers_replies(2)], rule triple_ret) simp
  have "triple P (bindE (attempt (upload E (fh_mounts h) m d (pt_file_name p) (pt_content p))) (\<lambda>stored.
           case stored of
             Inl e \<Rightarrow> bindE (write_error (fst (upload_error e)) (snd (upload_error e))) (\<lambda>_. ret None)
           | Inr f \<Rightarrow> ret (Some (Some f)))) (\<lambda>x c. x = None \<longrightarrow> written c)"
    by (rule triple_skip) (auto split: sum.split intro: e triple_ret)
  with Cons show ?case by simp
qed

lemma upload_handler_answers: "answers_with (upload_handler E h r)"
proof -
  have "answers_with (bindE (upload_parts E h [] [] final ps) (\<lambda>result. case result of
           None \<Rightarrow> ret ()
         | Some None \<Rightarrow> write_error 400 ''file part is required''
         | Some (Some f) \<Rightarrow> if fl_id f = [] then write_error 400 ''file part is required'' else write_json 201 (file_json f)))" for final ps
    by (rule triple_bind [OF upload_parts_answers]) (auto split: option.split intro: triple_ret triple_weaken answers_replies)
  then show ?thesis
    unfolding upload_handler_def by (intro triple_skip) (auto split: option.split intro: answers_replies)
qed

lemma serve_range_answers: "answers_with (serve_range r b n)"
proof -
  have s: "answers_with (bindE (write_status s) (\<lambda>_. if q then ret () else write_body p))" for s q p
    by (rule triple_bind [OF answers_status]) (auto intro: triple_ret triple_weaken answers_body)
  have h: "answers_with m \<Longrightarrow> answers_with (bindE (set_header k v) (\<lambda>_. m))" for k v and m :: "unit http"
    by (rule triple_skip)
  show ?thesis
    unfolding serve_range_def
    by (auto split: prod.split range_mode.split intro!: h answers_status s split del: if_split)
qed

lemma download_answers: "answers_with (download_handler E h r)"
  unfolding download_handler_def
  by (auto intro!: answers_replies triple_skip serve_range_answers split: sum.split)

lemma folder_handlers_answer:
  "answers_with (list_folders_handler E h r)" "answers_with (create_folder_handler E h r)"
  "answers_with (rename_folder_handler E h r)" "answers_with (delete_folder_handler E h r)"
  unfolding list_folders_handler_def create_folder_handler_def rename_folder_handler_def delete_folder_handler_def
  by (auto intro!: listing_answers answers_decoded answers_attempt answers_replies answers_status triple_if)

lemma file_handlers_answer:
  "answers_with (list_files_handler E h r)" "answers_with (copy_file_handler E h r)"
  "answers_with (rename_file_handler E h r)" "answers_with (move_file_handler E h r)"
  "answers_with (delete_file_handler E h r)" "answers_with (trash_handler E h r)" "answers_with (restore_handler E h r)"
  "answers_with (purge_handler E h r)" "answers_with (search_handler E h r)"
  unfolding list_files_handler_def copy_file_handler_def rename_file_handler_def move_file_handler_def
    delete_file_handler_def trash_handler_def restore_handler_def purge_handler_def search_handler_def Let_def
  by (auto intro!: listing_answers answers_decoded answers_attempt answers_replies answers_status triple_if)

lemma disk_handlers_answer: "answers_with (disks_handler E h r)" "answers_with (dashboard_handler E h r)"
  unfolding disks_handler_def dashboard_handler_def
  by (auto intro!: answers_replies triple_skip triple_raise split: sum.split prod.split)

lemma protected_answers: "(\<And>r. answers_with (next r)) \<Longrightarrow> answers_with (require_access_token E m next r)"
  unfolding require_access_token_def Let_def
  by (auto intro!: answers_replies triple_skip split: sum.split)

lemma rate_limited_answers: "(\<And>r. answers_with (next r)) \<Longrightarrow> answers_with (rate_limited E get put next r)"
  unfolding rate_limited_def
  by (auto intro!: answers_replies triple_skip split: prod.split)

lemma pages_answer: "answers_with (web_home_with E html base remotes r)" "answers_with (web_landing E page_html r)"
  unfolding web_home_with_def web_landing_def serve_page_def by (intro triple_skip answers_body)+

lemma serve_route_answers: "answers_with (serve_route E S route r)"
  by (cases route)
    (auto simp: protected_def intro!: pages_answer protected_answers rate_limited_answers login_handler_answers
      auth_handlers_answer folder_handlers_answer file_handlers_answer upload_handler_answers download_answers
      disk_handlers_answer answers_replies answers_status)

lemma inner_answers: "answers_with (request_id E (security_headers (logging E (mux E S))) r)"
proof -
  have "answers_with (logging E (mux E S) r)" for r
  proof -
    have end_: "triple written (bindE (clock E) (\<lambda>_. ret ())) (\<lambda>_. written)"
      by (auto simp: triple_def bindE_eq_Inr clock_def written_def)
    have "answers_with (mux E S r)" by (simp add: mux_def Let_def serve_route_answers)
    then show ?thesis
      unfolding logging_def by (rule triple_skip [OF triple_bind [OF _ end_]])
  qed
  then show ?thesis
    unfolding request_id_def security_headers_def Let_def
    by (auto intro!: triple_skip triple_raise split: sum.split)
qed

lemma recover_answers:
  assumes "answers_with (next r)"
  shows "fst (recover next r c) = Inr () \<and> written (snd (recover next r c))"
proof (cases "next r c")
  case (Pair q c1)
  show ?thesis
  proof (cases q)
    case (Inl e)
    have "http_error m s c1 = (Inr (), c2) \<Longrightarrow> written c2" for m s c2
      using answers_replies(3) by (auto simp: triple_def)
    moreover have "fst (http_error m s c1) = Inr ()" for m s
      by (simp add: http_error_def bindE_def respond_def set_header_def write_status_def write_body_def)
    ultimately show ?thesis
      using Pair Inl by (auto simp: recover_def handleE_def written_def bindE_def) (metis prod.collapse)+
  next
    case (Inr u)
    with Pair assms show ?thesis by (auto simp: recover_def handleE_def triple_def)
  qed
qed

text \<open>CORS answers preflights itself and hands every other request on.\<close>

lemma cors_answers:
  assumes "\<And>r c. fst (next r c) = Inr () \<and> written (snd (next r c))"
  shows "fst (cors allowed next r c) = Inr () \<and> written (snd (cors allowed next r c))"
proof -
  have run: "bindE (add_header k v) f d = f () (snd (add_header k v d))" "bindE (set_header k v) f d = f () (snd (set_header k v d))"
    for k v d and f :: "unit \<Rightarrow> unit http"
    by (simp_all add: bindE_def add_header_def set_header_def respond_run)
  have w: "fst (write_status s d) = Inr () \<and> written (snd (write_status s d))" for s d
    by (simp add: write_status_def respond_run written_def)
  show ?thesis
    unfolding cors_def Let_def by (auto simp: run assms w split del: if_split split: if_split)
qed

lemma router_answers: "fst (router E S r c) = Inr () \<and> written (snd (router E S r c))"
  unfolding router_def chain_def by (simp del: fst_conv snd_conv) (intro cors_answers recover_answers inner_answers)

end
