(* ===== verification/Http_Cors.thy ===== *)
theory Http_Cors
  imports Http_Guard
begin

text \<open>
  Nothing but the CORS middleware writes the header \<^verbatim>\<open>Access-Control-Allow-Origin\<close>: a frame
  over all handlers and middleware, and the value that the middleware gives it.
\<close>

section \<open>CORS headers come from CORS only\<close>

definition cors_header :: string where
  "cors_header = ''Access-Control-Allow-Origin''"

definition same_cors :: "conn \<Rightarrow> conn \<Rightarrow> bool" where
  "same_cors c c1 \<longleftrightarrow> header (cn_response c1) cors_header = header (cn_response c) cors_header"

lemma same_cors_preorder [simp]: "reflp same_cors" "transp same_cors"
  by (auto simp: same_cors_def reflp_def transp_def)

lemma map_of_filter_other: "k' \<noteq> k \<Longrightarrow> map_of (filter (\<lambda>(a, b). a \<noteq> k') xs) k = map_of xs k"
  by (induction xs) auto

lemma set_header_cors: "k \<noteq> cors_header \<Longrightarrow> keeps same_cors (set_header k v)"
  by (auto simp: keeps_def same_cors_def set_header_def respond_def header_def map_of_filter_other)

lemma add_header_cors: "k \<noteq> cors_header \<Longrightarrow> keeps same_cors (add_header k v)"
  by (auto simp: keeps_def same_cors_def add_header_def respond_def header_def map_add_def split: option.split)

lemma response_cors [keeps_intro]:
  "keeps same_cors (set_cookie ck)" "keeps same_cors (write_status s)" "keeps same_cors (write_body p)"
  "keeps same_cors (attempt m)" "keeps same_cors (clock E)" "keeps same_cors (set_write_deadline E d)"
proof -
  show st: "keeps same_cors (write_status s)" for s
    by (simp add: keeps_def same_cors_def write_status_def respond_def header_def)
  show "keeps same_cors (set_cookie ck)"
    by (simp add: keeps_def same_cors_def set_cookie_def respond_def header_def)
  have b: "keeps same_cors (respond (\<lambda>rs. rs\<lparr>rs_body := rs_body rs @ [p]\<rparr>))"
    by (simp add: keeps_def same_cors_def respond_def header_def)
  show "keeps same_cors (write_body p)"
    unfolding write_body_def by (intro keeps_bindE same_cors_preorder st b)
  show "keeps same_cors (attempt m)"
    by (simp add: keeps_def same_cors_def attempt_eq split: prod.split sum.split err.split)
  show ck: "keeps same_cors (clock E)"
    by (simp add: keeps_def same_cors_def clock_def)
  show "keeps same_cors (set_write_deadline E d)"
    unfolding set_write_deadline_def
    by (intro keeps_bindE same_cors_preorder ck) (simp add: keeps_def same_cors_def)
qed

lemma replies_cors [keeps_intro]:
  "keeps same_cors (http_error m s)" "keeps same_cors (write_json s j)" "keeps same_cors (write_error s m)"
  "keeps same_cors write_auth_error"
proof -
  have f: "keeps same_cors (respond (\<lambda>rs. if rs_status rs = None
              then rs\<lparr>rs_header := filter (\<lambda>(k, v). k \<noteq> ''Content-Length'') (rs_header rs)\<rparr> else rs))"
    by (simp add: keeps_def same_cors_def respond_def header_def map_of_filter_other cors_header_def)
  show e: "keeps same_cors (http_error m s)" for m s
    unfolding http_error_def by (intro keeps_bindE same_cors_preorder f set_header_cors response_cors) (simp_all add: cors_header_def)
  show j: "keeps same_cors (write_json s j)" for s j
    unfolding write_json_def by (intro keeps_bindE same_cors_preorder set_header_cors response_cors) (simp_all add: cors_header_def)
  show "keeps same_cors (write_error s m)" "keeps same_cors write_auth_error"
    unfolding write_error_def write_auth_error_def by (rule j, rule e)
qed

lemma decode_json_cors [keeps_intro]: "keeps same_cors (decode_json names r)"
  unfolding decode_json_def by (auto intro!: keeps_intro split: prod.split)

lemma cookies_cors [keeps_intro]:
  "keeps same_cors (set_csrf_token E h)" "keeps same_cors (set_access_cookie E h t x)"
  "keeps same_cors (set_refresh_cookie E h t x)" "keeps same_cors (clear_cookies h)"
  unfolding set_csrf_token_def set_access_cookie_def set_refresh_cookie_def clear_cookies_def
  by (auto intro!: keeps_intro split: sum.split)

lemma auth_handlers_cors:
  "keeps same_cors (login_handler E h r)" "keeps same_cors (refresh_handler E h r)" "keeps same_cors (me_handler E h r)"
  "keeps same_cors (logout_handler E h r)" "keeps same_cors (health r)"
  unfolding login_handler_def refresh_handler_def me_handler_def logout_handler_def health_def write_tokens_def Let_def
  by (auto intro!: keeps_intro split: option.split prod.split sum.split)

lemma listing_cors [keeps_intro]: "keeps same_cors (listing h r q enc msg)"
  unfolding listing_def write_page_def mount_param_def Let_def
  by (auto intro!: keeps_intro split: sum.split)

lemma folder_handlers_cors:
  "keeps same_cors (list_folders_handler E h r)" "keeps same_cors (create_folder_handler E h r)"
  "keeps same_cors (rename_folder_handler E h r)" "keeps same_cors (delete_folder_handler E h r)"
  unfolding list_folders_handler_def create_folder_handler_def rename_folder_handler_def delete_folder_handler_def
  by (auto intro!: keeps_intro split: option.split sum.split)

lemma upload_parts_cors [keeps_intro]: "keeps same_cors (upload_parts E h d m final ps)"
proof (induction ps arbitrary: d m)
  case Nil
  show ?case by (auto intro!: keeps_intro split: option.split)
next
  case (Cons p ps)
  have "keeps same_cors (bindE (attempt (upload E (fh_mounts h) m d (pt_file_name p) (pt_content p))) (\<lambda>stored.
           case stored of
             Inl e \<Rightarrow> bindE (write_error (fst (upload_error e)) (snd (upload_error e))) (\<lambda>_. ret None)
           | Inr f \<Rightarrow> ret (Some (Some f))))"
    by (auto intro!: keeps_intro split: sum.split)
  with Cons show ?case by simp
qed

lemma download_cors: "keeps same_cors (download_handler E h r)"
  unfolding download_handler_def serve_range_def
  by (auto intro!: keeps_intro set_header_cors split: sum.split prod.split range_mode.split simp: cors_header_def)

lemma file_handlers_cors:
  "keeps same_cors (list_files_handler E h r)" "keeps same_cors (copy_file_handler E h r)"
  "keeps same_cors (rename_file_handler E h r)" "keeps same_cors (move_file_handler E h r)"
  "keeps same_cors (delete_file_handler E h r)" "keeps same_cors (trash_handler E h r)" "keeps same_cors (restore_handler E h r)"
  "keeps same_cors (purge_handler E h r)" "keeps same_cors (search_handler E h r)" "keeps same_cors (upload_handler E h r)"
  unfolding list_files_handler_def copy_file_handler_def rename_file_handler_def move_file_handler_def
    delete_file_handler_def trash_handler_def restore_handler_def purge_handler_def search_handler_def upload_handler_def Let_def
  by (auto intro!: keeps_intro split: option.split sum.split)

lemma disk_views_cors [keeps_intro]: "keeps same_cors (disk_views E h ms)"
proof (induction ms)
  case Nil
  show ?case by (simp add: keeps_def same_cors_def)
next
  case (Cons m ms)
  then show ?case unfolding disk_views.simps Let_def by (intro keeps_intro same_cors_preorder)
qed

lemma disk_handlers_cors: "keeps same_cors (disks_handler E h r)" "keeps same_cors (dashboard_handler E h r)"
  unfolding disks_handler_def dashboard_handler_def
  by (auto intro!: keeps_intro split: sum.split prod.split)

lemma require_cors: "(\<And>r. keeps same_cors (next r)) \<Longrightarrow> keeps same_cors (require_access_token E m next r)"
  unfolding require_access_token_def Let_def by (auto intro!: keeps_intro split: sum.split)

lemma rate_limited_cors:
  assumes "\<And>r. keeps same_cors (next r)" "\<And>l c. cn_response (put l c) = cn_response c"
  shows "keeps same_cors (rate_limited E get put next r)"
proof -
  have "keeps same_cors (\<lambda>c. let (ok, l) = allow (get c) (client_key r) now in (Inr (ok, rl_window l), put l c))" for now
    by (simp add: keeps_def same_cors_def assms(2) Let_def split: prod.split)
  then show ?thesis
    unfolding rate_limited_def
    by (auto intro!: keeps_bindE keeps_intro set_header_cors assms(1) simp: cors_header_def split: prod.split)
qed

lemma pages_cors: "keeps same_cors (web_home_with E html base remotes r)" "keeps same_cors (web_landing E page_html r)"
proof -
  have "keeps same_cors (serve_page policy body)" for policy body
    unfolding serve_page_def
    by (intro keeps_bindE same_cors_preorder set_header_cors response_cors) (simp_all add: cors_header_def)
  moreover have "keeps same_cors (page_nonce E)"
    unfolding page_nonce_def by (intro keeps_bindE keeps_ret same_cors_preorder response_cors)
  ultimately show "keeps same_cors (web_home_with E html base remotes r)" "keeps same_cors (web_landing E page_html r)"
    unfolding web_home_with_def web_landing_def by (simp_all add: keeps_bindE)
qed

lemma serve_route_cors: "keeps same_cors (serve_route E S route r)"
  by (cases route)
    (auto simp: protected_def intro!: pages_cors require_cors rate_limited_cors auth_handlers_cors folder_handlers_cors
      file_handlers_cors download_cors disk_handlers_cors replies_cors response_cors)

lemma middle_cors: "keeps same_cors (recover (request_id E (security_headers (logging E (mux E S)))) r)"
proof -
  have m: "keeps same_cors (mux E S r)" for r by (simp add: mux_def Let_def serve_route_cors)
  have "keeps same_cors (logging E (mux E S) r)" for r
    unfolding logging_def by (intro keeps_bindE keeps_ret same_cors_preorder response_cors m)
  then have "keeps same_cors (security_headers (logging E (mux E S)) r)" for r
    unfolding security_headers_def
    by (intro keeps_bindE same_cors_preorder set_header_cors) (simp_all add: cors_header_def)
  then have "keeps same_cors (request_id E (security_headers (logging E (mux E S))) r)" for r
    unfolding request_id_def Let_def
    by (auto intro!: keeps_intro set_header_cors simp: cors_header_def split: sum.split)
  then show ?thesis
    unfolding recover_def by (intro keeps_handleE keeps_bindE keeps_if keeps_getW keeps_ret replies_cors same_cors_preorder)
qed

text \<open>What the middleware does once it has admitted the origin.\<close>

definition cors_tail :: "string \<Rightarrow> handler \<Rightarrow> handler" where
  "cors_tail origin next r =
     bindE (set_header ''Access-Control-Allow-Credentials'' ''true'') (\<lambda>_.
     bindE (set_header ''Access-Control-Allow-Methods'' ''GET, POST, PATCH, DELETE, OPTIONS'') (\<lambda>_.
     bindE (set_header ''Access-Control-Allow-Headers'' ''Authorization, Content-Type, X-CSRF-Token, X-Request-ID'') (\<lambda>_.
     bindE (set_header ''Access-Control-Expose-Headers'' ''X-Request-ID'') (\<lambda>_.
     bindE (set_header ''Access-Control-Max-Age'' ''86400'') (\<lambda>_.
     if rq_method r = ''OPTIONS'' \<and> rq_header r ''Access-Control-Request-Method'' \<noteq> []
     then write_status 204 else next r)))))"

lemma cors_tail_keeps: "(\<And>r. keeps same_cors (next r)) \<Longrightarrow> keeps same_cors (cors_tail origin next r)"
  unfolding cors_tail_def
  by (intro keeps_bindE keeps_if same_cors_preorder set_header_cors response_cors) (simp_all add: cors_header_def)

lemma cors_unfold: "cors allowed next r =
    (let origin = clean_origin (rq_header r ''Origin'') in
     if origin = [] then next r else
     bindE (add_header ''Vary'' ''Origin'') (\<lambda>_.
     if origin \<notin> set allowed then next r else
     bindE (set_header cors_header origin) (\<lambda>_. cors_tail origin next r)))"
  unfolding cors_def cors_tail_def cors_header_def by (rule refl)

lemma run_headers:
  "bindE (add_header k v) f c = f () (snd (add_header k v c))" "bindE (set_header k v) f c = f () (snd (set_header k v c))"
  by (simp_all add: bindE_def add_header_def set_header_def respond_run)

lemma cors_outcome:
  assumes "\<And>r. keeps same_cors (next r)" "cn_response c = no_response"
  shows "header (cn_response (snd (cors allowed next r c))) cors_header =
    (let origin = clean_origin (rq_header r ''Origin'') in if origin \<noteq> [] \<and> origin \<in> set allowed then Some origin else None)"
proof -
  let ?vary = "snd (add_header ''Vary'' ''Origin'' c)" and ?origin = "clean_origin (rq_header r ''Origin'')"
  have n: "header (cn_response (snd (next r d))) cors_header = header (cn_response d) cors_header"
    "header (cn_response (snd (cors_tail o1 next r d))) cors_header = header (cn_response d) cors_header" for d o1
    using keepsD [OF assms(1)] keepsD [OF cors_tail_keeps [OF assms(1)]] by (simp_all add: same_cors_def)
  have v: "header (cn_response c) cors_header = None" "header (cn_response ?vary) cors_header = None"
    "header (cn_response (snd (set_header cors_header ?origin ?vary))) cors_header = Some ?origin"
    using assms(2) by (simp_all add: add_header_def set_header_def respond_run no_response_def header_def cors_header_def)
  show ?thesis by (simp add: cors_unfold Let_def run_headers n v)
qed

lemma allowed_origin:
  "header (cn_response (handle_request E S r c)) ''Access-Control-Allow-Origin'' =
    (let origin = clean_origin (rq_header r ''Origin'') in
     if origin \<noteq> [] \<and> origin \<in> set (sv_origins S) then Some origin else None)"
  using cors_outcome [OF middle_cors, where allowed = "sv_origins S" and r = "r\<lparr>rq_claims := None, rq_request_id := []\<rparr>"
      and c = "c\<lparr>cn_deadline := None, cn_response := no_response\<rparr>"]
  by (simp add: handle_request_def router_def chain_def cors_header_def)

end
