(* ===== verification/Http_Denied.thy ===== *)
theory Http_Denied
  imports Http_Cors
begin

text \<open>
  What a request without access gets: triples of programs that do not fail, and the reply of a
  protected route followed through the middleware to the client.
\<close>

text \<open>From every state with \<open>P\<close> the program returns, in a state with \<open>Q\<close>.\<close>

definition ends :: "(conn \<Rightarrow> bool) \<Rightarrow> 'a http \<Rightarrow> ('a \<Rightarrow> conn \<Rightarrow> bool) \<Rightarrow> bool" where
  "ends P m Q \<longleftrightarrow> (\<forall>c. P c \<longrightarrow> (\<exists>x c1. m c = (Inr x, c1) \<and> Q x c1))"

lemma ends_bind: "ends P m Q \<Longrightarrow> (\<And>x. ends (Q x) (f x) R) \<Longrightarrow> ends P (bindE m f) R"
  by (fastforce simp: ends_def bindE_eq_Inr)

lemma ends_respond: "(\<And>c. P c \<Longrightarrow> Q () (c\<lparr>cn_response := f (cn_response c)\<rparr>)) \<Longrightarrow> ends P (respond f) Q"
  by (simp add: ends_def respond_run)

lemma ends_if: "(b \<Longrightarrow> ends P m Q) \<Longrightarrow> (\<not> b \<Longrightarrow> ends P n Q) \<Longrightarrow> ends P (if b then m else n) Q"
  by simp

lemma ends_ret: "(\<And>c. P c \<Longrightarrow> Q x c) \<Longrightarrow> ends P (ret x) Q"
  by (simp add: ends_def)

text \<open>No reply yet, in a given world; and the reply 401.\<close>

definition fresh :: "world \<Rightarrow> conn \<Rightarrow> bool" where
  "fresh w c \<longleftrightarrow> rs_status (cn_response c) = None \<and> rs_body (cn_response c) = [] \<and> rs_cookies (cn_response c) = []
     \<and> cn_world c = w"

definition denied :: "conn \<Rightarrow> bool" where
  "denied c \<longleftrightarrow> rs_status (cn_response c) = Some 401 \<and> rs_cookies (cn_response c) = [] \<and>
     rs_body (cn_response c) = [Text (''authentication required'' @ [CHR 0x0A])]"

lemma fresh_headers: "ends (fresh w) (set_header k v) (\<lambda>_. fresh w)" "ends (fresh w) (add_header k v) (\<lambda>_. fresh w)"
  unfolding set_header_def add_header_def by (intro ends_respond; simp add: fresh_def)+

lemma fresh_clock: "ends (fresh w) (clock E) (\<lambda>_. fresh (w\<lparr>w_clock := Suc (w_clock w)\<rparr>))"
  by (simp add: ends_def clock_def fresh_def now_io_def)

lemma auth_error_denied: "ends (fresh w) write_auth_error (\<lambda>_. denied)"
  by (simp add: ends_def write_auth_error_def http_error_def bindE_def respond_run set_header_def write_status_def
      write_body_def fresh_def denied_def)

lemma require_denied:
  assumes "\<not> authorized E m r w"
  shows "ends (fresh w) (require_access_token E m nxt r) (\<lambda>_. denied)"
  unfolding ends_def
proof (intro allI impI)
  fix c assume c: "fresh w c"
  with assms have n: "\<not> authorized E m r (cn_world c)" by (simp add: fresh_def)
  from require_run(1) obtain c1 where c1: "cn_response c1 = cn_response c" "require_access_token E m nxt r c = write_auth_error c1"
    using n by metis
  with c have "fresh (cn_world c1) c1" by (simp add: fresh_def)
  with auth_error_denied c1(2) show "\<exists>x c2. require_access_token E m nxt r c = (Inr x, c2) \<and> denied c2"
    by (auto simp: ends_def)
qed

section \<open>Protected routes\<close>

definition needs_access :: "route \<Rightarrow> bool" where
  "needs_access route \<longleftrightarrow> route \<notin> {Landing_page, App_page, Health, Login, Refresh, Moved_permanently, Not_found, Method_not_allowed}"

lemma needs_access_protected: "needs_access route \<Longrightarrow> \<exists>h. serve_route E S route = protected E S h"
  by (cases route) (auto simp: needs_access_def)

lemma options_routes: "map_of (api_routes segs) ''OPTIONS'' = None"
  by (cases segs rule: api_routes.cases) auto

lemma needs_access_method: "needs_access (route_of ui (rq_method r) (rq_segments r)) \<Longrightarrow> rq_method r \<noteq> ''OPTIONS''"
  by (auto simp: route_of_def match_method_def options_routes needs_access_def ui_routes_def Let_def split: if_splits)

section \<open>Through the middleware\<close>

lemma mux_denied:
  assumes "needs_access (route_of (sv_ui_disabled S) (rq_method r) (rq_segments r))"
    "\<not> authorized E (ah_tokens (sv_auth S)) r w"
  shows "ends (fresh w) (mux E S r) (\<lambda>_. denied)"
proof -
  let ?route = "route_of (sv_ui_disabled S) (rq_method r) (rq_segments r)"
  obtain h where "serve_route E S ?route = protected E S h" using needs_access_protected [OF assms(1)] by blast
  with assms(2) show ?thesis by (simp add: mux_def Let_def protected_def require_denied)
qed

lemma logging_denied:
  assumes "ends (fresh (w\<lparr>w_clock := Suc (w_clock w)\<rparr>)) (nxt r) (\<lambda>_. denied)"
  shows "ends (fresh w) (logging E nxt r) (\<lambda>_. denied)"
  unfolding logging_def using assms
  by (intro ends_bind [OF fresh_clock] ends_bind [where m = "nxt r"]; assumption?)
     (auto simp: ends_def clock_def denied_def bindE_def)

lemma security_denied: "ends (fresh w) (nxt r) (\<lambda>_. denied) \<Longrightarrow> ends (fresh w) (security_headers nxt r) (\<lambda>_. denied)"
  unfolding security_headers_def by (intro ends_bind [OF fresh_headers(1)])

lemma request_id_denied:
  defines "identified \<equiv> \<lambda>E r w. if valid_request_id (rq_header r ''X-Request-ID'') then w else snd (new_request_id E w)"
  assumes "\<And>i. ends (fresh (identified E r w)) (nxt (r\<lparr>rq_request_id := i\<rparr>)) (\<lambda>_. denied)"
  shows "ends (fresh w) (request_id E nxt r) (\<lambda>_. denied)"
proof -
  let ?w1 = "identified E r w" and ?given = "rq_header r ''X-Request-ID''"
  have m: "ends (fresh w) (if valid_request_id ?given then ret (Inr ?given) else attempt (new_request_id E))
    (\<lambda>x c. (\<exists>i. x = Inr i) \<and> fresh ?w1 c)"
  proof (rule ends_if)
    assume "\<not> valid_request_id ?given"
    moreover obtain i where "fst (new_request_id E w) = Inr i" using new_request_id_total by blast
    then have "new_request_id E w = (Inr i, snd (new_request_id E w))" by (metis prod.collapse)
    ultimately show "ends (fresh w) (attempt (new_request_id E)) (\<lambda>x c. (\<exists>i. x = Inr i) \<and> fresh ?w1 c)"
      by (auto simp: ends_def attempt_eq fresh_def identified_def split: prod.split)
  qed (rule ends_ret, simp add: identified_def)
  have k: "ends (\<lambda>c. (\<exists>i. x = Inr i) \<and> fresh ?w1 c) (case x of Inl e \<Rightarrow> raise e | Inr i \<Rightarrow>
      bindE (set_header ''X-Request-ID'' i) (\<lambda>_. nxt (r\<lparr>rq_request_id := i\<rparr>))) (\<lambda>_. denied)" for x
  proof (cases x)
    case (Inr i)
    have "ends (fresh ?w1) (bindE (set_header ''X-Request-ID'' i) (\<lambda>_. nxt (r\<lparr>rq_request_id := i\<rparr>))) (\<lambda>_. denied)"
      by (rule ends_bind [OF fresh_headers(1)]) (rule assms(2))
    with Inr show ?thesis by simp
  qed (simp add: ends_def)
  show ?thesis
    unfolding request_id_def Let_def by (rule ends_bind [OF m k])
qed

lemma recover_denied: "ends P (nxt r) (\<lambda>_. denied) \<Longrightarrow> ends P (recover nxt r) (\<lambda>_. denied)"
  by (fastforce simp: ends_def recover_def handleE_eq)

lemma cors_denied:
  assumes "ends (fresh w) (nxt r) (\<lambda>_. denied)" "rq_method r \<noteq> ''OPTIONS''"
  shows "ends (fresh w) (cors allowed nxt r) (\<lambda>_. denied)"
proof -
  have "ends (fresh w) (cors_tail origin nxt r) (\<lambda>_. denied)" for origin
    unfolding cors_tail_def by (rule ends_bind [OF fresh_headers(1)])+ (simp add: assms)
  then show ?thesis
    unfolding cors_unfold Let_def
    by (intro ends_if assms(1) ends_bind [OF fresh_headers(2)] ends_bind [OF fresh_headers(1)])
qed

lemma router_denied:
  assumes "needs_access (route_of (sv_ui_disabled S) (rq_method r) (rq_segments r))"
    "\<not> authorized E (ah_tokens (sv_auth S)) r (arrival E r w)"
  shows "ends (fresh w) (router E S r) (\<lambda>_. denied)"
  unfolding router_def chain_def using assms
  by (simp, intro cors_denied recover_denied request_id_denied security_denied logging_denied mux_denied needs_access_method)
     (simp_all add: needs_access_method arrival_def Let_def split: if_splits)

end
