(* ===== verification/Http_Steps.thy ===== *)
theory Http_Steps
  imports Http_Guard
begin

text \<open>
  The HTTP interface over the services: whatever a request does to rows and objects, it does by
  operations of the file service and the authentication service, so the invariants of the
  system hold between any two requests.
\<close>

text \<open>An operation of a service, or a step that touches neither rows nor objects.\<close>

definition data_step :: "env \<Rightarrow> token_manager \<Rightarrow> mounts \<Rightarrow> world \<Rightarrow> world \<Rightarrow> bool" where
  "data_step E m ms w w1 \<longleftrightarrow> sys_step E m ms w w1 \<or> w_db w1 = w_db w \<and> w_fs w1 = w_fs w"

definition steps :: "env \<Rightarrow> token_manager \<Rightarrow> mounts \<Rightarrow> conn \<Rightarrow> conn \<Rightarrow> bool" where
  "steps E m ms c c1 \<longleftrightarrow> (data_step E m ms)\<^sup>*\<^sup>* (cn_world c) (cn_world c1)"

lemma steps_preorder [simp]: "reflp (steps E m ms)" "transp (steps E m ms)"
  by (auto simp: steps_def reflp_def transp_def)

lemma steps_same: "keeps same_data p \<Longrightarrow> keeps (steps E m ms) p"
  unfolding keeps_def steps_def same_data_def data_step_def by (intro allI r_into_rtranclp) simp

lemmas steps_replies = response_keeps [THEN steps_same] write_auth_error_keeps [THEN steps_same]

lemma steps_attempt:
  assumes "\<And>w. sys_step E m ms w (snd (p w))"
  shows "keeps (steps E m ms) (attempt p)"
  unfolding keeps_def
proof
  fix c
  have "data_step E m ms (cn_world c) (cn_world (snd (attempt p c)))"
    using assms [of "cn_world c"] by (auto simp: data_step_def attempt_eq split: prod.split sum.split err.split)
  then show "steps E m ms c (snd (attempt p c))" by (simp add: steps_def r_into_rtranclp)
qed

lemma steps_attempt_read: "keeps same_db p \<Longrightarrow> keeps same_fs p \<Longrightarrow> keeps (steps E m ms) (attempt p)"
  by (intro steps_same keeps_attempt)

text \<open>The operations of the services, as requests call them.\<close>

lemma file_operations:
  "keeps (steps E m ms) (attempt (svc_create_folder E ms k p n))" "keeps (steps E m ms) (attempt (upload E ms k d n src))"
  "keeps (steps E m ms) (attempt (delete_file E i))" "keeps (steps E m ms) (attempt (svc_rename_folder E i n))"
  "keeps (steps E m ms) (attempt (delete_folder E i))" "keeps (steps E m ms) (attempt (svc_restore_file E i))"
  "keeps (steps E m ms) (attempt (svc_rename_file E i n))" "keeps (steps E m ms) (attempt (svc_move_file E i d))"
  "keeps (steps E m ms) (attempt (copy_file E ms i d))" "keeps (steps E m ms) (attempt (permanently_delete E ms i))"
  "keeps (steps E m ms) (attempt (record_audit E a i))"
  by (intro steps_attempt sys_file file_step.intros)+

lemma auth_operations:
  "keeps (steps E m ms) (attempt (login E m u p))" "keeps (steps E m ms) (attempt (refresh E m tok))"
  "keeps (steps E m ms) (attempt (me E i))" "keeps (steps E m ms) (attempt (logout E i))"
  by (intro steps_attempt sys_auth auth_step.intros)+

lemmas step_rules = keeps_bindE keeps_handleE keeps_ret keeps_raise keeps_getW keeps_liftE keeps_if steps_preorder
  steps_replies file_operations auth_operations

section \<open>The handlers\<close>

lemma decode_json_steps: "keeps (steps E m ms) (decode_json names r)"
  unfolding decode_json_def by (auto intro!: step_rules split: prod.split)

lemma cookies_steps:
  "keeps (steps E m ms) (set_csrf_token E h)" "keeps (steps E m ms) (set_access_cookie E h t x)"
  "keeps (steps E m ms) (set_refresh_cookie E h t x)" "keeps (steps E m ms) (clear_cookies h)"
proof -
  have "keeps (steps E m ms) (attempt (new_csrf_token E))"
    unfolding new_csrf_token_def by (intro steps_attempt_read random_token_keeps)
  then show "keeps (steps E m ms) (set_csrf_token E h)" "keeps (steps E m ms) (set_access_cookie E h t x)"
    "keeps (steps E m ms) (set_refresh_cookie E h t x)" "keeps (steps E m ms) (clear_cookies h)"
    unfolding set_csrf_token_def set_access_cookie_def set_refresh_cookie_def clear_cookies_def
    by (auto intro!: step_rules split: sum.split)
qed

lemma auth_handlers_steps:
  assumes "ah_tokens h = m"
  shows "keeps (steps E m ms) (login_handler E h r)" "keeps (steps E m ms) (refresh_handler E h r)"
    "keeps (steps E m ms) (me_handler E h r)" "keeps (steps E m ms) (logout_handler E h r)" "keeps (steps E m ms) (health r)"
  unfolding login_handler_def refresh_handler_def me_handler_def logout_handler_def health_def write_tokens_def Let_def assms
  by (auto intro!: step_rules decode_json_steps cookies_steps split: option.split prod.split sum.split)

lemma listing_steps:
  assumes "\<And>k l n. keeps same_db (q k l n)" "\<And>k l n. keeps same_fs (q k l n)"
  shows "keeps (steps E m ms) (listing h r q enc msg)"
  unfolding listing_def write_page_def mount_param_def Let_def
  by (auto intro!: step_rules steps_attempt_read assms split: sum.split)

lemma folder_handlers_steps:
  assumes "fh_mounts h = ms"
  shows "keeps (steps E m ms) (list_folders_handler E h r)" "keeps (steps E m ms) (create_folder_handler E h r)"
    "keeps (steps E m ms) (rename_folder_handler E h r)" "keeps (steps E m ms) (delete_folder_handler E h r)"
  unfolding list_folders_handler_def create_folder_handler_def rename_folder_handler_def delete_folder_handler_def assms
  by (auto intro!: step_rules decode_json_steps listing_steps listings_keep split: option.split sum.split)

lemma upload_parts_steps: "fh_mounts h = ms \<Longrightarrow> keeps (steps E m ms) (upload_parts E h d k final ps)"
proof (induction ps arbitrary: d k)
  case Nil
  show ?case by (auto intro!: step_rules split: option.split)
next
  case (Cons p ps)
  have "keeps (steps E m ms) (bindE (attempt (upload E ms k d (pt_file_name p) (pt_content p))) (\<lambda>stored.
           case stored of
             Inl e \<Rightarrow> bindE (write_error (fst (upload_error e)) (snd (upload_error e))) (\<lambda>_. ret None)
           | Inr f \<Rightarrow> ret (Some (Some f))))"
    by (auto intro!: step_rules split: sum.split)
  with Cons show ?case by simp
qed

lemma deadline_steps: "keeps (steps E m ms) (set_write_deadline E d)"
proof -
  have "keeps same_data (\<lambda>c. (Inr (), c\<lparr>cn_deadline := Some t\<rparr>))" for t
    by (simp add: keeps_def same_data_def)
  then have "keeps same_data (set_write_deadline E d)"
    unfolding set_write_deadline_def by (intro keeps_bindE same_data_preorder response_keeps)
  then show ?thesis by (rule steps_same)
qed

lemma download_steps_only: "keeps (steps E m ms) (download_handler E h r)"
proof -
  have s: "keeps same_data (serve_range r b n)" for b n
    unfolding serve_range_def by (auto intro!: keeps_intro split: prod.split range_mode.split)
  show ?thesis
    unfolding download_handler_def
    by (auto intro!: step_rules deadline_steps steps_attempt_read file_reads_keep open_object_keeps
        steps_same [OF s] split: sum.split)
qed

lemma file_handlers_steps:
  assumes "fh_mounts h = ms"
  shows "keeps (steps E m ms) (list_files_handler E h r)" "keeps (steps E m ms) (copy_file_handler E h r)"
    "keeps (steps E m ms) (rename_file_handler E h r)" "keeps (steps E m ms) (move_file_handler E h r)"
    "keeps (steps E m ms) (delete_file_handler E h r)" "keeps (steps E m ms) (trash_handler E h r)"
    "keeps (steps E m ms) (restore_handler E h r)" "keeps (steps E m ms) (purge_handler E h r)"
    "keeps (steps E m ms) (search_handler E h r)" "keeps (steps E m ms) (upload_handler E h r)"
  unfolding list_files_handler_def copy_file_handler_def rename_file_handler_def move_file_handler_def delete_file_handler_def
    trash_handler_def restore_handler_def purge_handler_def search_handler_def upload_handler_def Let_def assms
  by (auto intro!: step_rules decode_json_steps deadline_steps upload_parts_steps [OF assms] listing_steps listings_keep
      split: option.split sum.split)

lemma counts_keep: "keeps same_db (count_and_sum E p)" "keeps same_fs (count_and_sum E p)"
  by (auto simp: count_and_sum_def keeps_def same_db_def same_fs_def sql_io_def Let_def split: option.split sum.split)

lemma disk_views_steps: "keeps (steps E m ms) (disk_views E h ds)"
proof (induction ds)
  case Nil
  show ?case by (simp add: keeps_def steps_def)
next
  case (Cons d ds)
  have "keeps (steps E m ms) (attempt (count_active_by_mount E (m_id d)))"
    unfolding count_active_by_mount_def by (intro steps_attempt_read counts_keep)
  with Cons show ?case unfolding disk_views.simps Let_def by (intro step_rules)
qed

lemma disk_handlers_steps: "keeps (steps E m ms) (disks_handler E h r)" "keeps (steps E m ms) (dashboard_handler E h r)"
proof -
  have d: "keeps (steps E m ms) (attempt (dashboard E))"
    unfolding dashboard_def
    by (auto intro!: steps_attempt_read keeps_bindE keeps_ret counts_keep sql_query_keeps same_db_preorder same_fs_preorder
        split: prod.split)
  show "keeps (steps E m ms) (disks_handler E h r)" "keeps (steps E m ms) (dashboard_handler E h r)"
    unfolding disks_handler_def dashboard_handler_def
    by (auto intro!: step_rules d disk_views_steps split: sum.split prod.split)
qed

section \<open>Middleware and routes\<close>

lemma require_steps:
  assumes "\<And>r. keeps (steps E m ms) (nxt r)"
  shows "keeps (steps E m ms) (require_access_token E tm nxt r)"
proof -
  have "keeps (steps E m ms) (attempt (validate_access_token E tm raw))" "keeps (steps E m ms) (attempt (validate_session E i now))"
    for raw i now
    by (intro steps_attempt_read validate_access_token_keeps validate_session_keeps)+
  then show ?thesis
    unfolding require_access_token_def Let_def by (auto intro!: step_rules assms split: sum.split)
qed

lemma rate_limited_steps:
  assumes "\<And>r. keeps (steps E m ms) (nxt r)" "\<And>l c. cn_world (put l c) = cn_world c"
  shows "keeps (steps E m ms) (rate_limited E get put nxt r)"
proof -
  have "keeps (steps E m ms) (\<lambda>c. let (ok, l) = allow (get c) (client_key r) now in (Inr (ok, rl_window l), put l c))" for now
    by (simp add: keeps_def steps_def assms(2) Let_def split: prod.split)
  then show ?thesis
    unfolding rate_limited_def by (auto intro!: step_rules assms(1) split: prod.split)
qed

lemma serve_route_steps:
  assumes "ah_tokens (sv_auth S) = m" "fh_mounts (sv_files S) = ms"
  shows "keeps (steps E m ms) (serve_route E S route r)"
  by (cases route)
    (auto simp: protected_def intro!: require_steps rate_limited_steps auth_handlers_steps [OF assms(1)]
      folder_handlers_steps [OF assms(2)] file_handlers_steps [OF assms(2)] download_steps_only disk_handlers_steps
      steps_replies steps_same [OF pages_keep(1)] steps_same [OF pages_keep(2)])

lemma mux_steps:
  assumes "ah_tokens (sv_auth S) = m" "fh_mounts (sv_files S) = ms"
  shows "keeps (steps E m ms) (mux E S r)"
  by (simp add: mux_def Let_def serve_route_steps [OF assms])

lemma middleware_steps:
  assumes "\<And>r. keeps (steps E m ms) (nxt r)"
  shows "keeps (steps E m ms) (logging E nxt r)" "keeps (steps E m ms) (security_headers nxt r)"
    "keeps (steps E m ms) (request_id E nxt r)" "keeps (steps E m ms) (recover nxt r)" "keeps (steps E m ms) (cors allowed nxt r)"
proof -
  have "keeps (steps E m ms) (attempt (new_request_id E))" by (intro steps_attempt_read hex_id_keeps)
  then show "keeps (steps E m ms) (request_id E nxt r)"
    unfolding request_id_def Let_def by (auto intro!: step_rules assms split: sum.split)
  show "keeps (steps E m ms) (logging E nxt r)" "keeps (steps E m ms) (security_headers nxt r)"
    "keeps (steps E m ms) (recover nxt r)" "keeps (steps E m ms) (cors allowed nxt r)"
    unfolding logging_def security_headers_def recover_def cors_def Let_def by (intro step_rules assms)+
qed

lemma router_steps:
  assumes "ah_tokens (sv_auth S) = m" "fh_mounts (sv_files S) = ms"
  shows "keeps (steps E m ms) (router E S r)"
  unfolding router_def chain_def by (simp, intro middleware_steps mux_steps [OF assms])

text \<open>What one request does to rows and objects is a sequence of operations of the services.\<close>

lemma handle_request_steps:
  assumes "ah_tokens (sv_auth S) = m" "fh_mounts (sv_files S) = ms"
  shows "(data_step E m ms)\<^sup>*\<^sup>* (cn_world c) (cn_world (handle_request E S r c))"
  using keepsD [OF router_steps [OF assms], where w = "c\<lparr>cn_deadline := None, cn_response := no_response\<rparr>"]
  by (simp add: handle_request_def steps_def)

text \<open>The invariants of the system along requests.\<close>

lemma data_steps_objects:
  "(data_step E m ms)\<^sup>*\<^sup>* w w1 \<Longrightarrow> env_ok E \<Longrightarrow> disks_ok ms \<Longrightarrow> objects_ok E ms w \<Longrightarrow> objects_ok E ms w1"
  by (induction rule: rtranclp_induct) (auto simp: data_step_def objects_ok_def dest: sys_step_objects [unfolded objects_ok_def])

lemma data_steps_layout: "(data_step E m ms)\<^sup>*\<^sup>* w w1 \<Longrightarrow> layout_ok (w_db w) \<Longrightarrow> layout_ok (w_db w1)"
  by (induction rule: rtranclp_induct) (auto simp: data_step_def dest: sys_step_layout)

fun handle_requests :: "env \<Rightarrow> server \<Rightarrow> request list \<Rightarrow> conn \<Rightarrow> conn" where
  "handle_requests E S [] c = c"
| "handle_requests E S (r # rs) c = handle_requests E S rs (handle_request E S r c)"

lemma handle_requests_steps:
  "(data_step E (ah_tokens (sv_auth S)) (fh_mounts (sv_files S)))\<^sup>*\<^sup>* (cn_world c) (cn_world (handle_requests E S rs c))"
proof (induction rs arbitrary: c)
  case (Cons r rs)
  show ?case using rtranclp_trans [OF handle_request_steps [OF refl refl] Cons.IH] by simp
qed simp

lemma handle_requests_sound:
  assumes "env_ok E" "disks_ok (fh_mounts (sv_files S))" "objects_ok E (fh_mounts (sv_files S)) (cn_world c)" "layout_ok (w_db (cn_world c))"
  shows "objects_ok E (fh_mounts (sv_files S)) (cn_world (handle_requests E S rs c)) \<and> layout_ok (w_db (cn_world (handle_requests E S rs c)))"
  using data_steps_objects [OF handle_requests_steps assms(1,2,3)] data_steps_layout [OF handle_requests_steps assms(4)] by blast

end
