(* ===== verification/Http_Operations.thy ===== *)
theory Http_Operations
  imports Http_Denied Http_Steps
begin

text \<open>
  What one request does to rows and objects, exactly: \<open>request_effect\<close> says which operation of which service
  a request stands for, with which arguments and in which world, and the handlers and the middleware
  are shown to do that and nothing else.
\<close>

section \<open>The operation a request stands for\<close>

text \<open>The world a program of the services leaves.\<close>

definition effect :: "'a io \<Rightarrow> world \<Rightarrow> world" where
  "effect p w = snd (p w)"

definition ticked :: "world \<Rightarrow> world" where
  "ticked w = w\<lparr>w_clock := Suc (w_clock w)\<rparr>"

text \<open>A JSON body that is refused stands for nothing.\<close>

definition with_body :: "string list \<Rightarrow> request \<Rightarrow> ((string \<Rightarrow> string) \<Rightarrow> world \<Rightarrow> world) \<Rightarrow> world \<Rightarrow> world" where
  "with_body names r k =
     (if \<not> has_prefix (rq_header r ''Content-Type'') ''application/json'' then id
      else case rq_json r 16384 True names of (f, ok) \<Rightarrow> if ok then k f else id)"

text \<open>The first file among the parts, with the folder and the disk that the fields before it name.\<close>

fun first_file :: "string \<Rightarrow> string \<Rightarrow> part list \<Rightarrow> (string \<times> string \<times> part) option" where
  "first_file folder_id mount_id [] = None"
| "first_file folder_id mount_id (p # ps) =
     (if pt_form_name p = ''folder_id'' then first_file (field_text p) mount_id ps
      else if pt_form_name p = ''mount'' then first_file folder_id (field_text p) ps
      else if pt_form_name p \<noteq> ''file'' then first_file folder_id mount_id ps
      else Some (folder_id, mount_id, p))"

definition upload_of :: "env \<Rightarrow> file_handler \<Rightarrow> string \<Rightarrow> string \<Rightarrow> part list \<Rightarrow> world \<Rightarrow> world" where
  "upload_of E h folder_id mount_id parts =
     (case first_file folder_id mount_id parts of
        None \<Rightarrow> id
      | Some (d, k, p) \<Rightarrow> effect (upload E (fh_mounts h) k d (pt_file_name p) (pt_content p)))"

text \<open>A download leaves its mark in the audit log, once the object is open.\<close>

definition download_mark :: "env \<Rightarrow> mounts \<Rightarrow> string \<Rightarrow> unit io" where
  "download_mark E ms i =
     bindE (find_file E i) (\<lambda>item.
     bindE (now_io E) (\<lambda>_.
     bindE (liftE (get_mount ms (fl_mount item))) (\<lambda>m.
     bindE (open_object E (m_store m) (fl_storage_key item)) (\<lambda>_.
     record_audit E ''download'' (fl_id item)))))"

fun route_effect :: "env \<Rightarrow> server \<Rightarrow> route \<Rightarrow> request \<Rightarrow> claims \<Rightarrow> world \<Rightarrow> world" where
  "route_effect E S Logout r cl = effect (logout E (c_id cl))"
| "route_effect E S Create_folder r cl = with_body [''mount'', ''parent_id'', ''name''] r (\<lambda>f.
     effect (svc_create_folder E (fh_mounts (sv_files S)) (f ''mount'') (f ''parent_id'') (trim_space (f ''name''))))"
| "route_effect E S (Rename_folder i) r cl = with_body [''name''] r (\<lambda>f. effect (svc_rename_folder E i (trim_space (f ''name''))))"
| "route_effect E S (Delete_folder i) r cl = effect (delete_folder E i)"
| "route_effect E S Upload r cl = (\<lambda>w.
     case rq_multipart r (wrap64 (fh_max_bytes (sv_files S) + 2 ^ 20)) of
       None \<Rightarrow> w
     | Some (parts, final) \<Rightarrow> upload_of E (sv_files S) [] [] parts (ticked w))"
| "route_effect E S (Download i) r cl = effect (download_mark E (fh_mounts (sv_files S)) i)"
| "route_effect E S (Rename_file i) r cl = with_body [''name''] r (\<lambda>f. effect (svc_rename_file E i (trim_space (f ''name''))))"
| "route_effect E S (Copy_file i) r cl =
     effect (copy_file E (fh_mounts (sv_files S)) i (fst (rq_json r 4096 False [''folder_id'']) ''folder_id''))"
| "route_effect E S (Move_file i) r cl = with_body [''folder_id''] r (\<lambda>f. effect (svc_move_file E i (f ''folder_id'')))"
| "route_effect E S (Delete_file i) r cl = effect (delete_file E i)"
| "route_effect E S (Restore i) r cl = effect (svc_restore_file E i)"
| "route_effect E S (Purge i) r cl = effect (permanently_delete E (fh_mounts (sv_files S)) i)"
| "route_effect E S route r cl = id"

text \<open>The refresh token a request presents, when its transport is allowed.\<close>

definition refresh_token_of :: "request \<Rightarrow> string option" where
  "refresh_token_of r =
     (let tok = token_from ''refresh_token'' r; cookie = rq_cookie r ''refresh_token'' \<noteq> None in
      if cookie \<and> (rq_header r ''Authorization'' \<noteq> [] \<or> \<not> csrf_token_valid r) \<or> tok = [] then None else Some tok)"

fun session_effect :: "env \<Rightarrow> server \<Rightarrow> route \<Rightarrow> request \<Rightarrow> world \<Rightarrow> world" where
  "session_effect E S Login r = with_body [''username'', ''password''] r (\<lambda>f.
     effect (login E (ah_tokens (sv_auth S)) (f ''username'') (f ''password'')))"
| "session_effect E S Refresh r = (case refresh_token_of r of
     None \<Rightarrow> id | Some tok \<Rightarrow> effect (refresh E (ah_tokens (sv_auth S)) tok))"
| "session_effect E S route r = id"

definition limit_allows :: "env \<Rightarrow> rate_limiter \<Rightarrow> request \<Rightarrow> world \<Rightarrow> bool" where
  "limit_allows E l r w = fst (allow l (client_key r) (x_clock E (w_clock w)))"

text \<open>
  The whole request: its access, or its place under the limit of the logins or the refreshes, and the
  operation of its route in the world they leave. \<open>w\<close> is the world in which the request reaches its route.
\<close>

definition served_effect :: "env \<Rightarrow> server \<Rightarrow> route \<Rightarrow> request \<Rightarrow> rate_limiter \<Rightarrow> rate_limiter \<Rightarrow> world \<Rightarrow> world" where
  "served_effect E S route r logins refreshes w =
     (let m = ah_tokens (sv_auth S) in
      if needs_access route then
        (if authorized E m r w \<and> x_sql_fault E (w_sql w) = None
         then (case x_jwt_parse E (key_func m) (tm_issuer m) [''HS256''] (x_clock E (w_clock w)) (token_from ''access_token'' r) of
                 Some (cl, valid) \<Rightarrow> route_effect E S route r cl (admission w)
               | None \<Rightarrow> w)
         else w)
      else if route = Login \<and> limit_allows E logins r w \<or> route = Refresh \<and> limit_allows E refreshes r w
      then session_effect E S route r (ticked w)
      else w)"

definition request_effect :: "env \<Rightarrow> server \<Rightarrow> request \<Rightarrow> conn \<Rightarrow> world" where
  "request_effect E S r c =
     served_effect E S (route_of (sv_ui_disabled S) (rq_method r) (rq_segments r)) r (cn_login c) (cn_refresh c)
       (arrival E r (cn_world c))"

section \<open>Programs that act as an operation\<close>

definition same_rows :: "world \<Rightarrow> world \<Rightarrow> bool" where
  "same_rows w w1 \<longleftrightarrow> w_db w1 = w_db w \<and> w_fs w1 = w_fs w"

definition acts :: "'a http \<Rightarrow> (world \<Rightarrow> world) \<Rightarrow> bool" where
  "acts p e \<longleftrightarrow> (\<forall>c. same_rows (e (cn_world c)) (cn_world (snd (p c))))"

lemma acts_still: "keeps same_data p \<Longrightarrow> acts p id"
  by (simp add: acts_def keeps_def same_data_def same_rows_def)

lemma acts_attempt:
  assumes "\<And>x. keeps same_data (f x)"
  shows "acts (bindE (attempt p) f) (effect p)"
  unfolding acts_def
proof
  fix c :: conn
  have "cn_world (snd (attempt p c)) = effect p (cn_world c)"
    by (auto simp: attempt_eq effect_def split: prod.split sum.split err.split)
  moreover have "same_data (snd (attempt p c)) (snd (bindE (attempt p) f c))"
    using keepsD [OF assms] by (cases "attempt p c") (auto simp: bindE_def same_data_def split: sum.split)
  ultimately show "same_rows (effect p (cn_world c)) (cn_world (snd (bindE (attempt p) f c)))"
    by (simp add: same_rows_def same_data_def)
qed

lemma bindE_assoc: "bindE (bindE p f) g = bindE p (\<lambda>x. bindE (f x) g)"
  by (intro ext) (simp add: bindE_def split: prod.split sum.split)

lemma acts_step:
  assumes "\<And>e. keeps same_data (f (Inl e))" "\<And>x. acts (f (Inr x)) (effect (q x))"
  shows "acts (bindE (attempt p) f) (effect (bindE p q))"
  unfolding acts_def
proof
  fix c :: conn
  obtain z w1 where p: "p (cn_world c) = (z, w1)" by fastforce
  show "same_rows (effect (bindE p q) (cn_world c)) (cn_world (snd (bindE (attempt p) f c)))"
  proof (cases z)
    case (Inl e)
    have "bindE (attempt p) f c = f (Inl e) (c\<lparr>cn_world := w1\<rparr>) \<or> snd (bindE (attempt p) f c) = c\<lparr>cn_world := w1\<rparr>"
      by (cases e) (simp_all add: bindE_def attempt_eq p Inl)
    then show ?thesis
      using keepsD [OF assms(1) [of e], of "c\<lparr>cn_world := w1\<rparr>"] p Inl
      by (auto simp: effect_def bindE_def same_rows_def same_data_def)
  next
    case (Inr x)
    then have "bindE (attempt p) f c = f (Inr x) (c\<lparr>cn_world := w1\<rparr>)" by (simp add: bindE_def attempt_eq p)
    moreover have "effect (bindE p q) (cn_world c) = effect (q x) w1" by (simp add: effect_def bindE_def p Inr)
    ultimately show ?thesis using assms(2) [of x, unfolded acts_def, rule_format, of "c\<lparr>cn_world := w1\<rparr>"] by simp
  qed
qed

lemma acts_reply: "acts k e \<Longrightarrow> acts (bindE (respond g) (\<lambda>_. k)) e"
  unfolding acts_def
proof
  fix c :: conn
  assume "\<forall>c. same_rows (e (cn_world c)) (cn_world (snd (k c)))"
  from spec [OF this, of "c\<lparr>cn_response := g (cn_response c)\<rparr>"]
  show "same_rows (e (cn_world c)) (cn_world (snd (bindE (respond g) (\<lambda>_. k) c)))" by (simp add: bindE_def respond_run)
qed

lemma acts_deadline: "acts k e \<Longrightarrow> acts (bindE (set_write_deadline E d) (\<lambda>_. k)) (\<lambda>w. e (ticked w))"
  unfolding acts_def
proof
  fix c :: conn
  assume a: "\<forall>c. same_rows (e (cn_world c)) (cn_world (snd (k c)))"
  let ?c = "c\<lparr>cn_world := ticked (cn_world c), cn_deadline := Some (x_clock E (w_clock (cn_world c)) + d)\<rparr>"
  have "bindE (set_write_deadline E d) (\<lambda>_. k) c = k ?c"
    by (simp add: set_write_deadline_def bindE_def clock_def now_io_def ticked_def)
  with spec [OF a, of ?c]
  show "same_rows (e (ticked (cn_world c))) (cn_world (snd (bindE (set_write_deadline E d) (\<lambda>_. k) c)))" by simp
qed

lemma effect_tick: "effect (bindE (now_io E) (\<lambda>_. q)) = (\<lambda>w. effect q (ticked w))"
  by (intro ext) (simp add: effect_def bindE_def now_io_def ticked_def)

lemma acts_body:
  assumes "\<And>f. acts (k f) (e f)"
  shows "acts (bindE (decode_json names r) (\<lambda>body. case body of None \<Rightarrow> ret () | Some f \<Rightarrow> k f)) (with_body names r e)"
    (is "acts (bindE _ ?g) _")
proof -
  obtain f ok where j: "rq_json r 16384 True names = (f, ok)" by fastforce
  show ?thesis
  proof (cases "has_prefix (rq_header r ''Content-Type'') ''application/json'' \<and> ok")
    case True
    then have "bindE (decode_json names r) ?g = k f"
      by (intro ext) (simp add: decode_json_def bindE_def ret_def j)
    then show ?thesis using True assms j by (simp add: with_body_def)
  next
    case False
    then have "\<exists>n msg. decode_json names r = bindE (write_error n msg) (\<lambda>_. ret None)"
      by (auto simp: decode_json_def j)
    then obtain n msg where "decode_json names r = bindE (write_error n msg) (\<lambda>_. ret None)" by blast
    then have "bindE (decode_json names r) ?g = bindE (write_error n msg) (\<lambda>_. ret ())"
      by (intro ext) (simp add: bindE_def ret_def split: prod.split sum.split)
    then have "keeps same_data (bindE (decode_json names r) ?g)" by (simp, intro keeps_intro same_data_preorder response_keeps)
    moreover have "with_body names r e = id" using False j by (auto simp: with_body_def)
    ultimately show ?thesis by (simp add: acts_still)
  qed
qed

section \<open>The handlers\<close>

lemma upload_parts_act:
  assumes "\<And>x. keeps same_data (g x)"
  shows "acts (bindE (upload_parts E h d k final ps) g) (upload_of E h d k ps)"
proof (induction ps arbitrary: d k)
  case Nil
  have "keeps same_data (bindE (upload_parts E h d k final []) g)"
    by (auto intro!: keeps_intro assms split: option.split)
  moreover have "upload_of E h d k [] = id" by (simp add: upload_of_def)
  ultimately show ?case by (simp only: acts_still)
next
  case (Cons p ps)
  have "acts (bindE (bindE (attempt (upload E (fh_mounts h) k d (pt_file_name p) (pt_content p))) (\<lambda>stored.
           case stored of
             Inl e \<Rightarrow> bindE (write_error (fst (upload_error e)) (snd (upload_error e))) (\<lambda>_. ret None)
           | Inr f \<Rightarrow> ret (Some (Some f)))) g)
      (effect (upload E (fh_mounts h) k d (pt_file_name p) (pt_content p)))"
    unfolding bindE_assoc by (rule acts_attempt) (auto intro!: keeps_intro assms split: sum.split)
  with Cons show ?case by (simp add: upload_of_def)
qed

lemma keeps_Pair: "keeps same_data (Pair (Inr x))"
  by (simp add: keeps_def same_data_def)

lemma upload_acts:
  "acts (upload_handler E h r) (\<lambda>w. case rq_multipart r (wrap64 (fh_max_bytes h + 2 ^ 20)) of
       None \<Rightarrow> w
     | Some (parts, final) \<Rightarrow> upload_of E h [] [] parts (ticked w))"
proof (cases "rq_multipart r (wrap64 (fh_max_bytes h + 2 ^ 20))")
  case None
  have "acts (upload_handler E h r) (\<lambda>w. id (ticked w))"
    unfolding upload_handler_def None option.case by (rule acts_deadline) (rule acts_still, intro response_keeps)
  with None show ?thesis by (simp add: acts_def same_rows_def ticked_def)
next
  case (Some q)
  obtain parts final where q: "q = (parts, final)" by fastforce
  show ?thesis
    unfolding upload_handler_def Some q option.case prod.case
    by (rule acts_deadline, rule upload_parts_act) (auto intro!: keeps_intro keeps_Pair split: option.split)
qed

lemma download_acts: "acts (download_handler E h r) (effect (download_mark E (fh_mounts h) (rq_path_id r)))"
proof -
  have s: "keeps same_data (serve_range r b n)" for b n
    unfolding serve_range_def by (auto intro!: keeps_intro split: prod.split range_mode.split)
  have e: "keeps same_data (write_error n msg)" for n msg by (rule response_keeps)
  show ?thesis
    unfolding download_handler_def download_mark_def
  proof (rule acts_step, simp only: sum.case, rule e, simp only: sum.case effect_tick, rule acts_deadline)
    fix item
    show "acts (bindE (attempt (liftE (get_mount (fh_mounts h) (fl_mount item)))) (\<lambda>mount.
       case mount of Inl e \<Rightarrow> write_error 404 ''file content not found'' | Inr m \<Rightarrow>
       bindE (attempt (open_object E (m_store m) (fl_storage_key item))) (\<lambda>opened.
       case opened of Inl e \<Rightarrow> write_error 404 ''file content not found'' | Inr content \<Rightarrow>
       bindE (set_header ''Content-Type'' (fl_content_type item)) (\<lambda>_.
       bindE (set_header ''Content-Disposition'' (''attachment; filename='' @ quote (fl_name item))) (\<lambda>_.
       bindE (set_header ''Accept-Ranges'' ''bytes'') (\<lambda>_.
       bindE (attempt (record_audit E ''download'' (fl_id item))) (\<lambda>_.
       serve_range r content (fl_size item))))))))
      (effect (bindE (liftE (get_mount (fh_mounts h) (fl_mount item))) (\<lambda>m.
       bindE (open_object E (m_store m) (fl_storage_key item)) (\<lambda>_. record_audit E ''download'' (fl_id item)))))"
      unfolding set_header_def
      by (rule acts_step, simp only: sum.case, rule e, simp only: sum.case, rule acts_step, simp only: sum.case, rule e, simp only: sum.case)
        (intro acts_reply acts_attempt s)
  qed
qed

lemma refused_replies: "keeps same_data (write_error n msg)" "keeps same_data (write_status n)"
  by (rule response_keeps)+

lemma folder_handlers_act:
  "acts (create_folder_handler E h r) (with_body [''mount'', ''parent_id'', ''name''] r (\<lambda>f.
     effect (svc_create_folder E (fh_mounts h) (f ''mount'') (f ''parent_id'') (trim_space (f ''name'')))))"
  "acts (rename_folder_handler E h r) (with_body [''name''] r (\<lambda>f. effect (svc_rename_folder E (rq_path_id r) (trim_space (f ''name'')))))"
  "acts (delete_folder_handler E h r) (effect (delete_folder E (rq_path_id r)))"
  unfolding create_folder_handler_def rename_folder_handler_def delete_folder_handler_def
  by (intro acts_body acts_attempt; auto intro!: keeps_intro split: sum.split)+

lemma file_handlers_act:
  "acts (copy_file_handler E h r)
     (effect (copy_file E (fh_mounts h) (rq_path_id r) (fst (rq_json r 4096 False [''folder_id'']) ''folder_id'')))"
  "acts (rename_file_handler E h r) (with_body [''name''] r (\<lambda>f. effect (svc_rename_file E (rq_path_id r) (trim_space (f ''name'')))))"
  "acts (move_file_handler E h r) (with_body [''folder_id''] r (\<lambda>f. effect (svc_move_file E (rq_path_id r) (f ''folder_id''))))"
  "acts (delete_file_handler E h r) (effect (delete_file E (rq_path_id r)))"
  "acts (restore_handler E h r) (effect (svc_restore_file E (rq_path_id r)))"
  "acts (purge_handler E h r) (effect (permanently_delete E (fh_mounts h) (rq_path_id r)))"
  unfolding copy_file_handler_def rename_file_handler_def move_file_handler_def delete_file_handler_def
    restore_handler_def purge_handler_def Let_def
  by (intro acts_body acts_attempt; auto intro!: keeps_intro split: sum.split)+

lemma listing_still:
  assumes "\<And>k l n. keeps same_db (q k l n)" "\<And>k l n. keeps same_fs (q k l n)"
  shows "keeps same_data (listing h r q enc msg)"
  unfolding listing_def write_page_def mount_param_def Let_def
  by (auto intro!: keeps_intro keeps_Pair assms split: sum.split)

lemma disk_views_still: "keeps same_data (disk_views E h ds)"
proof (induction ds)
  case Nil
  show ?case by (simp add: keeps_Pair)
next
  case (Cons d ds)
  have "keeps same_db (count_active_by_mount E (m_id d))" "keeps same_fs (count_active_by_mount E (m_id d))"
    unfolding count_active_by_mount_def by (intro counts_keep)+
  with Cons show ?case unfolding disk_views.simps Let_def by (intro keeps_intro same_data_preorder)
qed

lemma listings_still:
  "keeps same_data (list_folders_handler E h r)" "keeps same_data (list_files_handler E h r)"
  "keeps same_data (trash_handler E h r)" "keeps same_data (search_handler E h r)"
  unfolding list_folders_handler_def list_files_handler_def trash_handler_def search_handler_def
  by (intro listing_still listings_keep)+

lemma disks_still: "keeps same_data (disks_handler E h r)" "keeps same_data (dashboard_handler E h r)"
proof -
  have d: "keeps same_data (attempt (dashboard E))"
    unfolding dashboard_def
    by (auto intro!: keeps_attempt keeps_bindE keeps_ret counts_keep sql_query_keeps same_db_preorder same_fs_preorder
        split: prod.split)
  show "keeps same_data (disks_handler E h r)" "keeps same_data (dashboard_handler E h r)"
    unfolding disks_handler_def dashboard_handler_def
    by (auto intro!: keeps_intro d disk_views_still split: sum.split prod.split)
qed

lemma cookies_still:
  "keeps same_data (set_csrf_token E h)" "keeps same_data (set_access_cookie E h t x)"
  "keeps same_data (set_refresh_cookie E h t x)" "keeps same_data (clear_cookies h)"
proof -
  have "keeps same_data (attempt (new_csrf_token E))"
    unfolding new_csrf_token_def by (intro keeps_attempt random_token_keeps)
  then show "keeps same_data (set_csrf_token E h)" "keeps same_data (set_access_cookie E h t x)"
    "keeps same_data (set_refresh_cookie E h t x)" "keeps same_data (clear_cookies h)"
    unfolding set_csrf_token_def set_access_cookie_def set_refresh_cookie_def clear_cookies_def
    by (auto intro!: keeps_intro keeps_Pair split: sum.split)
qed

lemma auth_handlers_act:
  "rq_claims r = Some cl \<Longrightarrow> acts (logout_handler E h r) (effect (logout E (c_id cl)))"
  "acts (login_handler E h r) (with_body [''username'', ''password''] r (\<lambda>f.
     effect (login E (ah_tokens h) (f ''username'') (f ''password''))))"
  "acts (refresh_handler E h r) (case refresh_token_of r of None \<Rightarrow> id | Some tok \<Rightarrow> effect (refresh E (ah_tokens h) tok))"
proof -
  show "acts (logout_handler E h r) (effect (logout E (c_id cl)))" if "rq_claims r = Some cl"
    unfolding logout_handler_def that option.case by (rule acts_attempt) (auto intro!: keeps_intro cookies_still split: sum.split)
  show "acts (login_handler E h r) (with_body [''username'', ''password''] r (\<lambda>f.
      effect (login E (ah_tokens h) (f ''username'') (f ''password''))))"
    unfolding login_handler_def write_tokens_def
    by (intro acts_body acts_attempt) (auto intro!: keeps_intro cookies_still split: sum.split prod.split)
  show "acts (refresh_handler E h r) (case refresh_token_of r of None \<Rightarrow> id | Some tok \<Rightarrow> effect (refresh E (ah_tokens h) tok))"
  proof (cases "refresh_token_of r")
    case None
    then show ?thesis
      unfolding refresh_handler_def by (auto simp: refresh_token_of_def Let_def intro!: acts_still response_keeps split: if_splits)
  next
    case (Some tok)
    then have "refresh_handler E h r = bindE (attempt (refresh E (ah_tokens h) tok)) (\<lambda>outcome.
      case outcome of Inl e \<Rightarrow> write_error 401 ''invalid refresh token'' | Inr tk \<Rightarrow>
      bindE (set_access_cookie E h (tk_access tk) (tk_expires_at tk)) (\<lambda>_.
      bindE (set_refresh_cookie E h (tk_refresh tk) (tk_refresh_expires_at tk)) (\<lambda>_.
      write_json 200 (JObject [(''access_token'', JString (tk_access tk)), (''expires_at'', JTime (tk_expires_at tk)),
        (''refresh_token'', JString (tk_refresh tk))]))))"
      unfolding refresh_handler_def by (auto simp: refresh_token_of_def Let_def split: if_splits)
    with Some show ?thesis by (simp, intro acts_attempt) (auto intro!: keeps_intro cookies_still split: sum.split)
  qed
qed

lemma me_still: "keeps same_data (me_handler E h r)"
  unfolding me_handler_def me_def
  by (auto intro!: keeps_intro cookies_still split: option.split sum.split)

section \<open>The routes\<close>

lemma body_update [simp]:
  "with_body names (r\<lparr>rq_claims := x\<rparr>) = with_body names r" "with_body names (r\<lparr>rq_request_id := i\<rparr>) = with_body names r"
  "with_body names (r\<lparr>rq_path_id := i\<rparr>) = with_body names r"
  by (simp_all add: fun_eq_iff with_body_def)

lemma refresh_update [simp]:
  "refresh_token_of (r\<lparr>rq_claims := x\<rparr>) = refresh_token_of r" "refresh_token_of (r\<lparr>rq_request_id := i\<rparr>) = refresh_token_of r"
  "refresh_token_of (r\<lparr>rq_path_id := i\<rparr>) = refresh_token_of r"
  by (simp_all add: refresh_token_of_def csrf_token_valid_def Let_def split: option.split)

lemma session_update [simp]:
  "session_effect E S route (r\<lparr>rq_claims := x\<rparr>) = session_effect E S route r"
  "session_effect E S route (r\<lparr>rq_request_id := i\<rparr>) = session_effect E S route r"
  "session_effect E S route (r\<lparr>rq_path_id := i\<rparr>) = session_effect E S route r"
  by (cases route; simp)+

lemma limit_update [simp]:
  "limit_allows E l (r\<lparr>rq_claims := x\<rparr>) w = limit_allows E l r w" "limit_allows E l (r\<lparr>rq_request_id := i\<rparr>) w = limit_allows E l r w"
  "limit_allows E l (r\<lparr>rq_path_id := i\<rparr>) w = limit_allows E l r w"
  by (simp_all add: limit_allows_def client_key_def split: option.split)

lemma route_update [simp]:
  "route_effect E S route (r\<lparr>rq_claims := x\<rparr>) cl = route_effect E S route r cl"
  "route_effect E S route (r\<lparr>rq_request_id := i\<rparr>) cl = route_effect E S route r cl"
  "route_effect E S route (r\<lparr>rq_path_id := i\<rparr>) cl = route_effect E S route r cl"
  by (cases route; simp)+

text \<open>Behind the check every route does the operation it stands for.\<close>

lemma protects:
  assumes "serve_route E S route = protected E S h" "\<And>r cl. rq_claims r = Some cl \<Longrightarrow> acts (h r) (e r cl)"
    and "\<And>r cl. rq_path_id r = path_id route \<Longrightarrow> route_effect E S route r cl = e r cl"
  shows "\<exists>h. serve_route E S route = protected E S h \<and>
    (\<forall>r cl. rq_path_id r = path_id route \<longrightarrow> acts (h (r\<lparr>rq_claims := Some cl\<rparr>)) (route_effect E S route r cl))"
proof (intro exI conjI allI impI, rule assms(1))
  fix r :: request and cl assume "rq_path_id r = path_id route"
  then have "route_effect E S route r cl = e (r\<lparr>rq_claims := Some cl\<rparr>) cl"
    using assms(3) [of "r\<lparr>rq_claims := Some cl\<rparr>" cl] by simp
  then show "acts (h (r\<lparr>rq_claims := Some cl\<rparr>)) (route_effect E S route r cl)" using assms(2) by simp
qed

lemma protected_route:
  assumes "needs_access route"
  shows "\<exists>h. serve_route E S route = protected E S h \<and>
    (\<forall>r cl. rq_path_id r = path_id route \<longrightarrow> acts (h (r\<lparr>rq_claims := Some cl\<rparr>)) (route_effect E S route r cl))"
proof (cases route)
  case Logout
  show ?thesis unfolding Logout by (rule protects, rule serve_route.simps, erule auth_handlers_act(1), simp)
next
  case Me
  show ?thesis unfolding Me by (rule protects, rule serve_route.simps, rule acts_still [OF me_still], simp)
next
  case List_folders
  show ?thesis unfolding List_folders by (rule protects, rule serve_route.simps, rule acts_still [OF listings_still(1)], simp)
next
  case List_files
  show ?thesis unfolding List_files by (rule protects, rule serve_route.simps, rule acts_still [OF listings_still(2)], simp)
next
  case Trash
  show ?thesis unfolding Trash by (rule protects, rule serve_route.simps, rule acts_still [OF listings_still(3)], simp)
next
  case Search
  show ?thesis unfolding Search by (rule protects, rule serve_route.simps, rule acts_still [OF listings_still(4)], simp)
next
  case Disks
  show ?thesis unfolding Disks by (rule protects, rule serve_route.simps, rule acts_still [OF disks_still(1)], simp)
next
  case Dashboard
  show ?thesis unfolding Dashboard by (rule protects, rule serve_route.simps, rule acts_still [OF disks_still(2)], simp)
next
  case Create_folder
  show ?thesis unfolding Create_folder by (rule protects, rule serve_route.simps, rule folder_handlers_act(1), simp)
next
  case (Rename_folder i)
  show ?thesis unfolding Rename_folder by (rule protects, rule serve_route.simps, rule folder_handlers_act(2), simp)
next
  case (Delete_folder i)
  show ?thesis unfolding Delete_folder by (rule protects, rule serve_route.simps, rule folder_handlers_act(3), simp)
next
  case Upload
  show ?thesis unfolding Upload by (rule protects, rule serve_route.simps, rule upload_acts, simp)
next
  case (Download i)
  show ?thesis unfolding Download by (rule protects, rule serve_route.simps, rule download_acts, simp)
next
  case (Copy_file i)
  show ?thesis unfolding Copy_file by (rule protects, rule serve_route.simps, rule file_handlers_act(1), simp)
next
  case (Rename_file i)
  show ?thesis unfolding Rename_file by (rule protects, rule serve_route.simps, rule file_handlers_act(2), simp)
next
  case (Move_file i)
  show ?thesis unfolding Move_file by (rule protects, rule serve_route.simps, rule file_handlers_act(3), simp)
next
  case (Delete_file i)
  show ?thesis unfolding Delete_file by (rule protects, rule serve_route.simps, rule file_handlers_act(4), simp)
next
  case (Restore i)
  show ?thesis unfolding Restore by (rule protects, rule serve_route.simps, rule file_handlers_act(5), simp)
next
  case (Purge i)
  show ?thesis unfolding Purge by (rule protects, rule serve_route.simps, rule file_handlers_act(6), simp)
qed (use assms in \<open>simp_all add: needs_access_def\<close>)

section \<open>The whole request\<close>

lemma protected_acts:
  fixes S :: server and c :: conn
  assumes "needs_access route" "rq_path_id r = path_id route"
  defines "m \<equiv> ah_tokens (sv_auth S)"
  shows "same_rows
    (if authorized E m r (cn_world c) \<and> x_sql_fault E (w_sql (cn_world c)) = None
     then (case x_jwt_parse E (key_func m) (tm_issuer m) [''HS256''] (x_clock E (w_clock (cn_world c))) (token_from ''access_token'' r) of
             Some (cl, valid) \<Rightarrow> route_effect E S route r cl (admission (cn_world c)) | None \<Rightarrow> cn_world c)
     else cn_world c)
    (cn_world (snd (serve_route E S route r c)))"
proof -
  obtain h where h: "serve_route E S route = protected E S h"
    "\<And>r cl. rq_path_id r = path_id route \<Longrightarrow> acts (h (r\<lparr>rq_claims := Some cl\<rparr>)) (route_effect E S route r cl)"
    using protected_route [OF assms(1)] by blast
  show ?thesis
  proof (cases "authorized E m r (cn_world c) \<and> x_sql_fault E (w_sql (cn_world c)) = None")
    case True
    then obtain cl where cl:
      "x_jwt_parse E (key_func m) (tm_issuer m) [''HS256''] (x_clock E (w_clock (cn_world c))) (token_from ''access_token'' r) = Some (cl, True)"
      "require_access_token E m h r c = h (r\<lparr>rq_claims := Some cl\<rparr>) (c\<lparr>cn_world := admission (cn_world c)\<rparr>)"
      using require_run(2) by blast
    have "same_rows (route_effect E S route r cl (admission (cn_world c)))
        (cn_world (snd (h (r\<lparr>rq_claims := Some cl\<rparr>) (c\<lparr>cn_world := admission (cn_world c)\<rparr>))))"
      using h(2) [OF assms(2), unfolded acts_def, rule_format, of cl "c\<lparr>cn_world := admission (cn_world c)\<rparr>"] by simp
    with True cl show ?thesis by (simp add: h(1) protected_def m_def)
  next
    case False
    from require_run(1) [OF False, of h] obtain c1 where "same_data c c1" "require_access_token E m h r c = write_auth_error c1" by blast
    moreover have "same_data c1 (snd (write_auth_error c1))" by (rule keepsD [OF write_auth_error_keeps])
    ultimately have "same_rows (cn_world c) (cn_world (snd (serve_route E S route r c)))"
      by (simp add: h(1) protected_def m_def same_rows_def same_data_def)
    with False show ?thesis by (simp only: if_False)
  qed
qed

lemma rate_limited_acts:
  assumes "acts (nxt r) e" "\<And>l c. cn_world (put l c) = cn_world c" "\<And>w c. get (c\<lparr>cn_world := w\<rparr>) = get c"
  shows "same_rows (if limit_allows E (get c) r (cn_world c) then e (ticked (cn_world c)) else cn_world c)
    (cn_world (snd (rate_limited E get put nxt r c)))"
proof -
  let ?now = "x_clock E (w_clock (cn_world c))" and ?c = "c\<lparr>cn_world := ticked (cn_world c)\<rparr>"
  obtain ok l where a: "allow (get c) (client_key r) ?now = (ok, l)" by fastforce
  have run: "rate_limited E get put nxt r c = (if \<not> ok then bindE (set_header ''Retry-After'' (format_int (whole_seconds (rl_window l)))) (\<lambda>_.
       http_error ''rate limit exceeded'' 429) else nxt r) (put l ?c)"
    using a assms(3) by (simp add: rate_limited_def bindE_def clock_def now_io_def ticked_def)
  have "keeps same_data (bindE (set_header ''Retry-After'' t) (\<lambda>_. http_error ''rate limit exceeded'' 429))" for t
    by (intro keeps_intro same_data_preorder response_keeps)
  from keepsD [OF this, of "put l ?c"] assms(1) [unfolded acts_def, rule_format, of "put l ?c"] show ?thesis
    by (auto simp: run limit_allows_def a same_rows_def same_data_def assms(2) ticked_def)
qed

lemma open_route_still:
  assumes "\<not> needs_access route" "route \<notin> {Login, Refresh}"
  shows "keeps same_data (serve_route E S route r)"
  using assms
  by (cases route) (auto simp: needs_access_def health_def intro!: keeps_intro pages_keep)

lemma serve_acts:
  assumes "rq_path_id r = path_id route"
  shows "same_rows (served_effect E S route r (cn_login c) (cn_refresh c) (cn_world c)) (cn_world (snd (serve_route E S route r c)))"
proof (cases "needs_access route")
  case True
  from protected_acts [OF True assms, where S = S and E = E and c = c] show ?thesis
    unfolding served_effect_def Let_def if_P [OF True] .
next
  case False
  have login: "acts (login_handler E (sv_auth S) r) (session_effect E S Login r)"
    using auth_handlers_act(2) [of E "sv_auth S" r] by simp
  have refresh: "acts (refresh_handler E (sv_auth S) r) (session_effect E S Refresh r)"
    using auth_handlers_act(3) [of E "sv_auth S" r] by simp
  consider "route = Login" | "route = Refresh" | "route \<notin> {Login, Refresh}" by blast
  then show ?thesis
  proof cases
    case 1
    show ?thesis
      using rate_limited_acts [where nxt = "login_handler E (sv_auth S)" and r = r and E = E, OF login, where c = c and put = "\<lambda>l c. c\<lparr>cn_login := l\<rparr>" and get = cn_login] False 1
      by (simp add: served_effect_def del: session_effect.simps)
  next
    case 2
    show ?thesis
      using rate_limited_acts [where nxt = "refresh_handler E (sv_auth S)" and r = r and E = E, OF refresh, where c = c and put = "\<lambda>l c. c\<lparr>cn_refresh := l\<rparr>" and get = cn_refresh] False 2
      by (simp add: served_effect_def del: session_effect.simps)
  next
    case 3
    from keepsD [OF open_route_still [OF False 3]] False 3 show ?thesis by (simp add: served_effect_def same_rows_def same_data_def)
  qed
qed

lemma options_route: "route_of ui ''OPTIONS'' segs \<notin> {Login, Refresh}"
  by (auto simp: route_of_def match_method_def options_routes ui_routes_def Let_def split: if_splits)

lemma served_update [simp]:
  "served_effect E S route (r\<lparr>rq_claims := x\<rparr>) = served_effect E S route r"
  "served_effect E S route (r\<lparr>rq_request_id := i\<rparr>) = served_effect E S route r"
  "served_effect E S route (r\<lparr>rq_path_id := i\<rparr>) = served_effect E S route r"
  by (intro ext; simp only: served_effect_def authorized_update request_update route_update session_update limit_update)+

text \<open>Through the middleware: the world of the request is the one that its operation leaves, in rows and objects.\<close>

lemma request_acts: "same_rows (request_effect E S r c) (cn_world (handle_request E S r c))"
proof -
  let ?r = "r\<lparr>rq_claims := None, rq_request_id := []\<rparr>" and ?c = "c\<lparr>cn_deadline := None, cn_response := no_response\<rparr>"
  let ?route = "route_of (sv_ui_disabled S) (rq_method r) (rq_segments r)"
  from router_leads [of ?r ?c E S] show ?thesis
  proof (elim disjE exE conjE)
    assume o: "rq_method ?r = ''OPTIONS''" and same: "same_data ?c (snd (router E S ?r ?c))"
    then have "\<not> needs_access ?route" using needs_access_method [of "sv_ui_disabled S" r] by auto
    moreover have "?route \<notin> {Login, Refresh}" using o options_route by simp
    ultimately have "request_effect E S r c = arrival E r (cn_world c)"
      by (simp add: request_effect_def served_effect_def Let_def)
    with same show ?thesis by (simp add: handle_request_def same_rows_def same_data_def)
  next
    fix i c1
    assume c1: "cn_world c1 = arrival E ?r (cn_world ?c)" "cn_login c1 = cn_login ?c" "cn_refresh c1 = cn_refresh ?c"
      and led: "same_data (snd (mux E S (?r\<lparr>rq_request_id := i\<rparr>) c1)) (snd (router E S ?r ?c))"
    let ?r1 = "?r\<lparr>rq_request_id := i, rq_path_id := path_id ?route\<rparr>"
    have "request_effect E S r c = served_effect E S ?route ?r1 (cn_login c1) (cn_refresh c1) (cn_world c1)"
      by (simp add: request_effect_def c1)
    then have "same_rows (request_effect E S r c) (cn_world (snd (serve_route E S ?route ?r1 c1)))"
      using serve_acts [of ?r1 ?route E S c1] by (simp del: serve_route.simps served_update)
    with led show ?thesis by (simp add: mux_def Let_def handle_request_def same_rows_def same_data_def)
  qed
qed

end
