(* ===== verification/Http_Ranges.thy ===== *)
theory Http_Ranges
  imports Router
begin

text \<open>
  Byte ranges and deadlines: decimal numbers are read back as they are printed, the
  range that a well-formed \<^verbatim>\<open>Range\<close> header selects, what the client gets for it, and the
  time that the write deadline of a transfer leaves.
\<close>

section \<open>Decimal numbers\<close>

lemma digit_char_inv: "d < 10 \<Longrightarrow> digit_val (digit_char d) = Some (int d)"
  using digit_val_digit_char by simp

lemma parse_format_nat:
  "int n \<le> max_uint64 \<Longrightarrow> parse_uint_loop 0 (format_nat n @ s) = parse_uint_loop (int n) s"
proof (induction n arbitrary: s rule: format_nat.induct)
  case (1 n)
  show ?case
  proof (cases "n < 10")
    case True
    then show ?thesis using "1.prems" by (subst format_nat.simps) (simp add: digit_char_inv)
  next
    case False
    have "int (n div 10) \<le> max_uint64" using "1.prems" by (auto simp: max_uint64_def)
    note IH = "1.IH" [OF False this]
    have "int (n div 10) * 10 + int (n mod 10) = int n" by (simp add: zdiv_int zmod_int)
    with False "1.prems" IH [of "digit_char (n mod 10) # s"] show ?thesis
      by (subst format_nat.simps) (simp add: digit_char_inv)
  qed
qed

lemma format_nat_chars: "c \<in> set (format_nat n) \<Longrightarrow> \<exists>d < 10. c = digit_char d"
proof (induction n rule: format_nat.induct)
  case (1 n)
  show ?case
  proof (cases "n < 10")
    case True
    with "1.prems" show ?thesis by (subst (asm) format_nat.simps) auto
  next
    case False
    have "c \<in> set (format_nat (n div 10)) \<or> c = digit_char (n mod 10)"
      using "1.prems" False by (subst (asm) format_nat.simps) auto
    then show ?thesis using "1.IH" [OF False] by (auto intro: exI [of _ "n mod 10"])
  qed
qed

lemma format_nat_nonempty: "format_nat n \<noteq> []"
  by (subst format_nat.simps) simp

lemma digit_char_code: "d < 10 \<Longrightarrow> of_char (digit_char d) = 48 + d"
  by (simp add: digit_char_def)

lemma format_int_facts:
  assumes "0 \<le> n"
  shows "format_int n \<noteq> []" "\<forall>c \<in> set (format_int n). plain c \<and> c \<noteq> CHR ''-'' \<and> c \<noteq> CHR '','' \<and> c \<noteq> CHR ''+''"
proof -
  have "plain c \<and> c \<noteq> CHR ''-'' \<and> c \<noteq> CHR '','' \<and> c \<noteq> CHR ''+''" if "c = digit_char d" "d < 10" for c d
  proof -
    have "list_all (\<lambda>d. plain (digit_char d) \<and> digit_char d \<noteq> CHR ''-'' \<and> digit_char d \<noteq> CHR '','' \<and> digit_char d \<noteq> CHR ''+'') [0..<10]"
      by code_simp
    with that show ?thesis by (simp add: list_all_iff)
  qed
  with assms format_nat_chars show "\<forall>c \<in> set (format_int n). plain c \<and> c \<noteq> CHR ''-'' \<and> c \<noteq> CHR '','' \<and> c \<noteq> CHR ''+''"
    by (auto simp: format_int_def dest!: format_nat_chars)
  show "format_int n \<noteq> []" using assms by (simp add: format_int_def format_nat_nonempty)
qed

lemma parse_format_int:
  assumes "0 \<le> n" "n \<le> max_int64"
  shows "parse_int (format_int n) = (n, None)"
proof -
  have f: "format_int n = format_nat (nat n)" using assms(1) by (simp add: format_int_def)
  have h: "hd (format_int n) \<noteq> CHR ''-''" "hd (format_int n) \<noteq> CHR ''+''"
    using format_int_facts [OF assms(1)] by (auto dest: hd_in_set)
  have "parse_uint (format_int n) = (n, None)"
    using assms parse_format_nat [of "nat n" "[]"] format_int_facts(1) [OF assms(1)]
    by (simp add: parse_uint_def f max_int64_def max_uint64_def)
  with h format_int_facts(1) [OF assms(1)] assms show ?thesis by (simp add: parse_int_def Let_def)
qed

section \<open>Ranges\<close>

lemma range_within:
  assumes "single_byte_range v full = (start, len, RangeServe)"
  shows "0 \<le> start" "0 < len" "start + len \<le> full"
  using assms
  by (auto simp: single_byte_range_def Let_def split: if_splits prod.splits)

lemma range_spec:
  assumes "0 \<le> a" "a \<le> max_int64" "0 < full" "\<forall>c \<in> set e. plain c \<and> c \<noteq> CHR '',''" "e = [] \<or> parse_int e = (b, None)" "b \<ge> a"
  shows "single_byte_range (''bytes='' @ format_int a @ ''-'' @ e) full =
    (if a \<ge> full then (0, 0, RangeUnsatisfiable)
     else if e = [] then (a, full - a, RangeServe) else (a, min b (full - 1) - a + 1, RangeServe))"
proof -
  note fa = format_int_facts [OF assms(1)]
  let ?spec = "format_int a @ ''-'' @ e"
  have t: "trim_prefix (''bytes='' @ ?spec) ''bytes='' = ?spec" by (simp add: trim_prefix_def has_prefix_def)
  have pl: "\<forall>c \<in> set ?spec. plain c" using fa(2) assms(4) by (auto simp: plain_def)
  have c: "cut_at (CHR ''-'') ?spec = (format_int a, e, True)" using cut_at_found [of "CHR ''-''" "format_int a" e] fa(2) by auto
  have nc: "CHR '','' \<notin> set ?spec" using fa(2) assms(4) by auto
  have tr: "trim_space ?spec = ?spec" "trim_space (format_int a) = format_int a" "trim_space e = e"
    using trim_space_plain [OF pl] trim_space_plain [of "format_int a"] trim_space_plain [of e] fa(2) assms(4) by auto
  show ?thesis
    using t c nc tr fa(1) assms parse_format_int [OF assms(1,2)]
    by (cases "e = []") (auto simp: single_byte_range_def Let_def has_prefix_def min_def)
qed

lemma suffix_spec:
  assumes "0 \<le> n" "n \<le> max_int64" "0 < full"
  shows "single_byte_range (''bytes=-'' @ format_int n) full =
    (if n = 0 then (0, 0, RangeIgnore) else (full - min n full, min n full, RangeServe))"
proof -
  note fa = format_int_facts [OF assms(1)]
  let ?spec = "CHR ''-'' # format_int n"
  have t: "trim_prefix (''bytes=-'' @ format_int n) ''bytes='' = ?spec" by (simp add: trim_prefix_def has_prefix_def)
  have pl: "\<forall>c \<in> set ?spec. plain c" using fa(2) by (auto simp: plain_def)
  have tr: "trim_space ?spec = ?spec" "trim_space (format_int n) = format_int n" "trim_space [] = []"
    using trim_space_plain [OF pl] trim_space_plain [of "format_int n"] trim_space_plain [of "[]"] fa(2) by auto
  have nc: "CHR '','' \<notin> set ?spec" using fa(2) by auto
  show ?thesis
    using t nc tr fa(1) assms parse_format_int [OF assms(1,2)]
    by (auto simp: single_byte_range_def Let_def has_prefix_def min_def)
qed

section \<open>Serving a range\<close>

lemma serve_range_effect:
  fixes content :: bytes
  assumes "rs_status (cn_response c) = None" "rq_method r \<noteq> ''HEAD''" "rs_body (cn_response c) = []"
    "single_byte_range (rq_header r ''Range'') full = (start, len, mode)"
  defines "c1 \<equiv> snd (serve_range r content full c)"
  shows "cn_world c1 = cn_world c" "rs_status (cn_response c1) = Some (case mode of
      RangeServe \<Rightarrow> 206 | RangeIgnore \<Rightarrow> 200 | RangeUnsatisfiable \<Rightarrow> 416)"
    "rs_body (cn_response c1) = (case mode of
      RangeServe \<Rightarrow> [Text (take (nat len) (drop (nat start) content))] | RangeIgnore \<Rightarrow> [Text content] | RangeUnsatisfiable \<Rightarrow> [])"
    "mode \<noteq> RangeUnsatisfiable \<Longrightarrow> header (cn_response c1) ''Content-Length'' =
       Some (format_int (if mode = RangeServe then len else full))"
  using assms
  by (cases mode; simp add: serve_range_def bindE_def respond_run set_header_def write_status_def write_body_def header_def)+

section \<open>Deadlines\<close>

lemma wrap64_id: "min_int64 \<le> n \<Longrightarrow> n \<le> max_int64 \<Longrightarrow> wrap64 n = n"
  by (simp add: wrap64_def min_int64_def max_int64_def sint_sbintrunc' signed_take_bit_int_eq_self)

lemma write_budget_large:
  assumes "0 < n" "n < 9223371917 * t" "0 < t"
  shows "n * 1000000000 \<le> write_budget_for_body n t m * t"
proof -
  let ?q = "n div t"
  have dm: "?q * t + n mod t = n" by (rule div_mult_mod_eq)
  have r: "0 \<le> n mod t" "n mod t < t" using assms(3) by simp_all
  have "(?q + 1) * t = ?q * t + t" by (simp add: distrib_right)
  with dm r have n: "n \<le> (?q + 1) * t" by linarith
  have "?q * t < 9223371917 * t" using dm r assms(2) by linarith
  then have q: "0 \<le> ?q" "?q < 9223371917" using assms(1,3) by (simp_all add: pos_imp_zdiv_nonneg_iff mult_less_cancel_right)
  have w: "wrap64 (wrap64 (?q * 1000000000) + 2 * 60 * 1000000000) = ?q * 1000000000 + 2 * 60 * 1000000000"
    using q by (subst wrap64_id, simp add: min_int64_def, simp add: max_int64_def)
      (intro wrap64_id; simp add: min_int64_def max_int64_def)
  have b: "?q * 1000000000 + 2 * 60 * 1000000000 \<le> write_budget_for_body n t m"
    using assms(1) by (simp add: write_budget_for_body_def Let_def w [simplified])
  from mult_right_mono [OF n, of 1000000000] have "n * 1000000000 \<le> ((?q + 1) * 1000000000) * t"
    by (simp add: mult.assoc mult.commute)
  also have "\<dots> \<le> write_budget_for_body n t m * t"
    using b assms(3) by (intro mult_right_mono) auto
  finally show ?thesis .
qed

text \<open>The first length whose time does not fit 64 bits.\<close>

lemma write_budget_wraps:
  assumes "0 < t" "0 \<le> m"
  shows "write_budget_for_body (9223371917 * t) t m = m"
proof -
  have "wrap64 (9223371917 * 1000000000) = 9223371917 * 1000000000" by (rule wrap64_id) (simp_all add: min_int64_def max_int64_def)
  moreover have "wrap64 (9223371917 * 1000000000 + 2 * 60 * 1000000000) < 0" by (simp add: wrap64_def)
  ultimately show ?thesis using assms by (simp add: write_budget_for_body_def Let_def)
qed

lemma write_budget_floor: "m \<le> write_budget_for_body n t m"
  by (simp add: write_budget_for_body_def Let_def)

end
