(* ===== verification/Http_Downloads.thy ===== *)
theory Http_Downloads
  imports Http_Guard Http_Ranges
begin

text \<open>
  A download step by step: the lookups, the bytes of the object, and the reply they make.
\<close>

definition served :: "string \<Rightarrow> bytes \<Rightarrow> response \<Rightarrow> bool" where
  "served v b rs \<longleftrightarrow>
     (case single_byte_range v (int (length b)) of
        (start, len, RangeServe) \<Rightarrow> rs_status rs = Some 206 \<and> len = int (length (take (nat len) (drop (nat start) b))) \<and>
          rs_body rs = [Text (take (nat len) (drop (nat start) b))] \<and> header rs ''Content-Length'' = Some (format_int len)
      | (_, _, RangeIgnore) \<Rightarrow> rs_status rs = Some 200 \<and> rs_body rs = [Text b] \<and>
          header rs ''Content-Length'' = Some (format_int (int (length b)))
      | (_, _, RangeUnsatisfiable) \<Rightarrow> rs_status rs = Some 416 \<and> rs_body rs = [])"

lemma serve_range_served:
  fixes b :: bytes
  assumes "rs_status (cn_response c) = None" "rq_method r \<noteq> ''HEAD''" "rs_body (cn_response c) = []"
  shows "served (rq_header r ''Range'') b (cn_response (snd (serve_range r b (int (length b)) c)))"
proof -
  obtain start len mode where m: "single_byte_range (rq_header r ''Range'') (int (length b)) = (start, len, mode)"
    by (metis prod_cases3)
  note e = serve_range_effect [OF assms m]
  show ?thesis
  proof (cases mode)
    case RangeServe
    note w = range_within [OF m [unfolded RangeServe]]
    then have "len = int (length (take (nat len) (drop (nat start) b)))" by (simp add: min_def) linarith
    with m e RangeServe show ?thesis by (simp add: served_def)
  qed (use m e in \<open>simp_all add: served_def\<close>)
qed

lemma attempt_response: "attempt m c = (q, c1) \<Longrightarrow> cn_response c1 = cn_response c \<and> cn_world c1 = snd (m (cn_world c))"
  by (auto simp: attempt_eq split: prod.splits sum.splits err.splits)


text \<open>The steps of a download between the lookup of the row and the bytes.\<close>

definition send_content :: "env \<Rightarrow> request \<Rightarrow> file_item \<Rightarrow> bytes \<Rightarrow> unit http" where
  "send_content E r item content =
     bindE (set_header ''Content-Type'' (fl_content_type item)) (\<lambda>_.
     bindE (set_header ''Content-Disposition'' (''attachment; filename='' @ quote (fl_name item))) (\<lambda>_.
     bindE (set_header ''Accept-Ranges'' ''bytes'') (\<lambda>_.
     bindE (attempt (record_audit E ''download'' (fl_id item))) (\<lambda>_.
     serve_range r content (fl_size item)))))"

definition open_content :: "env \<Rightarrow> file_handler \<Rightarrow> request \<Rightarrow> file_item \<Rightarrow> unit http" where
  "open_content E h r item =
     bindE (attempt (liftE (get_mount (fh_mounts h) (fl_mount item)))) (\<lambda>mount.
     case mount of Inl e \<Rightarrow> write_error 404 ''file content not found'' | Inr m \<Rightarrow>
     bindE (attempt (open_object E (m_store m) (fl_storage_key item))) (\<lambda>opened.
     case opened of Inl e \<Rightarrow> write_error 404 ''file content not found'' | Inr content \<Rightarrow> send_content E r item content))"

lemma download_steps: "download_handler E h r =
     bindE (attempt (find_file E (rq_path_id r))) (\<lambda>found.
     case found of Inl e \<Rightarrow> write_error 404 ''file not found'' | Inr item \<Rightarrow>
     bindE (set_write_deadline E (download_write_budget (fl_size item))) (\<lambda>_. open_content E h r item))"
  unfolding download_handler_def open_content_def send_content_def by (rule refl)

definition unsent :: "conn \<Rightarrow> bool" where
  "unsent c \<longleftrightarrow> rs_status (cn_response c) = None \<and> rs_body (cn_response c) = []"

lemma not_found_reply: "write_error 404 msg c = (Inr (), c1) \<Longrightarrow> unsent c \<Longrightarrow> rs_status (cn_response c1) = Some 404"
  by (auto simp: unsent_def write_error_def write_json_def bindE_eq_Inr set_header_def write_status_def write_body_def respond_run)

lemma send_content_run:
  assumes "send_content E r item b c = (Inr (), c1)" "unsent c"
  shows "\<exists>c2. unsent c2 \<and> c1 = snd (serve_range r b (fl_size item) c2)"
proof -
  let ?c = "snd (set_header ''Accept-Ranges'' ''bytes'' (snd (set_header ''Content-Disposition''
     (''attachment; filename='' @ quote (fl_name item)) (snd (set_header ''Content-Type'' (fl_content_type item) c)))))"
  have run: "bindE (set_header k v) f d = f () (snd (set_header k v d))" for k v d and f :: "unit \<Rightarrow> unit http"
    by (simp add: bindE_def set_header_def respond_run)
  have u: "unsent ?c" using assms(2) by (simp add: unsent_def set_header_def respond_run)
  obtain q c2 where a: "attempt (record_audit E ''download'' (fl_id item)) ?c = (Inr q, c2)"
    "serve_range r b (fl_size item) c2 = (Inr (), c1)"
    using assms(1) by (auto simp: send_content_def run bindE_eq_Inr)
  with u have "unsent c2" by (auto simp: unsent_def dest: attempt_response)
  with a(2) show ?thesis by force
qed

lemma open_content_run:
  assumes "open_content E h r item c = (Inr (), c1)" "unsent c"
  shows "rs_status (cn_response c1) = Some 404 \<or>
    (\<exists>d b p c2. get_mount (fh_mounts h) (fl_mount item) = Inr d \<and> safe_path E (m_store d) (fl_storage_key item) = Inr p \<and>
       w_fs (cn_world c) p = Some b \<and> unsent c2 \<and> c1 = snd (serve_range r b (fl_size item) c2))"
proof (cases "get_mount (fh_mounts h) (fl_mount item)")
  case (Inl e)
  with assms(1) obtain c2 where "write_error 404 ''file content not found'' c2 = (Inr (), c1)" "cn_response c2 = cn_response c"
    by (cases e) (auto simp: open_content_def bindE_eq_Inr attempt_eq liftE_def)
  with assms(2) show ?thesis by (auto simp: unsent_def dest: not_found_reply [unfolded unsent_def])
next
  case (Inr d)
  obtain opened c2 where o': "attempt (open_object E (m_store d) (fl_storage_key item)) c = (Inr opened, c2)"
    "(case opened of Inl e \<Rightarrow> write_error 404 ''file content not found'' | Inr content \<Rightarrow> send_content E r item content) c2 = (Inr (), c1)"
    using assms(1) Inr by (auto simp: open_content_def bindE_eq_Inr attempt_eq liftE_def)
  have u: "unsent c2" using attempt_response [OF o'(1)] assms(2) by (simp add: unsent_def)
  show ?thesis
  proof (cases opened)
    case (Inl e)
    with o'(2) u show ?thesis by (auto dest: not_found_reply)
  next
    case ok: (Inr b)
    then obtain w where "open_object E (m_store d) (fl_storage_key item) (cn_world c) = (Inr b, w)"
      using o'(1) by (auto simp: attempt_Inr)
    with Inr open_object_Inr(1) send_content_run [of E r item b c2 c1] o'(2) ok u show ?thesis by force
  qed
qed

lemma download_run:
  assumes "download_handler E h r c = (Inr (), c1)" "cn_response c = no_response"
  shows "rs_status (cn_response c1) = Some 404 \<or>
    (\<exists>f d b p c2. f \<in> set (files (w_db (cn_world c))) \<and> f_id f = rq_path_id r \<and> active f \<and>
       get_mount (fh_mounts h) (f_mount f) = Inr d \<and> safe_path E (m_store d) (f_storage_key f) = Inr p \<and>
       w_fs (cn_world c) p = Some b \<and> unsent c2 \<and> c1 = snd (serve_range r b (f_size f) c2))"
proof -
  obtain found c2 where found: "attempt (find_file E (rq_path_id r)) c = (Inr found, c2)"
    using assms(1) by (auto simp: download_steps bindE_eq_Inr)
  have u: "unsent c2" using attempt_response [OF found] assms(2) by (simp add: unsent_def no_response_def)
  show ?thesis
  proof (cases found)
    case (Inl x)
    with assms(1) found have "write_error 404 ''file not found'' c2 = (Inr (), c1)" by (simp add: download_steps)
    from not_found_reply [OF this u] show ?thesis by simp
  next
    case (Inr item)
    from found obtain w where w: "find_file E (rq_path_id r) (cn_world c) = (Inr item, w)" "cn_world c2 = w"
      unfolding Inr by (auto simp: attempt_Inr)
    obtain f where f: "f \<in> set (files (w_db (cn_world c)))" "f_id f = rq_path_id r" "active f" "item = file_of_row f"
      by (rule find_file_Inr [OF w(1)])
    have fs: "w_fs w = w_fs (cn_world c)"
      using keepsD [OF file_reads_keep(2) [of E "rq_path_id r"], where w = "cn_world c"] w by (simp add: same_fs_def)
    let ?c3 = "snd (set_write_deadline E (download_write_budget (fl_size item)) c2)"
    have c3: "unsent ?c3" "w_fs (cn_world ?c3) = w_fs (cn_world c)"
      using u fs w(2) by (simp_all add: set_write_deadline_def clock_def bindE_def unsent_def now_io_def)
    have "open_content E h r item ?c3 = (Inr (), c1)"
      using assms(1) found unfolding Inr by (simp add: download_steps bindE_def set_write_deadline_def clock_def)
    from open_content_run [OF this c3(1)] c3(2) f show ?thesis by (simp add: f(4)) metis
  qed
qed

lemma send_content_total:
  assumes "unsent c"
  shows "\<exists>c2. unsent c2 \<and> send_content E r item b c = serve_range r b (fl_size item) c2"
proof -
  define c3 where "c3 = snd (set_header ''Accept-Ranges'' ''bytes'' (snd (set_header ''Content-Disposition''
     (''attachment; filename='' @ quote (fl_name item)) (snd (set_header ''Content-Type'' (fl_content_type item) c)))))"
  have run: "bindE (set_header k v) f d = f () (snd (set_header k v d))" for k v d and f :: "unit \<Rightarrow> unit http"
    by (simp add: bindE_def set_header_def respond_run)
  have u: "unsent c3" using assms by (simp add: c3_def unsent_def set_header_def respond_run)
  define c4 where "c4 = c3\<lparr>cn_world := snd (record_audit E ''download'' (fl_id item) (cn_world c3))\<rparr>"
  have a: "attempt (record_audit E ''download'' (fl_id item)) c3 = (Inr (Inr ()), c4)"
    by (simp add: attempt_Inr c4_def record_audit_def bindE_def uuid_io_def now_io_def)
  have "send_content E r item b c = serve_range r b (fl_size item) c4"
    unfolding send_content_def run c3_def [symmetric] using a by simp
  moreover have "unsent c4" using u by (simp add: c4_def unsent_def)
  ultimately show ?thesis by blast
qed

lemma download_success:
  assumes "find (\<lambda>f. f_id f = rq_path_id r \<and> active f) (files (w_db (cn_world c))) = Some f"
    "\<And>n. x_sql_fault E n = None" "\<And>n. x_os_fault E n = None" "get_mount (fh_mounts h) (f_mount f) = Inr d"
    "safe_path E (m_store d) (f_storage_key f) = Inr p" "w_fs (cn_world c) p = Some b" "cn_response c = no_response"
  shows "\<exists>c2. unsent c2 \<and> download_handler E h r c = serve_range r b (f_size f) c2"
proof -
  have u: "unsent c" using assms(7) by (simp add: unsent_def no_response_def)
  let ?item = "file_of_row f"
  have "find_file E (rq_path_id r) (cn_world c) = (Inr ?item, (cn_world c)\<lparr>w_sql := Suc (w_sql (cn_world c))\<rparr>)"
    using assms(1,2) by (simp add: find_file_def sql_query_def sql_io_def bindE_def scan_file_def)
  then obtain c1 where c1: "attempt (find_file E (rq_path_id r)) c = (Inr (Inr ?item), c1)" "unsent c1" "w_fs (cn_world c1) = w_fs (cn_world c)"
    using u by (simp add: attempt_Inr unsent_def)
  let ?c2 = "snd (set_write_deadline E (download_write_budget (f_size f)) c1)"
  have c2: "set_write_deadline E (download_write_budget (f_size f)) c1 = (Inr (), ?c2)" "unsent ?c2" "w_fs (cn_world ?c2) = w_fs (cn_world c)"
    using c1(2,3) by (simp_all add: set_write_deadline_def clock_def bindE_def unsent_def now_io_def)
  have m: "attempt (liftE (get_mount (fh_mounts h) (f_mount f))) ?c2 = (Inr (Inr d), ?c2)"
    by (simp add: attempt_Inr assms(4))
  obtain w where "open_object E (m_store d) (f_storage_key f) (cn_world ?c2) = (Inr b, w)"
    using assms(3,5,6) c2(3) by (simp add: open_object_def bindE_def os_io_def)
  then have o': "attempt (open_object E (m_store d) (f_storage_key f)) ?c2 = (Inr (Inr b), ?c2\<lparr>cn_world := w\<rparr>)"
    by (simp add: attempt_Inr)
  have s: "unsent (?c2\<lparr>cn_world := w\<rparr>)" using c2(2) by (simp add: unsent_def)
  have run: "download_handler E h r c = send_content E r ?item b (?c2\<lparr>cn_world := w\<rparr>)"
    using c1(1) c2(1) m o' by (simp add: download_steps open_content_def)
  from send_content_total [OF s, of E r ?item b] show ?thesis by (simp add: run)
qed

lemma find_unique:
  "distinct (map f_id xs) \<Longrightarrow> x \<in> set xs \<Longrightarrow> f_id x = i \<Longrightarrow> active x \<Longrightarrow> find (\<lambda>f. f_id f = i \<and> active f) xs = Some x"
  by (induction xs) (auto simp: rev_image_eqI)

lemma serve_range_returns: "fst (serve_range r b n c) = Inr ()"
  by (auto simp: serve_range_def bindE_def respond_run set_header_def write_status_def write_body_def
      split: prod.split range_mode.split)

end
