(* ===== verification/Http_Login.thy ===== *)
theory Http_Login
  imports Http_Guard Auth_Props
begin

text \<open>
  From a login to the requests it opens: the session and the token that a login makes, and what
  the check of a request does with that token.
\<close>

section \<open>What a login makes\<close>

lemma login_issues:
  assumes "login E m name password w = (Inr (u, tk), w1)"
  obtains w2 where "issue_session E m w2 = (Inr tk, w1)" "w_db w2 = w_db w"
proof -
  let ?n = "trim_space name"
  obtain q w2 where f: "find_user_by_username E ?n w = (q, w2)" by fastforce
  then have w2: "w_db w2 = w_db w" using keepsD [OF find_user_keeps(1), of w E ?n] by (simp add: same_db_def)
  from assms f have "issue_session E m w2 = (Inr tk, w1)"
    by (auto simp: login_def Let_def handleE_def bindE_eq_Inr split: if_splits sum.splits)
  with w2 that show thesis by blast
qed

lemma login_session:
  assumes "login E m name password w = (Inr (u, tk), w1)"
  obtains session_id issued s where
    "x_jwt_sign E (tm_secret m) (issued_claims E m single_user_id session_id issued) = Some (tk_access tk)"
    "tk_expires_at tk = issued + tm_access_ttl m" "\<exists>n. session_id = x_uuid E n"
    "id_row session_id (w_db w1) = Some s" "s_revoked_at s = None" "s_expires_at s = stamp (tk_refresh_expires_at tk)"
    "s_token_hash s = hash_refresh_token E (tk_refresh tk)"
proof -
  obtain w2 where "issue_session E m w2 = (Inr tk, w1)" "w_db w2 = w_db w" by (rule login_issues [OF assms])
  then obtain s w3 where s: "new_session E m w2 = (Inr (tk, s), w3)" "create_session E s w3 = (Inr (), w1)"
    by (auto simp: issue_session_def bindE_eq_Inr)
  from s(1) obtain w4 w5 where i: "issue E m single_user_id (x_uuid E (w_uuid w2)) w4 = (Inr tk, w5)"
    "ss_id s = x_uuid E (w_uuid w2)" "ss_token_hash s = hash_refresh_token E (tk_refresh tk)"
    "ss_expires_at s = tk_refresh_expires_at tk" "ss_revoked_at s = None"
    by (auto simp: new_session_def bindE_eq_Inr uuid_io_def now_io_Inr)
  have row: "id_row (ss_id s) (w_db w1) = Some (session_row_of s)"
    using s(2) session_ids.insert_lookup [of "session_row_of s" "w_db w3" "()" "w_db w1" "ss_id s"]
    by (auto simp: create_session_Inr session_row_of_def)
  show thesis
  proof (rule issue_Inr [OF i(1)])
    fix now b access
    assume a: "x_jwt_sign E (tm_secret m) \<lparr>c_issuer = tm_issuer m, c_subject = single_user_id, c_id = x_uuid E (w_uuid w2),
        c_issued_at = Some (x_numeric_date E now), c_not_before = Some (x_numeric_date E now),
        c_expires_at = Some (x_numeric_date E (now + tm_access_ttl m))\<rparr> = Some access"
      "tk = \<lparr>tk_access = access, tk_refresh = raw_url_encode b, tk_expires_at = now + tm_access_ttl m,
        tk_refresh_expires_at = now + tm_refresh_ttl m\<rparr>"
    show thesis
    proof (rule that)
      show "x_jwt_sign E (tm_secret m) (issued_claims E m single_user_id (x_uuid E (w_uuid w2)) now) = Some (tk_access tk)"
        using a by (simp add: issued_claims_def)
      show "id_row (x_uuid E (w_uuid w2)) (w_db w1) = Some (session_row_of s)" using row i(2) by simp
    qed (use a i in \<open>auto simp: session_row_of_def nullable_time_def\<close>)
  qed
qed

lemma uuid_ascii:
  assumes "uuid_text i"
  shows "i \<noteq> []" "ascii i"
proof -
  have "\<forall>ch \<in> set ''0123456789abcdef-''. ch < CHR 0x80" by simp
  with assms show "ascii i" unfolding uuid_text_def ascii_def list_all_iff by blast
  show "i \<noteq> []" using assms by (auto simp: uuid_text_def)
qed

section \<open>What the check does with it\<close>

lemma bearer_token:
  assumes "rq_cookie r ''access_token'' = None" "rq_header r ''Authorization'' = ''Bearer '' @ tok" "\<forall>ch \<in> set tok. plain ch"
  shows "token_from ''access_token'' r = tok" "has_prefix (rq_header r ''Authorization'') ''Bearer ''"
  using assms trim_space_plain [of tok] by (simp_all add: token_from_def has_prefix_def trim_prefix_def)

lemma check_refuses:
  assumes "fst (validate_access_token E m (token_from ''access_token'' r) (cn_world c)) = Inl e"
  shows "\<exists>c1. same_data c c1 \<and> cn_response c1 = cn_response c \<and> require_access_token E m nxt r c = write_auth_error c1"
proof -
  have "\<not> authorized E m r (cn_world c)"
    using assms unfolding authorized_def validate_access_token_run(1) by auto
  with require_run(1) [where c = c and E = E and m = m and nxt = nxt and r = r] show ?thesis by blast
qed

lemma check_admits:
  assumes r: "rq_cookie r ''access_token'' = None" "has_prefix (rq_header r ''Authorization'') ''Bearer ''"
    and v: "fst (validate_access_token E m (token_from ''access_token'' r) (cn_world c)) = Inr cl"
    and s: "id_row (c_id cl) (w_db (cn_world c)) = Some s" "s_revoked_at s = None" "parse_time (s_expires_at s) = Some expires"
      "x_clock E (Suc (w_clock (cn_world c))) < expires" "x_sql_fault E (w_sql (cn_world c)) = None"
  shows "require_access_token E m nxt r c = nxt (r\<lparr>rq_claims := Some cl\<rparr>) (c\<lparr>cn_world := admission (cn_world c)\<rparr>)"
proof -
  have p: "x_jwt_parse E (key_func m) (tm_issuer m) [''HS256''] (x_clock E (w_clock (cn_world c))) (token_from ''access_token'' r) =
      Some (cl, True)" "c_subject cl \<noteq> []" "c_id cl \<noteq> []"
    using v unfolding validate_access_token_run(1) by (auto split: option.splits if_splits)
  then have "authorized E m r (cn_world c)" unfolding authorized_def using r s by auto
  from require_run(2) [OF this s(5), where nxt = nxt] p(1) show ?thesis by auto
qed

end
