(* ===== verification/Http_Props.thy ===== *)
theory Http_Props
  imports Http_Answers Http_Operations Http_Downloads Http_Login File_Examples
begin

text \<open>
  The properties of the HTTP interface, each with its witness: what requests may change and
  learn, that every request is answered, what a download sends, byte ranges, deadlines and CORS.
\<close>

section \<open>A small server\<close>

definition calm_server :: server where
  "calm_server = \<lparr>sv_auth = \<lparr>ah_tokens = \<lparr>tm_secret = replicate 32 (CHR ''k''), tm_issuer = ''nd'',
       tm_access_ttl = 900000000000, tm_refresh_ttl = 604800000000000\<rparr>, ah_secure_cookies = False, ah_cookie_domain = []\<rparr>,
     sv_files = \<lparr>fh_mounts = one_disk, fh_max_bytes = 100, fh_usage = (\<lambda>m. (0, 0, 0))\<rparr>,
     sv_origins = [''https://ui.example''], sv_ui_disabled = False, sv_api_base = [], sv_remotes = [],
     sv_index_html = [], sv_landing_html = []\<rparr>"

definition bare_request :: "string \<Rightarrow> string list \<Rightarrow> request" where
  "bare_request method segs = \<lparr>rq_method = method, rq_segments = segs, rq_header = (\<lambda>k. []), rq_cookie = (\<lambda>k. None),
     rq_query = (\<lambda>k. []), rq_remote = ''192.0.2.1:4000'', rq_length = 0, rq_json = (\<lambda>n strict names. (\<lambda>k. [], False)),
     rq_multipart = (\<lambda>n. None), rq_path_id = [], rq_claims = None, rq_request_id = []\<rparr>"

definition calm_conn :: "world \<Rightarrow> conn" where
  "calm_conn w = \<lparr>cn_world = w, cn_login = new_rate_limiter 5 60000000000, cn_refresh = new_rate_limiter 10 60000000000,
     cn_deadline = None, cn_response = no_response\<rparr>"

lemma bare_unauthorized: "\<not> authorized E m (bare_request method segs) w"
  by (simp add: authorized_def bare_request_def has_prefix_def)

section \<open>Access\<close>



text \<open>
  C15: nothing is learned without access. A request to a route that needs access, without it at the times
  its check reads the clock (a token that the parser does not accept then, or a session that is not stored, is revoked or has expired
  included), gets the status 401, a fixed text and no cookie, in every state of the data.
\<close>

theorem unauthorized_denied:
  assumes "needs_access (route_of (sv_ui_disabled S) (rq_method r) (rq_segments r))"
    "\<not> authorized E (ah_tokens (sv_auth S)) r (arrival E r (cn_world c))"
  shows "rs_status (cn_response (handle_request E S r c)) = Some 401 \<and>
    rs_body (cn_response (handle_request E S r c)) = [Text (''authentication required'' @ [CHR 0x0A])] \<and>
    rs_cookies (cn_response (handle_request E S r c)) = []"
proof -
  let ?r = "r\<lparr>rq_claims := None, rq_request_id := []\<rparr>" and ?c = "c\<lparr>cn_deadline := None, cn_response := no_response\<rparr>"
  have "fresh (cn_world c) ?c" by (simp add: fresh_def no_response_def)
  moreover have "ends (fresh (cn_world c)) (router E S ?r) (\<lambda>_. denied)"
    by (rule router_denied) (simp_all add: assms)
  ultimately show ?thesis by (fastforce simp: ends_def handle_request_def denied_def)
qed

theorem unauthorized_denied_witness:
  "rs_status (cn_response (handle_request calm_env calm_server (bare_request ''GET'' [''api'', ''files'']) (calm_conn calm_world))) = Some 401"
  using unauthorized_denied [of calm_server "bare_request ''GET'' [''api'', ''files'']" calm_env "calm_conn calm_world", OF _ bare_unauthorized]
  by (simp add: bare_request_def route_of_def clean_segments_def match_method_def needs_access_def)

text \<open>
  C17: every request is answered. Whatever the request, the state and the failures, a handler
  that panics included, the response has a status.
\<close>

theorem every_request_answered: "rs_status (cn_response (handle_request E S r c)) \<noteq> None"
  using router_answers by (simp add: handle_request_def written_def)

section \<open>Sessions\<close>

text \<open>
  C21: a login opens the interface for as long as it says. With the access token of a login as its
  bearer token, and the sessions as the login left them, a request passes the check, as the single user and with the
  session of that login, exactly while the clock is in the window of the token (from the second of
  its issue up to, not including, the second of its expiry) and, when the session is looked up, before the session's end; outside that
  window it gets the reply of the check. It is stated for an ASCII issuer, dates of the years 1 to 9999, and a session
  statement that does not fail, over what the token package documents (\<^const>\<open>jwt_laws\<close>).
\<close>

theorem login_opens_api:
  assumes "env_ok E" "jwt_laws E verify" "numeric_laws E" "ascii (tm_issuer m)" "login E m name password w = (Inr (u, tk), w1)"
    and r: "rq_cookie r ''access_token'' = None" "rq_header r ''Authorization'' = ''Bearer '' @ tk_access tk" "\<forall>ch \<in> set (tk_access tk). plain ch"
    and "sessions (w_db (cn_world c)) = sessions (w_db w1)" "x_sql_fault E (w_sql (cn_world c)) = None"
    and dates: "in_range (tk_refresh_expires_at tk)" "in_range (tk_expires_at tk)" "in_range (tk_expires_at tk - tm_access_ttl m)"
  defines "now \<equiv> x_clock E (w_clock (cn_world c))" and "issued \<equiv> tk_expires_at tk - tm_access_ttl m"
  defines "current \<equiv> issued - issued mod 1000000000 \<le> now \<and> now < tk_expires_at tk - tk_expires_at tk mod 1000000000"
  shows "(current \<and> x_clock E (Suc (w_clock (cn_world c))) < tk_refresh_expires_at tk \<longrightarrow>
      (\<exists>cl c1 s. c_subject cl = single_user_id \<and> id_row (c_id cl) (w_db w1) = Some s \<and>
         s_token_hash s = hash_refresh_token E (tk_refresh tk) \<and> same_data c c1 \<and>
         require_access_token E m nxt r c = nxt (r\<lparr>rq_claims := Some cl\<rparr>) c1)) \<and>
    (\<not> current \<longrightarrow> (\<exists>c1. same_data c c1 \<and> require_access_token E m nxt r c = write_auth_error c1))"
proof -
  obtain i t s where l: "x_jwt_sign E (tm_secret m) (issued_claims E m single_user_id i t) = Some (tk_access tk)"
    "tk_expires_at tk = t + tm_access_ttl m" "\<exists>n. i = x_uuid E n" "id_row i (w_db w1) = Some s" "s_revoked_at s = None"
    "s_expires_at s = stamp (tk_refresh_expires_at tk)" "s_token_hash s = hash_refresh_token E (tk_refresh tk)"
    by (rule login_session [OF assms(5)])
  have u: "uuid_text i" using l(3) assms(1) by (auto simp: env_ok_def)
  note i = uuid_ascii [OF u]
  have "ascii single_user_id" "single_user_id \<noteq> []" by (simp_all add: single_user_id_def) (simp add: ascii_def)
  then have v: "fst (validate_access_token E m (tk_access tk) (cn_world c)) =
      (if current then Inr (issued_claims E m single_user_id i t) else Inl ErrInvalidToken)"
    using issued_token_verdict [OF assms(2-4) _ i(2) _ _ _ i(1) l(1), of "cn_world c"] dates(2,3)
    by (simp add: l(2) current_def issued_def now_def)
  note tok = bearer_token [OF r]
  have row: "id_row i (w_db (cn_world c)) = Some s"
    using l(4) assms(9) by (simp add: row_with_def session_table_def)
  have cl: "c_id (issued_claims E m single_user_id i t) = i" "c_subject (issued_claims E m single_user_id i t) = single_user_id"
    by (simp_all add: issued_claims_def)
  show ?thesis
  proof (intro conjI impI)
    assume a: "current \<and> x_clock E (Suc (w_clock (cn_world c))) < tk_refresh_expires_at tk"
    then have "fst (validate_access_token E m (token_from ''access_token'' r) (cn_world c)) = Inr (issued_claims E m single_user_id i t)"
      using v by (simp add: tok(1))
    moreover have "parse_time (s_expires_at s) = Some (tk_refresh_expires_at tk)"
      unfolding l(6) by (rule parse_time_stamp [OF dates(1)])
    ultimately have "require_access_token E m nxt r c =
        nxt (r\<lparr>rq_claims := Some (issued_claims E m single_user_id i t)\<rparr>) (c\<lparr>cn_world := admission (cn_world c)\<rparr>)"
      using check_admits [OF r(1) tok(2), of E m c "issued_claims E m single_user_id i t" s "tk_refresh_expires_at tk" nxt]
        row l(5) a assms(10) by (simp add: cl)
    moreover have "same_data c (c\<lparr>cn_world := admission (cn_world c)\<rparr>)" by (simp add: same_data_def admission_def)
    ultimately show "\<exists>cl c1 s. c_subject cl = single_user_id \<and> id_row (c_id cl) (w_db w1) = Some s \<and>
         s_token_hash s = hash_refresh_token E (tk_refresh tk) \<and> same_data c c1 \<and>
         require_access_token E m nxt r c = nxt (r\<lparr>rq_claims := Some cl\<rparr>) c1" using l(4,7) cl by metis
  next
    assume "\<not> current"
    then have "fst (validate_access_token E m (token_from ''access_token'' r) (cn_world c)) = Inl ErrInvalidToken"
      using v by (simp add: tok(1))
    from check_refuses [OF this] show "\<exists>c1. same_data c c1 \<and> require_access_token E m nxt r c = write_auth_error c1" by blast
  qed
qed

definition login_claims :: claims where
  "login_claims = \<lparr>c_issuer = ''nd'', c_subject = single_user_id, c_id = calm_uuid 0, c_issued_at = Some 86400000000000,
     c_not_before = Some 86400000000000, c_expires_at = Some 87300000000000\<rparr>"

definition login_world :: world where
  "login_world = calm_world\<lparr>w_db := empty_db\<lparr>users :=
     [\<lparr>u_id = single_user_id, u_username = ''n'', u_password_hash = ''$p'', u_created_at = stamp 0\<rparr>]\<rparr>\<rparr>"

lemma login_runs:
  "\<exists>u tk w1. login (one_token_env login_claims) auth_manager ''n'' ''p'' login_world = (Inr (u, tk), w1) \<and> tk_access tk = ''T'' \<and>
     tk_expires_at tk = 87300000000000 \<and> tk_refresh_expires_at tk = 691200000000000 \<and> w_clock w1 = 2"
proof -
  have n: "trim_space ''n'' = ''n''" by code_simp
  have p: "parse_time (stamp 0) = Some 0" by (rule parse_time_stamp) (simp add: in_range_def)
  show ?thesis
    by (simp add: login_def n find_user_by_username_def bindE_def wrapE_def handleE_def sql_query_def sql_io_def one_token_env_def calm_env_def
      login_world_def calm_world_def empty_db_def row_with_def user_table_def scan_user_def parse_io_def p check_password_def
      issue_session_def new_session_def uuid_io_def issue_def now_io_def auth_manager_def login_claims_def random_token_def rand_io_def
      create_session_def insert_into_def put_rows_def session_table_def first_violated_def ret_def Let_def)
qed

theorem login_opens_api_witness:
  "\<exists>u tk w1 cl c1. login (one_token_env login_claims) auth_manager ''n'' ''p'' login_world = (Inr (u, tk), w1) \<and> c_subject cl = single_user_id \<and>
     (let r = (bare_request ''GET'' [])\<lparr>rq_header := (\<lambda>k. if k = ''Authorization'' then ''Bearer T'' else [])\<rparr>
      in require_access_token (one_token_env login_claims) auth_manager health r (calm_conn w1) = health (r\<lparr>rq_claims := Some cl\<rparr>) c1)"
proof -
  obtain u tk w1 where l: "login (one_token_env login_claims) auth_manager ''n'' ''p'' login_world = (Inr (u, tk), w1)" "tk_access tk = ''T''"
    "tk_expires_at tk = 87300000000000" "tk_refresh_expires_at tk = 691200000000000" "w_clock w1 = 2"
    using login_runs by blast
  let ?r = "(bare_request ''GET'' [])\<lparr>rq_header := (\<lambda>k. if k = ''Authorization'' then ''Bearer T'' else [])\<rparr>"
  have e: "env_ok (one_token_env login_claims)" using calm_env_ok by (simp add: env_ok_def one_token_env_def calm_env_def)
  have a: "ascii (tm_issuer auth_manager)" by (simp add: auth_manager_def ascii_def)
  have "\<forall>ch \<in> set (tk_access tk). plain ch" unfolding l(2) by (simp add: plain_def)
  moreover have "x_sql_fault (one_token_env login_claims) n = None" "x_clock (one_token_env login_claims) 2 = 86402000000000" "x_clock (one_token_env login_claims) (Suc 2) = 86403000000000" for n
    by (simp_all add: one_token_env_def calm_env_def)
  ultimately show ?thesis
    using login_opens_api [OF e one_token_laws a l(1), of ?r "calm_conn w1" health] l
    by (auto simp: bare_request_def calm_conn_def in_range_def auth_manager_def Let_def)
qed

section \<open>Downloads\<close>

text \<open>
  C18: a download sends the stored file. A download that gets past the lookups sends the
  bytes that the object of the live row has, all of them (200), the requested slice of them
  (206) or none for a range beyond the end (416), and the length it announces is the length of
  what it sends; those bytes have the size and the checksum of the row. Anything else is a 404, and
  when no call fails a live row on a configured disk is never a 404.
\<close>

theorem download_serves_object:
  assumes "objects_ok E (fh_mounts h) (cn_world c)" "cn_response c = no_response" "rq_method r = ''GET''"
    "download_handler E h r c = (Inr (), c1)"
  shows "(rs_status (cn_response c1) = Some 404 \<or>
      (\<exists>f \<in> set (files (w_db (cn_world c))). \<exists>d b. f_id f = rq_path_id r \<and> active f \<and>
         get_mount (fh_mounts h) (f_mount f) = Inr d \<and>
         (by_id (fh_mounts h) (f_mount f) = Some d \<longrightarrow> f_size f = int (length b) \<and> f_checksum f = checksum_of E b \<and>
            served (rq_header r ''Range'') b (cn_response c1)))) \<and>
    ((\<forall>n. x_sql_fault E n = None) \<and> (\<forall>n. x_os_fault E n = None) \<and>
       (\<exists>f \<in> set (files (w_db (cn_world c))). f_id f = rq_path_id r \<and> active f \<and>
          (\<exists>d. by_id (fh_mounts h) (f_mount f) = Some d \<and> get_mount (fh_mounts h) (f_mount f) = Inr d)) \<longrightarrow>
       rs_status (cn_response c1) \<noteq> Some 404)"
    (is "?safe \<and> (?calm \<longrightarrow> ?found)")
proof (intro conjI impI)
  have st: "served (rq_header r ''Range'') b (cn_response (snd (serve_range r b (int (length b)) c2)))"
    if "unsent c2" for b c2
    using serve_range_served that assms(3) by (simp add: unsent_def)
  have stored: "stored E (fh_mounts h) (w_fs (cn_world c)) f" if "f \<in> set (files (w_db (cn_world c)))" for f
    using assms(1) that by (simp add: objects_ok_def rows_stored_def)
  show ?safe using download_run [OF assms(4,2)] stored st unfolding stored_def by fastforce
  assume ?calm
  then obtain f d where f: "f \<in> set (files (w_db (cn_world c)))" "f_id f = rq_path_id r" "active f"
    "by_id (fh_mounts h) (f_mount f) = Some d" "get_mount (fh_mounts h) (f_mount f) = Inr d" by blast
  have "distinct (map f_id (files (w_db (cn_world c))))"
    using file_ids.keys_distinct_ok [of "w_db (cn_world c)"] assms(1)
    by (simp add: objects_ok_def rows_stored_def db_ok_def file_table_def)
  then have "find (\<lambda>f. f_id f = rq_path_id r \<and> active f) (files (w_db (cn_world c))) = Some f"
    using f by (intro find_unique)
  moreover obtain p b where "safe_path E (m_store d) (f_storage_key f) = Inr p" "w_fs (cn_world c) p = Some b" "f_size f = int (length b)"
    using stored [OF f(1)] f(4) unfolding stored_def by blast
  moreover have "x_sql_fault E n = None" "x_os_fault E n = None" for n using \<open>?calm\<close> by auto
  ultimately obtain c2 where "unsent c2" "download_handler E h r c = serve_range r b (int (length b)) c2"
    using download_success [of r c f E h d p b] f(5) assms(2) by metis
  with st [of c2 b] assms(4) show ?found by (auto simp: served_def split: prod.splits range_mode.splits)
qed

theorem download_serves_object_witness:
  "\<exists>w1 f c1. files (w_db w1) = [row_of_file f] \<and>
     download_handler calm_env (sv_files calm_server) ((bare_request ''GET'' [])\<lparr>rq_path_id := fl_id f\<rparr>) (calm_conn w1) = (Inr (), c1)
     \<and> rs_status (cn_response c1) \<noteq> Some 404"
proof -
  obtain f w1 where u: "upload calm_env one_disk [] [] ''a'' (''hi'', None) calm_world = (Inr f, w1)"
    "files (w_db w1) = [row_of_file f]" "fl_mount f = ''default''" using calm_upload by blast
  have "file_step calm_env one_disk calm_world (snd (upload calm_env one_disk [] [] ''a'' (''hi'', None) calm_world))"
    by (rule step_upload)
  then have "(sys_step calm_env m one_disk)\<^sup>*\<^sup>* calm_world w1" for m using u(1) by (auto intro: sys_file)
  from sys_run_objects [OF this calm_env_ok one_disk_ok calm_world_ok(1)] have ok: "objects_ok calm_env one_disk w1" .
  let ?r = "(bare_request ''GET'' [])\<lparr>rq_path_id := fl_id f\<rparr>" and ?c = "calm_conn w1" and ?h = "sv_files calm_server"
  let ?d = "\<lparr>m_id = ''default'', m_name = ''Main'', m_store = \<lparr>l_root = ''/d'', l_max_bytes = 100, l_allowed_mimes = []\<rparr>\<rparr>"
  have d: "by_id one_disk (f_mount (row_of_file f)) = Some ?d" "get_mount one_disk (f_mount (row_of_file f)) = Inr ?d"
    using u(3) by (simp_all add: one_disk_def get_mount_def Let_def)
  have h: "fh_mounts ?h = one_disk" by (simp add: calm_server_def)
  have "stored calm_env one_disk (w_fs w1) (row_of_file f)"
    using ok u(2) by (simp add: objects_ok_def rows_stored_def)
  then obtain p b where pb: "safe_path calm_env (m_store ?d) (f_storage_key (row_of_file f)) = Inr p" "w_fs w1 p = Some b"
    using d(1) unfolding stored_def by blast
  have fi: "find (\<lambda>g. f_id g = rq_path_id ?r \<and> active g) (files (w_db (cn_world ?c))) = Some (row_of_file f)"
    by (simp add: calm_conn_def u(2) active_def)
  obtain c2 where "download_handler calm_env ?h ?r ?c = serve_range ?r b (f_size (row_of_file f)) c2"
    using download_success [OF fi calm_faults, where h = ?h and d = ?d and p = p and b = b] d(2) h pb
    by (auto simp: calm_conn_def)
  then obtain c1 where run: "download_handler calm_env ?h ?r ?c = (Inr (), c1)"
    using serve_range_returns by (metis prod.collapse)
  have "rs_status (cn_response c1) \<noteq> Some 404"
    using download_serves_object [OF _ _ _ run] ok h d u(2) calm_faults
    by (auto simp: calm_conn_def bare_request_def active_def)
  with run u(2) show ?thesis by blast
qed

section \<open>Ranges and deadlines\<close>

text \<open>
  C36: ranges mean what they say. For an object of \<open>full\<close> bytes, \<^verbatim>\<open>bytes=a-b\<close> selects the bytes
  from \<open>a\<close> to \<open>b\<close> that exist, \<^verbatim>\<open>bytes=a-\<close> those from \<open>a\<close> on, \<^verbatim>\<open>bytes=-n\<close> the last \<open>n\<close>, a start
  beyond the end is reported as such, and whatever the header says the bytes served lie within the object.
\<close>

theorem range_exact:
  assumes "0 < full"
  shows "(\<forall>a b. 0 \<le> a \<and> a \<le> b \<and> b \<le> max_int64 \<longrightarrow>
      single_byte_range (''bytes='' @ format_int a @ ''-'' @ format_int b) full =
        (if a \<ge> full then (0, 0, RangeUnsatisfiable) else (a, min b (full - 1) - a + 1, RangeServe))) \<and>
    (\<forall>a. 0 \<le> a \<and> a \<le> max_int64 \<longrightarrow>
      single_byte_range (''bytes='' @ format_int a @ ''-'') full =
        (if a \<ge> full then (0, 0, RangeUnsatisfiable) else (a, full - a, RangeServe))) \<and>
    (\<forall>n. 0 < n \<and> n \<le> max_int64 \<longrightarrow>
      single_byte_range (''bytes=-'' @ format_int n) full = (full - min n full, min n full, RangeServe)) \<and>
    (\<forall>v start len. single_byte_range v full = (start, len, RangeServe) \<longrightarrow> 0 \<le> start \<and> 0 < len \<and> start + len \<le> full)"
proof (intro conjI allI impI)
  fix a b :: int assume a: "0 \<le> a \<and> a \<le> b \<and> b \<le> max_int64"
  with range_spec [of a full "format_int b" b] format_int_facts [of b] parse_format_int [of b] assms
  show "single_byte_range (''bytes='' @ format_int a @ ''-'' @ format_int b) full =
        (if a \<ge> full then (0, 0, RangeUnsatisfiable) else (a, min b (full - 1) - a + 1, RangeServe))"
    by simp
next
  fix a :: int assume "0 \<le> a \<and> a \<le> max_int64"
  with range_spec [of a full "[]" a] assms
  show "single_byte_range (''bytes='' @ format_int a @ ''-'') full =
        (if a \<ge> full then (0, 0, RangeUnsatisfiable) else (a, full - a, RangeServe))" by simp
next
  fix n :: int assume "0 < n \<and> n \<le> max_int64"
  with suffix_spec [of n full] assms
  show "single_byte_range (''bytes=-'' @ format_int n) full = (full - min n full, min n full, RangeServe)" by simp
qed (auto dest: range_within)

theorem range_exact_witness:
  "single_byte_range (''bytes='' @ format_int 2 @ ''-'' @ format_int 99) 10 = (2, 8, RangeServe) \<and>
   single_byte_range (''bytes=-'' @ format_int 3) 10 = (7, 3, RangeServe)"
proof
  show "single_byte_range (''bytes='' @ format_int 2 @ ''-'' @ format_int 99) 10 = (2, 8, RangeServe)"
    using conjunct1 [OF range_exact [of 10], rule_format, of 2 99] by (simp add: max_int64_def)
  show "single_byte_range (''bytes=-'' @ format_int 3) 10 = (7, 3, RangeServe)"
    using conjunct1 [OF conjunct2 [OF conjunct2 [OF range_exact [of 10]]], rule_format, of 3] by (simp add: max_int64_def)
qed

text \<open>
  C37: transfers have time. Whatever length a client announces or a row has, the write deadline of an upload and of a
  download leaves at least half an hour; up to about 8.5 PiB that of an upload leaves at least one second for
  every MiB of the body, and up to about 2.1 PiB that of a download one second for every 256 KiB. The bounds are sharp: at
  that length the 64-bit arithmetic wraps and only the half hour is left.
\<close>

theorem transfers_fit_deadline:
  defines "half_hour \<equiv> 30 * 60 * 1000000000"
  shows "half_hour \<le> upload_write_budget n \<and> half_hour \<le> download_write_budget n \<and>
    (n < 9223371917 * 2 ^ 20 \<longrightarrow> n * 1000000000 \<le> upload_write_budget n * 2 ^ 20) \<and>
    (n < 9223371917 * 2 ^ 18 \<longrightarrow> n * 1000000000 \<le> download_write_budget n * 2 ^ 18) \<and>
    upload_write_budget (9223371917 * 2 ^ 20) = half_hour \<and> download_write_budget (9223371917 * 2 ^ 18) = half_hour"
proof -
  have f: "half_hour \<le> upload_write_budget k" "half_hour \<le> download_write_budget k" for k
    unfolding upload_write_budget_def download_write_budget_def half_hour_def by (rule write_budget_floor)+
  have "n * 1000000000 \<le> upload_write_budget n * 2 ^ 20" if "n < 9223371917 * 2 ^ 20"
    using write_budget_large [of n "2 ^ 20" half_hour] f(1) [of n] that
    by (cases "0 < n") (auto simp: upload_write_budget_def half_hour_def)
  moreover have "n * 1000000000 \<le> download_write_budget n * 2 ^ 18" if "n < 9223371917 * 2 ^ 18"
    using write_budget_large [of n "2 ^ 18" half_hour] f(2) [of n] that
    by (cases "0 < n") (auto simp: download_write_budget_def half_hour_def)
  moreover have "upload_write_budget (9223371917 * 2 ^ 20) = half_hour" "download_write_budget (9223371917 * 2 ^ 18) = half_hour"
    unfolding upload_write_budget_def download_write_budget_def half_hour_def by (rule write_budget_wraps; simp)+
  ultimately show ?thesis using f by blast
qed

theorem transfers_fit_deadline_witness: "5 * 2 ^ 30 * 1000000000 \<le> upload_write_budget (5 * 2 ^ 30) * 2 ^ 20"
  using transfers_fit_deadline [of "5 * 2 ^ 30"] by simp

section \<open>Other origins\<close>

text \<open>
  Only listed origins may read replies. The header that lets a page of another origin
  read the reply is present exactly when the request names an origin of the list, and then it
  holds that origin, never a wildcard; no handler sets it.
\<close>

theorem cors_only_listed:
  "header (cn_response (handle_request E S r c)) ''Access-Control-Allow-Origin'' =
    (let origin = clean_origin (rq_header r ''Origin'') in
     if origin \<noteq> [] \<and> origin \<in> set (sv_origins S) then Some origin else None)"
  by (rule allowed_origin)

section \<open>The interface and the services\<close>

text \<open>
  C16: a request does what its route says, and nothing else. Whatever a request carries and whatever fails, it leaves rows and
  objects exactly as the one operation does that \<^const>\<open>request_effect\<close> names: for a route behind the check, and only when
  the request is authorized and its session is found, that route's operation of the file service or the authentication service
  with the identifier of the path, the fields of the body or of the form, the disks of the server and the session of the token;
  for a login or a refresh under its limit, the login with the credentials of the body or the refresh of the token presented; for anything else,
  and for a body that is refused, nothing. The operation runs in the world that the middleware and the check leave.
\<close>

theorem requests_refine_services:
  "w_db (cn_world (handle_request E S r c)) = w_db (request_effect E S r c) \<and>
   w_fs (cn_world (handle_request E S r c)) = w_fs (request_effect E S r c)"
  using request_acts [of E S r c] by (simp add: same_rows_def)

definition access_world :: world where
  "access_world = calm_world\<lparr>w_db := empty_db\<lparr>sessions := [\<lparr>s_id = calm_uuid 0, s_token_hash = ''h'',
     s_expires_at = stamp 691200000000000, s_revoked_at = None, s_created_at = stamp 0\<rparr>]\<rparr>\<rparr>"

definition access_request :: "string \<Rightarrow> string list \<Rightarrow> request" where
  "access_request method segs = (bare_request method segs)\<lparr>rq_header := (\<lambda>k. if k = ''Authorization'' then ''Bearer T'' else [])\<rparr>"

lemma access_arrival: "w_clock (arrival (one_token_env login_claims) (access_request method segs) access_world) = 1"
  "w_sql (arrival (one_token_env login_claims) (access_request method segs) access_world) = 0"
  by (simp_all add: arrival_def access_request_def bare_request_def access_world_def calm_world_def valid_request_id_def
      new_request_id_def handleE_def rand_io_def one_token_env_def calm_env_def ret_def bindE_def)

lemma access_parses:
  "x_jwt_parse (one_token_env login_claims) (key_func (ah_tokens (sv_auth calm_server))) (tm_issuer (ah_tokens (sv_auth calm_server)))
     [''HS256''] (x_clock (one_token_env login_claims) 1) (token_from ''access_token'' (access_request method segs)) = Some (login_claims, True)"
proof -
  have "token_from ''access_token'' (access_request method segs) = ''T''"
    by (simp add: token_from_def access_request_def bare_request_def has_prefix_def trim_prefix_def) code_simp
  then show ?thesis
    by (simp add: one_token_env_def calm_env_def calm_server_def key_func_def jwt_current_def login_claims_def)
qed

lemma access_authorized:
  "authorized (one_token_env login_claims) (ah_tokens (sv_auth calm_server)) (access_request method segs)
     (arrival (one_token_env login_claims) (access_request method segs) access_world)"
proof -
  have "parse_time (stamp 691200000000000) = Some 691200000000000" by (rule parse_time_stamp) (simp add: in_range_def)
  moreover have "x_clock (one_token_env login_claims) 2 = 86402000000000" by (simp add: one_token_env_def calm_env_def)
  ultimately show ?thesis
    unfolding authorized_def access_arrival access_parses
    by (simp add: access_world_def row_with_def session_table_def login_claims_def single_user_id_def calm_uuid_def
        access_request_def bare_request_def has_prefix_def numeral_2_eq_2)
qed

theorem requests_refine_services_witness:
  "let E = one_token_env login_claims; r = access_request ''DELETE'' [''api'', ''trash'', ''7'']
   in w_db (cn_world (handle_request E calm_server r (calm_conn access_world))) =
      w_db (snd (permanently_delete E one_disk ''7'' (admission (arrival E r access_world))))"
proof -
  let ?E = "one_token_env login_claims" and ?r = "access_request ''DELETE'' [''api'', ''trash'', ''7'']"
  have route: "route_of (sv_ui_disabled calm_server) (rq_method ?r) (rq_segments ?r) = Purge ''7''"
    by (simp add: access_request_def bare_request_def route_of_def clean_segments_def match_method_def)
  have f: "x_sql_fault ?E n = None" for n by (simp add: one_token_env_def calm_env_def)
  have "request_effect ?E calm_server ?r (calm_conn access_world) =
      snd (permanently_delete ?E one_disk ''7'' (admission (arrival ?E ?r access_world)))"
    unfolding request_effect_def route served_effect_def Let_def
    using access_authorized access_parses by (simp add: needs_access_def calm_conn_def f access_arrival effect_def) (simp add: calm_server_def)
  with requests_refine_services [of ?E calm_server ?r "calm_conn access_world"] show ?thesis by (simp add: Let_def)
qed

end
