(* ===== verification/Config_Facts.thy ===== *)
theory Config_Facts
  imports Config
begin

text \<open>
  What the checks of the configuration establish, and how the texts of its lists are read.
\<close>

section \<open>The checks\<close>

definition mount_spec_ok :: "mount_spec \<Rightarrow> bool" where
  "mount_spec_ok m \<longleftrightarrow> valid_mount_id (ms_id m) \<and> trim_space (ms_name m) \<noteq> [] \<and> trim_space (ms_root m) \<noteq> []"

lemma validate_mounts_None:
  "validate_mounts seen ms = None \<longleftrightarrow>
     (\<forall>m \<in> set ms. mount_spec_ok m) \<and> distinct (map ms_id ms) \<and> ms_id ` set ms \<inter> set seen = {}"
  by (induction seen ms rule: validate_mounts.induct) (auto simp: mount_spec_ok_def)

lemma validate_servers_None:
  "validate_servers names bases ss = None \<longleftrightarrow>
     (\<forall>s \<in> set ss. valid_mount_id (rm_name s) \<and> trim_space (rm_base s) \<noteq> [] \<and> valid_origin (rm_base s)) \<and>
     distinct (map rm_name ss) \<and> distinct (map rm_base ss) \<and>
     rm_name ` set ss \<inter> set names = {} \<and> rm_base ` set ss \<inter> set bases = {}"
  by (induction names bases ss rule: validate_servers.induct) auto

lemma load_Inr:
  assumes "load S = Inr c"
  shows "validate c = None" "cf_allowed_origins c = parse_csv S ''CORS_ALLOWED_ORIGINS''"
    "parse_mounts (get_env S ''STORAGE_MOUNTS'') (sc_root (cf_storage c)) = Inr (sc_mounts (cf_storage c))"
    "parse_remote_servers (get_env S ''UI_REMOTE_SERVERS'') = Inr (uc_remote_servers (cf_ui c))"
    "cf_auth c = read_auth S" "sc_allowed_mimes (cf_storage c) = []"
  using assms by (auto simp: load_def Let_def split: sum.splits option.splits)

lemma validate_None:
  assumes "validate c = None"
  shows "validate_auth c = None" "validate_storage c = None" "validate_ui c = None"
  using assms by (auto simp: validate_def Let_def split: if_splits option.splits)

lemma validate_auth_None:
  assumes "validate_auth c = None"
  shows "32 \<le> length (ac_jwt_secret (cf_auth c))" "trim_space (ac_jwt_issuer (cf_auth c)) \<noteq> []"
    "trim_space (ac_username (cf_auth c)) \<noteq> []" "ac_password (cf_auth c) \<noteq> []"
    "0 < ac_access_token_ttl (cf_auth c)" "ac_access_token_ttl (cf_auth c) < ac_refresh_token_ttl (cf_auth c)"
    "0 < ac_login_rate_limit (cf_auth c)" "0 < ac_refresh_rate_limit (cf_auth c)"
    "0 < ac_login_rate_window (cf_auth c)" "0 < ac_refresh_rate_window (cf_auth c)"
    "production c \<Longrightarrow> ac_jwt_secret (cf_auth c) \<noteq> development_secret \<and> ac_password (cf_auth c) \<noteq> default_password \<and>
       8 \<le> length (ac_password (cf_auth c)) \<and> ac_secure_cookies (cf_auth c)"
  using assms by (auto simp: validate_auth_def Let_def split: if_splits)

lemma validate_storage_None:
  assumes "validate_storage c = None"
  shows "0 < sc_max_bytes (cf_storage c)" "sc_mounts (cf_storage c) \<noteq> []" "cf_database_path c \<noteq> []"
    "\<forall>m \<in> set (sc_mounts (cf_storage c)). mount_spec_ok m" "distinct (map ms_id (sc_mounts (cf_storage c)))"
  using assms by (auto simp: validate_storage_def validate_mounts_None split: if_splits)

lemma validate_ui_None:
  assumes "validate_ui c = None"
  shows "\<forall>origin \<in> set (cf_allowed_origins c). valid_cors_origin origin"
    "trim_space (uc_api_base (cf_ui c)) \<noteq> [] \<Longrightarrow> valid_origin (uc_api_base (cf_ui c))"
    "\<forall>s \<in> set (uc_remote_servers (cf_ui c)). valid_origin (rm_base s)"
  using assms by (auto simp: validate_ui_def validate_servers_None find_None_iff split: option.splits if_splits)

section \<open>Reading the list of disks\<close>

lemma id_char_plain: "id_char c \<Longrightarrow> plain c \<and> c \<noteq> CHR ''='' \<and> c \<noteq> CHR '';''"
proof -
  assume c: "id_char c"
  then have "plain c" by (auto simp: id_char_def plain_def less_eq_char_def less_char_def)
  moreover have "\<not> id_char (CHR ''='')" "\<not> id_char (CHR '';'')" by (simp_all add: id_char_def less_eq_char_def)
  ultimately show ?thesis using c by auto
qed

lemma trim_start_keeps:
  assumes "\<not> p c" "\<And>b. \<not> q c b \<and> \<not> q b c" "\<And>b d. \<not> r c b d \<and> \<not> r b c d \<and> \<not> r b d c" "c \<in> set s"
  shows "c \<in> set (trim_start p q r s)"
  using assms by (induction p q r s rule: trim_start.induct) auto

lemma trim_space_keeps_plain:
  assumes "c \<in> set s" "plain c"
  shows "c \<in> set (trim_space s)"
proof -
  have "\<not> space3 b c d" for b d
    using assms(2) by (auto simp: plain_def space3_def not_le [symmetric] less_eq_char_def)
  with plain_no_space [OF assms(2)] assms(1) show ?thesis
    unfolding trim_space_def trim_right_space_def trim_left_space_def
    by (auto intro!: trim_start_keeps)
qed

text \<open>A disk as it is written in the variable, when its path starts and ends with a plain character.\<close>

definition writable_disk :: "string \<times> string \<Rightarrow> bool" where
  "writable_disk = (\<lambda>(name, path). valid_mount_id name \<and> path \<noteq> [] \<and> plain (hd path) \<and> plain (last path) \<and> CHR '';'' \<notin> set path)"

definition entry_text :: "string \<times> string \<Rightarrow> string" where
  "entry_text = (\<lambda>(name, path). name @ CHR ''='' # path)"

definition mounts_text :: "(string \<times> string) list \<Rightarrow> string" where
  "mounts_text ds = join_with (CHR '';'') (map entry_text ds)"

definition spec_of :: "string \<times> string \<Rightarrow> mount_spec" where
  "spec_of = (\<lambda>(name, path). \<lparr>ms_id = name, ms_name = name, ms_root = path\<rparr>)"

lemma valid_mount_id_chars: "valid_mount_id n \<Longrightarrow> n \<noteq> [] \<and> (\<forall>c \<in> set n. plain c \<and> c \<noteq> CHR ''='' \<and> c \<noteq> CHR '';'')"
  by (auto simp: valid_mount_id_def list_all_iff id_char_plain)

lemma trim_entry:
  assumes "writable_disk d"
  shows "trim_space (entry_text d) = entry_text d" "entry_text d \<noteq> []" "CHR '';'' \<notin> set (entry_text d)"
proof -
  obtain n p where d: "d = (n, p)" by (cases d)
  note w = assms [unfolded d writable_disk_def, simplified]
  note n = valid_mount_id_chars [of n]
  have "plain (hd (entry_text d))" "plain (last (entry_text d))" "entry_text d \<noteq> []"
    using w n by (auto simp: d entry_text_def hd_append)
  then show "trim_space (entry_text d) = entry_text d" by (intro trim_space_plain_ends)
  show "entry_text d \<noteq> []" "CHR '';'' \<notin> set (entry_text d)" using w n by (auto simp: d entry_text_def)
qed

lemma parse_entry_text: "writable_disk d \<Longrightarrow> parse_mount_entry (entry_text d) = Inr (Some (spec_of d))"
proof -
  assume w: "writable_disk d"
  obtain n p where d: "d = (n, p)" by (cases d)
  have "cut_at (CHR ''='') (n @ CHR ''='' # p) = (n, p, True)"
    using valid_mount_id_chars [of n] w by (auto simp: d writable_disk_def intro!: cut_at_found)
  moreover have "trim_space n = n" "trim_space p = p"
    using valid_mount_id_chars [of n] w by (auto simp: d writable_disk_def intro: trim_space_plain trim_space_plain_ends)
  ultimately show ?thesis
    using trim_entry [OF w] w by (simp add: parse_mount_entry_def Let_def d entry_text_def spec_of_def writable_disk_def)
qed

lemma parse_entries_text: "\<forall>d \<in> set ds. writable_disk d \<Longrightarrow> parse_entries (map entry_text ds) = Inr (map spec_of ds)"
  by (induction ds) (simp_all add: parse_entry_text)

lemma parse_mounts_text:
  assumes "ds \<noteq> []" "\<forall>d \<in> set ds. writable_disk d"
  shows "parse_mounts (mounts_text ds) root = Inr (mark_default (map spec_of ds))"
proof -
  have "split_on (CHR '';'') (mounts_text ds) = map entry_text ds"
    unfolding mounts_text_def by (rule split_on_join) (use assms trim_entry(3) in auto)
  moreover have "trim_space (mounts_text ds) \<noteq> []"
  proof -
    obtain d es where ds: "ds = d # es" using assms(1) by (cases ds) auto
    then obtain rest where "mounts_text ds = entry_text d @ rest" by (cases es) (auto simp: mounts_text_def)
    then have "CHR ''='' \<in> set (mounts_text ds)" by (cases d) (auto simp: entry_text_def)
    moreover have "plain (CHR ''='')" by (simp add: plain_def)
    ultimately show ?thesis using trim_space_keeps_plain by fastforce
  qed
  ultimately show ?thesis using assms parse_entries_text by (simp add: parse_mounts_def)
qed

section \<open>Admitted origins\<close>

text \<open>A text that starts with the scheme http or https and a colon.\<close>

definition http_text :: "string \<Rightarrow> bool" where
  "http_text v \<longleftrightarrow> (\<exists>s rest. v = s @ CHR '':'' # rest \<and> (to_lower s = ''http'' \<or> to_lower s = ''https''))"

lemma cut_at_prefix: "cut_at c s = (a, b, found) \<Longrightarrow> prefix a s"
  by (induction s arbitrary: a b) (auto simp: Let_def split: if_splits prod.splits)

lemma parse_url_scheme:
  assumes "parse_url v = Some u" "http_scheme u"
  shows "http_text v"
proof -
  obtain a b found where c: "cut_at (CHR ''#'') v = (a, b, found)" by (metis prod_cases3)
  with assms(1) obtain u1 where u1: "parse_without_fragment a = Some u1" "url_scheme u = url_scheme u1"
    by (auto simp: parse_url_def split: option.splits if_splits)
  have ne: "url_scheme u1 \<noteq> []" "url_scheme u1 = ''http'' \<or> url_scheme u1 = ''https''"
    using assms(2) u1(2) by (auto simp: http_scheme_def)
  have h: "parse_hierarchical x q r = Some u1 \<Longrightarrow> url_scheme u1 = x" for x q r
    by (auto simp: parse_hierarchical_def finish_url_def Let_def split: if_splits option.splits)
  obtain s rest where g: "get_scheme a = Some (s, rest)" "url_scheme u1 = to_lower s"
    using u1(1) ne(1) h by (fastforce simp: parse_without_fragment_def Let_def split: if_splits option.splits prod.splits)
  with ne(1) have "s \<noteq> []" by auto
  from get_scheme_text [OF g(1) this] have "a = s @ CHR '':'' # rest" by simp
  moreover obtain zs where "v = a @ zs" using cut_at_prefix [OF c] by (auto simp: prefix_def)
  ultimately show ?thesis using g(2) ne(2) by (auto simp: http_text_def)
qed

lemma trim_right_char_keeps: "d \<noteq> c \<Longrightarrow> trim_right_char c (a @ d # b) = a @ d # trim_right_char c b"
  by (auto simp: trim_right_char_def dropWhile_append3 dropWhile_append)

lemma valid_cors_origin_http: "valid_cors_origin v \<Longrightarrow> http_text (trim_right_char (CHR ''/'') (trim_space v))"
proof -
  assume "valid_cors_origin v"
  then have "http_text (trim_space v)"
    using parse_url_scheme by (auto simp: valid_cors_origin_def split: option.splits)
  then obtain s rest where "trim_space v = s @ CHR '':'' # rest" "to_lower s = ''http'' \<or> to_lower s = ''https''"
    by (auto simp: http_text_def)
  moreover have "CHR '':'' \<noteq> CHR ''/''" by simp
  ultimately show ?thesis unfolding http_text_def using trim_right_char_keeps by metis
qed

lemma http_text_special: "\<not> http_text ''*'' \<and> \<not> http_text ''null'' \<and> \<not> http_text []"
proof -
  have "length s \<noteq> 0" if "to_lower s = ''http'' \<or> to_lower s = ''https''" for s
    using that by (auto simp: to_lower_def)
  then show ?thesis by (auto simp: http_text_def append_eq_Cons_conv Cons_eq_append_conv)
qed

end
