(* ===== verification/Startup.thy ===== *)
theory Startup
  imports Router Database Config_Facts
begin

text \<open>
  src/internal/handler/httpapi/router.go, \<^verbatim>\<open>NewRouterWithCloser\<close>: from a configuration and the
  database file as it is found to a server ready to answer, or the panic that stops the
  process. The start reads the settings again when the configuration it is handed is
  incomplete. The two pruning statements at the end may fail without consequence.
\<close>

section \<open>Room on a disk\<close>

text \<open>
  src/internal/storage/disk_usage_unix.go, over the answers of \<^verbatim>\<open>statfs\<close> (a parameter; \<open>None\<close> is
  an error): capacity, free and used bytes, in the wrapping arithmetic of 64 bits.
\<close>

record fs_stat =
  st_blocks :: int
  st_bfree :: int
  st_bavail :: int
  st_bsize :: int

definition disk_usage :: "(string \<Rightarrow> fs_stat option) \<Rightarrow> string \<Rightarrow> int \<times> int \<times> int" where
  "disk_usage statfs root =
     (case statfs root of
        None \<Rightarrow> (0, 0, 0)
      | Some st \<Rightarrow>
          (wrap64 (wrap64 (st_blocks st) * st_bsize st),
           wrap64 (wrap64 (st_bavail st) * st_bsize st),
           wrap64 (wrap64 (wrap64 (st_blocks st) - wrap64 (st_bfree st)) * st_bsize st)))"

definition store_usage :: "(string \<Rightarrow> fs_stat option) \<Rightarrow> local_store \<Rightarrow> int \<times> int \<times> int" where
  "store_usage statfs s = disk_usage statfs (l_root s)"

section \<open>From a configuration to a server\<close>

datatype start_error = Config_rejected config_error | Start_failed err

definition incomplete :: "config \<Rightarrow> bool" where
  "incomplete cfg \<longleftrightarrow> ac_jwt_secret (cf_auth cfg) = [] \<or> ac_username (cf_auth cfg) = [] \<or> ac_password (cf_auth cfg) = []
     \<or> cf_database_path cfg = [] \<or> sc_root (cf_storage cfg) = [] \<and> sc_mounts (cf_storage cfg) = []
     \<or> sc_max_bytes (cf_storage cfg) = 0"

definition effective_mounts :: "config \<Rightarrow> mount_spec list" where
  "effective_mounts cfg =
     (if sc_mounts (cf_storage cfg) = [] then [\<lparr>ms_id = ''default'', ms_name = ''Main'', ms_root = sc_root (cf_storage cfg)\<rparr>]
      else sc_mounts (cf_storage cfg))"

text \<open>The rows and objects found, with the counters of the environment where the start left them.\<close>

definition opened_world :: "boot \<Rightarrow> (string \<rightharpoonup> bytes) \<Rightarrow> world" where
  "opened_world b fs = \<lparr>w_db = database_of (bt_image b), w_fs = fs, w_clock = bt_clock b, w_uuid = 0, w_rand = 0,
     w_sql = bt_sql b, w_os = bt_os b\<rparr>"

definition prune :: "env \<Rightarrow> world \<Rightarrow> world" where
  "prune E w = snd (bindE (ignoreE (bindE (now_io E) (prune_sessions E))) (\<lambda>_. ignoreE (bindE (now_io E) (prune_audit E))) w)"

definition server_of ::
  "string \<Rightarrow> string \<Rightarrow> (string \<Rightarrow> fs_stat option) \<Rightarrow> config \<Rightarrow> token_manager \<Rightarrow> mounts \<Rightarrow> server" where
  "server_of index landing statfs cfg tokens ms =
     \<lparr>sv_auth = \<lparr>ah_tokens = tokens, ah_secure_cookies = ac_secure_cookies (cf_auth cfg),
        ah_cookie_domain = ac_cookie_domain (cf_auth cfg)\<rparr>,
      sv_files = \<lparr>fh_mounts = ms, fh_max_bytes = sc_max_bytes (cf_storage cfg), fh_usage = (\<lambda>m. store_usage statfs (m_store m))\<rparr>,
      sv_origins = new_cors (cf_allowed_origins cfg), sv_ui_disabled = uc_disabled (cf_ui cfg),
      sv_api_base = uc_api_base (cf_ui cfg), sv_remotes = uc_remote_servers (cf_ui cfg),
      sv_index_html = index, sv_landing_html = landing\<rparr>"

definition first_conn :: "config \<Rightarrow> world \<Rightarrow> conn" where
  "first_conn cfg w = \<lparr>cn_world = w,
     cn_login = new_rate_limiter (ac_login_rate_limit (cf_auth cfg)) (ac_login_rate_window (cf_auth cfg)),
     cn_refresh = new_rate_limiter (ac_refresh_rate_limit (cf_auth cfg)) (ac_refresh_rate_window (cf_auth cfg)),
     cn_deadline = None, cn_response = no_response\<rparr>"

definition new_router ::
  "env \<Rightarrow> settings \<Rightarrow> string \<Rightarrow> string \<Rightarrow> (string \<Rightarrow> fs_stat option) \<Rightarrow> config \<Rightarrow> boot \<Rightarrow> (string \<rightharpoonup> bytes) \<Rightarrow>
     start_error + server \<times> conn" where
  "new_router E S index landing statfs given b fs =
     (case (if incomplete given then load S else Inr given) of
        Inl e \<Rightarrow> Inl (Config_rejected e)
      | Inr cfg \<Rightarrow>
     (case open_database E (cf_database_path cfg)
         \<lparr>sd_username = ac_username (cf_auth cfg), sd_password = ac_password (cf_auth cfg)\<rparr> b of
        (Inl e, b1) \<Rightarrow> Inl (Start_failed e)
      | (Inr _, b1) \<Rightarrow>
     (case new_token_manager (ac_jwt_secret (cf_auth cfg)) (ac_jwt_issuer (cf_auth cfg))
         (ac_access_token_ttl (cf_auth cfg)) (ac_refresh_token_ttl (cf_auth cfg)) of
        Inl e \<Rightarrow> Inl (Start_failed e)
      | Inr tokens \<Rightarrow>
     (case new_mounts E (effective_mounts cfg) (sc_max_bytes (cf_storage cfg)) (sc_allowed_mimes (cf_storage cfg)) (opened_world b1 fs) of
        (Inl e, w) \<Rightarrow> Inl (Start_failed e)
      | (Inr ms, w) \<Rightarrow> Inr (server_of index landing statfs cfg tokens ms, first_conn cfg (prune E w))))))"

text \<open>src/cmd/api/main.go up to the listener: load the configuration, then build the router.\<close>

definition start_process ::
  "env \<Rightarrow> settings \<Rightarrow> string \<Rightarrow> string \<Rightarrow> (string \<Rightarrow> fs_stat option) \<Rightarrow> boot \<Rightarrow> (string \<rightharpoonup> bytes) \<Rightarrow>
     start_error + server \<times> conn" where
  "start_process E S index landing statfs b fs =
     (case load S of Inl e \<Rightarrow> Inl (Config_rejected e) | Inr cfg \<Rightarrow> new_router E S index landing statfs cfg b fs)"

section \<open>A loaded configuration starts\<close>

lemma loaded_complete:
  assumes "validate cfg = None"
  shows "\<not> incomplete cfg" "effective_mounts cfg = sc_mounts (cf_storage cfg)"
proof -
  note v = validate_None [OF assms]
  note a = validate_auth_None [OF v(1)] and s = validate_storage_None [OF v(2)]
  have "ac_jwt_secret (cf_auth cfg) \<noteq> []" using a(1) by auto
  with a s show "\<not> incomplete cfg" "effective_mounts cfg = sc_mounts (cf_storage cfg)"
    by (auto simp: incomplete_def effective_mounts_def)
qed

lemma loaded_tokens:
  assumes "validate cfg = None"
  shows "new_token_manager (ac_jwt_secret (cf_auth cfg)) (ac_jwt_issuer (cf_auth cfg)) (ac_access_token_ttl (cf_auth cfg))
      (ac_refresh_token_ttl (cf_auth cfg)) =
    Inr \<lparr>tm_secret = ac_jwt_secret (cf_auth cfg), tm_issuer = ac_jwt_issuer (cf_auth cfg),
      tm_access_ttl = ac_access_token_ttl (cf_auth cfg), tm_refresh_ttl = ac_refresh_token_ttl (cf_auth cfg)\<rparr>"
  using validate_auth_None [OF validate_None(1) [OF assms]] by (simp add: new_token_manager_def)

lemma valid_mount_id_trim: "valid_mount_id n \<Longrightarrow> trim_space n = n \<and> n \<noteq> []"
  using valid_mount_id_chars [of n] by (auto intro: trim_space_plain)

lemma new_mounts_loop_calm:
  assumes "\<And>n. x_os_fault E n = None" "0 < limit" "\<forall>m \<in> set specs. mount_spec_ok m" "distinct (map ms_id specs)"
    "ms_id ` set specs \<inter> set seen = {}"
  shows "\<exists>ms1 w1. new_mounts_loop E limit allowed seen ms specs w = (Inr ms1, w1)"
  using assms(3-5)
proof (induction specs arbitrary: seen ms w)
  case (Cons spec specs)
  let ?w = "w\<lparr>w_os := Suc (w_os w)\<rparr>"
  obtain store where store: "new_local_store E (ms_root spec) limit allowed w = (Inr store, ?w)"
    using Cons.prems(1) assms(1,2)
    by (simp add: new_local_store_def mount_spec_ok_def bindE_def wrapE_def handleE_def os_io_def)
  have "\<exists>ms1 w1. new_mounts_loop E limit allowed (ms_id spec # seen) ms2 specs ?w = (Inr ms1, w1)" for ms2
    using Cons.prems by (intro Cons.IH) auto
  then show ?case
    using Cons.prems store valid_mount_id_trim [of "ms_id spec"]
    by (simp add: bindE_def wrapE_def handleE_def mount_spec_ok_def Let_def)
qed simp

lemma open_database_calm:
  assumes "\<And>n. x_sql_fault E n = None" "\<And>n. x_os_fault E n = None"
    "\<And>b2. bt_image b2 = bt_image b \<Longrightarrow> \<exists>b1. migrate E seed b2 = (Inr (), b1)"
  shows "\<exists>b1. open_database E path seed b = (Inr (), b1)"
proof -
  let ?b1 = "if path \<noteq> '':memory:'' then b\<lparr>bt_os := Suc (bt_os b)\<rparr> else b"
  let ?b2 = "?b1\<lparr>bt_sql := Suc (Suc (bt_sql ?b1))\<rparr>"
  have "\<exists>b1. migrate E seed ?b2 = (Inr (), b1)" by (rule assms(3)) simp
  then show ?thesis
    by (auto simp: open_database_def bindE_def wrapB_def handleE_def boot_os_def boot_sql_def no_change_def assms(1,2) Let_def)
qed

section \<open>The pages of a loaded configuration\<close>

lemma origin_of_valid:
  assumes "valid_origin v"
  shows "\<exists>origin. origin_of v = Some origin \<and> http_text origin"
proof -
  obtain u where u: "parse_url (trim_space v) = Some u" "url_scheme u = ''http'' \<or> url_scheme u = ''https''" "url_host u \<noteq> []"
    using assms by (auto simp: valid_origin_def http_scheme_def split: option.splits)
  then have "origin_of v = Some (url_scheme u @ ''://'' @ url_host u)" by (auto simp: origin_of_def)
  moreover have "to_lower ''http'' = ''http''" "to_lower ''https'' = ''https''" by code_simp+
  then have "http_text (url_scheme u @ CHR '':'' # ''//'' @ url_host u)" using u(2) unfolding http_text_def by metis
  ultimately show ?thesis by simp
qed

text \<open>The servers that the page of a configuration talks to besides its own.\<close>

definition page_targets :: "config \<Rightarrow> string list" where
  "page_targets cfg =
     (if uc_remote_servers (cf_ui cfg) \<noteq> [] then map rm_base (uc_remote_servers (cf_ui cfg))
      else if trim_space (uc_api_base (cf_ui cfg)) \<noteq> [] then [uc_api_base (cf_ui cfg)] else [])"

lemma loaded_sources:
  assumes "validate cfg = None"
  shows "list_all (\<lambda>b. \<exists>origin. origin_of b = Some origin \<and> http_text origin) (page_targets cfg)"
    "connect_sources (uc_api_base (cf_ui cfg)) (uc_remote_servers (cf_ui cfg)) =
       quoted ''self'' @ concat (map (\<lambda>b. CHR '' '' # the (origin_of b)) (page_targets cfg))"
proof -
  note u = validate_ui_None [OF validate_None(3) [OF assms]]
  show l: "list_all (\<lambda>b. \<exists>origin. origin_of b = Some origin \<and> http_text origin) (page_targets cfg)"
    using u origin_of_valid by (auto simp: page_targets_def list_all_iff)
  then have "\<forall>b \<in> set (page_targets cfg). source_of b = CHR '' '' # the (origin_of b)"
    by (auto simp: list_all_iff source_of_def)
  then have e: "concat (map source_of (page_targets cfg)) = concat (map (\<lambda>b. CHR '' '' # the (origin_of b)) (page_targets cfg))"
    by (intro arg_cong [where f = concat] map_cong refl) blast
  have "connect_sources (uc_api_base (cf_ui cfg)) (uc_remote_servers (cf_ui cfg)) =
       quoted ''self'' @ concat (map source_of (page_targets cfg))"
    by (simp add: connect_sources_def page_targets_def comp_def)
  with e show "connect_sources (uc_api_base (cf_ui cfg)) (uc_remote_servers (cf_ui cfg)) =
       quoted ''self'' @ concat (map (\<lambda>b. CHR '' '' # the (origin_of b)) (page_targets cfg))"
    by (simp only:)
qed

lemma app_page_run:
  assumes "cn_response c = no_response"
  obtains nonce c1 where "web_home_with E html api_base remotes r c = (Inr (), c1)" "rs_status (cn_response c1) = Some 200"
    "header (cn_response c1) ''Content-Security-Policy'' = Some (app_policy nonce (connect_sources api_base remotes))"
    "rs_body (cn_response c1) = [Text (replace_all nonce_mark nonce (app_text html api_base remotes))]"
proof -
  have "\<exists>nonce c1. page_nonce E c = (Inr nonce, c1) \<and> cn_response c1 = no_response"
    using assms by (auto simp: page_nonce_def attempt_def rand_io_def bindE_def Let_def ret_def split: option.splits)
  then obtain nonce c1 where n: "page_nonce E c = (Inr nonce, c1)" "cn_response c1 = no_response" by blast
  show thesis
  proof
    show "web_home_with E html api_base remotes r c = (Inr (), snd (serve_page (app_policy nonce (connect_sources api_base remotes))
       (replace_all nonce_mark nonce (app_text html api_base remotes)) c1))"
      by (simp add: web_home_with_def bindE_def n serve_page_def set_header_def write_status_def write_body_def respond_run)
  qed (simp_all add: bindE_def n serve_page_def set_header_def write_status_def write_body_def respond_run no_response_def header_def)
qed

end
