(* ===== verification/Deployment.thy ===== *)
theory Deployment
  imports Startup Http_Steps
begin

text \<open>
  A server over its whole life: a first start on an empty database file, requests, and restarts
  on the file and the disks that the requests left, each with another clock, other random bytes
  and other failures. The invariants of the system hold at every moment of it.
\<close>

section \<open>What a start needs and what it leaves\<close>

definition openable :: "image \<Rightarrow> bool" where
  "openable im \<longleftrightarrow> image_ok im \<and> distinct (root_names im) \<and>
     (is_legacy im \<longrightarrow> im_sessions im \<noteq> None \<and> im_folders im \<noteq> None \<and> im_files im \<noteq> None \<and> im_audit im \<noteq> None)"

lemma migrate_openable:
  assumes "openable (bt_image b)" "\<And>n. x_sql_fault E n = None" "trim_space (sd_username seed) \<noteq> []" "sd_password seed \<noteq> []"
    "x_bcrypt_hash E (sd_password seed) bcrypt_cost \<noteq> None"
  shows "\<exists>b1. migrate E seed b = (Inr (), b1)"
proof -
  have "\<exists>im1. rebuild (bt_image b) = Inr ((), im1)" if "is_legacy (bt_image b)"
    using assms(1) that by (auto simp: openable_def rebuild_Inr image_ok_def rows_of_def)
  with assms show ?thesis
    using migrate_calm [of E b seed] by (simp add: root_constraint_distinct openable_def)
qed

lemma start_succeeds:
  assumes "load S = Inr cfg" "openable (bt_image b)" "\<And>n. x_sql_fault E n = None" "\<And>n. x_os_fault E n = None"
    "x_bcrypt_hash E (ac_password (cf_auth cfg)) bcrypt_cost \<noteq> None"
  shows "\<exists>srv c. start_process E S index landing statfs b fs = Inr (srv, c)"
proof -
  note v = load_Inr(1) [OF assms(1)]
  note a = validate_auth_None [OF validate_None(1) [OF v]] and s = validate_storage_None [OF validate_None(2) [OF v]]
  let ?seed = "\<lparr>sd_username = ac_username (cf_auth cfg), sd_password = ac_password (cf_auth cfg)\<rparr>"
  have "\<exists>b1. migrate E ?seed b2 = (Inr (), b1)" if "bt_image b2 = bt_image b" for b2
    using assms(2,3,5) that a(3,4) by (intro migrate_openable) auto
  then obtain b1 where b1: "open_database E (cf_database_path cfg) ?seed b = (Inr (), b1)"
    using open_database_calm [OF assms(3,4), of b ?seed "cf_database_path cfg"] by blast
  obtain ms w where "new_mounts E (sc_mounts (cf_storage cfg)) (sc_max_bytes (cf_storage cfg))
      (sc_allowed_mimes (cf_storage cfg)) (opened_world b1 fs) = (Inr ms, w)"
    using new_mounts_loop_calm [OF assms(4) s(1,4,5), of "[]"] s(2) by (fastforce simp: new_mounts_def)
  with b1 loaded_complete [OF v] loaded_tokens [OF v] show ?thesis
    by (simp add: start_process_def new_router_def assms(1))
qed

lemma start_cases:
  assumes "load S = Inr cfg" "start_process E S index landing statfs b fs = Inr (srv, c)"
  obtains b1 w ms where
    "open_database E (cf_database_path cfg) \<lparr>sd_username = ac_username (cf_auth cfg), sd_password = ac_password (cf_auth cfg)\<rparr> b = (Inr (), b1)"
    "new_mounts E (sc_mounts (cf_storage cfg)) (sc_max_bytes (cf_storage cfg)) (sc_allowed_mimes (cf_storage cfg)) (opened_world b1 fs) = (Inr ms, w)"
    "fh_mounts (sv_files srv) = ms" "sv_origins srv = new_cors (cf_allowed_origins cfg)" "cn_world c = prune E w"
    "sv_api_base srv = uc_api_base (cf_ui cfg)" "sv_remotes srv = uc_remote_servers (cf_ui cfg)"
    "c = first_conn cfg (prune E w)"
proof -
  note v = load_Inr(1) [OF assms(1)]
  from assms loaded_complete [OF v] loaded_tokens [OF v] that show ?thesis
    by (auto simp: start_process_def new_router_def server_of_def first_conn_def split: sum.splits prod.splits)
qed

lemma open_database_image:
  assumes "open_database E path seed b = (Inr (), b1)"
  obtains b2 where "migrate E seed b2 = (Inr (), b1)" "bt_image b2 = bt_image b"
  using assms
  by (auto simp: open_database_def bindE_eq_Inr wrapB_Inr boot_os_def boot_sql_Inr no_change_def ret_def
      split: if_splits option.splits)

lemma prune_steps: "(data_step E m ms)\<^sup>*\<^sup>* w (prune E w)"
proof -
  have s: "(data_step E m ms)\<^sup>*\<^sup>* w (snd (prune_sessions E now (snd (now_io E w))))"
    "(data_step E m ms)\<^sup>*\<^sup>* w (snd (prune_audit E now (snd (now_io E w))))" for now w
  proof -
    have c: "data_step E m ms w (snd (now_io E w))" by (simp add: data_step_def now_io_def)
    have "data_step E m ms (snd (now_io E w)) (snd (prune_sessions E now (snd (now_io E w))))"
      "data_step E m ms (snd (now_io E w)) (snd (prune_audit E now (snd (now_io E w))))"
      by (auto simp: data_step_def intro: sys_auth sys_file step_prune step_prune_audit)
    with c show "(data_step E m ms)\<^sup>*\<^sup>* w (snd (prune_sessions E now (snd (now_io E w))))"
      "(data_step E m ms)\<^sup>*\<^sup>* w (snd (prune_audit E now (snd (now_io E w))))"
      by (meson converse_rtranclp_into_rtranclp r_into_rtranclp)+
  qed
  have p: "(data_step E m ms)\<^sup>*\<^sup>* w (snd (bindE (now_io E) (prune_sessions E) w))"
    "(data_step E m ms)\<^sup>*\<^sup>* w (snd (bindE (now_io E) (prune_audit E) w))" for w
    using s [of w] by (simp_all add: bindE_def now_io_def)
  show ?thesis
    unfolding prune_def using rtranclp_trans [OF p(1) p(2)] by (simp add: bindE_def ignoreE_def)
qed

section \<open>The data across a start\<close>

text \<open>
  What identifies the place of an object: the names and directories of the disks, and the host
  with its working directory and its hash functions.
\<close>

definition places :: "mounts \<Rightarrow> (string \<times> string) list" where
  "places ms = map (\<lambda>m. (m_id m, l_root (m_store m))) (order ms)"

definition same_host :: "env \<Rightarrow> env \<Rightarrow> bool" where
  "same_host E E1 \<longleftrightarrow> x_cwd E1 = x_cwd E \<and> x_xxhash E1 = x_xxhash E \<and> x_bcrypt_hash E1 = x_bcrypt_hash E
     \<and> x_bcrypt_check E1 = x_bcrypt_check E"

text \<open>A clock within the years that time stamps can express.\<close>

definition clock_ok :: "env \<Rightarrow> bool" where
  "clock_ok E \<longleftrightarrow> (\<forall>n. in_range (x_clock E n))"

lemma stored_same_places:
  assumes "stored E ms fs f" "mounts_ok ms" "mounts_ok ms1" "places ms1 = places ms" "same_host E E1"
  shows "stored E1 ms1 fs f"
proof -
  have "\<exists>m. by_id ms (f_mount f) = Some m \<and> l_root (m_store m) = l_root (m_store m1)" if "by_id ms1 (f_mount f) = Some m1" for m1
  proof -
    from that have "m1 \<in> set (order ms1)" "m_id m1 = f_mount f" by (simp_all add: by_id_order [OF assms(3)])
    then have "(f_mount f, l_root (m_store m1)) \<in> set (places ms)"
      unfolding assms(4) [symmetric] by (force simp: places_def)
    then show ?thesis by (auto simp: places_def by_id_order [OF assms(2)])
  qed
  moreover have "safe_path E1 s k = safe_path E t k" if "l_root s = l_root t" for s t k
  proof -
    have "x_cwd E1 = x_cwd E" using assms(5) by (simp add: same_host_def)
    then show ?thesis by (simp only: safe_path_def that)
  qed
  moreover have "checksum_of E1 b = checksum_of E b" for b using assms(5) by (simp add: checksum_of_def same_host_def)
  ultimately show ?thesis using assms(1) unfolding stored_def by metis
qed

lemma loaded_disks:
  assumes "load S = Inr cfg" "start_process E S index landing statfs b fs = Inr (srv, c)"
  shows "mounts_ok (fh_mounts (sv_files srv))"
    "places (fh_mounts (sv_files srv)) = map (\<lambda>x. (ms_id x, ms_root x)) (sc_mounts (cf_storage cfg))"
    "sc_max_bytes (cf_storage cfg) < max_int64 \<Longrightarrow> disks_ok (fh_mounts (sv_files srv))"
proof -
  obtain b1 w ms where n: "new_mounts E (sc_mounts (cf_storage cfg)) (sc_max_bytes (cf_storage cfg)) (sc_allowed_mimes (cf_storage cfg))
      (opened_world b1 fs) = (Inr ms, w)" and ms: "fh_mounts (sv_files srv) = ms"
    by (rule start_cases [OF assms])
  note f = new_mounts_Inr [OF n]
  have p: "places ms = map (\<lambda>(i, _, r, _). (i, r)) (map (\<lambda>m. (m_id m, m_name m, l_root (m_store m), l_max_bytes (m_store m))) (order ms))"
    by (simp add: places_def comp_def)
  show m: "mounts_ok (fh_mounts (sv_files srv))" and pl: "places (fh_mounts (sv_files srv)) = map (\<lambda>x. (ms_id x, ms_root x)) (sc_mounts (cf_storage cfg))"
    unfolding ms p f(2) by (rule f(1), simp add: comp_def)
  have "l_max_bytes (m_store m) = sc_max_bytes (cf_storage cfg)" if "m \<in> set (order ms)" for m
  proof -
    from that have "(m_id m, m_name m, l_root (m_store m), l_max_bytes (m_store m))
        \<in> set (map (\<lambda>m. (m_id m, m_name m, l_root (m_store m), l_max_bytes (m_store m))) (order ms))" by simp
    then show ?thesis unfolding f(2) by auto
  qed
  moreover have "by_id ms [] = None"
  proof (rule ccontr)
    assume "by_id ms [] \<noteq> None"
    then obtain m where "m \<in> set (order ms)" "m_id m = []" using by_id_order [OF f(1)] by auto
    then have "[] \<in> fst ` set (places ms)" by (force simp: places_def)
    then have "\<exists>x \<in> set (sc_mounts (cf_storage cfg)). ms_id x = []" using pl by (auto simp: ms) metis
    moreover have "\<forall>x \<in> set (sc_mounts (cf_storage cfg)). ms_id x \<noteq> []"
      using validate_storage_None(4) [OF validate_None(2) [OF load_Inr(1) [OF assms(1)]]] valid_mount_id_chars
      by (auto simp: mount_spec_ok_def)
    ultimately show False by blast
  qed
  ultimately show "sc_max_bytes (cf_storage cfg) < max_int64 \<Longrightarrow> disks_ok (fh_mounts (sv_files srv))"
    using m validate_storage_None(1) [OF validate_None(2) [OF load_Inr(1) [OF assms(1)]]]
    by (auto simp: disks_ok_def ms)
qed

text \<open>A file whose rows have their disks already, or that has no rows yet.\<close>

definition settled_rows :: "image \<Rightarrow> bool" where
  "settled_rows im \<longleftrightarrow> im_folder_mounts im \<and> im_file_mounts im \<and> \<not> is_legacy im
     \<or> rows_of (im_folders im) = [] \<and> rows_of (im_files im) = []"

lemma start_sound:
  assumes "load S = Inr cfg" "start_process E S index landing statfs b fs = Inr (srv, c)" "sc_max_bytes (cf_storage cfg) < max_int64"
    "env_ok E" "image_ok (bt_image b)" "settled_rows (bt_image b)"
    "\<And>f. f \<in> set (rows_of (im_files (bt_image b))) \<Longrightarrow> stored E (fh_mounts (sv_files srv)) fs f"
    "forest [] (rows_of (im_folders (bt_image b)))" "files_placed (rows_of (im_folders (bt_image b))) (rows_of (im_files (bt_image b)))"
  shows "objects_ok E (fh_mounts (sv_files srv)) (cn_world c) \<and> layout_ok (w_db (cn_world c))"
proof -
  let ?ms = "fh_mounts (sv_files srv)" and ?im = "bt_image b"
  obtain b1 w where o: "open_database E (cf_database_path cfg)
      \<lparr>sd_username = ac_username (cf_auth cfg), sd_password = ac_password (cf_auth cfg)\<rparr> b = (Inr (), b1)"
    and n: "new_mounts E (sc_mounts (cf_storage cfg)) (sc_max_bytes (cf_storage cfg)) (sc_allowed_mimes (cf_storage cfg)) (opened_world b1 fs) = (Inr ?ms, w)"
    and c: "cn_world c = prune E w"
    using start_cases [OF assms(1,2)] by metis
  obtain b2 where m: "migrate E \<lparr>sd_username = ac_username (cf_auth cfg), sd_password = ac_password (cf_auth cfg)\<rparr> b2 = (Inr (), b1)"
    "bt_image b2 = ?im" by (rule open_database_image [OF o])
  obtain us v where im: "bt_image b1 = (upgraded ?im)\<lparr>im_users := Users us, im_version := v\<rparr>"
    "first_violated root_constraint (folders (database_of (bt_image b1))) = None"
    and us: "if users (database_of ?im) \<noteq> [] then us = users (database_of ?im) else \<exists>u. us = [u]"
    by (rule migrate_image [OF m(1), unfolded m(2)]) (auto split: if_splits)
  have "first_violated (t_unique user_table) us = None"
    using us assms(5) seeded_ok by (auto simp: image_ok_def split: if_splits)
  from upgraded_ok [OF assms(5) im(1,2) this] have db: "db_ok (database_of (bt_image b1))" .
  have w: "w_db w = database_of (bt_image b1)" "w_fs w = fs" using new_mounts_Inr(4,5) [OF n] by (simp_all add: opened_world_def)
  have rows: "folders (database_of (bt_image b1)) = rows_of (im_folders ?im)" "files (database_of (bt_image b1)) = rows_of (im_files ?im)"
    using assms(6) database_of_upgraded(4,5) [OF im(1)] by (auto simp: settled_rows_def database_of_def)
  have "objects_ok E ?ms w" "layout_ok (w_db w)"
    using db assms(7-9) by (simp_all add: objects_ok_def rows_stored_def layout_ok_def w rows)
  with data_steps_objects [OF prune_steps assms(4) loaded_disks(3) [OF assms(1-3)]] data_steps_layout [OF prune_steps] c
  show ?thesis by metis
qed

section \<open>A life\<close>

text \<open>A file that does not exist yet, and a file as a running server leaves it, whatever its version number.\<close>

definition new_file :: image where
  "new_file = \<lparr>im_users = No_users, im_sessions = None, im_folders = None, im_folder_mounts = False, im_files = None,
     im_file_mounts = False, im_audit = None, im_root_index = False, im_version = 0\<rparr>"

definition left_by :: "database \<Rightarrow> int \<Rightarrow> image" where
  "left_by db v = \<lparr>im_users = Users (users db), im_sessions = Some (sessions db), im_folders = Some (folders db), im_folder_mounts = True,
     im_files = Some (files db), im_file_mounts = True, im_audit = Some (audit_events db), im_root_index = True, im_version = v\<rparr>"

inductive deployed ::
  "settings \<Rightarrow> string \<Rightarrow> string \<Rightarrow> (string \<Rightarrow> fs_stat option) \<Rightarrow> env \<Rightarrow> server \<Rightarrow> conn \<Rightarrow> bool" for S index landing statfs where
  first_start: "env_ok E \<Longrightarrow> clock_ok E \<Longrightarrow> bt_image b = new_file \<Longrightarrow> start_process E S index landing statfs b fs = Inr (srv, c) \<Longrightarrow>
    deployed S index landing statfs E srv c"
| served_request: "deployed S index landing statfs E srv c \<Longrightarrow> deployed S index landing statfs E srv (handle_request E srv r c)"
| restart: "deployed S index landing statfs E srv c \<Longrightarrow> env_ok E1 \<Longrightarrow> clock_ok E1 \<Longrightarrow> same_host E E1 \<Longrightarrow>
    bt_image b = left_by (w_db (cn_world c)) v \<Longrightarrow>
    start_process E1 S index landing statfs b (w_fs (cn_world c)) = Inr (srv1, c1) \<Longrightarrow>
    deployed S index landing statfs E1 srv1 c1"

inductive_cases deployed_cases: "deployed S index landing statfs E srv c"

lemma left_by_ok:
  assumes "db_ok db"
  shows "image_ok (left_by db v)"
proof -
  have db: "database_of (left_by db v) = db" "rows_of (im_sessions (left_by db v)) = sessions db"
    "rows_of (im_folders (left_by db v)) = folders db" "rows_of (im_files (left_by db v)) = files db"
    "rows_of (im_audit (left_by db v)) = audit_events db"
    by (simp_all add: left_by_def rows_of_def database_of_def)
  have t: "t_rows user_table db = users db" "t_rows session_table db = sessions db" "t_rows folder_table db = folders db"
    "t_rows file_table db = files db" "t_rows audit_table db = audit_events db"
    "t_refs folder_table db = parents_exist (folders db)" "t_refs file_table db = folders_exist (folders db) (files db)"
    by (simp_all add: table_defs)
  have "first_violated (t_unique folder_table) (folders db) = None"
    using assms by (simp add: db_ok_def table_ok_def t)
  then have "first_violated folder_copy_constraints (folders db) = None"
    unfolding first_violated_None folder_copy_constraints_def using in_set_takeD by fast
  with assms show ?thesis by (simp add: image_ok_def db db_ok_def table_ok_def t)
qed

lemma left_by_rows: "rows_of (im_folders (left_by db v)) = folders db" "rows_of (im_files (left_by db v)) = files db"
    "settled_rows (left_by db v)"
  by (simp_all add: left_by_def rows_of_def settled_rows_def is_legacy_def)

lemma new_file_ok: "image_ok new_file" "rows_of (im_folders new_file) = []" "rows_of (im_files new_file) = []" "settled_rows new_file"
  by (simp_all add: new_file_def image_ok_def rows_of_def database_of_def first_violated_def folder_copy_constraints_def
      table_defs parents_exist_def folders_exist_def settled_rows_def)

lemma new_file_openable: "openable new_file"
  using new_file_ok by (simp add: openable_def root_names_def) (simp add: new_file_def is_legacy_def)

lemma deployed_sound:
  assumes "load S = Inr cfg" "sc_max_bytes (cf_storage cfg) < max_int64" "deployed S index landing statfs E srv c"
  shows "env_ok E \<and> disks_ok (fh_mounts (sv_files srv)) \<and>
    places (fh_mounts (sv_files srv)) = map (\<lambda>x. (ms_id x, ms_root x)) (sc_mounts (cf_storage cfg)) \<and>
    objects_ok E (fh_mounts (sv_files srv)) (cn_world c) \<and> layout_ok (w_db (cn_world c))"
  using assms(3)
proof induction
  case (first_start E b fs srv c)
  with start_sound [OF assms(1) first_start(4) assms(2), unfolded first_start(3) new_file_ok] loaded_disks [OF assms(1) first_start(4)]
  show ?case by (simp add: new_file_ok files_placed_def assms(2))
next
  case (served_request E srv c r)
  then show ?case using handle_requests_sound [of E srv c "[r]"] by simp
next
  case (restart E srv c E1 b v srv1 c1)
  let ?db = "w_db (cn_world c)"
  note d = loaded_disks [OF assms(1) restart(6)]
  have "db_ok ?db" "forest [] (folders ?db)" "files_placed (folders ?db) (files ?db)"
    using restart.IH by (simp_all add: layout_ok_def)
  moreover have "stored E1 (fh_mounts (sv_files srv1)) (w_fs (cn_world c)) f" if "f \<in> set (files ?db)" for f
  proof (rule stored_same_places)
    show "stored E (fh_mounts (sv_files srv)) (w_fs (cn_world c)) f"
      using restart.IH that by (simp add: objects_ok_def rows_stored_def)
    show "places (fh_mounts (sv_files srv1)) = places (fh_mounts (sv_files srv))"
      using restart.IH d(2) by simp
    show "mounts_ok (fh_mounts (sv_files srv))" using restart.IH by (simp add: disks_ok_def)
  qed (rule d(1), rule restart.hyps(4))
  ultimately have "objects_ok E1 (fh_mounts (sv_files srv1)) (cn_world c1) \<and> layout_ok (w_db (cn_world c1))"
    by (intro start_sound [OF assms(1) restart(6) assms(2) restart(2), unfolded restart(5) left_by_rows])
      (simp_all add: left_by_ok left_by_rows(3))
  with d restart.hyps(2) assms(2) show ?case by simp
qed

end
