(* ===== verification/Account.thy ===== *)
theory Account
  imports Deployment
begin

text \<open>
  The account of the server: no request writes the table of users, so the account that the first
  start took from the configuration is the one that logs in, for as long as the file lives.
\<close>

section \<open>No operation writes accounts\<close>

definition accounts :: "user_row list \<Rightarrow> database \<Rightarrow> bool" where
  "accounts us db \<longleftrightarrow> users db = us"

lemma other_tables_accounts:
  "keeps (preserving (accounts us)) (sql_io E (insert_into session_table s))"
  "keeps (preserving (accounts us)) (sql_io E (update_where session_table ps gs))"
  "keeps (preserving (accounts us)) (sql_io E (delete_where session_table ps))"
  "keeps (preserving (accounts us)) (sql_io E (insert_into folder_table d))"
  "keeps (preserving (accounts us)) (sql_io E (update_where folder_table pd gd))"
  "keeps (preserving (accounts us)) (sql_io E (delete_folders pd))"
  "keeps (preserving (accounts us)) (sql_io E (insert_into file_table f))"
  "keeps (preserving (accounts us)) (sql_io E (update_where file_table pf gf))"
  "keeps (preserving (accounts us)) (sql_io E (delete_where file_table pf))"
  "keeps (preserving (accounts us)) (sql_io E (insert_into audit_table a))"
  "keeps (preserving (accounts us)) (sql_io E (delete_where audit_table pa))"
  by (auto intro!: sql_io_preserving simp: accounts_def insert_into_Inr update_where_Inr delete_where_def delete_folders_def table_defs Let_def)

lemma repository_accounts:
  "keeps (preserving (accounts us)) (create_session E s)" "keeps (preserving (accounts us)) (rotate_session E i s t)"
  "keeps (preserving (accounts us)) (revoke_session E i t)" "keeps (preserving (accounts us)) (prune_sessions E t)"
  "keeps (preserving (accounts us)) (create_folder E d)" "keeps (preserving (accounts us)) (create_file E f)"
  "keeps (preserving (accounts us)) (rename_folder E i n t)" "keeps (preserving (accounts us)) (delete_folder E i)"
  "keeps (preserving (accounts us)) (soft_delete_file E i t)" "keeps (preserving (accounts us)) (restore_file E i)"
  "keeps (preserving (accounts us)) (delete_file_permanently E i)" "keeps (preserving (accounts us)) (rename_file E i n t)"
  "keeps (preserving (accounts us)) (move_file E i n t)" "keeps (preserving (accounts us)) (prune_audit E t)"
  "keeps (preserving (accounts us)) (audit E ev)"
  unfolding create_session_def rotate_session_def revoke_session_def prune_sessions_def create_folder_def create_file_def
    rename_folder_def delete_folder_def soft_delete_file_def restore_file_def delete_file_permanently_def rename_file_def
    move_file_def prune_audit_def audit_def check_mount_def
  by (auto intro!: keeps_intro keeps_atomically_db other_tables_accounts split: prod.split option.split)

lemma record_audit_accounts: "keeps (preserving (accounts us)) (record_audit E a i)"
  unfolding record_audit_def by (intro keeps_intro repository_accounts) simp_all

lemma auth_service_accounts:
  "keeps (preserving (accounts us)) (login E m u p)" "keeps (preserving (accounts us)) (refresh E m tok)"
  "keeps (preserving (accounts us)) (me E i)" "keeps (preserving (accounts us)) (logout E i)"
  unfolding login_def refresh_def me_def logout_def issue_session_def Let_def
  by (auto intro!: keeps_intro repository_accounts split: sum.split prod.split
      intro: same_db_preserving keeps_intro)

lemma file_service_accounts:
  "keeps (preserving (accounts us)) (svc_create_folder E ms m p n)" "keeps (preserving (accounts us)) (upload E ms m d n src)"
  "keeps (preserving (accounts us)) (delete_file E i)" "keeps (preserving (accounts us)) (svc_rename_folder E i n)"
  "keeps (preserving (accounts us)) (svc_restore_file E i)" "keeps (preserving (accounts us)) (svc_rename_file E i n)"
  "keeps (preserving (accounts us)) (svc_move_file E i d)" "keeps (preserving (accounts us)) (copy_file E ms i d)"
  "keeps (preserving (accounts us)) (permanently_delete E ms i)"
proof -
  have r: "keeps (preserving (accounts us)) (register_upload E m d st now)" for m d st now
    unfolding register_upload_def Let_def
    by (intro keeps_intro repository_accounts same_db_preserving [OF storage_keeps_db(3)]) simp_all
  show "keeps (preserving (accounts us)) (svc_create_folder E ms m p n)" "keeps (preserving (accounts us)) (upload E ms m d n src)"
    "keeps (preserving (accounts us)) (delete_file E i)" "keeps (preserving (accounts us)) (svc_rename_folder E i n)"
    "keeps (preserving (accounts us)) (svc_restore_file E i)" "keeps (preserving (accounts us)) (svc_rename_file E i n)"
    "keeps (preserving (accounts us)) (svc_move_file E i d)" "keeps (preserving (accounts us)) (copy_file E ms i d)"
    "keeps (preserving (accounts us)) (permanently_delete E ms i)"
    unfolding svc_create_folder_def upload_def delete_file_def svc_rename_folder_def svc_restore_file_def
      svc_rename_file_def svc_move_file_def copy_file_def permanently_delete_def Let_def
    by (auto intro!: keeps_intro repository_accounts record_audit_accounts r same_db_reads [THEN same_db_preserving]
        split: sum.split)
qed

lemma data_step_accounts:
  assumes "data_step E m ms w w1"
  shows "users (w_db w1) = users (w_db w)"
proof -
  have start: "accounts (users (w_db w)) (w_db w)" by (simp add: accounts_def)
  have "accounts (users (w_db w)) (w_db w1)" if "file_step E ms w w1"
    using that by cases (use start in \<open>auto intro: preserving_snd file_service_accounts repository_accounts record_audit_accounts\<close>)
  moreover have "accounts (users (w_db w)) (w_db w1)" if "auth_step E m w w1"
    using that by cases (use start in \<open>auto intro: preserving_snd auth_service_accounts repository_accounts\<close>)
  ultimately show ?thesis using assms by (auto simp: data_step_def accounts_def elim: sys_step.cases)
qed

lemma data_steps_accounts: "(data_step E m ms)\<^sup>*\<^sup>* w w1 \<Longrightarrow> users (w_db w1) = users (w_db w)"
  by (induction rule: rtranclp_induct) (auto dest: data_step_accounts)

section \<open>The account of a deployment\<close>

lemma start_users:
  assumes "load S = Inr cfg" "start_process E S index landing statfs b fs = Inr (srv, c)"
  shows "if users (database_of (bt_image b)) \<noteq> [] then users (w_db (cn_world c)) = users (database_of (bt_image b))
    else \<exists>hash n. x_bcrypt_hash E (ac_password (cf_auth cfg)) bcrypt_cost = Some hash \<and>
      users (w_db (cn_world c)) = [\<lparr>u_id = single_user_id, u_username = ac_username (cf_auth cfg), u_password_hash = hash,
        u_created_at = stamp (x_clock E n)\<rparr>]"
proof -
  let ?seed = "\<lparr>sd_username = ac_username (cf_auth cfg), sd_password = ac_password (cf_auth cfg)\<rparr>"
  obtain b1 w ms where o: "open_database E (cf_database_path cfg) ?seed b = (Inr (), b1)"
    and n: "new_mounts E (sc_mounts (cf_storage cfg)) (sc_max_bytes (cf_storage cfg)) (sc_allowed_mimes (cf_storage cfg)) (opened_world b1 fs) = (Inr ms, w)"
    and c: "cn_world c = prune E w"
    using start_cases [OF assms] by metis
  obtain b2 where m: "migrate E ?seed b2 = (Inr (), b1)" "bt_image b2 = bt_image b" by (rule open_database_image [OF o])
  have "users (w_db (cn_world c)) = users (w_db w)"
    unfolding c by (rule data_steps_accounts [OF prune_steps [where m = "ah_tokens (sv_auth srv)" and ms = ms]])
  also have "\<dots> = users (database_of (bt_image b1))" using new_mounts_Inr(4) [OF n] by (simp add: opened_world_def)
  finally have "users (w_db (cn_world c)) = users (database_of (bt_image b1))" .
  moreover obtain us v where "bt_image b1 = (upgraded (bt_image b))\<lparr>im_users := Users us, im_version := v\<rparr>"
    "if users (database_of (bt_image b)) \<noteq> [] then us = users (database_of (bt_image b))
     else \<exists>hash n. x_bcrypt_hash E (sd_password ?seed) bcrypt_cost = Some hash \<and>
       us = [\<lparr>u_id = single_user_id, u_username = sd_username ?seed, u_password_hash = hash, u_created_at = stamp (x_clock E n)\<rparr>]"
    by (rule migrate_image [OF m(1), unfolded m(2)]) blast
  ultimately show ?thesis by (cases "users (database_of (bt_image b)) = []") (auto simp: database_of_upgraded)
qed

definition configured_account :: "env \<Rightarrow> config \<Rightarrow> user_row \<Rightarrow> bool" where
  "configured_account E cfg u \<longleftrightarrow> u_id u = single_user_id \<and> u_username u = ac_username (cf_auth cfg) \<and>
     x_bcrypt_hash E (ac_password (cf_auth cfg)) bcrypt_cost = Some (u_password_hash u) \<and>
     (\<exists>t. in_range t \<and> u_created_at u = stamp t)"

lemma deployed_account:
  assumes "load S = Inr cfg" "deployed S index landing statfs E srv c"
  shows "\<exists>u. users (w_db (cn_world c)) = [u] \<and> configured_account E cfg u"
  using assms(2)
proof induction
  case (first_start E b fs srv c)
  have "users (database_of (bt_image b)) = []" by (simp add: first_start(3) new_file_def database_of_def)
  with start_users [OF assms(1) first_start(4)] first_start(2) show ?case
    by (fastforce simp: configured_account_def clock_ok_def)
next
  case (served_request E srv c r)
  then show ?case using data_steps_accounts [OF handle_request_steps [OF refl refl, of E srv c r]] by simp
next
  case (restart E srv c E1 b v srv1 c1)
  then obtain u where u: "users (w_db (cn_world c)) = [u]" "configured_account E cfg u" by blast
  have "users (database_of (bt_image b)) = [u]" by (simp add: restart.hyps(5) left_by_def database_of_def u(1))
  with start_users [OF assms(1) restart.hyps(6)] have "users (w_db (cn_world c1)) = [u]" by simp
  with u(2) restart.hyps(4) show ?case by (auto simp: configured_account_def same_host_def)
qed

section \<open>Logging in\<close>

text \<open>Without failing statements a login with the name of the only account depends on the password alone.\<close>

lemma login_decision:
  assumes "users (w_db w) = [u]" "in_range t" "u_created_at u = stamp t" "\<And>n. x_sql_fault E n = None" "trim_space name \<noteq> []"
  shows "u_username u \<noteq> trim_space name \<or> \<not> x_bcrypt_check E (u_password_hash u) password \<Longrightarrow>
      fst (login E m name password w) = Inl ErrInvalidCredentials"
    "u_username u = trim_space name \<Longrightarrow> x_bcrypt_check E (u_password_hash u) password \<Longrightarrow>
      login E m name password w = bindE (issue_session E m) (\<lambda>tk. ret (\<lparr>us_id = u_id u, us_username = u_username u,
        us_password_hash = u_password_hash u, us_created_at = t\<rparr>, tk)) (w\<lparr>w_sql := Suc (w_sql w)\<rparr>)"
proof -
  let ?w = "w\<lparr>w_sql := Suc (w_sql w)\<rparr>"
  have q: "row_with user_table u_username (trim_space name) (w_db w) = (if u_username u = trim_space name then Some u else None)"
    by (simp add: row_with_def user_table_def assms(1))
  have f: "find_user_by_username E (trim_space name) w = (if u_username u = trim_space name
      then (Inr \<lparr>us_id = u_id u, us_username = u_username u, us_password_hash = u_password_hash u, us_created_at = t\<rparr>, ?w)
      else (Inl ErrNotFound, ?w))"
    by (simp add: find_user_by_username_def bindE_def wrapE_def handleE_def sql_query_def sql_io_def assms(4) q scan_user_def
        parse_io_def assms(3) parse_time_stamp [OF assms(2)])
  show "u_username u \<noteq> trim_space name \<or> \<not> x_bcrypt_check E (u_password_hash u) password \<Longrightarrow>
      fst (login E m name password w) = Inl ErrInvalidCredentials"
    using assms(5) by (auto simp: login_def f handleE_def check_password_def)
  show "u_username u = trim_space name \<Longrightarrow> x_bcrypt_check E (u_password_hash u) password \<Longrightarrow>
      login E m name password w = bindE (issue_session E m) (\<lambda>tk. ret (\<lparr>us_id = u_id u, us_username = u_username u,
        us_password_hash = u_password_hash u, us_created_at = t\<rparr>, tk)) ?w"
    using assms(5) by (simp add: login_def f handleE_def check_password_def)
qed

text \<open>A trimmed text neither starts nor ends with an ASCII white space.\<close>

lemma trim_start_hd: "trim_start p q r s \<noteq> [] \<Longrightarrow> \<not> p (hd (trim_start p q r s))"
  by (induction p q r s rule: trim_start.induct) auto

lemma trim_space_ends:
  assumes "trim_space s \<noteq> []"
  shows "\<not> space1 (hd (trim_space s))" "\<not> space1 (last (trim_space s))"
proof -
  let ?l = "trim_left_space s" and ?r = "trim_start space1 (\<lambda>b a. space2 a b) (\<lambda>c b a. space3 a b c) (rev (trim_left_space s))"
  have t: "trim_space s = rev ?r" by (simp add: trim_space_def trim_right_space_def)
  have "suffix ?r (rev ?l)" by (rule trim_start_suffix)
  then obtain zs where "rev ?l = zs @ ?r" by (auto simp: suffix_def)
  then have "?l = rev ?r @ rev zs" by (metis rev_append rev_rev_ident)
  moreover have "rev ?r \<noteq> []" using assms t by metis
  ultimately have "hd ?l = hd (trim_space s)" "?l \<noteq> []" unfolding t by (metis hd_append2, metis append_is_Nil_conv)
  then show "\<not> space1 (hd (trim_space s))"
    using trim_start_hd [of space1 space2 space3 s] by (simp add: trim_left_space_def)
  show "\<not> space1 (last (trim_space s))"
    using trim_start_hd [of space1 _ _ "rev ?l"] assms by (simp add: t last_rev)
qed

lemma trimmed_ascii:
  assumes "ascii (trim_space s)"
  shows "trim_space (trim_space s) = trim_space s"
proof (cases "trim_space s = []")
  case False
  note e = trim_space_ends [OF False]
  have "dropWhile space1 (trim_space s) = trim_space s"
    using e(1) False by (cases "trim_space s") auto
  moreover have "dropWhile space1 (rev (trim_space s)) = rev (trim_space s)"
    using e(2) False by (cases "trim_space s" rule: rev_cases) auto
  ultimately show ?thesis by (simp add: trim_space_ascii [OF assms])
qed simp

end
