(* ===== verification/Config_Props.thy ===== *)
theory Config_Props
  imports Account Http_Cors File_Examples
begin

text \<open>
  The properties of the configuration and of the start of the server, each with its witness.
\<close>

section \<open>Reading the disks\<close>

text \<open>
  C38: disks are read as they are written. A list of disks with admissible names, written as
  \<^verbatim>\<open>Name=/path;Name=/path\<close>, is read back in order with those names and paths; the only change is
  that the first disk gets the identifier \<open>default\<close> when no disk has that name.
\<close>

theorem mounts_roundtrip:
  assumes "ds \<noteq> []" "\<forall>d \<in> set ds. writable_disk d"
  shows "parse_mounts (mounts_text ds) root =
    Inr (if ''default'' \<in> fst ` set ds then map spec_of ds
         else (spec_of (hd ds))\<lparr>ms_id := ''default''\<rparr> # map spec_of (tl ds))"
proof -
  have "list_ex (\<lambda>s. ms_id s = ''default'') (map spec_of ds) \<longleftrightarrow> ''default'' \<in> fst ` set ds"
    by (force simp: list_ex_iff spec_of_def split: prod.split)
  with parse_mounts_text [OF assms, of root] assms(1) show ?thesis
    by (cases ds) (auto simp: mark_default_def)
qed

theorem mounts_roundtrip_witness:
  "parse_mounts (mounts_text [(''Main'', ''/a''), (''Big'', ''/b=1'')]) [] =
     Inr [\<lparr>ms_id = ''default'', ms_name = ''Main'', ms_root = ''/a''\<rparr>, \<lparr>ms_id = ''Big'', ms_name = ''Big'', ms_root = ''/b=1''\<rparr>]"
proof -
  have "\<forall>d \<in> set [(''Main'', ''/a''), (''Big'', ''/b=1'')]. writable_disk d" by code_simp
  from mounts_roundtrip [OF _ this, of "[]"] show ?thesis by (simp add: spec_of_def)
qed

text \<open>
  Two disks of one name pass the checks. The first disk is renamed to \<open>default\<close> before the
  identifiers are compared, so a list that gives the same name to the first disk and to one other
  disk is accepted, and the two are shown under the same name.
\<close>

theorem duplicate_name_accepted:
  assumes "writable_disk (n, p)" "writable_disk (n, q)" "n \<noteq> ''default''"
  shows "\<exists>specs. parse_mounts (mounts_text [(n, p), (n, q)]) root = Inr specs \<and> validate_mounts [] specs = None \<and>
    map ms_name specs = [n, n] \<and> map ms_id specs = [''default'', n]"
proof -
  let ?specs = "[\<lparr>ms_id = ''default'', ms_name = n, ms_root = p\<rparr>, \<lparr>ms_id = n, ms_name = n, ms_root = q\<rparr>]"
  have "parse_mounts (mounts_text [(n, p), (n, q)]) root = Inr ?specs"
    using parse_mounts_text [of "[(n, p), (n, q)]" root] assms by (simp add: mark_default_def spec_of_def)
  moreover have "valid_mount_id ''default''" by code_simp
  moreover have "trim_space p = p \<and> trim_space q = q \<and> trim_space n = n"
    using assms valid_mount_id_chars [of n] by (auto simp: writable_disk_def intro: trim_space_plain_ends trim_space_plain)
  moreover have "n \<noteq> []" using assms(1) valid_mount_id_chars [of n] by (simp add: writable_disk_def)
  ultimately show ?thesis
    using assms by (intro exI [of _ ?specs]) (simp add: writable_disk_def)
qed

theorem duplicate_name_accepted_witness:
  "\<exists>specs. parse_mounts (mounts_text [(''A'', ''/x''), (''A'', ''/y'')]) [] = Inr specs \<and> validate_mounts [] specs = None \<and>
     map ms_name specs = [''A'', ''A'']"
proof -
  have "writable_disk (''A'', ''/x'')" "writable_disk (''A'', ''/y'')" by code_simp+
  from duplicate_name_accepted [OF this, of "[]"] show ?thesis by auto
qed

section \<open>A small deployment\<close>

definition plain_settings :: settings where
  "plain_settings = \<lparr>se_lookup = [''STORAGE_MOUNTS'' \<mapsto> ''A=/a;B=/b'', ''CORS_ALLOWED_ORIGINS'' \<mapsto> ''https://ui.example/'',
       ''N_DRIVE_USERNAME'' \<mapsto> '' admin''],
     se_duration = (\<lambda>v. None)\<rparr>"

definition still_env :: env where
  "still_env = calm_env\<lparr>x_clock := (\<lambda>n. 86400000000000)\<rparr>"

lemma still_env_ok: "env_ok still_env" "clock_ok still_env" "x_sql_fault still_env n = None" "x_os_fault still_env n = None"
    "x_bcrypt_hash still_env p k \<noteq> None"
  using calm_env_ok by (simp_all add: still_env_def env_ok_def clock_ok_def in_range_def calm_env_def)

lemma plain_loads: "\<exists>cfg. load plain_settings = Inr cfg \<and> sc_max_bytes (cf_storage cfg) = 5 * 2 ^ 30 \<and>
    ac_username (cf_auth cfg) = '' admin'' \<and> cf_allowed_origins cfg = [''https://ui.example'']
    \<and> map ms_id (sc_mounts (cf_storage cfg)) = [''default'', ''B'']"
proof -
  have "case load plain_settings of Inl e \<Rightarrow> False | Inr cfg \<Rightarrow> sc_max_bytes (cf_storage cfg) = 5 * 2 ^ 30 \<and>
    ac_username (cf_auth cfg) = '' admin'' \<and> cf_allowed_origins cfg = [''https://ui.example'']
    \<and> map ms_id (sc_mounts (cf_storage cfg)) = [''default'', ''B'']" by code_simp
  then show ?thesis by (auto split: sum.splits)
qed

lemma plain_starts: "\<exists>srv c. start_process still_env plain_settings index landing statfs (\<lparr>bt_image = new_file, bt_sql = 0, bt_os = 0, bt_clock = 0\<rparr>) fs = Inr (srv, c)"
proof -
  obtain cfg where "load plain_settings = Inr cfg" using plain_loads by blast
  then show ?thesis
    by (rule start_succeeds) (simp_all add: new_file_openable still_env_ok)
qed

lemma plain_deployed: "\<exists>srv c. deployed plain_settings index landing statfs still_env srv c"
  using plain_starts first_start [OF still_env_ok(1,2)] by (metis boot.select_convs(1))

definition page_request :: "string \<Rightarrow> request" where
  "page_request origin = \<lparr>rq_method = ''GET'', rq_segments = [''health''], rq_header = (\<lambda>k. if k = ''Origin'' then origin else []),
     rq_cookie = (\<lambda>k. None), rq_query = (\<lambda>k. []), rq_remote = ''192.0.2.1:4000'', rq_length = 0,
     rq_json = (\<lambda>n strict names. (\<lambda>k. [], False)), rq_multipart = (\<lambda>n. None), rq_path_id = [], rq_claims = None, rq_request_id = []\<rparr>"

section \<open>Starting\<close>

text \<open>
  C19: a configuration that loads can be served. If the settings pass every check, the database
  file is one the migration can open (sound, and with no two root folders of the same name and disk)
  and no call fails, the process starts, with exactly the configured disks in their order.
\<close>

theorem loaded_config_starts:
  assumes "load S = Inr cfg" "openable (bt_image b)" "\<And>n. x_sql_fault E n = None" "\<And>n. x_os_fault E n = None"
    "x_bcrypt_hash E (ac_password (cf_auth cfg)) bcrypt_cost \<noteq> None"
  shows "\<exists>srv c. start_process E S index landing statfs b fs = Inr (srv, c) \<and>
    map (\<lambda>m. (m_id m, l_root (m_store m))) (order (fh_mounts (sv_files srv))) =
      map (\<lambda>x. (ms_id x, ms_root x)) (sc_mounts (cf_storage cfg)) \<and>
    map m_id (order (fh_mounts (sv_files srv))) \<noteq> [] \<and> distinct (map m_id (order (fh_mounts (sv_files srv))))"
proof -
  from start_succeeds [OF assms] obtain srv c where st: "start_process E S index landing statfs b fs = Inr (srv, c)" by blast
  from loaded_disks(1,2) [OF assms(1) st] st show ?thesis by (auto simp: places_def mounts_ok_def)
qed

theorem loaded_config_starts_witness:
  "\<exists>srv c. start_process still_env plain_settings [] [] (\<lambda>r. None) \<lparr>bt_image = new_file, bt_sql = 0, bt_os = 0, bt_clock = 0\<rparr> Map.empty
     = Inr (srv, c) \<and> map m_id (order (fh_mounts (sv_files srv))) = [''default'', ''B'']"
proof -
  obtain cfg where cfg: "load plain_settings = Inr cfg" "map ms_id (sc_mounts (cf_storage cfg)) = [''default'', ''B'']"
    using plain_loads by auto
  have "openable (bt_image \<lparr>bt_image = new_file, bt_sql = 0, bt_os = 0, bt_clock = 0\<rparr>)" by (simp add: new_file_openable)
  from loaded_config_starts [OF cfg(1) this still_env_ok(3,4,5), of "[]" "[]" "\<lambda>r. None" Map.empty]
  obtain srv c where st: "start_process still_env plain_settings [] [] (\<lambda>r. None) \<lparr>bt_image = new_file, bt_sql = 0, bt_os = 0, bt_clock = 0\<rparr> Map.empty
     = Inr (srv, c)" and pl: "map (\<lambda>m. (m_id m, l_root (m_store m))) (order (fh_mounts (sv_files srv))) =
      map (\<lambda>x. (ms_id x, ms_root x)) (sc_mounts (cf_storage cfg))"
    by (elim exE conjE)
  from arg_cong [OF pl, of "map fst"] cfg(2) have "map m_id (order (fh_mounts (sv_files srv))) = [''default'', ''B'']"
    by (simp add: comp_def)
  with st show ?thesis by (intro exI conjI)
qed

text \<open>
  C4: the data stay sound for the life of a deployment. From an empty database file on, at
  every moment, after any requests and any restarts with the same settings, with whatever failures,
  every file row on a configured disk has its object with the size and checksum of the row, folders form a
  forest on their disks, files lie on the disk of their folder, and every constraint of the schema holds.
\<close>

theorem deployment_sound:
  assumes "load S = Inr cfg" "sc_max_bytes (cf_storage cfg) < max_int64" "deployed S index landing statfs E srv c"
  shows "objects_ok E (fh_mounts (sv_files srv)) (cn_world c) \<and> layout_ok (w_db (cn_world c))"
  using deployed_sound [OF assms] by blast

theorem deployment_sound_witness:
  "\<exists>srv c. deployed plain_settings [] [] (\<lambda>r. None) still_env srv c \<and> (\<forall>r. layout_ok (w_db (cn_world (handle_request still_env srv r c))))"
proof -
  obtain cfg where cfg: "load plain_settings = Inr cfg" "sc_max_bytes (cf_storage cfg) < max_int64"
    using plain_loads by (auto simp: max_int64_def)
  obtain srv c where d: "deployed plain_settings [] [] (\<lambda>r. None) still_env srv c" using plain_deployed by blast
  from deployment_sound [OF cfg served_request [OF d]] d show ?thesis by blast
qed

section \<open>The account\<close>

text \<open>
  C20: the account of the configuration is the account of the server. At every moment of a
  deployment the table has exactly one account, with the configured name and the hash of the configured
  password; without failing statements, a login with that name passes the check exactly when bcrypt
  accepts the password for that hash, and a login with any other name is refused.
\<close>

theorem configured_account_decides:
  assumes "load S = Inr cfg" "deployed S index landing statfs E srv c" "\<And>n. x_sql_fault E n = None"
  shows "\<exists>hash t. x_bcrypt_hash E (ac_password (cf_auth cfg)) bcrypt_cost = Some hash \<and>
    users (w_db (cn_world c)) = [\<lparr>u_id = single_user_id, u_username = ac_username (cf_auth cfg), u_password_hash = hash, u_created_at = stamp t\<rparr>] \<and>
    (\<forall>m name password. trim_space name \<noteq> [] \<longrightarrow>
      (if trim_space name = ac_username (cf_auth cfg) \<and> x_bcrypt_check E hash password
       then \<exists>w. w_db w = w_db (cn_world c) \<and> login E m name password (cn_world c) =
          bindE (issue_session E m) (\<lambda>tk. ret (\<lparr>us_id = single_user_id, us_username = ac_username (cf_auth cfg),
            us_password_hash = hash, us_created_at = t\<rparr>, tk)) w
       else fst (login E m name password (cn_world c)) = Inl ErrInvalidCredentials))"
proof -
  obtain u where u: "users (w_db (cn_world c)) = [u]" "configured_account E cfg u"
    using deployed_account [OF assms(1,2)] by blast
  then obtain t where t: "in_range t" "u_created_at u = stamp t" by (auto simp: configured_account_def)
  note a = u(2) [unfolded configured_account_def]
  let ?h = "u_password_hash u"
  have row: "u = \<lparr>u_id = single_user_id, u_username = ac_username (cf_auth cfg), u_password_hash = ?h, u_created_at = stamp t\<rparr>"
    using a t(2) by simp
  have dec: "if trim_space name = ac_username (cf_auth cfg) \<and> x_bcrypt_check E ?h password
       then \<exists>w. w_db w = w_db (cn_world c) \<and> login E m name password (cn_world c) =
          bindE (issue_session E m) (\<lambda>tk. ret (\<lparr>us_id = single_user_id, us_username = ac_username (cf_auth cfg),
            us_password_hash = ?h, us_created_at = t\<rparr>, tk)) w
       else fst (login E m name password (cn_world c)) = Inl ErrInvalidCredentials" if n: "trim_space name \<noteq> []" for m name password
  proof (cases "trim_space name = ac_username (cf_auth cfg) \<and> x_bcrypt_check E ?h password")
    case True
    have "u_username u = trim_space name" "x_bcrypt_check E ?h password" using True a by simp_all
    note l = login_decision(2) [OF u(1) t assms(3) n this]
    show ?thesis
      unfolding if_P [OF True]
      by (rule exI [of _ "(cn_world c)\<lparr>w_sql := Suc (w_sql (cn_world c))\<rparr>"]) (simp add: l a [THEN conjunct1] a [THEN conjunct2, THEN conjunct1])
  next
    case False
    with a have "u_username u \<noteq> trim_space name \<or> \<not> x_bcrypt_check E ?h password" by auto
    from login_decision(1) [OF u(1) t assms(3) n this] show ?thesis by (simp add: if_not_P [OF False])
  qed
  show ?thesis
    by (rule exI [of _ ?h], rule exI [of _ t], intro conjI allI impI dec) (use a u(1) row in simp_all)
qed

theorem configured_account_decides_witness:
  "\<exists>srv c. deployed plain_settings [] [] (\<lambda>r. None) still_env srv c \<and>
     (\<forall>m. fst (login still_env m ''admin'' ''7564'' (cn_world c)) = Inl ErrInvalidCredentials)"
proof -
  obtain cfg where cfg: "load plain_settings = Inr cfg" "ac_username (cf_auth cfg) = '' admin''" using plain_loads by blast
  obtain srv c where d: "deployed plain_settings [] [] (\<lambda>r. None) still_env srv c" using plain_deployed by blast
  have "trim_space ''admin'' = ''admin''" by code_simp
  with configured_account_decides [OF cfg(1) d still_env_ok(3)] d cfg(2) show ?thesis by fastforce
qed

text \<open>
  C11: a name with spaces locks its owner out. The configuration accepts a user name with white
  space at an end, and the account is created with it, but a login trims the name it is given: no
  login of such a deployment ever succeeds, whatever the name and the password. It is stated for ASCII names and for
  statements that do not fail.
\<close>

theorem padded_username_locked_out:
  assumes "load S = Inr cfg" "deployed S index landing statfs E srv c"
    "ascii (ac_username (cf_auth cfg))" "trim_space (ac_username (cf_auth cfg)) \<noteq> ac_username (cf_auth cfg)"
    and "\<And>n. x_sql_fault E n = None"
  shows "fst (login E m name password (cn_world c)) = Inl ErrInvalidCredentials"
proof (cases "trim_space name = []")
  case False
  obtain u t where u: "users (w_db (cn_world c)) = [u]" "u_username u = ac_username (cf_auth cfg)" "in_range t" "u_created_at u = stamp t"
    using deployed_account [OF assms(1,2)] by (auto simp: configured_account_def)
  have "trim_space name \<noteq> u_username u" using trimmed_ascii [of name] assms(3,4) u(2) by auto
  then show ?thesis by (intro login_decision(1) [OF u(1,3,4) assms(5) False]) simp
qed (simp add: login_def)

theorem padded_username_locked_out_witness:
  "\<exists>srv c. deployed plain_settings [] [] (\<lambda>r. None) still_env srv c \<and>
     (\<forall>m name password. fst (login still_env m name password (cn_world c)) = Inl ErrInvalidCredentials)"
proof -
  obtain cfg where cfg: "load plain_settings = Inr cfg" "ac_username (cf_auth cfg) = '' admin''" using plain_loads by blast
  obtain srv c where d: "deployed plain_settings [] [] (\<lambda>r. None) still_env srv c" using plain_deployed by blast
  have "ascii '' admin''" "trim_space '' admin'' = ''admin''" by code_simp+
  with padded_username_locked_out [OF cfg(1) d _ _ still_env_ok(3)] cfg(2) d show ?thesis by auto
qed

section \<open>Other origins\<close>

text \<open>
  C22: a page of another origin is served only if its origin is an http or https origin of the
  configuration. In a server started from settings that passed the checks, the header that opens a reply to
  another origin is absent or holds the request's own origin, which is one of the configured ones and
  begins with \<^verbatim>\<open>http:\<close> or \<^verbatim>\<open>https:\<close>: never \<^verbatim>\<open>*\<close>, and never \<^verbatim>\<open>null\<close>.
\<close>

theorem cors_http_origins:
  assumes "load S = Inr cfg" "start_process E S index landing statfs b fs = Inr (srv, c0)"
    and "header (cn_response (handle_request E srv r c)) ''Access-Control-Allow-Origin'' = Some v"
  shows "v = clean_origin (rq_header r ''Origin'') \<and> v \<in> clean_origin ` set (cf_allowed_origins cfg) \<and> http_text v \<and>
    v \<noteq> ''*'' \<and> v \<noteq> ''null''"
proof -
  have "sv_origins srv = new_cors (cf_allowed_origins cfg)" using start_cases [OF assms(1,2)] by metis
  moreover have "v = clean_origin (rq_header r ''Origin'')" "v \<in> set (sv_origins srv)"
    using assms(3) by (auto simp: allowed_origin Let_def split: if_splits)
  ultimately have v: "v = clean_origin (rq_header r ''Origin'')" "v \<in> clean_origin ` set (cf_allowed_origins cfg)"
    by (auto simp: new_cors_def)
  then obtain o1 where o1: "v = clean_origin o1" "o1 \<in> set (cf_allowed_origins cfg)" by blast
  have "valid_cors_origin o1"
    using validate_ui_None(1) [OF validate_None(3) [OF load_Inr(1) [OF assms(1)]]] o1(2) by blast
  with o1(1) have "http_text v" using valid_cors_origin_http by (simp add: clean_origin_def)
  with v http_text_special show ?thesis by metis
qed

theorem cors_http_origins_witness:
  "\<exists>srv c. start_process still_env plain_settings [] [] (\<lambda>r. None) \<lparr>bt_image = new_file, bt_sql = 0, bt_os = 0, bt_clock = 0\<rparr> Map.empty = Inr (srv, c) \<and>
     header (cn_response (handle_request still_env srv (page_request ''null'') c)) ''Access-Control-Allow-Origin'' = None"
proof -
  obtain cfg where cfg: "load plain_settings = Inr cfg" using plain_loads by blast
  obtain srv c where st: "start_process still_env plain_settings [] [] (\<lambda>r. None) \<lparr>bt_image = new_file, bt_sql = 0, bt_os = 0, bt_clock = 0\<rparr> Map.empty = Inr (srv, c)"
    using plain_starts by blast
  have n: "clean_origin ''null'' = ''null''" by code_simp
  have "header (cn_response (handle_request still_env srv (page_request ''null'') c)) ''Access-Control-Allow-Origin'' \<noteq> Some v" for v
    using cors_http_origins [OF cfg st, of "page_request ''null''" c v] n by (auto simp: page_request_def)
  with st show ?thesis by blast
qed

section \<open>Pages\<close>

text \<open>
  C23: the page may talk to every configured server and to no other. In a server started from
  settings that passed the checks, the workspace page is sent with a policy whose connections are its own
  origin and the http or https origin of each remote server (or of the single API address) in order,
  none left out.
\<close>

theorem app_page_connects:
  assumes "load S = Inr cfg" "start_process E S index landing statfs b fs = Inr (srv, c0)" "cn_response c = no_response"
  shows "\<exists>nonce c1. serve_route E srv App_page r c = (Inr (), c1) \<and> rs_status (cn_response c1) = Some 200 \<and>
    header (cn_response c1) ''Content-Security-Policy'' = Some (app_policy nonce
      (quoted ''self'' @ concat (map (\<lambda>b. CHR '' '' # the (origin_of b)) (page_targets cfg)))) \<and>
    list_all (\<lambda>b. \<exists>origin. origin_of b = Some origin \<and> http_text origin) (page_targets cfg)"
proof -
  have s: "sv_api_base srv = uc_api_base (cf_ui cfg)" "sv_remotes srv = uc_remote_servers (cf_ui cfg)"
    using start_cases [OF assms(1,2)] by metis+
  note v = loaded_sources [OF load_Inr(1) [OF assms(1)]]
  obtain nonce c1 where p: "web_home_with E (sv_index_html srv) (sv_api_base srv) (sv_remotes srv) r c = (Inr (), c1)"
    "rs_status (cn_response c1) = Some 200"
    "header (cn_response c1) ''Content-Security-Policy'' = Some (app_policy nonce (connect_sources (sv_api_base srv) (sv_remotes srv)))"
    by (rule app_page_run [OF assms(3)])
  show ?thesis
    by (intro exI conjI) (use p v in \<open>simp_all only: serve_route.simps s\<close>)
qed

theorem app_page_connects_witness:
  "\<exists>srv c r c1. start_process still_env plain_settings [] [] (\<lambda>r. None) \<lparr>bt_image = new_file, bt_sql = 0, bt_os = 0, bt_clock = 0\<rparr> Map.empty = Inr (srv, c) \<and>
     serve_route still_env srv App_page r c = (Inr (), c1) \<and> rs_status (cn_response c1) = Some 200"
proof -
  obtain cfg where cfg: "load plain_settings = Inr cfg" using plain_loads by blast
  obtain srv c where st: "start_process still_env plain_settings [] [] (\<lambda>r. None) \<lparr>bt_image = new_file, bt_sql = 0, bt_os = 0, bt_clock = 0\<rparr> Map.empty = Inr (srv, c)"
    using plain_starts by blast
  have "cn_response c = no_response" using start_cases [OF cfg st] by (metis first_conn_def conn.select_convs(5))
  from app_page_connects [OF cfg st this, of r] st show ?thesis by blast
qed

end
