(* ===== verification/Command.thy ===== *)
theory Command
  imports Startup
begin

text \<open>
  src/cmd/api/main.go as a whole: the process from its settings to its exit status, with the
  lines it logs and whether the deferred \<^verbatim>\<open>closeDatabase\<close> ran. What ends the service is
  a parameter: an error of the listener (\<^verbatim>\<open>ListenAndServe\<close>), or a signal, after which the shutdown of
  net/http ends in time or not. The Windows variant of the disk usage is here as well.
\<close>

section \<open>Room on a disk, on Windows\<close>

text \<open>
  src/internal/storage/disk_usage_windows.go, over the answer of \<^verbatim>\<open>GetDiskFreeSpaceEx\<close>:
  free for the caller, capacity, unused, as 64-bit words.
\<close>

definition disk_usage_windows :: "(string \<Rightarrow> (64 word \<times> 64 word \<times> 64 word) option) \<Rightarrow> string \<Rightarrow> int \<times> int \<times> int" where
  "disk_usage_windows free_space root =
     (case free_space root of
        None \<Rightarrow> (0, 0, 0)
      | Some (available, capacity, unused) \<Rightarrow> (sint capacity, sint available, sint (capacity - unused)))"

section \<open>The process\<close>

record http_server =
  hs_address :: string
  hs_read_header_timeout :: duration
  hs_read_timeout :: duration
  hs_write_timeout :: duration
  hs_idle_timeout :: duration
  hs_max_header_bytes :: int

definition http_server_of :: "config \<Rightarrow> http_server" where
  "http_server_of cfg = (let h = cf_http cfg in
     \<lparr>hs_address = hc_address h, hs_read_header_timeout = hc_read_header_timeout h, hs_read_timeout = hc_read_timeout h,
      hs_write_timeout = hc_write_timeout h, hs_idle_timeout = hc_idle_timeout h, hs_max_header_bytes = hc_max_header_bytes h\<rparr>)"

text \<open>Why the \<^verbatim>\<open>select\<close> of main goes on; the argument of a failure: whether it is \<^verbatim>\<open>http.ErrServerClosed\<close>.\<close>

datatype stop = Listener_ended bool | Signalled

text \<open>\<^verbatim>\<open>os.Exit(1)\<close> runs no deferred call; an unrecovered panic before the \<^verbatim>\<open>defer\<close> has none to run.\<close>

record ending =
  en_status :: nat
  en_log :: "string list"
  en_database_closed :: bool

definition exit_1 :: "string list \<Rightarrow> ending" where
  "exit_1 lines = \<lparr>en_status = 1, en_log = lines, en_database_closed = False\<rparr>"

definition listening :: string where
  "listening = ''http server listening''"

definition main_process ::
  "env \<Rightarrow> settings \<Rightarrow> string \<Rightarrow> string \<Rightarrow> (string \<Rightarrow> fs_stat option) \<Rightarrow> boot \<Rightarrow> (string \<rightharpoonup> bytes) \<Rightarrow>
     stop \<Rightarrow> (duration \<Rightarrow> err option) \<Rightarrow> ending" where
  "main_process E S index landing statfs b fs stop shutdown =
     (case load S of
        Inl e \<Rightarrow> exit_1 [''load configuration'']
      | Inr cfg \<Rightarrow>
     (case new_router E S index landing statfs cfg b fs of
        Inl e \<Rightarrow> \<lparr>en_status = 2, en_log = [], en_database_closed = False\<rparr>
      | Inr _ \<Rightarrow>
     (case stop of
        Listener_ended is_closed \<Rightarrow>
          if \<not> is_closed then exit_1 [listening, ''http server stopped unexpectedly'']
          else \<lparr>en_status = 0, en_log = [listening], en_database_closed = True\<rparr>
      | Signalled \<Rightarrow>
          (case shutdown (hc_shutdown_timeout (cf_http cfg)) of
             Some e \<Rightarrow> exit_1 [listening, ''http server shutdown'']
           | None \<Rightarrow> \<lparr>en_status = 0, en_log = [listening, ''http server stopped''], en_database_closed = True\<rparr>))))"

text \<open>
  The database is closed exactly when the process exits with status 0: a listener that fails
  and a shutdown that runs out of time leave through \<^verbatim>\<open>os.Exit\<close>, past the deferred close.
\<close>

lemma closed_iff_status_0:
  "en_database_closed (main_process E S index landing statfs b fs stop shutdown) \<longleftrightarrow>
     en_status (main_process E S index landing statfs b fs stop shutdown) = 0"
  by (simp add: main_process_def exit_1_def split: sum.split stop.split option.split)

text \<open>It answers requests exactly when \<open>start_process\<close> gives a server.\<close>

lemma listens_iff_started:
  "listening \<in> set (en_log (main_process E S index landing statfs b fs stop shutdown)) \<longleftrightarrow>
     (\<exists>server. start_process E S index landing statfs b fs = Inr server)"
  by (auto simp: main_process_def start_process_def exit_1_def listening_def split: sum.split stop.split option.split)

lemma timeout_leaves_database_open:
  assumes "load S = Inr cfg" "new_router E S index landing statfs cfg b fs = Inr sv"
    and "shutdown (hc_shutdown_timeout (cf_http cfg)) = Some e"
  shows "\<not> en_database_closed (main_process E S index landing statfs b fs Signalled shutdown)"
  using assms by (simp add: main_process_def exit_1_def)

end
