(* ===== verification/Scripts.thy ===== *)
theory Scripts
  imports World
begin

text \<open>
  Requests are served by concurrent goroutines. The database pool has one connection
  (src/internal/database/database.go, \<^verbatim>\<open>SetMaxOpenConns(1)\<close>), so a SQL statement or a
  transaction is atomic, and so is a system call; an operation of a service is a sequence of
  them, between which other requests run. A \<open>script\<close> is an operation at that
  granularity: finished with its result, or one atomic action on the shared world followed by
  the script of the rest. \<open>run\<close> runs a script without interruption; the combinators
  are those of \<open>prog\<close>, so that a script is written like the operation it stands for.
\<close>

section \<open>Scripts\<close>

datatype 'a script =
    Done "err + 'a"
  | Step "world \<Rightarrow> world" "world \<Rightarrow> 'a script"

primrec run :: "'a script \<Rightarrow> 'a io" where
  "run (Done r) = (\<lambda>w. (r, w))"
| "run (Step eff rest) = (\<lambda>w. run (rest w) (eff w))"

text \<open>A program as one atomic action.\<close>

definition atom :: "'a io \<Rightarrow> 'a script" where
  "atom m = Step (\<lambda>w. snd (m w)) (\<lambda>w. Done (fst (m w)))"

definition retS :: "'a \<Rightarrow> 'a script" where
  "retS x = Done (Inr x)"

definition raiseS :: "err \<Rightarrow> 'a script" where
  "raiseS e = Done (Inl e)"

definition liftS :: "err + 'a \<Rightarrow> 'a script" where
  "liftS r = Done r"

definition guardS :: "bool \<Rightarrow> err \<Rightarrow> unit script" where
  "guardS b e = (if b then retS () else raiseS e)"

primrec handleS :: "'a script \<Rightarrow> (err \<Rightarrow> 'b script) \<Rightarrow> ('a \<Rightarrow> 'b script) \<Rightarrow> 'b script" where
  "handleS (Done r) h f = (case r of Inl e \<Rightarrow> h e | Inr x \<Rightarrow> f x)"
| "handleS (Step eff rest) h f = Step eff (\<lambda>w. handleS (rest w) h f)"

definition bindS :: "'a script \<Rightarrow> ('a \<Rightarrow> 'b script) \<Rightarrow> 'b script" where
  "bindS s f = handleS s raiseS f"

definition ignoreS :: "'a script \<Rightarrow> unit script" where
  "ignoreS s = handleS s (\<lambda>_. retS ()) (\<lambda>_. retS ())"

definition wrapS :: "string \<Rightarrow> 'a script \<Rightarrow> 'a script" where
  "wrapS m s = handleS s (\<lambda>e. raiseS (Wrapped m e)) retS"

lemma bindS_leaves:
  "bindS (retS x) f = f x" "bindS (raiseS e) f = raiseS e" "bindS (liftS r) f = (case r of Inl e \<Rightarrow> raiseS e | Inr x \<Rightarrow> f x)"
  "bindS (guardS b e) g = (if b then g () else raiseS e)"
  by (simp_all add: bindS_def retS_def raiseS_def liftS_def guardS_def)

lemma wrapS_atom: "wrapS m (atom a) = atom (wrapE m a)"
  by (auto simp: wrapS_def atom_def wrapE_def handleE_def retS_def raiseS_def fun_eq_iff split: sum.split prod.split)

named_theorems run_simps "a script run without interruption is the program it stands for"

lemma run_atom [run_simps]: "run (atom m) = m"
  by (simp add: atom_def fun_eq_iff)

lemma run_leaves [run_simps]:
  "run (retS x) = ret x" "run (raiseS e) = raise e" "run (liftS r) = liftE r" "run (guardS b e) = guardE b e"
  by (auto simp: retS_def raiseS_def liftS_def guardS_def guardE_def fun_eq_iff)

lemma run_handleS [run_simps]: "run (handleS s h f) = handleE (run s) (\<lambda>e. run (h e)) (\<lambda>x. run (f x))"
proof
  show "run (handleS s h f) w = handleE (run s) (\<lambda>e. run (h e)) (\<lambda>x. run (f x)) w" for w
    by (induction s arbitrary: w) (auto simp: handleE_def split: sum.splits)
qed

lemma run_bindS [run_simps]: "run (bindS s f) = bindE (run s) (\<lambda>x. run (f x))"
  by (auto simp: bindS_def run_simps handleE_def bindE_def fun_eq_iff split: prod.split sum.split)

lemma run_ignoreS [run_simps]: "run (ignoreS s) = ignoreE (run s)"
  by (auto simp: ignoreS_def run_simps handleE_def ignoreE_def fun_eq_iff split: prod.split sum.split)

lemma run_wrapS [run_simps]: "run (wrapS m s) = wrapE m (run s)"
  by (simp add: wrapS_def wrapE_def run_simps)

lemma run_if [run_simps]: "run (if b then s else t) = (if b then run s else run t)"
  by simp

lemma run_cases [run_simps]:
  "run (case z of Inl e \<Rightarrow> g e | Inr y \<Rightarrow> h y) = (case z of Inl e \<Rightarrow> run (g e) | Inr y \<Rightarrow> run (h y))"
  "run (case v of None \<Rightarrow> s | Some y \<Rightarrow> k y) = (case v of None \<Rightarrow> run s | Some y \<Rightarrow> run (k y))"
  "run (case q of (a, b) \<Rightarrow> l a b) = (case q of (a, b) \<Rightarrow> run (l a b))"
  by (auto split: sum.split option.split prod.split)

lemma run_Let [run_simps]: "run (Let x s) = Let x (\<lambda>x. run (s x))"
  by (simp add: Let_def)

lemmas run_congs = if_cong option.case_cong sum.case_cong prod.case_cong

section \<open>Every atomic action\<close>

text \<open>A relation between the worlds before and after that every action of the script is in.\<close>

primrec each :: "(world \<Rightarrow> world \<Rightarrow> bool) \<Rightarrow> 'a script \<Rightarrow> bool" where
  "each R (Done r) \<longleftrightarrow> True"
| "each R (Step eff rest) \<longleftrightarrow> (\<forall>w. R w (eff w) \<and> each R (rest w))"

named_theorems each_intro "composition rules for relations kept by every action"

lemma each_leaves [each_intro]: "each R (retS x)" "each R (raiseS e)" "each R (liftS r)" "each R (guardS b e)"
  by (simp_all add: retS_def raiseS_def liftS_def guardS_def)

lemma each_atom [each_intro]: "keeps R m \<Longrightarrow> each R (atom m)"
  by (simp add: atom_def keeps_def)

lemma each_handleS [each_intro]: "each R s \<Longrightarrow> (\<And>e. each R (h e)) \<Longrightarrow> (\<And>x. each R (f x)) \<Longrightarrow> each R (handleS s h f)"
  by (induction s) (auto split: sum.split)

lemma each_bindS [each_intro]: "each R s \<Longrightarrow> (\<And>x. each R (f x)) \<Longrightarrow> each R (bindS s f)"
  unfolding bindS_def by (intro each_intro)

lemma each_ignoreS [each_intro]: "each R s \<Longrightarrow> each R (ignoreS s)"
  unfolding ignoreS_def by (intro each_intro)

lemma each_wrapS [each_intro]: "each R s \<Longrightarrow> each R (wrapS m s)"
  unfolding wrapS_def by (intro each_intro)

lemma each_cases [each_intro]:
  "each R s \<Longrightarrow> each R t \<Longrightarrow> each R (if b then s else t)"
  "(\<And>e. each R (g e)) \<Longrightarrow> (\<And>y. each R (h y)) \<Longrightarrow> each R (case z of Inl e \<Rightarrow> g e | Inr y \<Rightarrow> h y)"
  "each R s \<Longrightarrow> (\<And>y. each R (k y)) \<Longrightarrow> each R (case v of None \<Rightarrow> s | Some y \<Rightarrow> k y)"
  "(\<And>a b. each R (l a b)) \<Longrightarrow> each R (case q of (a, b) \<Rightarrow> l a b)"
  by (auto split: sum.split option.split prod.split)

section \<open>Bounded scripts\<close>

text \<open>At most \<open>n\<close> atomic actions, whatever the others do between them.\<close>

primrec within :: "'a script \<Rightarrow> nat \<Rightarrow> bool" where
  "within (Done r) n \<longleftrightarrow> True"
| "within (Step eff rest) n \<longleftrightarrow> 0 < n \<and> (\<forall>w. within (rest w) (n - 1))"

named_theorems within_intro "composition rules for the number of actions"

lemma within_mono: "within s n \<Longrightarrow> n \<le> k \<Longrightarrow> within s k"
proof (induction s arbitrary: n k)
  case (Step eff rest)
  from Step.prems have "within (rest w) (k - 1)" for w
    using Step.IH [of "rest w" "n - 1" "k - 1"] by (auto intro: diff_le_mono)
  with Step.prems show ?case by auto
qed simp

text \<open>The bound is computed along the script: applied one after the other the rules find it.\<close>

lemma within_leaves [within_intro]: "within (retS x) 0" "within (raiseS e) 0" "within (liftS r) 0" "within (guardS b e) 0"
  by (simp_all add: retS_def raiseS_def liftS_def guardS_def)

lemma within_atom [within_intro]: "within (atom m) 1"
  by (simp add: atom_def)

lemma within_handleS [within_intro]:
  "within s a \<Longrightarrow> (\<And>e. within (h e) b) \<Longrightarrow> (\<And>x. within (f x) c) \<Longrightarrow> within (handleS s h f) (a + max b c)"
proof (induction s arbitrary: a)
  case (Done r)
  have "within (h e) (a + max b c)" "within (f x) (a + max b c)" for e x
    by (rule within_mono [OF Done(2)], simp) (rule within_mono [OF Done(3)], simp)
  then show ?case by (simp split: sum.split)
next
  case (Step eff rest)
  then have a: "0 < a" "\<And>w. within (rest w) (a - 1)" by auto
  have "within (handleS (rest w) h f) (a + max b c - 1)" for w
    using Step.IH [of "rest w" "a - 1"] a Step.prems(2,3) by simp
  with a(1) show ?case by simp
qed

lemma within_bindS [within_intro]: "within s a \<Longrightarrow> (\<And>x. within (f x) b) \<Longrightarrow> within (bindS s f) (a + b)"
  unfolding bindS_def using within_handleS [of s a raiseS 0 f b] by (simp add: within_leaves)

lemma within_ignoreS [within_intro]: "within s n \<Longrightarrow> within (ignoreS s) n"
  unfolding ignoreS_def using within_handleS [of s n "\<lambda>_. retS ()" 0 "\<lambda>_. retS ()" 0] by (simp add: within_leaves)

lemma within_wrapS [within_intro]: "within s n \<Longrightarrow> within (wrapS m s) n"
  unfolding wrapS_def using within_handleS [of s n "\<lambda>e. raiseS (Wrapped m e)" 0 retS 0] by (simp add: within_leaves)

lemma within_if [within_intro]: "within s n \<Longrightarrow> within t k \<Longrightarrow> within (if b then s else t) (max n k)"
  using within_mono [of s n "max n k"] within_mono [of t k "max n k"] by simp

lemma within_sum [within_intro]:
  assumes "\<And>e. within (g e) n" "\<And>y. within (h y) k"
  shows "within (case z of Inl e \<Rightarrow> g e | Inr y \<Rightarrow> h y) (max n k)"
  using within_mono [OF assms(1), of "max n k"] within_mono [OF assms(2), of "max n k"]
  by (auto split: sum.splits)

lemma within_prod [within_intro]: "(\<And>a b. within (l a b) n) \<Longrightarrow> within (case q of (a, b) \<Rightarrow> l a b) n"
  by (auto split: prod.splits)

lemma within_option [within_intro]:
  assumes "within s n" "\<And>y. within (j y) k"
  shows "within (case v of None \<Rightarrow> s | Some y \<Rightarrow> j y) (max n k)"
  using within_mono [OF assms(1), of "max n k"] within_mono [OF assms(2), of "max n k"]
  by (auto split: option.splits)

end
