(* ===== verification/Ownership.thy ===== *)
theory Ownership
  imports Scripts
begin

text \<open>
  Reasoning about scripts that run interleaved, in the manner of rely and guarantee. What a script
  relies on is of two kinds: knowledge, facts about the world that stay true once they are
  true and that everybody shares, and claims, which belong to one script at a time. The
  locale is over the meaning \<open>good\<close> of knowledge and claims in a world; \<open>safe\<close> says that every
  action of a script, started in any world in which its claims and those of all others
  are good, keeps the claims of the others and leaves the rest of the script safe.
\<close>

locale accounting =
  fixes good :: "'k \<Rightarrow> 'c set \<Rightarrow> world \<Rightarrow> bool"
    and grows :: "'k \<Rightarrow> 'k \<Rightarrow> bool"
    and legal :: "world \<Rightarrow> bool"
  assumes grows_refl [simp]: "grows k k"
    and grows_trans: "grows k k1 \<Longrightarrow> grows k1 k2 \<Longrightarrow> grows k k2"
begin

text \<open>One action: from the claims \<open>own\<close> to claims and knowledge with \<open>P\<close>.\<close>

definition action ::
  "(world \<Rightarrow> world) \<Rightarrow> 'k \<Rightarrow> 'c set \<Rightarrow> (world \<Rightarrow> 'k \<Rightarrow> 'c set \<Rightarrow> bool) \<Rightarrow> bool" where
  "action eff k own P \<longleftrightarrow> (\<forall>w k1 others.
     grows k k1 \<and> own \<inter> others = {} \<and> good k1 (own \<union> others) w \<and> legal (eff w) \<longrightarrow>
     (\<exists>k2 own2. grows k1 k2 \<and> own2 \<inter> others = {} \<and> good k2 (own2 \<union> others) (eff w) \<and> P w k2 own2))"

primrec safe :: "'a script \<Rightarrow> (err + 'a \<Rightarrow> 'k \<Rightarrow> 'c set \<Rightarrow> bool) \<Rightarrow> 'k \<Rightarrow> 'c set \<Rightarrow> bool" where
  "safe (Done r) Q k own \<longleftrightarrow> Q r k own"
| "safe (Step eff rest) Q k own \<longleftrightarrow> action eff k own (\<lambda>w. safe (rest w) Q)"

lemma action_mono:
  "action eff k own P \<Longrightarrow> (\<And>w k1 own1. grows k k1 \<Longrightarrow> P w k1 own1 \<Longrightarrow> P' w k1 own1) \<Longrightarrow> action eff k own P'"
  unfolding action_def by (meson grows_trans)

lemma action_grows: "action eff k own P \<Longrightarrow> grows k k1 \<Longrightarrow> action eff k1 own P"
  unfolding action_def by (meson grows_trans)

lemma safe_grows:
  "(\<And>r k k1 own. grows k k1 \<Longrightarrow> Q r k own \<Longrightarrow> Q r k1 own) \<Longrightarrow> safe s Q k own \<Longrightarrow> grows k k1 \<Longrightarrow> safe s Q k1 own"
  by (cases s) (auto intro: action_grows)

lemma safe_mono:
  "safe s Q k own \<Longrightarrow> (\<And>r k1 own1. grows k k1 \<Longrightarrow> Q r k1 own1 \<Longrightarrow> Q' r k1 own1) \<Longrightarrow> safe s Q' k own"
proof (induction s arbitrary: k own)
  case (Step eff rest)
  have "action eff k own (\<lambda>w. safe (rest w) Q')"
  proof (rule action_mono)
    show "action eff k own (\<lambda>w. safe (rest w) Q)" using Step.prems(1) by simp
  next
    fix w k1 own1 assume "grows k k1" "safe (rest w) Q k1 own1"
    then show "safe (rest w) Q' k1 own1" using Step.IH Step.prems(2) by (meson grows_trans rangeI)
  qed
  then show ?case by simp
qed simp

text \<open>The rules of the combinators.\<close>

lemma safe_handleS:
  assumes "safe s P k own"
    and "\<And>e k1 own1. grows k k1 \<Longrightarrow> P (Inl e) k1 own1 \<Longrightarrow> safe (h e) Q k1 own1"
    and "\<And>x k1 own1. grows k k1 \<Longrightarrow> P (Inr x) k1 own1 \<Longrightarrow> safe (f x) Q k1 own1"
  shows "safe (handleS s h f) Q k own"
  using assms
proof (induction s arbitrary: k own)
  case (Done r)
  then show ?case by (cases r) auto
next
  case (Step eff rest)
  have "action eff k own (\<lambda>w. safe (handleS (rest w) h f) Q)"
  proof (rule action_mono)
    show "action eff k own (\<lambda>w. safe (rest w) P)" using Step.prems(1) by simp
  next
    fix w k1 own1 assume 1: "grows k k1" "safe (rest w) P k1 own1"
    show "safe (handleS (rest w) h f) Q k1 own1"
      by (rule Step.IH [OF _ 1(2)]) (use 1(1) Step.prems(2,3) grows_trans in blast)+
  qed
  then show ?case by simp
qed

lemma safe_bindS:
  assumes "safe s P k own"
    and "\<And>e k1 own1. grows k k1 \<Longrightarrow> P (Inl e) k1 own1 \<Longrightarrow> Q (Inl e) k1 own1"
    and "\<And>x k1 own1. grows k k1 \<Longrightarrow> P (Inr x) k1 own1 \<Longrightarrow> safe (f x) Q k1 own1"
  shows "safe (bindS s f) Q k own"
  unfolding bindS_def by (rule safe_handleS [OF assms(1)]) (use assms(2,3) in \<open>auto simp: raiseS_def\<close>)

lemma safe_ignoreS:
  assumes "safe s (\<lambda>r k own. Q (Inr ()) k own) k own"
  shows "safe (ignoreS s) Q k own"
  unfolding ignoreS_def by (rule safe_handleS [OF assms]) (auto simp: retS_def)

lemma safe_wrapS:
  assumes "safe s (\<lambda>r k own. case r of Inl e \<Rightarrow> Q (Inl (Wrapped msg e)) k own | Inr x \<Rightarrow> Q (Inr x) k own) k own"
  shows "safe (wrapS msg s) Q k own"
  unfolding wrapS_def by (rule safe_handleS [OF assms]) (auto simp: retS_def raiseS_def)

lemma safe_leaves:
  "safe (retS x) Q k own \<longleftrightarrow> Q (Inr x) k own" "safe (raiseS e) Q k own \<longleftrightarrow> Q (Inl e) k own"
  "safe (liftS r) Q k own \<longleftrightarrow> Q r k own"
  "safe (guardS b e) (Q' :: err + unit \<Rightarrow> 'k \<Rightarrow> 'c set \<Rightarrow> bool) k own \<longleftrightarrow> (if b then Q' (Inr ()) k own else Q' (Inl e) k own)"
  by (simp_all add: retS_def raiseS_def liftS_def guardS_def)

lemma safe_atom:
  assumes "\<And>w k1 others r w1. grows k k1 \<Longrightarrow> own \<inter> others = {} \<Longrightarrow> good k1 (own \<union> others) w \<Longrightarrow> legal w1 \<Longrightarrow>
    m w = (r, w1) \<Longrightarrow>
    \<exists>k2 own2. grows k1 k2 \<and> own2 \<inter> others = {} \<and> good k2 (own2 \<union> others) w1 \<and> Q r k2 own2"
  shows "safe (atom m) Q k own"
  unfolding atom_def safe.simps action_def
proof (intro allI impI, elim conjE)
  fix w k1 others
  assume "grows k k1" "own \<inter> others = {}" "good k1 (own \<union> others) w" "legal (snd (m w))"
  from assms [OF this, of "fst (m w)"]
  show "\<exists>k2 own2. grows k1 k2 \<and> own2 \<inter> others = {} \<and> good k2 (own2 \<union> others) (snd (m w)) \<and> Q (fst (m w)) k2 own2"
    by simp
qed

section \<open>Pools\<close>

text \<open>Scripts with disjoint claims that are good together, over at least the knowledge \<open>k0\<close>.\<close>

definition pool_safe :: "'k \<Rightarrow> ('q \<Rightarrow> err + 'a \<Rightarrow> 'k \<Rightarrow> 'c set \<Rightarrow> bool) \<Rightarrow> ('q \<times> 'a script) list \<Rightarrow> world \<Rightarrow> bool" where
  "pool_safe k0 Q ts w \<longleftrightarrow> (\<exists>k own. grows k0 k \<and>
     (\<forall>i j. i < j \<longrightarrow> j < length ts \<longrightarrow> own i \<inter> own j = {}) \<and>
     good k (\<Union>i < length ts. own i) w \<and> (\<forall>i < length ts. safe (snd (ts ! i)) (Q (fst (ts ! i))) k (own i)))"

lemma pool_safe_empty: "good k {} w \<Longrightarrow> pool_safe k Q [] w"
  by (auto simp: pool_safe_def intro!: exI [of _ k])

lemma pool_safe_good: "pool_safe k0 Q ts w \<Longrightarrow> \<exists>k own. grows k0 k \<and> good k own w"
  by (auto simp: pool_safe_def)

lemma pool_safe_begin:
  assumes "pool_safe k0 Q ts w" "\<And>k. safe s (Q q) k {}"
  shows "pool_safe k0 Q (ts @ [(q, s)]) w"
proof -
  from assms(1) obtain k own where k: "grows k0 k" and o': "\<forall>i j. i < j \<longrightarrow> j < length ts \<longrightarrow> own i \<inter> own j = {}"
    "good k (\<Union>i < length ts. own i) w" "\<forall>i < length ts. safe (snd (ts ! i)) (Q (fst (ts ! i))) k (own i)"
    by (auto simp: pool_safe_def)
  let ?own = "own (length ts := {})"
  have "(\<Union>i < length (ts @ [(q, s)]). ?own i) = (\<Union>i < length ts. own i)" by (auto simp: less_Suc_eq)
  moreover have "\<forall>i j. i < j \<longrightarrow> j < length (ts @ [(q, s)]) \<longrightarrow> ?own i \<inter> ?own j = {}"
    using o'(1) by (auto simp: less_Suc_eq)
  moreover have "\<forall>i < length (ts @ [(q, s)]). safe (snd ((ts @ [(q, s)]) ! i)) (Q (fst ((ts @ [(q, s)]) ! i))) k (?own i)"
    using o'(3) assms(2) by (auto simp: nth_append less_Suc_eq)
  ultimately show ?thesis unfolding pool_safe_def using o'(2) k by (intro exI [of _ k] exI [of _ ?own]) simp
qed

lemma pool_safe_advance:
  assumes "pool_safe k0 Q ts w" "i < length ts" "ts ! i = (q, Step eff rest)" "legal (eff w)"
    and stable: "\<And>q r k k1 own. grows k k1 \<Longrightarrow> Q q r k own \<Longrightarrow> Q q r k1 own"
  shows "pool_safe k0 Q (ts[i := (q, rest w)]) (eff w)"
proof -
  from assms(1) obtain k own where k: "grows k0 k" and o': "\<And>i j. i < j \<Longrightarrow> j < length ts \<Longrightarrow> own i \<inter> own j = {}"
    "good k (\<Union>i < length ts. own i) w" "\<And>i. i < length ts \<Longrightarrow> safe (snd (ts ! i)) (Q (fst (ts ! i))) k (own i)"
    by (auto simp: pool_safe_def)
  have dis: "own a \<inter> own b = {}" if "a \<noteq> b" "a < length ts" "b < length ts" for a b
    using that o'(1) [of a b] o'(1) [of b a] by (cases "a < b") (auto simp: Int_commute)
  let ?others = "\<Union>j \<in> {..<length ts} - {i}. own j"
  have all: "(\<Union>i < length ts. own i) = own i \<union> ?others" using assms(2) by auto
  have "own i \<inter> ?others = {}" using dis assms(2) by auto
  moreover have "action eff k (own i) (\<lambda>w. safe (rest w) (Q q))"
    using o'(3) [OF assms(2)] assms(3) by simp
  ultimately obtain k2 own2 where n: "grows k k2" "own2 \<inter> ?others = {}" "good k2 (own2 \<union> ?others) (eff w)"
    "safe (rest w) (Q q) k2 own2"
    unfolding action_def using o'(2) assms(4) all grows_refl by metis
  let ?own = "own (i := own2)"
  have "(\<Union>j < length ts. ?own j) = own2 \<union> ?others" using assms(2) by auto
  moreover have "?own a \<inter> ?own b = {}" if "a < b" "b < length ts" for a b
  proof -
    have "own2 \<inter> own j = {}" if "j < length ts" "j \<noteq> i" for j using n(2) that by auto
    with that dis [of a b] show ?thesis by (auto simp: Int_commute)
  qed
  moreover have "safe (snd (ts[i := (q, rest w)] ! j)) (Q (fst (ts[i := (q, rest w)] ! j))) k2 (?own j)"
    if "j < length ts" for j
    using that n(1,4) o'(3) [OF that] stable by (auto simp: nth_list_update intro: safe_grows)
  ultimately show ?thesis
    unfolding pool_safe_def using n(3) grows_trans [OF k n(1)] by (intro exI [of _ k2] exI [of _ ?own]) simp
qed

end

end
