(* ===== verification/Service_Scripts.thy ===== *)
theory Service_Scripts
  imports Scripts System
begin

text \<open>
  The operations of the two services as scripts: one atomic action per SQL statement (one per
  transaction), per system call, per reading of the clock and per drawn identifier, in the
  order of the code. A repository method of a single statement is one action; the methods of
  two statements (a check and the write that follows it) are two, because other requests can
  run between them. Run without interruption each script is the operation of the theories
  File_Service and Auth_Service (\<open>run_file_scripts\<close>, \<open>run_auth_scripts\<close>).
\<close>

section \<open>The object store\<close>

definition cleanup_script :: "env \<Rightarrow> string \<Rightarrow> err \<Rightarrow> file_info script" where
  "cleanup_script E path e = bindS (ignoreS (atom (os_remove E path))) (\<lambda>_. raiseS e)"

definition detect_script :: "env \<Rightarrow> string \<Rightarrow> string script" where
  "detect_script E path =
     handleS (atom (os_io E (\<lambda>fs. case fs path of None \<Rightarrow> Inl (OsError ''not exist'') | Some b \<Rightarrow> Inr (b, fs))))
       (\<lambda>e. retS ''application/octet-stream'')
       (\<lambda>content.
          bindS (handleS (atom (os_io E (\<lambda>fs. Inr (take 512 content, fs)))) (\<lambda>e. retS []) retS) (\<lambda>buffer.
          let value = x_detect_mime E buffer; extension = x_ext_mime E (path_ext path)
          in retS (if value = ''application/octet-stream'' \<and> extension \<noteq> [] then extension else value)))"

definition write_object_script ::
  "env \<Rightarrow> local_store \<Rightarrow> bytes \<times> err option \<Rightarrow> string \<Rightarrow> string \<Rightarrow> string \<Rightarrow> file_info script" where
  "write_object_script E s src key clean_name path =
     (let (content, read_err) = limit_read src (int64_add (l_max_bytes s) 1) in
     handleS (atom (os_io E (\<lambda>fs. Inr ((), fs(path \<mapsto> content)))))
       (\<lambda>e. cleanup_script E path (Wrapped ''write object'' e)) (\<lambda>_.
     case read_err of Some e \<Rightarrow> cleanup_script E path (Wrapped ''write object'' e) | None \<Rightarrow>
     let written = int (length content) in
     if written > l_max_bytes s then cleanup_script E path ErrTooLarge else
     bindS (detect_script E path) (\<lambda>detected.
     let content_type = normalize_mime E detected in
     if l_allowed_mimes s \<noteq> [] \<and> content_type \<notin> set (l_allowed_mimes s)
     then cleanup_script E path ErrInvalidMIME else
     handleS (atom (os_io E (\<lambda>fs. Inr ((), fs))))
       (\<lambda>e. cleanup_script E path (Wrapped ''close object'' e)) (\<lambda>_.
     retS \<lparr>i_key = key, i_filename = clean_name, i_size = written,
           i_content_type = content_type, i_checksum = checksum_of E content\<rparr>))))"

definition save_object_script :: "env \<Rightarrow> local_store \<Rightarrow> bytes \<times> err option \<Rightarrow> string \<Rightarrow> file_info script" where
  "save_object_script E s src filename =
     bindS (liftS (sanitize_filename filename)) (\<lambda>clean_name.
     bindS (atom (uuid_io E)) (\<lambda>object_id.
     let key = object_key object_id in
     bindS (liftS (safe_path E s key)) (\<lambda>path.
     bindS (wrapS ''create object directory'' (atom (os_io E (\<lambda>fs. Inr ((), fs))))) (\<lambda>_.
     bindS (wrapS ''create object'' (atom (create_excl E path))) (\<lambda>_.
     write_object_script E s src key clean_name path)))))"

definition copy_object_script :: "env \<Rightarrow> local_store \<Rightarrow> string \<Rightarrow> string \<Rightarrow> file_info script" where
  "copy_object_script E s key filename =
     bindS (atom (open_object E s key)) (\<lambda>content. save_object_script E s (content, None) filename)"

section \<open>The file repository: the methods of two statements\<close>

definition create_folder_script :: "env \<Rightarrow> folder \<Rightarrow> unit script" where
  "create_folder_script E d =
     bindS (atom (check_mount E (fd_parent_id d) (fd_mount d))) (\<lambda>_.
     atom (conflict_or ''create folder'' (sql_io E (insert_into folder_table (row_of_folder d)))))"

definition create_file_script :: "env \<Rightarrow> file_item \<Rightarrow> unit script" where
  "create_file_script E f =
     bindS (atom (check_mount E (fl_folder_id f) (fl_mount f))) (\<lambda>_.
     atom (conflict_or ''create file'' (sql_io E (insert_into file_table (row_of_file f)))))"

definition delete_folder_script :: "env \<Rightarrow> string \<Rightarrow> unit script" where
  "delete_folder_script E i =
     bindS (atom (sql_query E (\<lambda>db. (length (filter (\<lambda>d. d_parent_id d = Some i) (folders db)),
                                     length (filter (\<lambda>f. f_folder_id f = Some i) (files db)))))) (\<lambda>(children, fs).
     if children > 0 \<or> fs > 0 then raiseS ErrConflict else
     atom (affected (sql_io E (delete_folders (\<lambda>d. d_id d = i)))))"

definition move_file_script :: "env \<Rightarrow> string \<Rightarrow> string \<Rightarrow> time \<Rightarrow> unit script" where
  "move_file_script E i folder_id now =
     bindS (if folder_id = [] then retS () else
            bindS (atom (sql_query E (row_with folder_table d_id folder_id))) (\<lambda>row.
            guardS (row \<noteq> None) ErrNotFound)) (\<lambda>_.
     atom (affected (sql_io E (update_where file_table (\<lambda>f. f_id f = i \<and> active f)
       (\<lambda>f. f\<lparr>f_folder_id := nullable_string folder_id, f_updated_at := stamp now\<rparr>)))))"

section \<open>The file service\<close>

definition record_audit_script :: "env \<Rightarrow> string \<Rightarrow> string \<Rightarrow> unit script" where
  "record_audit_script E action i =
     bindS (atom (uuid_io E)) (\<lambda>event_id.
     bindS (atom (now_io E)) (\<lambda>now.
     ignoreS (atom (audit E \<lparr>ev_id = event_id, ev_action = action, ev_resource_id = i, ev_metadata = [],
                             ev_created_at = now\<rparr>))))"

definition svc_create_folder_script :: "env \<Rightarrow> mounts \<Rightarrow> string \<Rightarrow> string \<Rightarrow> string \<Rightarrow> folder script" where
  "svc_create_folder_script E ms mount_id parent_id name0 =
     (let name = trim_space name0 in
      bindS (liftS (validate_folder_name name)) (\<lambda>_.
      bindS (if parent_id = [] then retS mount_id
             else bindS (atom (find_folder E parent_id)) (\<lambda>parent. retS (fd_mount parent))) (\<lambda>mount.
      bindS (liftS (get_mount ms mount)) (\<lambda>_.
      bindS (atom (now_io E)) (\<lambda>now.
      bindS (atom (uuid_io E)) (\<lambda>i.
      let item = \<lparr>fd_id = i, fd_parent_id = parent_id, fd_mount = mount, fd_name = name,
                  fd_created_at = now, fd_updated_at = now\<rparr>
      in bindS (create_folder_script E item) (\<lambda>_. retS item)))))))"

definition register_upload_script :: "env \<Rightarrow> mount \<Rightarrow> string \<Rightarrow> file_info \<Rightarrow> time \<Rightarrow> file_item script" where
  "register_upload_script E m folder_id info now =
     bindS (atom (uuid_io E)) (\<lambda>i.
     let item = \<lparr>fl_id = i, fl_folder_id = folder_id, fl_mount = m_id m, fl_storage_key = i_key info,
                 fl_name = i_filename info, fl_content_type = i_content_type info, fl_size = i_size info,
                 fl_checksum = i_checksum info, fl_created_at = now, fl_updated_at = now, fl_deleted_at = None\<rparr>
     in handleS (create_file_script E item)
          (\<lambda>e. bindS (ignoreS (atom (delete_object E (m_store m) (i_key info)))) (\<lambda>_. raiseS e))
          (\<lambda>_. bindS (atom (uuid_io E)) (\<lambda>event_id.
               bindS (ignoreS (atom (audit E \<lparr>ev_id = event_id, ev_action = ''upload'', ev_resource_id = i,
                                        ev_metadata = fl_name item, ev_created_at = now\<rparr>))) (\<lambda>_. retS item))))"

definition upload_script :: "env \<Rightarrow> mounts \<Rightarrow> string \<Rightarrow> string \<Rightarrow> string \<Rightarrow> bytes \<times> err option \<Rightarrow> file_item script" where
  "upload_script E ms mount_id folder_id filename src =
     bindS (if folder_id = [] then retS mount_id
            else bindS (atom (find_folder E folder_id)) (\<lambda>d. retS (fd_mount d))) (\<lambda>mid.
     bindS (liftS (get_mount ms mid)) (\<lambda>m.
     bindS (save_object_script E (m_store m) src filename) (\<lambda>stored.
     bindS (atom (now_io E)) (\<lambda>now.
     handleS (atom (find_active_by_checksum E (m_id m) (i_checksum stored)))
       (\<lambda>_. register_upload_script E m folder_id stored now)
       (\<lambda>existing. if fl_id existing \<noteq> []
          then bindS (ignoreS (atom (delete_object E (m_store m) (i_key stored)))) (\<lambda>_. retS existing)
          else register_upload_script E m folder_id stored now)))))"

definition delete_file_script :: "env \<Rightarrow> string \<Rightarrow> unit script" where
  "delete_file_script E i =
     bindS (atom (now_io E)) (\<lambda>now.
     bindS (atom (soft_delete_file E i now)) (\<lambda>_. record_audit_script E ''delete'' i))"

definition svc_rename_folder_script :: "env \<Rightarrow> string \<Rightarrow> string \<Rightarrow> unit script" where
  "svc_rename_folder_script E i name0 =
     (let name = trim_space name0 in
      bindS (liftS (validate_folder_name name)) (\<lambda>_.
      bindS (atom (now_io E)) (\<lambda>now. atom (rename_folder E i name now))))"

definition svc_restore_file_script :: "env \<Rightarrow> string \<Rightarrow> unit script" where
  "svc_restore_file_script E i = bindS (atom (restore_file E i)) (\<lambda>_. record_audit_script E ''restore'' i)"

definition svc_rename_file_script :: "env \<Rightarrow> string \<Rightarrow> string \<Rightarrow> unit script" where
  "svc_rename_file_script E i name =
     (case sanitize_filename name of
        Inl _ \<Rightarrow> raiseS (TextError ''file name is invalid'')
      | Inr clean_name \<Rightarrow> bindS (atom (now_io E)) (\<lambda>now. atom (rename_file E i clean_name now)))"

definition svc_move_file_script :: "env \<Rightarrow> string \<Rightarrow> string \<Rightarrow> unit script" where
  "svc_move_file_script E i folder_id =
     bindS (if folder_id = [] then retS () else
            bindS (atom (find_file E i)) (\<lambda>source.
            bindS (atom (find_folder E folder_id)) (\<lambda>d.
            guardS (fl_mount source = fd_mount d) ErrMountMismatch))) (\<lambda>_.
     bindS (atom (now_io E)) (\<lambda>now. move_file_script E i folder_id now))"

definition copy_file_script :: "env \<Rightarrow> mounts \<Rightarrow> string \<Rightarrow> string \<Rightarrow> file_item script" where
  "copy_file_script E ms i folder_id =
     bindS (atom (find_file E i)) (\<lambda>source.
     bindS (liftS (get_mount ms (fl_mount source))) (\<lambda>m.
     bindS (copy_object_script E (m_store m) (fl_storage_key source) (fl_name source)) (\<lambda>stored.
     bindS (atom (now_io E)) (\<lambda>now.
     bindS (atom (uuid_io E)) (\<lambda>new_id.
     let copy = source\<lparr>fl_id := new_id, fl_folder_id := folder_id, fl_mount := fl_mount source,
                       fl_storage_key := i_key stored, fl_created_at := now, fl_updated_at := now\<rparr>
     in handleS (create_file_script E copy)
          (\<lambda>e. bindS (ignoreS (atom (delete_object E (m_store m) (i_key stored)))) (\<lambda>_. raiseS e))
          (\<lambda>_. retS copy))))))"

definition permanently_delete_script :: "env \<Rightarrow> mounts \<Rightarrow> string \<Rightarrow> unit script" where
  "permanently_delete_script E ms i =
     bindS (atom (find_trashed_file E i)) (\<lambda>item.
     bindS (atom (delete_file_permanently E i)) (\<lambda>_.
     bindS (liftS (get_mount ms (fl_mount item))) (\<lambda>m.
     bindS (atom (delete_object E (m_store m) (fl_storage_key item))) (\<lambda>_.
     record_audit_script E ''purge'' i))))"

section \<open>The authentication service\<close>

definition issue_script :: "env \<Rightarrow> token_manager \<Rightarrow> string \<Rightarrow> string \<Rightarrow> tokens script" where
  "issue_script E m user_id session_id =
     bindS (atom (now_io E)) (\<lambda>now.
     let expires_at = now + tm_access_ttl m;
         cl = \<lparr>c_issuer = tm_issuer m, c_subject = user_id, c_id = session_id,
               c_issued_at = Some (x_numeric_date E now), c_not_before = Some (x_numeric_date E now),
               c_expires_at = Some (x_numeric_date E expires_at)\<rparr>
     in case x_jwt_sign E (tm_secret m) cl of
          None \<Rightarrow> raiseS (Wrapped ''sign access token'' (TextError ''jwt''))
        | Some access \<Rightarrow>
            bindS (wrapS ''create refresh token'' (atom (random_token E))) (\<lambda>refresh.
            retS \<lparr>tk_access = access, tk_refresh = refresh, tk_expires_at = expires_at,
                  tk_refresh_expires_at = now + tm_refresh_ttl m\<rparr>))"

definition new_session_script :: "env \<Rightarrow> token_manager \<Rightarrow> (tokens \<times> session) script" where
  "new_session_script E m =
     bindS (atom (uuid_io E)) (\<lambda>session_id.
     bindS (issue_script E m single_user_id session_id) (\<lambda>tk.
     bindS (atom (now_io E)) (\<lambda>now.
     retS (tk, \<lparr>ss_id = session_id, ss_token_hash = hash_refresh_token E (tk_refresh tk),
                ss_expires_at = tk_refresh_expires_at tk, ss_revoked_at = None, ss_created_at = now\<rparr>))))"

definition login_script :: "env \<Rightarrow> token_manager \<Rightarrow> string \<Rightarrow> string \<Rightarrow> (user \<times> tokens) script" where
  "login_script E m username0 password =
     (let username = trim_space username0 in
      if username = [] then raiseS ErrInvalidCredentials else
      handleS (atom (find_user_by_username E username)) (\<lambda>_. raiseS ErrInvalidCredentials) (\<lambda>u.
      case check_password E (us_password_hash u) password of
        Inl _ \<Rightarrow> raiseS ErrInvalidCredentials
      | Inr _ \<Rightarrow> bindS (bindS (new_session_script E m) (\<lambda>(tk, s).
                        bindS (atom (create_session E s)) (\<lambda>_. retS tk))) (\<lambda>tk. retS (u, tk))))"

definition refresh_script :: "env \<Rightarrow> token_manager \<Rightarrow> string \<Rightarrow> tokens script" where
  "refresh_script E m refresh_token =
     (if trim_space refresh_token = [] then raiseS ErrInvalidToken else
      bindS (atom (now_io E)) (\<lambda>now1.
      handleS (atom (find_active_session_by_token_hash E (hash_refresh_token E refresh_token) now1))
        (\<lambda>_. raiseS ErrInvalidToken) (\<lambda>s.
      bindS (new_session_script E m) (\<lambda>(tk, replacement).
      bindS (atom (now_io E)) (\<lambda>now2.
      handleS (atom (rotate_session E (ss_id s) replacement now2))
        (\<lambda>_. raiseS (TextError ''invalid refresh token'')) (\<lambda>_. retS tk))))))"

definition me_script :: "env \<Rightarrow> string \<Rightarrow> user script" where
  "me_script E user_id =
     (if trim_space user_id = [] then raiseS ErrInvalidToken else atom (find_user_by_id E user_id))"

definition logout_script :: "env \<Rightarrow> string \<Rightarrow> unit script" where
  "logout_script E session_id =
     (if trim_space session_id = [] then raiseS ErrInvalidToken else
      bindS (atom (now_io E)) (\<lambda>now. atom (revoke_session E session_id now)))"

section \<open>Without interruption\<close>

lemma run_storage_scripts [run_simps]:
  "run (cleanup_script E path e) = cleanup_object E path e"
  "run (detect_script E path) = detect_file_mime E path"
  "run (write_object_script E s src key name path) = write_object E s src key name path"
  "run (save_object_script E s src name) = save_object E s src name"
  "run (copy_object_script E s key name) = copy_object E s key name"
proof -
  show c: "run (cleanup_script E path e) = cleanup_object E path e" for path e
    by (simp add: cleanup_script_def cleanup_object_def run_simps cong: run_congs)
  show d: "run (detect_script E path) = detect_file_mime E path" for path
    by (simp add: detect_script_def detect_file_mime_def run_simps cong: run_congs)
  show w: "run (write_object_script E s src key name path) = write_object E s src key name path"
    for s src key name path
    by (simp add: write_object_script_def write_object_def run_simps c d cong: run_congs)
  show s: "run (save_object_script E s src name) = save_object E s src name" for s src name
    by (simp add: save_object_script_def save_object_def run_simps w cong: run_congs)
  show "run (copy_object_script E s key name) = copy_object E s key name"
    by (simp add: copy_object_script_def copy_object_def run_simps s cong: run_congs)
qed

lemma run_repository_scripts [run_simps]:
  "run (create_folder_script E d) = create_folder E d" "run (create_file_script E f) = create_file E f"
  "run (delete_folder_script E i) = delete_folder E i" "run (move_file_script E i k now) = move_file E i k now"
  by (simp_all add: create_folder_script_def create_folder_def create_file_script_def create_file_def
      delete_folder_script_def delete_folder_def move_file_script_def move_file_def run_simps cong: run_congs)

lemma run_audit_scripts [run_simps]:
  "run (record_audit_script E a i) = record_audit E a i"
  "run (register_upload_script E m k st now) = register_upload E m k st now"
  by (simp_all add: record_audit_script_def record_audit_def register_upload_script_def register_upload_def run_simps cong: run_congs)

lemma run_file_scripts [run_simps]:
  "run (svc_create_folder_script E ms k p n) = svc_create_folder E ms k p n"
  "run (upload_script E ms k d n src) = upload E ms k d n src"
  "run (delete_file_script E i) = delete_file E i"
  "run (svc_rename_folder_script E i n) = svc_rename_folder E i n"
  "run (svc_restore_file_script E i) = svc_restore_file E i"
  "run (svc_rename_file_script E i n) = svc_rename_file E i n"
  "run (svc_move_file_script E i d) = svc_move_file E i d"
  "run (copy_file_script E ms i d) = copy_file E ms i d"
  "run (permanently_delete_script E ms i) = permanently_delete E ms i"
  by (simp_all add: svc_create_folder_script_def svc_create_folder_def upload_script_def upload_def
      delete_file_script_def delete_file_def svc_rename_folder_script_def svc_rename_folder_def
      svc_restore_file_script_def svc_restore_file_def svc_rename_file_script_def svc_rename_file_def
      svc_move_file_script_def svc_move_file_def copy_file_script_def copy_file_def
      permanently_delete_script_def permanently_delete_def run_simps cong: run_congs)

lemma run_auth_scripts [run_simps]:
  "run (login_script E m u p) = login E m u p" "run (refresh_script E m tok) = refresh E m tok"
  "run (me_script E i) = me E i" "run (logout_script E i) = logout E i"
proof -
  have i: "run (issue_script E m u s) = issue E m u s" for u s
    by (simp add: issue_script_def issue_def run_simps cong: run_congs)
  have n: "run (new_session_script E m) = new_session E m"
    by (simp add: new_session_script_def new_session_def run_simps i cong: run_congs)
  show "run (login_script E m u p) = login E m u p" "run (refresh_script E m tok) = refresh E m tok"
    "run (me_script E i) = me E i" "run (logout_script E i) = logout E i"
    by (simp_all add: login_script_def login_def issue_session_def refresh_script_def refresh_def
        me_script_def me_def logout_script_def logout_def run_simps n cong: run_congs)
qed

end
