(* ===== verification/Interference.thy ===== *)
theory Interference
  imports Ownership Service_Scripts
begin

text \<open>
  What the operations of the services know and own while others run. Knowledge: the disk of
  every folder identifier ever used, the disk and the key of every file identifier, the content of every object ever registered (it
  exists with this content or not at all), the digest of every session, and the object
  identifiers whose row is gone for good. Claims: an identifier drawn and not used yet, an
  object written and not registered yet, and the one right to have used up a refresh token.
\<close>

section \<open>Knowledge and claims\<close>

record know =
  k_dir :: "string \<rightharpoonup> string"
  k_file :: "string \<rightharpoonup> string \<times> string"
  k_obj :: "string \<rightharpoonup> bytes"
  k_sess :: "string \<rightharpoonup> string"
  k_gone :: "string set"

definition grows :: "know \<Rightarrow> know \<Rightarrow> bool" where
  "grows k k1 \<longleftrightarrow> k_dir k \<subseteq>\<^sub>m k_dir k1 \<and> k_file k \<subseteq>\<^sub>m k_file k1 \<and> k_obj k \<subseteq>\<^sub>m k_obj k1 \<and>
     k_sess k \<subseteq>\<^sub>m k_sess k1 \<and> k_gone k \<subseteq> k_gone k1"

datatype claim = Drawn string | Object string string bytes | Spent string

fun claim_id :: "claim \<Rightarrow> string option" where
  "claim_id (Drawn u) = Some u"
| "claim_id (Object u p b) = Some u"
| "claim_id (Spent h) = None"

definition claimed :: "claim set \<Rightarrow> string set" where
  "claimed own = {u. \<exists>c \<in> own. claim_id c = Some u}"

section \<open>Their meaning in a world\<close>

definition unused :: "env \<Rightarrow> know \<Rightarrow> string \<Rightarrow> database \<Rightarrow> bool" where
  "unused E k u db \<longleftrightarrow> k_dir k u = None \<and> k_file k u = None \<and> k_sess k u = None \<and> u \<notin> k_gone k \<and>
     (\<forall>f \<in> set (files db). f_storage_key f \<noteq> object_key u) \<and>
     (\<forall>s p. safe_path E s (object_key u) = Inr p \<longrightarrow> k_obj k p = None)"

definition rows_known :: "know \<Rightarrow> database \<Rightarrow> bool" where
  "rows_known k db \<longleftrightarrow> (\<forall>d \<in> set (folders db). k_dir k (d_id d) = Some (d_mount d)) \<and>
     (\<forall>f \<in> set (files db). k_file k (f_id f) = Some (f_mount f, f_storage_key f)) \<and>
     (\<forall>s \<in> set (sessions db). k_sess k (s_id s) = Some (s_token_hash s)) \<and>
     (\<forall>u \<in> k_gone k. uuid_text u \<and> (\<forall>f \<in> set (files db). f_storage_key f \<noteq> object_key u))"

definition objects_known :: "env \<Rightarrow> mounts \<Rightarrow> know \<Rightarrow> world \<Rightarrow> bool" where
  "objects_known E ms k w \<longleftrightarrow> (\<forall>p b. k_obj k p = Some b \<longrightarrow> w_fs w p = None \<or> w_fs w p = Some b) \<and>
     (\<forall>f \<in> set (files (w_db w)). \<forall>m p. by_id ms (f_mount f) = Some m \<longrightarrow>
        safe_path E (m_store m) (f_storage_key f) = Inr p \<longrightarrow> k_obj k p \<noteq> None)"

definition undrawn :: "env \<Rightarrow> world \<Rightarrow> world \<Rightarrow> string set" where
  "undrawn E L w = x_uuid E ` {w_uuid w ..< w_uuid L}"

definition draws_fresh :: "env \<Rightarrow> world \<Rightarrow> string set \<Rightarrow> know \<Rightarrow> claim set \<Rightarrow> world \<Rightarrow> bool" where
  "draws_fresh E L W k own w \<longleftrightarrow> inj_on (x_uuid E) {w_uuid w ..< w_uuid L} \<and>
     (\<forall>u \<in> undrawn E L w. unused E k u (w_db w) \<and> u \<notin> claimed own) \<and>
     (\<forall>n \<in> {w_rand w ..< w_rand L}. \<forall>b. x_rand E n = Some b \<longrightarrow> hash_refresh_token E (raw_url_encode b) \<notin> W)"

definition spent :: "string \<Rightarrow> database \<Rightarrow> bool" where
  "spent h db \<longleftrightarrow> (\<forall>s \<in> set (sessions db). s_token_hash s = h \<longrightarrow> s_revoked_at s \<noteq> None)"

fun claim_ok :: "env \<Rightarrow> string set \<Rightarrow> know \<Rightarrow> world \<Rightarrow> claim \<Rightarrow> bool" where
  "claim_ok E W k w (Drawn u) \<longleftrightarrow> uuid_text u \<and> unused E k u (w_db w)"
| "claim_ok E W k w (Object u p b) \<longleftrightarrow> uuid_text u \<and> unused E k u (w_db w) \<and>
     (\<exists>s. safe_path E s (object_key u) = Inr p) \<and> w_fs w p = Some b"
| "claim_ok E W k w (Spent h) \<longleftrightarrow> h \<in> W \<and> spent h (w_db w)"

definition apart :: "claim set \<Rightarrow> bool" where
  "apart own \<longleftrightarrow> (\<forall>c \<in> own. \<forall>c' \<in> own. claim_id c \<noteq> None \<longrightarrow> claim_id c = claim_id c' \<longrightarrow> c = c')"

definition good :: "env \<Rightarrow> mounts \<Rightarrow> world \<Rightarrow> string set \<Rightarrow> know \<Rightarrow> claim set \<Rightarrow> world \<Rightarrow> bool" where
  "good E ms L W k own w \<longleftrightarrow> env_ok E \<and> disks_ok ms \<and> objects_ok E ms w \<and> layout_ok (w_db w) \<and>
     rows_known k (w_db w) \<and> objects_known E ms k w \<and> draws_fresh E L W k own w \<and>
     (\<forall>c \<in> own. claim_ok E W k w c) \<and> apart own"

lemma grows_refl' [simp]: "grows k k"
  by (simp add: grows_def)

lemma grows_trans': "grows k k1 \<Longrightarrow> grows k1 k2 \<Longrightarrow> grows k k2"
  unfolding grows_def by (metis map_le_trans subset_trans)

interpretation shared: accounting "good E ms L W" grows "\<lambda>w. draws_on w L" for E ms L W
  by unfold_locales (simp, rule grows_trans')

lemma map_leD: "f \<subseteq>\<^sub>m g \<Longrightarrow> f x = Some y \<Longrightarrow> g x = Some y"
  by (metis domI map_le_def)

lemma growsD:
  assumes "grows k k1"
  shows "k_dir k i = Some m \<Longrightarrow> k_dir k1 i = Some m" "k_file k i = Some mk \<Longrightarrow> k_file k1 i = Some mk"
    "k_obj k p = Some b \<Longrightarrow> k_obj k1 p = Some b" "k_sess k i = Some h \<Longrightarrow> k_sess k1 i = Some h"
    "u \<in> k_gone k \<Longrightarrow> u \<in> k_gone k1"
  using assms by (auto simp: grows_def dest: map_leD)

section \<open>What an action may do without touching the claims of others\<close>

lemma claimed_Un [simp]: "claimed (a \<union> b) = claimed a \<union> claimed b"
  by (auto simp: claimed_def)

lemma claimed_insert [simp]: "claimed (insert c a) = (case claim_id c of None \<Rightarrow> claimed a | Some u \<Rightarrow> insert u (claimed a))"
  by (auto simp: claimed_def split: option.splits)

lemma claimed_mono: "a \<subseteq> b \<Longrightarrow> claimed a \<subseteq> claimed b"
  by (auto simp: claimed_def)

lemma apart_mono: "apart own \<Longrightarrow> own1 \<subseteq> own \<Longrightarrow> apart own1"
  unfolding apart_def by blast

lemma good_drop: "good E ms L W k own w \<Longrightarrow> own1 \<subseteq> own \<Longrightarrow> good E ms L W k own1 w"
  using claimed_mono [of own1 own] apart_mono [of own own1] by (auto simp: good_def draws_fresh_def)

lemma undrawn_later: "draws_on w w1 \<Longrightarrow> undrawn E L w1 \<subseteq> undrawn E L w"
  by (auto simp: undrawn_def draws_on_def)

text \<open>Rows may go, or change in what is not known of them; new rows are another matter.\<close>

definition retains :: "database \<Rightarrow> database \<Rightarrow> bool" where
  "retains db db1 \<longleftrightarrow>
     (\<forall>d1 \<in> set (folders db1). \<exists>d \<in> set (folders db). d_id d1 = d_id d \<and> d_mount d1 = d_mount d) \<and>
     (\<forall>f1 \<in> set (files db1). \<exists>f \<in> set (files db). f_id f1 = f_id f \<and> f_mount f1 = f_mount f \<and> f_storage_key f1 = f_storage_key f) \<and>
     (\<forall>s1 \<in> set (sessions db1). \<exists>s \<in> set (sessions db). s_id s1 = s_id s \<and> s_token_hash s1 = s_token_hash s \<and>
        (s_revoked_at s \<noteq> None \<longrightarrow> s_revoked_at s1 \<noteq> None))"

lemma retains_refl [simp]: "retains db db"
  by (auto simp: retains_def)

lemma retainsE:
  assumes "retains db db1"
  shows "d1 \<in> set (folders db1) \<Longrightarrow> \<exists>d \<in> set (folders db). d_id d1 = d_id d \<and> d_mount d1 = d_mount d"
    and "f1 \<in> set (files db1) \<Longrightarrow>
      \<exists>f \<in> set (files db). f_id f1 = f_id f \<and> f_mount f1 = f_mount f \<and> f_storage_key f1 = f_storage_key f"
    and "s1 \<in> set (sessions db1) \<Longrightarrow>
      \<exists>s \<in> set (sessions db). s_id s1 = s_id s \<and> s_token_hash s1 = s_token_hash s \<and>
        (s_revoked_at s \<noteq> None \<longrightarrow> s_revoked_at s1 \<noteq> None)"
  using assms by (simp_all add: retains_def)

lemma retains_known:
  assumes r: "retains db db1" and "rows_known k db"
  shows "rows_known k db1"
  using assms(2) unfolding rows_known_def
  by (intro conjI ballI) (auto dest!: retainsE(1) [OF r] retainsE(2) [OF r] retainsE(3) [OF r], metis)

lemma retains_unused:
  assumes r: "retains db db1" and "unused E k u db"
  shows "unused E k u db1"
  using assms(2) unfolding unused_def by (auto dest!: retainsE(2) [OF r])

lemma retains_spent:
  assumes r: "retains db db1" and "spent h db"
  shows "spent h db1"
  using assms(2) unfolding spent_def by (auto dest!: retainsE(3) [OF r])

lemma retains_claim: "retains (w_db w) (w_db w1) \<Longrightarrow> w_fs w1 = w_fs w \<Longrightarrow> claim_ok E W k w c \<Longrightarrow> claim_ok E W k w1 c"
  by (cases c) (auto intro: retains_unused retains_spent)

lemma retains_objects:
  assumes r: "retains (w_db w) (w_db w1)" and "w_fs w1 = w_fs w" "objects_known E ms k w"
  shows "objects_known E ms k w1"
  using assms(2,3) unfolding objects_known_def by (auto dest!: retainsE(2) [OF r])

lemma draws_later:
  assumes "draws_fresh E L W k own w" "draws_on w w1"
    and "\<And>u. unused E k u (w_db w) \<Longrightarrow> unused E k u (w_db w1)"
  shows "draws_fresh E L W k own w1"
  using assms undrawn_later [OF assms(2), of E L]
  by (auto simp: draws_fresh_def draws_on_def intro: inj_on_subset)

lemma good_retains:
  assumes "good E ms L W k own w" "retains (w_db w) (w_db w1)" "w_fs w1 = w_fs w" "draws_on w w1"
    and "objects_ok E ms w1" "layout_ok (w_db w1)"
  shows "good E ms L W k own w1"
  using assms(1) unfolding good_def
  by (auto intro: assms(5,6) retains_known [OF assms(2)] retains_objects [OF assms(2,3)] retains_claim [OF assms(2,3)]
      draws_later [OF _ assms(4)] retains_unused [OF assms(2)])

lemma good_same:
  assumes "good E ms L W k own w" "w_db w1 = w_db w" "w_fs w1 = w_fs w" "draws_on w w1"
  shows "good E ms L W k own w1"
  by (rule good_retains [OF assms(1) _ assms(3,4)]) (use assms in \<open>auto simp: good_def objects_ok_def\<close>)

section \<open>Drawing an identifier\<close>

lemma path_owner:
  "env_ok E \<Longrightarrow> uuid_text u \<Longrightarrow> uuid_text v \<Longrightarrow> safe_path E s (object_key u) = Inr p \<Longrightarrow>
   safe_path E s' (object_key v) = Inr p \<Longrightarrow> u = v"
  by (rule object_path_inj [of u v E s p s']) (auto simp: env_ok_def)

lemma good_draw:
  assumes g: "good E ms L W k own w" and d: "uuid_io E w = (Inr u, w1)" "draws_on w1 L"
  shows "Drawn u \<notin> own" "good E ms L W k (insert (Drawn u) own) w1" "uuid_text u"
proof -
  have w1: "u = x_uuid E (w_uuid w)" "w1 = w\<lparr>w_uuid := Suc (w_uuid w)\<rparr>" using d(1) by simp_all
  then have u: "u \<in> undrawn E L w" using d(2) by (auto simp: undrawn_def draws_on_def)
  have f: "draws_fresh E L W k own w" using g by (simp add: good_def)
  then have un: "unused E k u (w_db w)" "u \<notin> claimed own" using u by (simp_all add: draws_fresh_def)
  then show "Drawn u \<notin> own" by (auto simp: claimed_def)
  show t: "uuid_text u" using g w1(1) by (simp add: good_def env_ok_def)
  have "draws_on w w1" using w1(2) by (simp add: draws_on_def)
  from good_same [OF g _ _ this] have g1: "good E ms L W k own w1" using w1(2) by simp
  have "u \<notin> undrawn E L w1"
  proof
    assume "u \<in> undrawn E L w1"
    then obtain n where n: "x_uuid E n = u" "Suc (w_uuid w) \<le> n" "n < w_uuid L" using w1(2) by (auto simp: undrawn_def)
    have "inj_on (x_uuid E) {w_uuid w ..< w_uuid L}" using f by (simp add: draws_fresh_def)
    then have "n = w_uuid w" by (rule inj_onD) (use n w1(1) in auto)
    with n show False by simp
  qed
  moreover have "apart (insert (Drawn u) own)"
    using g1 un(2) unfolding good_def apart_def by (auto simp: claimed_def)
  ultimately show "good E ms L W k (insert (Drawn u) own) w1"
    using g1 un(1) t w1(2) by (auto simp: good_def draws_fresh_def)
qed

section \<open>The object of a claim\<close>

lemma stored_elsewhere:
  assumes "env_ok E" "uuid_text u" "safe_path E s (object_key u) = Inr p"
    and "stored E ms fs f" "f_storage_key f \<noteq> object_key u"
  shows "stored E ms (fs(p := z)) f"
proof -
  obtain v where v: "uuid_text v" "f_storage_key f = object_key v" using assms(4) by (auto simp: stored_def)
  have "q \<noteq> p" if "safe_path E s' (f_storage_key f) = Inr q" for s' q
  proof
    assume "q = p"
    with path_owner [OF assms(1,2) v(1) assms(3)] that v(2) assms(5) show False by metis
  qed
  with assms(4) show ?thesis unfolding stored_def by (metis fun_upd_other)
qed

lemma objects_elsewhere:
  assumes "env_ok E" "uuid_text u" "safe_path E s (object_key u) = Inr p" "objects_ok E ms w"
    and "\<And>f. f \<in> set (files (w_db w)) \<Longrightarrow> f_storage_key f \<noteq> object_key u"
    and "w_db w1 = w_db w" "w_fs w1 = (w_fs w)(p := z)"
  shows "objects_ok E ms w1"
  using assms(4-7) stored_elsewhere [OF assms(1-3)] by (simp add: objects_ok_def rows_stored_def)

lemma claim_elsewhere:
  assumes "env_ok E" "uuid_text u" "safe_path E s (object_key u) = Inr p" "claim_id c \<noteq> Some u"
    and "w_db w1 = w_db w" "w_fs w1 = (w_fs w)(p := z)" "claim_ok E W k w c"
  shows "claim_ok E W k w1 c"
  using assms(4-7) path_owner [OF assms(1,2) _ assms(3)] by (cases c) auto

lemma known_elsewhere:
  assumes "\<And>b. k_obj k p = Some b \<Longrightarrow> z = None \<or> z = Some b" "w_db w1 = w_db w" "w_fs w1 = (w_fs w)(p := z)"
    and "objects_known E ms k w"
  shows "objects_known E ms k w1"
  using assms by (auto simp: objects_known_def)

text \<open>Whoever owns an identifier may write or remove the object under it.\<close>

lemma good_own_object:
  assumes g: "good E ms L W k (insert c own) w" and c: "c \<notin> own" "claim_id c = Some u"
    and p: "safe_path E s (object_key u) = Inr p"
    and w1: "w_db w1 = w_db w" "w_fs w1 = (w_fs w)(p := z)" "draws_on w w1"
  shows "good E ms L W k own w1"
    and "z = Some b \<Longrightarrow> Object u p b \<notin> own \<and> good E ms L W k (insert (Object u p b) own) w1"
proof -
  have e: "env_ok E" and k: "objects_known E ms k w" and o': "objects_ok E ms w"
    and cl: "\<And>x. x \<in> insert c own \<Longrightarrow> claim_ok E W k w x" and ap: "apart (insert c own)"
    using g by (auto simp: good_def)
  have u: "uuid_text u" "unused E k u (w_db w)" using cl [of c] c(2) by (cases c; simp)+
  have other: "claim_id x \<noteq> Some u" if "x \<in> own" for x using ap that c unfolding apart_def by (metis insertCI option.distinct(1))
  have "objects_ok E ms w1"
    by (rule objects_elsewhere [OF e u(1) p o' _ w1(1,2)]) (use u(2) in \<open>simp add: unused_def\<close>)
  moreover have "objects_known E ms k w1"
    by (rule known_elsewhere [OF _ w1(1,2) k]) (use u(2) p in \<open>auto simp: unused_def\<close>)
  moreover have "\<forall>x \<in> own. claim_ok E W k w1 x"
    using claim_elsewhere [OF e u(1) p other w1(1,2)] cl by blast
  moreover have "draws_fresh E L W k (insert c own) w1"
    by (rule draws_later [OF _ w1(3)]) (use g w1(1) in \<open>simp_all add: good_def\<close>)
  ultimately show g1: "good E ms L W k own w1"
    using g w1(1) apart_mono [OF ap subset_insertI] c(2) by (auto simp: good_def draws_fresh_def)
  assume z: "z = Some b"
  have n: "Object u p b \<notin> own" using other [of "Object u p b"] by auto
  have "apart (insert (Object u p b) own)"
    using apart_mono [OF ap subset_insertI] other unfolding apart_def by (metis claim_id.simps(2) insertE)
  moreover have "draws_fresh E L W k (insert (Object u p b) own) w1"
    using \<open>draws_fresh E L W k (insert c own) w1\<close> c(2) by (simp add: draws_fresh_def)
  moreover have "claim_ok E W k w1 (Object u p b)" using u p w1(1,2) z by auto
  ultimately show "Object u p b \<notin> own \<and> good E ms L W k (insert (Object u p b) own) w1"
    using g1 n by (auto simp: good_def)
qed

text \<open>An object whose row is gone for good may be removed by anyone.\<close>

lemma good_gone_object:
  assumes g: "good E ms L W k own w" and u: "u \<in> k_gone k" "uuid_text u"
    and p: "safe_path E s (object_key u) = Inr p"
    and w1: "w_db w1 = w_db w" "w_fs w1 = (w_fs w)(p := None)" "draws_on w w1"
  shows "good E ms L W k own w1"
proof -
  have e: "env_ok E" and k: "objects_known E ms k w" and o': "objects_ok E ms w" and r: "rows_known k (w_db w)"
    and cl: "\<And>x. x \<in> own \<Longrightarrow> claim_ok E W k w x" using g by (auto simp: good_def)
  have other: "claim_id x \<noteq> Some u" if "x \<in> own" for x
    using cl [OF that] u(1) by (cases x) (auto simp: unused_def)
  have "objects_ok E ms w1"
    by (rule objects_elsewhere [OF e u(2) p o' _ w1(1,2)]) (use r u(1) in \<open>auto simp: rows_known_def\<close>)
  moreover have "objects_known E ms k w1" by (rule known_elsewhere [OF _ w1(1,2) k]) simp
  moreover have "\<forall>x \<in> own. claim_ok E W k w1 x" using claim_elsewhere [OF e u(2) p other w1(1,2)] cl by blast
  moreover have "draws_fresh E L W k own w1"
    by (rule draws_later [OF _ w1(3)]) (use g w1(1) in \<open>simp_all add: good_def\<close>)
  ultimately show ?thesis using g w1(1) by (simp add: good_def)
qed

end
