(* ===== verification/Registration.thy ===== *)
theory Registration
  imports Interference
begin

text \<open>
  The writing SQL statements under interference: a new file row uses up the object and the
  identifier its script owns and makes their disk, key and content known to all; a new folder
  or session row uses up an identifier; a purged row makes its object identifier known to be
  gone.
\<close>

section \<open>New rows\<close>

lemma good_claims:
  assumes "good E ms L W k own w" "c \<in> own" "c' \<in> own" "c \<noteq> c'" "claim_id c = Some u"
  shows "claim_id c' \<noteq> Some u"
  using assms unfolding good_def apart_def by (metis option.distinct(1))

lemma undrawn_uuid: "env_ok E \<Longrightarrow> v \<in> undrawn E L w \<Longrightarrow> uuid_text v"
  by (auto simp: undrawn_def env_ok_def)

lemma claim_uuid: "claim_ok E W k w c \<Longrightarrow> claim_id c = Some v \<Longrightarrow> uuid_text v"
  by (cases c) auto

text \<open>
  The general form: the identifiers \<open>U\<close> are used up, everybody else's identifiers stay unused
  and everybody else's claims stay good.
\<close>

lemma good_use_up:
  assumes g: "good E ms L W k (used \<union> own) w" and U: "claimed used \<subseteq> U" "U \<subseteq> claimed used"
    and dis: "used \<inter> own = {}"
    and w1: "w_fs w1 = w_fs w" "draws_on w w1" "objects_ok E ms w1" "layout_ok (w_db w1)"
    and k1: "rows_known k1 (w_db w1)" "objects_known E ms k1 w1"
    and un: "\<And>v. uuid_text v \<Longrightarrow> v \<notin> U \<Longrightarrow> unused E k v (w_db w) \<Longrightarrow> unused E k1 v (w_db w1)"
    and sp: "\<And>h. h \<in> W \<Longrightarrow> spent h (w_db w) \<Longrightarrow> spent h (w_db w1)"
  shows "good E ms L W k1 own w1"
proof -
  have e: "env_ok E" and cl: "\<And>c. c \<in> used \<union> own \<Longrightarrow> claim_ok E W k w c" and ap: "apart (used \<union> own)"
    and fr: "draws_fresh E L W k (used \<union> own) w" using g by (auto simp: good_def)
  have other: "v \<notin> U" if "c \<in> own" "claim_id c = Some v" for c v
  proof
    assume "v \<in> U"
    then obtain c' where "c' \<in> used" "claim_id c' = Some v" using U(2) by (auto simp: claimed_def)
    with that ap dis show False unfolding apart_def by (metis IntI UnCI empty_iff option.distinct(1))
  qed
  have "claim_ok E W k1 w1 c" if c: "c \<in> own" for c
    using cl [of c] other [OF c] un sp w1(1) c by (cases c) auto
  moreover have "draws_fresh E L W k1 own w1"
  proof -
    have "unused E k1 v (w_db w1) \<and> v \<notin> claimed own" if v: "v \<in> undrawn E L w1" for v
    proof -
      have v': "v \<in> undrawn E L w" using undrawn_later [OF w1(2), of E L] v by blast
      then have "unused E k v (w_db w)" "v \<notin> claimed used" "v \<notin> claimed own"
        using fr by (auto simp: draws_fresh_def)
      with un [OF undrawn_uuid [OF e v']] U(2) show ?thesis by blast
    qed
    moreover have "inj_on (x_uuid E) {w_uuid w1 ..< w_uuid L}"
      by (rule inj_on_subset [of _ "{w_uuid w ..< w_uuid L}"]) (use fr w1(2) in \<open>auto simp: draws_fresh_def draws_on_def\<close>)
    ultimately show ?thesis using fr w1(2) by (auto simp: draws_fresh_def draws_on_def)
  qed
  moreover have "apart own" using ap by (rule apart_mono) simp
  ultimately show ?thesis using g w1(3,4) k1 by (simp add: good_def)
qed

lemma known_folder:
  assumes "rows_known k db" "d \<in> set (folders db)" "k_dir k (d_id d) = Some m"
  shows "d_mount d = m"
  using assms by (auto simp: rows_known_def)

text \<open>A foreign key and the known disk of the folder place a file.\<close>

lemma placed_known:
  assumes "rows_known k db" "folders_exist (folders db) fs" "r \<in> set fs"
    and "\<And>d. f_folder_id r = Some d \<Longrightarrow> k_dir k d = Some (f_mount r)"
  shows "placed (folders db) r"
proof (cases "f_folder_id r")
  case (Some d)
  with assms(2,3) obtain row where "row \<in> set (folders db)" "d_id row = d"
    by (fastforce simp: folders_exist_def list_all_iff)
  moreover have "d_mount row = f_mount r"
    using known_folder [OF assms(1)] calculation assms(4) [OF Some] by metis
  ultimately show ?thesis using Some by (auto simp: placed_def)
qed (simp add: placed_def)

lemma good_new_file:
  assumes g: "good E ms L W k ({Object u p b, Drawn i} \<union> own) w" and dis: "{Object u p b, Drawn i} \<inter> own = {}"
    and ins: "insert_into file_table r (w_db w) = Inr (x, w_db w1)" and w1: "w_fs w1 = w_fs w" "draws_on w w1"
    and r: "f_id r = i" "f_storage_key r = object_key u" "stored E ms (w_fs w) r"
      "\<And>d. f_folder_id r = Some d \<Longrightarrow> k_dir k d = Some (f_mount r)"
    and p: "\<And>m q. by_id ms (f_mount r) = Some m \<Longrightarrow> safe_path E (m_store m) (f_storage_key r) = Inr q \<Longrightarrow> q = p"
  shows "\<exists>k1. grows k k1 \<and> good E ms L W k1 own w1"
proof -
  let ?k = "k\<lparr>k_file := (k_file k)(i \<mapsto> (f_mount r, f_storage_key r)), k_obj := (k_obj k)(p \<mapsto> b)\<rparr>"
  have db: "w_db w1 = (w_db w)\<lparr>files := files (w_db w) @ [r]\<rparr>"
    using ins by (simp add: insert_into_Inr file_table_def)
  have fk: "folders_exist (folders (w_db w)) (files (w_db w) @ [r])"
    using ins by (auto simp: insert_into_Inr file_table_def)
  have e: "env_ok E" and o': "objects_ok E ms w" and l: "layout_ok (w_db w)" and rk: "rows_known k (w_db w)"
    and ok: "objects_known E ms k w" and cu: "claim_ok E W k w (Object u p b)" and ci: "claim_ok E W k w (Drawn i)"
    using g by (auto simp: good_def)
  obtain s where s: "safe_path E s (object_key u) = Inr p" using cu by auto
  have u: "uuid_text u" "unused E k u (w_db w)" "w_fs w p = Some b" and i: "unused E k i (w_db w)"
    using cu ci by auto
  have gr: "grows k ?k"
    using u(2) i s unfolding grows_def unused_def by (auto simp: map_le_def)
  have "good E ms L W ?k own w1"
  proof (rule good_use_up [OF g, of "{u, i}"])
    have dbok: "db_ok (w_db w1)" using insert_db_ok(4) [OF ins] o' by (simp add: objects_ok_def rows_stored_def)
    show "objects_ok E ms w1" using o' r(3) dbok w1(1) by (auto simp: objects_ok_def rows_stored_def db)
    have "placed (folders (w_db w)) r"
      by (rule placed_known [OF rk fk _ r(4)]) simp_all
    with l dbok show "layout_ok (w_db w1)" by (simp add: layout_ok_def files_placed_def db)
    show "rows_known ?k (w_db w1)"
      using rk i u(2) r(1,2) object_key_inj [OF u(1)] by (auto simp: rows_known_def db unused_def)
    show "objects_known E ms ?k w1"
      using ok u(3) p w1(1) by (auto simp: objects_known_def db)
    show "unused E ?k v (w_db w1)" if v: "uuid_text v" "v \<notin> {u, i}" "unused E k v (w_db w)" for v
    proof -
      have "object_key u \<noteq> object_key v" using object_key_inj [OF u(1) v(1)] v(2) by auto
      moreover have "q \<noteq> p" if "safe_path E s' (object_key v) = Inr q" for s' q
        using path_owner [OF e u(1) v(1) s] that v(2) by auto
      ultimately show ?thesis using v(2,3) r(2) by (auto simp: unused_def db)
    qed
    show "spent h (w_db w1)" if "spent h (w_db w)" for h using that by (simp add: spent_def db)
  qed (use w1 dis in \<open>auto simp: claimed_def\<close>)
  with gr show ?thesis by blast
qed

lemma good_new_folder:
  assumes g: "good E ms L W k ({Drawn i} \<union> own) w" and dis: "Drawn i \<notin> own"
    and ins: "insert_into folder_table r (w_db w) = Inr (x, w_db w1)" and w1: "w_fs w1 = w_fs w" "draws_on w w1"
    and r: "d_id r = i" "\<And>d. d_parent_id r = Some d \<Longrightarrow> k_dir k d = Some (d_mount r)"
  shows "\<exists>k1. grows k k1 \<and> good E ms L W k1 own w1"
proof -
  let ?k = "k\<lparr>k_dir := (k_dir k)(i \<mapsto> d_mount r)\<rparr>"
  have db: "w_db w1 = (w_db w)\<lparr>folders := folders (w_db w) @ [r]\<rparr>"
    using ins by (simp add: insert_into_Inr folder_table_def)
  have fk: "parents_exist (folders (w_db w) @ [r])"
    using ins by (auto simp: insert_into_Inr folder_table_def)
  have o': "objects_ok E ms w" and l: "layout_ok (w_db w)" and rk: "rows_known k (w_db w)"
    and ok: "objects_known E ms k w" and ci: "claim_ok E W k w (Drawn i)"
    using g by (auto simp: good_def)
  have i: "unused E k i (w_db w)" using ci by auto
  have gr: "grows k ?k" using i unfolding grows_def unused_def by (auto simp: map_le_def)
  have par: "\<exists>q \<in> set (folders (w_db w)). d_id q = d \<and> d_mount q = d_mount r" if parent: "d_parent_id r = Some d" for d
  proof -
    obtain q where q: "q \<in> set (folders (w_db w) @ [r])" "d_id q = d"
      using fk parent by (fastforce simp: parents_exist_def list_all_iff)
    have "k_dir k d = Some (d_mount r)" using r(2) parent by simp
    moreover from this have "d \<noteq> i" using i by (auto simp: unused_def)
    ultimately show ?thesis using q r(1) known_folder [OF rk] by auto
  qed
  have "good E ms L W ?k own w1"
  proof (rule good_use_up [OF g, of "{i}"])
    have dbok: "db_ok (w_db w1)" using insert_db_ok(3) [OF ins] o' by (simp add: objects_ok_def rows_stored_def)
    show "objects_ok E ms w1" using o' dbok w1(1) by (auto simp: objects_ok_def rows_stored_def db)
    have "forest [] (folders (w_db w1))" using l par by (auto simp: layout_ok_def db forest_append split: option.split)
    with l dbok show "layout_ok (w_db w1)"
      by (auto simp: layout_ok_def db elim!: files_placed_subset)
    show "rows_known ?k (w_db w1)" using rk i r(1) by (auto simp: rows_known_def db unused_def)
    show "objects_known E ms ?k w1" using ok w1(1) by (auto simp: objects_known_def db)
    show "unused E ?k v (w_db w1)" if "v \<notin> {i}" "unused E k v (w_db w)" for v
      using that by (auto simp: unused_def db)
    show "spent h (w_db w1)" if "spent h (w_db w)" for h using that by (simp add: spent_def db)
  qed (use w1 dis in \<open>auto simp: claimed_def\<close>)
  with gr show ?thesis by blast
qed

lemma good_new_session:
  assumes g: "good E ms L W k ({Drawn i} \<union> own) w" and dis: "Drawn i \<notin> own"
    and ins: "insert_into session_table r (w_db w) = Inr (x, w_db w1)" and w1: "w_fs w1 = w_fs w" "draws_on w w1"
    and r: "s_id r = i" "s_token_hash r \<notin> W"
  shows "\<exists>k1. grows k k1 \<and> good E ms L W k1 own w1"
proof -
  let ?k = "k\<lparr>k_sess := (k_sess k)(i \<mapsto> s_token_hash r)\<rparr>"
  have db: "w_db w1 = (w_db w)\<lparr>sessions := sessions (w_db w) @ [r]\<rparr>"
    using ins by (simp add: insert_into_Inr session_table_def)
  have o': "objects_ok E ms w" and l: "layout_ok (w_db w)" and rk: "rows_known k (w_db w)"
    and ok: "objects_known E ms k w" and ci: "claim_ok E W k w (Drawn i)"
    using g by (auto simp: good_def)
  have i: "unused E k i (w_db w)" using ci by auto
  have gr: "grows k ?k" using i unfolding grows_def unused_def by (auto simp: map_le_def)
  have "good E ms L W ?k own w1"
  proof (rule good_use_up [OF g, of "{i}"])
    have dbok: "db_ok (w_db w1)" using insert_db_ok(2) [OF ins] o' by (simp add: objects_ok_def rows_stored_def)
    show "objects_ok E ms w1" using o' dbok w1(1) by (auto simp: objects_ok_def rows_stored_def db)
    show "layout_ok (w_db w1)" using l dbok by (simp add: layout_ok_def db)
    show "rows_known ?k (w_db w1)" using rk i r(1) by (auto simp: rows_known_def db unused_def)
    show "objects_known E ms ?k w1" using ok w1(1) by (auto simp: objects_known_def db)
    show "unused E ?k v (w_db w1)" if "v \<notin> {i}" "unused E k v (w_db w)" for v
      using that by (auto simp: unused_def db)
    show "spent h (w_db w1)" if "h \<in> W" "spent h (w_db w)" for h using that r(2) by (auto simp: spent_def db)
  qed (use w1 dis in \<open>auto simp: claimed_def\<close>)
  with gr show ?thesis by blast
qed

section \<open>A purged row\<close>

lemma good_gone:
  assumes g: "good E ms L W k own w" and u: "uuid_text u" "f \<in> set (files (w_db w))" "f_storage_key f = object_key u"
    and w1: "good E ms L W k own w1" "\<And>f. f \<in> set (files (w_db w1)) \<Longrightarrow> f_storage_key f \<noteq> object_key u"
      "draws_on w w1"
  shows "grows k (k\<lparr>k_gone := insert u (k_gone k)\<rparr>) \<and> good E ms L W (k\<lparr>k_gone := insert u (k_gone k)\<rparr>) own w1"
proof -
  let ?k = "k\<lparr>k_gone := insert u (k_gone k)\<rparr>"
  have nu: "v \<noteq> u" if "unused E k v (w_db w)" for v using that u(2,3) by (auto simp: unused_def)
  have un: "unused E ?k v (w_db w1)" if "unused E k v (w_db w1)" "v \<noteq> u" for v
    using that by (auto simp: unused_def)
  have cl: "claim_ok E W ?k w1 c" if c: "c \<in> own" for c
  proof -
    have "claim_ok E W k w c" "claim_ok E W k w1 c" using g w1(1) c by (simp_all add: good_def)
    with nu un show ?thesis by (cases c) auto
  qed
  have "unused E ?k v (w_db w1) \<and> v \<notin> claimed own" if v: "v \<in> undrawn E L w1" for v
  proof -
    have "unused E k v (w_db w)"
      using undrawn_later [OF w1(3), of E L] v g by (auto simp: good_def draws_fresh_def)
    moreover have "unused E k v (w_db w1)" "v \<notin> claimed own" using v w1(1) by (auto simp: good_def draws_fresh_def)
    ultimately show ?thesis using nu un by blast
  qed
  moreover have "rows_known ?k (w_db w1)" "objects_known E ms ?k w1"
    using w1(1,2) u(1) by (auto simp: good_def rows_known_def objects_known_def)
  ultimately have "good E ms L W ?k own w1" using w1(1) cl by (auto simp: good_def draws_fresh_def)
  then show ?thesis by (auto simp: grows_def)
qed

end
