(* ===== verification/Request_Pool.thy ===== *)
theory Request_Pool
  imports Service_Scripts Middleware
begin

text \<open>
  Any number of requests at once: a pool of calls of the services, each with the script of what
  it still has to do, over one world. A schedule is a list of events, the start of a call or the
  next atomic action of the i-th call, and \<open>play\<close> executes it; a theorem about every
  schedule is one about every interleaving of every number of calls. A request that makes
  several calls (the session check, then an operation) begins the next call when it has the
  answer of the previous one, which is one of the schedules.
\<close>

section \<open>Calls and answers\<close>

datatype call =
    Create_folder string string string
  | Upload string string string "bytes \<times> err option"
  | Delete_file string
  | Rename_folder string string
  | Delete_folder string
  | Restore_file string
  | Rename_file string string
  | Move_file string string
  | Copy_file string string
  | Permanently_delete string
  | Download string
  | List_folders string string int int
  | List_files string string int int
  | List_trash string int int
  | Search string string int int
  | Count_active string
  | Dashboard
  | Login string string
  | Refresh string
  | Me string
  | Logout string
  | Check_session string
  | New_csrf_token

datatype answer =
    Finished
  | A_folder folder
  | A_file file_item
  | A_content file_item bytes
  | A_folders "folder list"
  | A_files "file_item list"
  | A_count "int \<times> int"
  | A_counts dashboard_counts
  | A_login user tokens
  | A_tokens tokens
  | A_user user
  | A_text string

definition answerS :: "('a \<Rightarrow> answer) \<Rightarrow> 'a script \<Rightarrow> answer script" where
  "answerS f s = bindS s (\<lambda>x. retS (f x))"

text \<open>
  The effects of \<^verbatim>\<open>Download\<close> (files.go): the row, its disk, the object, the audit record.
\<close>

definition download_script :: "env \<Rightarrow> mounts \<Rightarrow> string \<Rightarrow> (file_item \<times> bytes) script" where
  "download_script E ms i =
     bindS (atom (find_file E i)) (\<lambda>item.
     bindS (liftS (get_mount ms (fl_mount item))) (\<lambda>m.
     bindS (atom (open_object E (m_store m) (fl_storage_key item))) (\<lambda>content.
     bindS (ignoreS (record_audit_script E ''download'' (fl_id item))) (\<lambda>_.
     retS (item, content)))))"

definition dashboard_script :: "env \<Rightarrow> dashboard_counts script" where
  "dashboard_script E =
     bindS (atom (count_and_sum E active)) (\<lambda>(fs, bytes).
     bindS (atom (sql_query E (\<lambda>db. int (length (folders db))))) (\<lambda>ds.
     bindS (atom (sql_query E (\<lambda>db. int (length (filter (\<lambda>f. \<not> active f) (files db)))))) (\<lambda>trash.
     retS \<lparr>dc_files = fs, dc_folders = ds, dc_bytes = bytes, dc_trash = trash\<rparr>)))"

fun serve :: "env \<Rightarrow> token_manager \<Rightarrow> mounts \<Rightarrow> call \<Rightarrow> answer script" where
  "serve E m ms (Create_folder k p n) = answerS A_folder (svc_create_folder_script E ms k p n)"
| "serve E m ms (Upload k d n src) = answerS A_file (upload_script E ms k d n src)"
| "serve E m ms (Delete_file i) = answerS (\<lambda>_. Finished) (delete_file_script E i)"
| "serve E m ms (Rename_folder i n) = answerS (\<lambda>_. Finished) (svc_rename_folder_script E i n)"
| "serve E m ms (Delete_folder i) = answerS (\<lambda>_. Finished) (delete_folder_script E i)"
| "serve E m ms (Restore_file i) = answerS (\<lambda>_. Finished) (svc_restore_file_script E i)"
| "serve E m ms (Rename_file i n) = answerS (\<lambda>_. Finished) (svc_rename_file_script E i n)"
| "serve E m ms (Move_file i d) = answerS (\<lambda>_. Finished) (svc_move_file_script E i d)"
| "serve E m ms (Copy_file i d) = answerS A_file (copy_file_script E ms i d)"
| "serve E m ms (Permanently_delete i) = answerS (\<lambda>_. Finished) (permanently_delete_script E ms i)"
| "serve E m ms (Download i) = answerS (case_prod A_content) (download_script E ms i)"
| "serve E m ms (List_folders k p l off) = answerS A_folders (atom (list_folders E k p l off))"
| "serve E m ms (List_files k p l off) = answerS A_files (atom (list_files E k p l off))"
| "serve E m ms (List_trash k l off) = answerS A_files (atom (list_trash E k l off))"
| "serve E m ms (Search k q l off) = answerS A_files (atom (search E k q l off))"
| "serve E m ms (Count_active k) = answerS A_count (atom (count_active_by_mount E k))"
| "serve E m ms Dashboard = answerS A_counts (dashboard_script E)"
| "serve E m ms (Login u p) = answerS (case_prod A_login) (login_script E m u p)"
| "serve E m ms (Refresh tok) = answerS A_tokens (refresh_script E m tok)"
| "serve E m ms (Me i) = answerS A_user (me_script E i)"
| "serve E m ms (Logout i) = answerS (\<lambda>_. Finished) (logout_script E i)"
| "serve E m ms (Check_session i) =
     bindS (atom (now_io E)) (\<lambda>now. answerS (\<lambda>_. Finished) (atom (validate_session E i now)))"
| "serve E m ms New_csrf_token = answerS A_text (atom (new_csrf_token E))"

section \<open>Schedules\<close>

datatype event = Begin call | Advance nat

type_synonym pool = "(call \<times> answer script) list \<times> world"

fun happen :: "env \<Rightarrow> token_manager \<Rightarrow> mounts \<Rightarrow> event \<Rightarrow> pool \<Rightarrow> pool option" where
  "happen E m ms (Begin c) (ts, w) = Some (ts @ [(c, serve E m ms c)], w)"
| "happen E m ms (Advance i) (ts, w) =
     (if i < length ts
      then case ts ! i of
             (c, Done r) \<Rightarrow> None
           | (c, Step eff rest) \<Rightarrow> Some (ts[i := (c, rest w)], eff w)
      else None)"

fun play :: "env \<Rightarrow> token_manager \<Rightarrow> mounts \<Rightarrow> event list \<Rightarrow> pool \<Rightarrow> pool option" where
  "play E m ms [] p = Some p"
| "play E m ms (e # es) p =
     (case happen E m ms e p of None \<Rightarrow> None | Some p1 \<Rightarrow> play E m ms es p1)"

lemma play_append:
  "play E m ms (es @ es') p = (case play E m ms es p of None \<Rightarrow> None | Some p1 \<Rightarrow> play E m ms es' p1)"
  by (induction es arbitrary: p) (auto split: option.splits)

text \<open>A call alone in the pool runs to the end without interruption.\<close>

lemma play_alone:
  "\<exists>n. play E m ms (replicate n (Advance 0)) ([(c, s)], w) =
     Some ([(c, Done (fst (run s w)))], snd (run s w))"
proof (induction s arbitrary: w)
  case (Done r)
  have "play E m ms (replicate 0 (Advance 0)) ([(c, Done r)], w) = Some ([(c, Done (fst (run (Done r) w)))], snd (run (Done r) w))"
    by simp
  then show ?case by (rule exI)
next
  case (Step eff rest)
  obtain n where "play E m ms (replicate n (Advance 0)) ([(c, rest w)], eff w) =
      Some ([(c, Done (fst (run (rest w) (eff w))))], snd (run (rest w) (eff w)))"
    using Step by blast
  then have "play E m ms (replicate (Suc n) (Advance 0)) ([(c, Step eff rest)], w) =
      Some ([(c, Done (fst (run (Step eff rest) w)))], snd (run (Step eff rest) w))"
    by simp
  then show ?case by (rule exI)
qed

section \<open>Calls are bounded\<close>

lemma within_storage [within_intro]:
  "within (save_object_script E s src n) 8" "within (copy_object_script E s k n) 9"
proof -
  show save: "within (save_object_script E s src n) 8" for src
    unfolding save_object_script_def write_object_script_def detect_script_def cleanup_script_def Let_def
    by (rule within_mono, (rule within_intro)+, simp)
  show "within (copy_object_script E s k n) 9"
    unfolding copy_object_script_def by (rule within_mono, (rule within_intro save)+, simp)
qed

lemma within_parts [within_intro]:
  "within (record_audit_script E a i) 3" "within (create_file_script E f) 2" "within (create_folder_script E fd) 2"
  "within (register_upload_script E m d st t) 5" "within (delete_folder_script E i) 2"
  "within (move_file_script E i d t) 2" "within (new_session_script E tm) 4"
  unfolding record_audit_script_def create_file_script_def create_folder_script_def register_upload_script_def
    delete_folder_script_def move_file_script_def new_session_script_def issue_script_def Let_def
  by (rule within_mono, (rule within_intro)+, simp)+

definition max_actions :: nat where
  "max_actions = 16"

lemma within_serve: "within (serve E m ms c) max_actions"
  unfolding max_actions_def
  by (cases c; simp only: serve.simps answerS_def svc_create_folder_script_def upload_script_def delete_file_script_def
      svc_rename_folder_script_def svc_restore_file_script_def svc_rename_file_script_def svc_move_file_script_def
      copy_file_script_def permanently_delete_script_def download_script_def dashboard_script_def login_script_def
      refresh_script_def me_script_def logout_script_def Let_def;
      rule within_mono, (rule within_intro)+, simp)

end
