(* ===== verification/Script_Safety.thy ===== *)
theory Script_Safety
  imports Registration Request_Pool
begin

text \<open>
  Every script of the services is safe: whatever the others do between its actions, it keeps
  what they own and know. The rules for the kinds of action come first (a read, a drawn
  identifier, a statement on rows, the object of a claim), then each operation.
\<close>

abbreviation safe ::
  "env \<Rightarrow> mounts \<Rightarrow> world \<Rightarrow> string set \<Rightarrow> 'a script \<Rightarrow> (err + 'a \<Rightarrow> know \<Rightarrow> claim set \<Rightarrow> bool) \<Rightarrow> know \<Rightarrow> claim set \<Rightarrow> bool" where
  "safe E ms L W \<equiv> accounting.safe (good E ms L W) grows (\<lambda>w. draws_on w L)"

section \<open>Kinds of action\<close>

text \<open>A read, or anything else that touches neither rows nor objects.\<close>

definition quiet :: "'a io \<Rightarrow> bool" where
  "quiet m \<longleftrightarrow> keeps same_db m \<and> keeps same_fs m \<and> keeps draws_on m"

lemma quiet_wrapE: "quiet m \<Longrightarrow> quiet (wrapE msg m)"
  by (simp add: quiet_def keeps_intro)

text \<open>The result of an action in a world in which the knowledge is good.\<close>

definition result_of :: "env \<Rightarrow> mounts \<Rightarrow> world \<Rightarrow> string set \<Rightarrow> 'a io \<Rightarrow> err + 'a \<Rightarrow> know \<Rightarrow> bool" where
  "result_of E ms L W m r k \<longleftrightarrow> (\<exists>w w1 own. good E ms L W k own w \<and> m w = (r, w1) \<and> draws_on w1 L)"

lemma good_quiet:
  assumes "quiet m" "good E ms L W k own w" "m w = (r, w1)"
  shows "good E ms L W k own w1"
proof -
  have "w_db w1 = w_db w" "w_fs w1 = w_fs w" "draws_on w w1"
    using assms(1,3) same_db_result same_fs_result keepsD [of draws_on m w] by (auto simp: quiet_def)
  with good_same [OF assms(2)] show ?thesis by blast
qed

text \<open>Claims may be dropped on the way.\<close>

lemma safe_quiet_drop:
  assumes "quiet m" "\<And>r k1. grows k k1 \<Longrightarrow> result_of E ms L W m r k1 \<Longrightarrow> Q r k1 own \<or> Q r k1 {}"
  shows "safe E ms L W (atom m) Q k own"
proof (rule shared.safe_atom)
  fix w k1 others r w1
  assume a: "grows k k1" "own \<inter> others = {}" "good E ms L W k1 (own \<union> others) w" "draws_on w1 L" "m w = (r, w1)"
  have "result_of E ms L W m r k1" unfolding result_of_def using a(3,4,5) by blast
  with assms(2) a(1) have q: "Q r k1 own \<or> Q r k1 {}" by blast
  have g: "good E ms L W k1 (own \<union> others) w1" by (rule good_quiet [OF assms(1) a(3,5)])
  have g0: "good E ms L W k1 ({} \<union> others) w1" by (rule good_drop [OF g]) auto
  from q show "\<exists>k2 own2. grows k1 k2 \<and> own2 \<inter> others = {} \<and> good E ms L W k2 (own2 \<union> others) w1 \<and> Q r k2 own2"
  proof
    assume "Q r k1 own"
    with a(2) g show ?thesis by (intro exI [of _ k1] exI [of _ own]) simp
  next
    assume "Q r k1 {}"
    with g0 show ?thesis by (intro exI [of _ k1] exI [of _ "{}"]) simp
  qed
qed

lemma safe_quiet:
  assumes "quiet m" "\<And>r k1. grows k k1 \<Longrightarrow> result_of E ms L W m r k1 \<Longrightarrow> Q r k1 own"
  shows "safe E ms L W (atom m) Q k own"
  using assms safe_quiet_drop by blast

lemma safe_bind_quiet:
  assumes "quiet m"
    and "\<And>x k1. grows k k1 \<Longrightarrow> result_of E ms L W m (Inr x) k1 \<Longrightarrow> safe E ms L W (f x) Q k1 own"
    and "\<And>e k1. grows k k1 \<Longrightarrow> Q (Inl e) k1 own \<or> Q (Inl e) k1 {}"
  shows "safe E ms L W (bindS (atom m) f) Q k own"
proof (rule shared.safe_bindS)
  show "safe E ms L W (atom m) (\<lambda>r k1 o1. case r of Inl e \<Rightarrow> Q (Inl e) k1 o1
      | Inr x \<Rightarrow> o1 = own \<and> result_of E ms L W m (Inr x) k1) k own"
    by (rule safe_quiet_drop [OF assms(1)]) (use assms(3) in \<open>auto split: sum.split\<close>)
qed (use assms(2) in auto)

lemma safe_handle_quiet:
  assumes "quiet m"
    and "\<And>e k1. grows k k1 \<Longrightarrow> safe E ms L W (h e) Q k1 own"
    and "\<And>x k1. grows k k1 \<Longrightarrow> result_of E ms L W m (Inr x) k1 \<Longrightarrow> safe E ms L W (f x) Q k1 own"
  shows "safe E ms L W (handleS (atom m) h f) Q k own"
  by (rule shared.safe_handleS [where P = "\<lambda>r k1 o1. o1 = own \<and> result_of E ms L W m r k1"])
    (auto intro: safe_quiet assms)

text \<open>Drawing an identifier: it is the script's own, unless it has no use for it.\<close>

lemma safe_draw:
  assumes "\<And>u k1. grows k k1 \<Longrightarrow> uuid_text u \<Longrightarrow> Drawn u \<notin> own \<Longrightarrow>
      safe E ms L W (f u) Q k1 (insert (Drawn u) own) \<or> safe E ms L W (f u) Q k1 own"
  shows "safe E ms L W (bindS (atom (uuid_io E)) f) Q k own"
proof (rule shared.safe_bindS [where P = "\<lambda>r k1 o1. \<exists>u. r = Inr u \<and> safe E ms L W (f u) Q k1 o1"])
  show "safe E ms L W (atom (uuid_io E)) (\<lambda>r k1 o1. \<exists>u. r = Inr u \<and> safe E ms L W (f u) Q k1 o1) k own"
  proof (rule shared.safe_atom)
    fix w k1 others r w1
    assume a: "grows k k1" "own \<inter> others = {}" "good E ms L W k1 (own \<union> others) w" "draws_on w1 L" "uuid_io E w = (r, w1)"
    obtain u where r: "r = Inr u" using a(5) by auto
    note d = good_draw [OF a(3) a(5) [unfolded r] a(4)]
    have both: "good E ms L W k1 (insert (Drawn u) own \<union> others) w1" "good E ms L W k1 (own \<union> others) w1"
      using d(2) good_drop [OF d(2), of "own \<union> others"] by auto
    have "insert (Drawn u) own \<inter> others = {}" using d(1) a(2) by auto
    with assms [OF a(1) d(3)] d(1) both a(2) r
    show "\<exists>k2 own2. grows k1 k2 \<and> own2 \<inter> others = {} \<and> good E ms L W k2 (own2 \<union> others) w1 \<and>
        (\<exists>u. r = Inr u \<and> safe E ms L W (f u) Q k2 own2)"
      using grows_refl' by blast
  qed
qed auto

text \<open>A statement that adds no row and changes nothing that is known of one.\<close>

definition retaining :: "world \<Rightarrow> world \<Rightarrow> bool" where
  "retaining w w1 \<longleftrightarrow> retains (w_db w) (w_db w1)"

lemma retains_trans:
  assumes r: "retains a b" and q: "retains b c"
  shows "retains a c"
  unfolding retains_def
proof (intro conjI ballI)
  fix d1 assume "d1 \<in> set (folders c)"
  then show "\<exists>d \<in> set (folders a). d_id d1 = d_id d \<and> d_mount d1 = d_mount d"
    by (auto dest!: retainsE(1) [OF q] retainsE(1) [OF r])
next
  fix f1 assume "f1 \<in> set (files c)"
  then show "\<exists>f \<in> set (files a). f_id f1 = f_id f \<and> f_mount f1 = f_mount f \<and> f_storage_key f1 = f_storage_key f"
    by (auto dest!: retainsE(2) [OF q] retainsE(2) [OF r])
next
  fix s1 assume "s1 \<in> set (sessions c)"
  then show "\<exists>s \<in> set (sessions a). s_id s1 = s_id s \<and> s_token_hash s1 = s_token_hash s \<and>
      (s_revoked_at s \<noteq> None \<longrightarrow> s_revoked_at s1 \<noteq> None)"
    by (fastforce dest!: retainsE(3) [OF q] retainsE(3) [OF r])
qed

lemma retaining_preorder [simp]: "reflp retaining" "transp retaining"
  using retains_trans by (auto simp: reflp_def transp_def retaining_def)

definition row_safe :: "env \<Rightarrow> mounts \<Rightarrow> 'a io \<Rightarrow> bool" where
  "row_safe E ms m \<longleftrightarrow> (\<forall>fs. keeps (preserving (rows_stored E ms fs)) m) \<and> keeps (preserving layout_ok) m \<and>
     keeps same_fs m \<and> keeps draws_on m \<and> keeps retaining m"

lemma good_row_safe:
  assumes "row_safe E ms m" "good E ms L W k own w" "m w = (r, w1)"
  shows "good E ms L W k own w1"
proof (rule good_retains [OF assms(2)])
  show "retains (w_db w) (w_db w1)" using assms(1,3) keepsD [of retaining m w] by (simp add: row_safe_def retaining_def)
  show fs: "w_fs w1 = w_fs w" using assms(1,3) same_fs_result by (auto simp: row_safe_def)
  show "draws_on w w1" using assms(1,3) keepsD [of draws_on m w] by (simp add: row_safe_def)
  show "layout_ok (w_db w1)"
    using assms preservingD [of layout_ok m w r w1] by (simp add: row_safe_def good_def)
  show "objects_ok E ms w1"
    using assms preservingD [of "rows_stored E ms (w_fs w)" m w r w1] fs by (simp add: row_safe_def good_def objects_ok_def)
qed

lemma safe_rows:
  assumes "row_safe E ms m" "\<And>r k1. grows k k1 \<Longrightarrow> Q r k1 own"
  shows "safe E ms L W (atom m) Q k own"
proof (rule shared.safe_atom)
  fix w k1 others r w1
  assume "grows k k1" "own \<inter> others = {}" "good E ms L W k1 (own \<union> others) w" "m w = (r, w1)"
  with good_row_safe [OF assms(1)] assms(2)
  show "\<exists>k2 own2. grows k1 k2 \<and> own2 \<inter> others = {} \<and> good E ms L W k2 (own2 \<union> others) w1 \<and> Q r k2 own2"
    by (intro exI [of _ k1] exI [of _ own]) auto
qed

lemma safe_bind_rows:
  assumes "row_safe E ms m"
    and "\<And>x k1. grows k k1 \<Longrightarrow> safe E ms L W (f x) Q k1 own"
    and "\<And>e k1. grows k k1 \<Longrightarrow> Q (Inl e) k1 own"
  shows "safe E ms L W (bindS (atom m) f) Q k own"
  by (rule shared.safe_bindS [where P = "\<lambda>r k1 o1. o1 = own"]) (auto intro: safe_rows assms)

end
