(* ===== verification/Operation_Safety.thy ===== *)
theory Operation_Safety
  imports Script_Safety
begin

text \<open>
  The operations of the file service and of the authentication service are safe under
  interference.
\<close>

section \<open>The statements that add no row\<close>

lemma retains_other:
  "folders db1 = folders db \<Longrightarrow> files db1 = files db \<Longrightarrow> sessions db1 = sessions db \<Longrightarrow> retains db db1"
  by (auto simp: retains_def)

lemma retains_statements:
  "delete_where file_table p db = Inr (n, db1) \<Longrightarrow> retains db db1"
  "delete_where session_table q db = Inr (n, db1) \<Longrightarrow> retains db db1"
  "delete_where audit_table a db = Inr (n, db1) \<Longrightarrow> retains db db1"
  "insert_into audit_table ev db = Inr (x, db1) \<Longrightarrow> retains db db1"
  "update_where session_table q (revoke_row t) db = Inr (n, db1) \<Longrightarrow> retains db db1"
  by (auto simp: delete_where_def insert_into_Inr update_where_Inr retains_def
      file_table_def session_table_def audit_table_def revoke_row_def)

lemma retains_delete_folders:
  assumes "delete_folders p db = Inr (n, db1)"
  shows "retains db db1"
proof -
  have "\<exists>f \<in> set (files db). g = f \<or> g = f\<lparr>f_folder_id := None\<rparr>" if "g \<in> set (files db1)" for g
  proof -
    from that assms obtain f where "f \<in> set (files db)" "g = f \<or> g = f\<lparr>f_folder_id := None\<rparr>"
      by (auto simp: delete_folders_def Let_def split: option.splits if_splits)
    then show ?thesis by blast
  qed
  moreover have "set (folders db1) \<subseteq> set (folders db)" "sessions db1 = sessions db"
    using assms by (auto simp: delete_folders_def Let_def)
  ultimately show ?thesis unfolding retains_def by fastforce
qed

lemma retains_update_file:
  assumes "update_where file_table p g db = Inr (n, db1)"
    and "\<And>f. f_id (g f) = f_id f \<and> f_mount (g f) = f_mount f \<and> f_storage_key (g f) = f_storage_key f"
  shows "retains db db1"
  using assms by (auto simp: update_where_Inr file_table_def retains_def)

lemma retains_update_folder:
  assumes "update_where folder_table p g db = Inr (n, db1)" "\<And>d. d_id (g d) = d_id d \<and> d_mount (g d) = d_mount d"
  shows "retains db db1"
  using assms by (auto simp: update_where_Inr folder_table_def retains_def)

lemma sql_io_retaining:
  assumes "\<And>db x db1. stmt db = Inr (x, db1) \<Longrightarrow> retains db db1"
  shows "keeps retaining (sql_io E stmt)"
  unfolding keeps_def
proof
  fix w
  obtain r w1 where s: "sql_io E stmt w = (r, w1)" by fastforce
  show "retaining w (snd (sql_io E stmt w))"
  proof (cases r)
    case (Inl e)
    with s sql_io_Inl_same have "w_db w1 = w_db w" by metis
    with s show ?thesis by (simp add: retaining_def)
  next
    case (Inr x)
    with s have "stmt (w_db w) = Inr (x, w_db w1)" by (auto simp: sql_io_Inr)
    with s assms show ?thesis by (simp add: retaining_def)
  qed
qed

lemma file_writes_retain:
  "keeps retaining (rename_folder E i n t)" "keeps retaining (soft_delete_file E i t)"
  "keeps retaining (restore_file E i)" "keeps retaining (delete_file_permanently E i)"
  "keeps retaining (rename_file E i n t)" "keeps retaining (audit E ev)"
  "keeps retaining (affected (sql_io E (delete_folders p)))"
  unfolding rename_folder_def soft_delete_file_def restore_file_def delete_file_permanently_def rename_file_def audit_def
  by (auto intro!: keeps_intro sql_io_retaining elim: retains_statements retains_delete_folders retains_update_file retains_update_folder)

lemma file_writes_draw:
  "keeps draws_on (rename_folder E i n t)" "keeps draws_on (soft_delete_file E i t)"
  "keeps draws_on (restore_file E i)" "keeps draws_on (delete_file_permanently E i)"
  "keeps draws_on (rename_file E i n t)" "keeps draws_on (audit E ev)"
  "keeps draws_on (affected (sql_io E f))"
  unfolding rename_folder_def soft_delete_file_def restore_file_def delete_file_permanently_def rename_file_def audit_def
  by (auto intro!: keeps_intro)

lemma delete_folders_atom:
  "keeps (preserving (rows_stored E ms fs)) (affected (sql_io E (delete_folders p)))"
  "keeps (preserving layout_ok) (affected (sql_io E (delete_folders p)))"
  "keeps same_fs (affected (sql_io E f))"
  by (auto intro!: keeps_intro sql_io_preserving elim: rows_stored_delete_folders layout_delete_folders)

lemma file_writes_row_safe:
  "row_safe E ms (rename_folder E i n t)" "row_safe E ms (soft_delete_file E i t)"
  "row_safe E ms (restore_file E i)" "row_safe E ms (delete_file_permanently E i)"
  "row_safe E ms (rename_file E i n t)" "row_safe E ms (audit E ev)"
  "row_safe E ms (affected (sql_io E (delete_folders p)))"
  unfolding row_safe_def
  by (intro conjI allI repository_rows_stored layout_repository file_writes_keep file_writes_draw file_writes_retain
      delete_folders_atom)+

text \<open>A statement on the sessions leaves rows and objects as they are.\<close>

lemma docs_row_safe:
  assumes "keeps (preserving db_ok) m" "\<And>D F. keeps (preserving (docs D F)) m"
  shows "keeps (preserving (rows_stored E ms fs)) m" "keeps (preserving layout_ok) m"
proof -
  have same: "folders (w_db (snd (m w))) = folders (w_db w) \<and> files (w_db (snd (m w))) = files (w_db w)" for w
    using preserving_snd [OF assms(2), of "folders (w_db w)" "files (w_db w)" w] by (simp add: docs_def)
  have ok: "db_ok (w_db w) \<Longrightarrow> db_ok (w_db (snd (m w)))" for w using preserving_snd [OF assms(1)] .
  show "keeps (preserving (rows_stored E ms fs)) m" "keeps (preserving layout_ok) m"
    using same ok by (simp_all add: keeps_def preserving_def rows_stored_def layout_ok_def)
qed

lemma session_row_safe: "row_safe E ms (revoke_session E i t)"
proof -
  have "keeps retaining (revoke_session E i t)"
    unfolding revoke_session_def by (auto intro!: keeps_intro sql_io_retaining elim: retains_statements)
  then show ?thesis
    unfolding row_safe_def
    by (intro conjI allI docs_row_safe session_writes_db_ok session_writes_docs session_writes_keep)
qed

lemma open_object_draws [keeps_intro]: "keeps draws_on (open_object E s key)"
  unfolding open_object_def by (intro keeps_intro) simp_all

lemma quiet_actions [simp]:
  "quiet (now_io E)" "quiet (find_folder E i)" "quiet (find_file E i)" "quiet (find_trashed_file E i)"
  "quiet (find_active_by_checksum E k c)" "quiet (check_mount E i k)" "quiet (open_object E s key)"
  "quiet (sql_query E q)" "quiet (random_token E)"
  "quiet (find_user_by_username E u)" "quiet (find_user_by_id E i)"
  "quiet (find_active_session_by_token_hash E h t)" "quiet (validate_session E i t)"
  unfolding quiet_def
  by (intro conjI keeps_intro find_user_keeps find_active_keeps validate_session_keeps random_token_keeps open_object_keeps)+

lemma quiet_os: "(\<And>fs x fs1. g fs = Inr (x, fs1) \<Longrightarrow> fs1 = fs) \<Longrightarrow> quiet (os_io E g)"
  unfolding quiet_def
  by (intro conjI keeps_intro)
    (auto simp: keeps_def same_fs_def os_io_def Let_def split: option.splits sum.splits prod.splits)

end
