(* ===== verification/Object_Safety.thy ===== *)
theory Object_Safety
  imports Operation_Safety
begin

text \<open>
  The object store under interference: a saved object is the script's own until it is
  registered or discarded, and a failed save leaves it nothing.
\<close>

lemma safe_own_os:
  assumes c: "claim_id c = Some u" and p: "safe_path E s (object_key u) = Inr p"
    and act: "\<And>fs x fs1. act fs = Inr (x, fs1) \<Longrightarrow> fs1 = fs(p := z)"
    and no: "\<And>e k1. grows k k1 \<Longrightarrow> Q (Inl e) k1 {c} \<or> Q (Inl e) k1 {}"
    and yes: "\<And>x k1. grows k k1 \<Longrightarrow> Q (Inr x) k1 (case z of None \<Rightarrow> {} | Some b \<Rightarrow> {Object u p b})"
  shows "safe E ms L W (atom (os_io E act)) Q k {c}"
proof (rule shared.safe_atom)
  fix w k1 others r w1
  assume a: "grows k k1" "{c} \<inter> others = {}" "good E ms L W k1 ({c} \<union> others) w" "draws_on w1 L" "os_io E act w = (r, w1)"
  have d: "draws_on w w1" using a(5) keepsD [of draws_on "os_io E act" w] by (simp add: draws_on_primitives)
  have db: "w_db w1 = w_db w" using a(5) same_db_result [OF os_io_keeps_db] by blast
  have g: "good E ms L W k1 (insert c others) w" and n: "c \<notin> others" using a(2,3) by auto
  show "\<exists>k2 own2. grows k1 k2 \<and> own2 \<inter> others = {} \<and> good E ms L W k2 (own2 \<union> others) w1 \<and> Q r k2 own2"
  proof (cases r)
    case (Inl e)
    then have "w_fs w1 = w_fs w" using a(5) os_io_Inl by metis
    from good_same [OF a(3) db this d] have g1: "good E ms L W k1 ({c} \<union> others) w1" .
    have g0: "good E ms L W k1 ({} \<union> others) w1" by (rule good_drop [OF g1]) auto
    from no [OF a(1), of e] show ?thesis
    proof
      assume "Q (Inl e) k1 {c}"
      with a(2) g1 Inl show ?thesis by (intro exI [of _ k1] exI [of _ "{c}"]) simp
    next
      assume "Q (Inl e) k1 {}"
      with g0 Inl show ?thesis by (intro exI [of _ k1] exI [of _ "{}"]) simp
    qed
  next
    case (Inr x)
    with a(5) act have fs: "w_fs w1 = (w_fs w)(p := z)" by (auto simp: os_io_Inr)
    note o' = good_own_object [OF g n c p db fs d]
    show ?thesis
    proof (cases z)
      case None
      with o'(1) yes [OF a(1)] Inr show ?thesis by (intro exI [of _ k1] exI [of _ "{}"]) auto
    next
      case (Some b)
      with o'(2) yes [OF a(1)] Inr show ?thesis by (intro exI [of _ k1] exI [of _ "{Object u p b}"]) auto
    qed
  qed
qed

lemma delete_object_draws [keeps_intro]: "keeps draws_on (delete_object E s key)"
  unfolding delete_object_def by (intro keeps_intro) simp_all

text \<open>Giving an object up: removed or not, it is nobody's any more.\<close>

lemma good_discard:
  assumes g: "good E ms L W k (own \<union> others) w" "own \<inter> others = {}" "Object u p b \<in> own"
    and p: "safe_path E s (object_key u) = Inr p" and d: "delete_object E s (object_key u) w = (r, w1)"
  shows "good E ms L W k others w1"
proof -
  have g1: "good E ms L W k (insert (Object u p b) others) w" by (rule good_drop [OF g(1)]) (use g(3) in auto)
  have n: "Object u p b \<notin> others" using g(2,3) by auto
  have dr: "draws_on w w1"
    using d keepsD [OF delete_object_draws, of w E s "object_key u"] by simp
  show ?thesis
  proof (cases r)
    case (Inl e)
    with d delete_object_Inl have "w_fs w1 = w_fs w" "w_db w1 = w_db w" by metis+
    with good_same [OF good_drop [OF g1 subset_insertI] _ _ dr] show ?thesis by simp
  next
    case (Inr x)
    with d delete_object_Inr [of E s "object_key u" w x w1] p have w1: "w_db w1 = w_db w" "w_fs w1 = (w_fs w)(p := None)"
      by auto
    show ?thesis by (rule good_own_object(1) [OF g1 n _ p w1 dr]) simp
  qed
qed

lemma safe_discard:
  assumes "Object u p b \<in> own" "safe_path E s (object_key u) = Inr p" "\<And>r k1. grows k k1 \<Longrightarrow> Q r k1 {}"
  shows "safe E ms L W (atom (delete_object E s (object_key u))) Q k own"
proof (rule shared.safe_atom)
  fix w k1 others r w1
  assume "grows k k1" "own \<inter> others = {}" "good E ms L W k1 (own \<union> others) w" "delete_object E s (object_key u) w = (r, w1)"
  with good_discard [OF _ _ assms(1,2)] assms(3)
  show "\<exists>k2 own2. grows k1 k2 \<and> own2 \<inter> others = {} \<and> good E ms L W k2 (own2 \<union> others) w1 \<and> Q r k2 own2"
    by (intro exI [of _ k1] exI [of _ "{}"]) auto
qed

lemma safe_then_raise:
  assumes "safe E ms L W s (\<lambda>r k1 o1. o1 = {}) k own" "\<And>k1. grows k k1 \<Longrightarrow> Q (Inl e) k1 {}"
  shows "safe E ms L W (bindS (ignoreS s) (\<lambda>_. raiseS e)) Q k own"
  by (rule shared.safe_bindS [where P = "\<lambda>r k1 o1. r = Inr () \<and> o1 = {}"])
    (auto intro!: shared.safe_ignoreS simp: assms shared.safe_leaves)

lemma safe_give_up:
  assumes "Object u p b \<in> own" "safe_path E s (object_key u) = Inr p" "\<And>k1. grows k k1 \<Longrightarrow> Q (Inl e) k1 {}"
  shows "safe E ms L W (bindS (ignoreS (atom (delete_object E s (object_key u)))) (\<lambda>_. raiseS e)) Q k own"
  by (rule safe_then_raise) (auto intro: safe_discard [OF assms(1,2)] assms(3))

lemma safe_cleanup:
  assumes p: "safe_path E s (object_key u) = Inr p" and q: "\<And>k1. grows k k1 \<Longrightarrow> Q (Inl e) k1 {}"
  shows "safe E ms L W (cleanup_script E p e) Q k {Object u p b}"
  unfolding cleanup_script_def os_remove_def
  by (rule safe_then_raise, rule safe_own_os [where z = None and u = u, OF _ p]) (auto split: option.splits intro: q)

lemma safe_detect:
  assumes "\<And>t k1. grows k k1 \<Longrightarrow> Q (Inr t) k1 own"
  shows "safe E ms L W (detect_script E p) Q k own"
proof -
  have buffer: "safe E ms L W (handleS (atom (os_io E (\<lambda>fs. Inr (take 512 content, fs)))) (\<lambda>e. retS []) retS)
      (\<lambda>r k1 o1. (\<exists>t. r = Inr t) \<and> o1 = own) k1 own" for content :: bytes and k1
    by (rule safe_handle_quiet) (auto intro: quiet_os simp: shared.safe_leaves)
  show ?thesis
    unfolding detect_script_def Let_def
  proof (rule safe_handle_quiet)
    show "quiet (os_io E (\<lambda>fs. case fs p of None \<Rightarrow> Inl (OsError ''not exist'') | Some b \<Rightarrow> Inr (b, fs)))"
      by (rule quiet_os) (auto split: option.splits)
  next
    fix content k1 assume k1: "grows k k1"
    show "safe E ms L W (bindS (handleS (atom (os_io E (\<lambda>fs. Inr (take 512 content, fs)))) (\<lambda>e. retS []) retS) (\<lambda>buffer.
        retS (if x_detect_mime E buffer = ''application/octet-stream'' \<and> x_ext_mime E (path_ext p) \<noteq> []
              then x_ext_mime E (path_ext p) else x_detect_mime E buffer))) Q k1 own"
      by (rule shared.safe_bindS [OF buffer]) (auto simp: shared.safe_leaves intro: assms grows_trans' [OF k1])
  qed (auto simp: shared.safe_leaves intro: assms)
qed

text \<open>What is known of a saved object.\<close>

definition saved :: "env \<Rightarrow> local_store \<Rightarrow> bytes \<times> err option \<Rightarrow> file_info \<Rightarrow> string \<Rightarrow> string \<Rightarrow> bytes \<Rightarrow> bool" where
  "saved E s src info u p b \<longleftrightarrow> uuid_text u \<and> i_key info = object_key u \<and> safe_path E s (object_key u) = Inr p \<and>
     i_size info = int (length b) \<and> i_checksum info = checksum_of E b \<and>
     limit_read src (int64_add (l_max_bytes s) 1) = (b, None) \<and> int (length b) \<le> l_max_bytes s"

lemma safe_write_object:
  assumes u: "uuid_text u" and p: "safe_path E s (object_key u) = Inr p"
    and no: "\<And>e k1. grows k k1 \<Longrightarrow> Q (Inl e) k1 {}"
    and yes: "\<And>info b k1. grows k k1 \<Longrightarrow> saved E s src info u p b \<Longrightarrow> Q (Inr info) k1 {Object u p b}"
  shows "safe E ms L W (write_object_script E s src (object_key u) name p) Q k {Object u p b0}"
proof -
  obtain c re where lr: "limit_read src (int64_add (l_max_bytes s) 1) = (c, re)" by fastforce
  have fail: "safe E ms L W (cleanup_script E p e) Q k1 {Object u p b}" if "grows k k1" for e k1 b
    by (rule safe_cleanup [OF p]) (use no grows_trans' [OF that] in blast)
  let ?info = "\<lambda>t. \<lparr>i_key = object_key u, i_filename = name, i_size = int (length c), i_content_type = t, i_checksum = checksum_of E c\<rparr>"
  have close: "safe E ms L W (handleS (atom (os_io E (\<lambda>fs. Inr ((), fs))))
      (\<lambda>e. cleanup_script E p (Wrapped ''close object'' e)) (\<lambda>_. retS (?info t))) Q k1 {Object u p c}"
    if "grows k k1" "re = None" "int (length c) \<le> l_max_bytes s" for k1 t
    by (rule safe_handle_quiet)
      (use that lr u p in \<open>auto intro!: quiet_os fail yes simp: shared.safe_leaves saved_def elim: grows_trans'\<close>)
  let ?rest = "bindS (detect_script E p) (\<lambda>detected.
      if l_allowed_mimes s \<noteq> [] \<and> normalize_mime E detected \<notin> set (l_allowed_mimes s) then cleanup_script E p ErrInvalidMIME
      else handleS (atom (os_io E (\<lambda>fs. Inr ((), fs)))) (\<lambda>e. cleanup_script E p (Wrapped ''close object'' e))
             (\<lambda>_. retS (?info (normalize_mime E detected))))"
  have rest: "safe E ms L W ?rest Q k1 {Object u p c}"
    if k1: "grows k k1" and ok: "re = None" "int (length c) \<le> l_max_bytes s" for k1
    by (rule shared.safe_bindS [where P = "\<lambda>r k2 o2. (\<exists>t. r = Inr t) \<and> o2 = {Object u p c}"])
      (auto intro: safe_detect fail close ok grows_trans' [OF k1])
  have "safe E ms L W (handleS (atom (os_io E (\<lambda>fs. Inr ((), fs(p \<mapsto> c)))))
      (\<lambda>e. cleanup_script E p (Wrapped ''write object'' e))
      (\<lambda>_. case re of None \<Rightarrow> if l_max_bytes s < int (length c) then cleanup_script E p ErrTooLarge else ?rest
          | Some e \<Rightarrow> cleanup_script E p (Wrapped ''write object'' e))) Q k {Object u p b0}"
  proof (rule shared.safe_handleS [where P = "\<lambda>r k1 o1. \<exists>b. o1 = {Object u p b} \<and> (\<forall>x. r = Inr x \<longrightarrow> b = c)"])
    show "safe E ms L W (atom (os_io E (\<lambda>fs. Inr ((), fs(p \<mapsto> c)))))
        (\<lambda>r k1 o1. \<exists>b. o1 = {Object u p b} \<and> (\<forall>x. r = Inr x \<longrightarrow> b = c)) k {Object u p b0}"
      by (rule safe_own_os [where z = "Some c" and u = u, OF _ p]) auto
  qed (use fail rest in \<open>auto split: option.split\<close>)
  then show ?thesis unfolding write_object_script_def Let_def lr prod.case .
qed

lemma safe_create_object:
  assumes u: "uuid_text u" and p: "safe_path E s (object_key u) = Inr p"
    and no: "\<And>e k1. grows k k1 \<Longrightarrow> Q (Inl e) k1 {}"
    and yes: "\<And>info b k1. grows k k1 \<Longrightarrow> saved E s src info u p b \<Longrightarrow> Q (Inr info) k1 {Object u p b}"
  shows "safe E ms L W (bindS (wrapS ''create object'' (atom (create_excl E p))) (\<lambda>_.
    write_object_script E s src (object_key u) name p)) Q k {Drawn u}"
proof (rule shared.safe_bindS [where P = "\<lambda>r k1 o1. case r of Inl e \<Rightarrow> o1 = {} | Inr x \<Rightarrow> o1 = {Object u p []}"])
  show "safe E ms L W (wrapS ''create object'' (atom (create_excl E p)))
      (\<lambda>r k1 o1. case r of Inl e \<Rightarrow> o1 = {} | Inr x \<Rightarrow> o1 = {Object u p []}) k {Drawn u}"
    unfolding create_excl_def
    by (rule shared.safe_wrapS, rule safe_own_os [where z = "Some []" and u = u, OF _ p]) (auto split: option.splits)
next
  fix x :: unit and k1 o1
  assume "grows k k1" "case Inr x of Inl e \<Rightarrow> o1 = {} | Inr (y :: unit) \<Rightarrow> o1 = {Object u p []}"
  then show "safe E ms L W (write_object_script E s src (object_key u) name p) Q k1 o1"
    using safe_write_object [OF u p, of k1 Q src] no yes grows_trans' by auto
qed (use no in auto)

lemma safe_save_object:
  assumes no: "\<And>e k1. grows k k1 \<Longrightarrow> Q (Inl e) k1 {}"
    and yes: "\<And>info u p b k1. grows k k1 \<Longrightarrow> saved E s src info u p b \<Longrightarrow> Q (Inr info) k1 {Object u p b}"
  shows "safe E ms L W (save_object_script E s src name) Q k {}"
proof (cases "sanitize_filename name")
  case (Inl e)
  then show ?thesis using no [OF grows_refl'] by (simp add: save_object_script_def bindS_leaves shared.safe_leaves)
next
  case (Inr clean)
  have mkdir: "safe E ms L W (bindS (wrapS ''create object directory'' (atom (os_io E (\<lambda>fs. Inr ((), fs))))) (\<lambda>_.
      bindS (wrapS ''create object'' (atom (create_excl E p))) (\<lambda>_.
      write_object_script E s src (object_key u) clean p))) Q k1 {Drawn u}"
    if u: "uuid_text u" and k1: "grows k k1" and p: "safe_path E s (object_key u) = Inr p" for u k1 p
    unfolding wrapS_atom [of "''create object directory''"]
  proof (rule safe_bind_quiet)
    fix x :: unit and k2 assume k2: "grows k1 k2"
    show "safe E ms L W (bindS (wrapS ''create object'' (atom (create_excl E p))) (\<lambda>_.
        write_object_script E s src (object_key u) clean p)) Q k2 {Drawn u}"
      by (rule safe_create_object [OF u p]) (use no yes k1 k2 grows_trans' in blast)+
  qed (auto intro!: quiet_wrapE quiet_os disjI2 no elim: grows_trans' [OF k1])
  have "safe E ms L W (bindS (atom (uuid_io E)) (\<lambda>object_id.
     bindS (liftS (safe_path E s (object_key object_id))) (\<lambda>path.
     bindS (wrapS ''create object directory'' (atom (os_io E (\<lambda>fs. Inr ((), fs))))) (\<lambda>_.
     bindS (wrapS ''create object'' (atom (create_excl E path))) (\<lambda>_.
     write_object_script E s src (object_key object_id) clean path))))) Q k {}"
  proof (rule safe_draw)
    fix u k1 assume "grows k k1" "uuid_text u"
    with mkdir no show "safe E ms L W (bindS (liftS (safe_path E s (object_key u))) (\<lambda>path.
     bindS (wrapS ''create object directory'' (atom (os_io E (\<lambda>fs. Inr ((), fs))))) (\<lambda>_.
     bindS (wrapS ''create object'' (atom (create_excl E path))) (\<lambda>_.
     write_object_script E s src (object_key u) clean path)))) Q k1 {Drawn u} \<or> 
     safe E ms L W (bindS (liftS (safe_path E s (object_key u))) (\<lambda>path.
     bindS (wrapS ''create object directory'' (atom (os_io E (\<lambda>fs. Inr ((), fs))))) (\<lambda>_.
     bindS (wrapS ''create object'' (atom (create_excl E path))) (\<lambda>_.
     write_object_script E s src (object_key u) clean path)))) Q k1 {}"
      by (cases "safe_path E s (object_key u)") (auto simp: bindS_leaves shared.safe_leaves)
  qed
  with Inr show ?thesis by (simp add: save_object_script_def bindS_leaves Let_def)
qed

end
