(* ===== verification/File_Safety.thy ===== *)
theory File_Safety
  imports Object_Safety
begin

text \<open>
  The operations of the file service under interference: what a read of a row lets its script
  know for good, the registration of an upload and of a copy, the purge of a trashed file.
\<close>

section \<open>What a read lets one know\<close>

definition known_file :: "env \<Rightarrow> mounts \<Rightarrow> file_item \<Rightarrow> know \<Rightarrow> bool" where
  "known_file E ms f k \<longleftrightarrow> k_file k (fl_id f) = Some (fl_mount f, fl_storage_key f) \<and>
     (\<exists>u. uuid_text u \<and> fl_storage_key f = object_key u) \<and>
     (\<forall>m. by_id ms (fl_mount f) = Some m \<longrightarrow>
        (\<exists>p b. safe_path E (m_store m) (fl_storage_key f) = Inr p \<and> k_obj k p = Some b \<and>
               fl_size f = int (length b) \<and> fl_checksum f = checksum_of E b))"

lemma known_file_grows: "grows k k1 \<Longrightarrow> known_file E ms f k \<Longrightarrow> known_file E ms f k1"
  unfolding known_file_def by (meson growsD(2,3))

lemma row_known_file:
  assumes "good E ms L W k own w" "r \<in> set (files (w_db w))"
  shows "known_file E ms (file_of_row r) k"
proof -
  have st: "stored E ms (w_fs w) r" and rk: "rows_known k (w_db w)" and ok: "objects_known E ms k w"
    using assms by (auto simp: good_def objects_ok_def rows_stored_def)
  have "\<exists>p b. safe_path E (m_store m) (f_storage_key r) = Inr p \<and> k_obj k p = Some b \<and>
      f_size r = int (length b) \<and> f_checksum r = checksum_of E b" if m: "by_id ms (f_mount r) = Some m" for m
  proof -
    obtain p b where p: "safe_path E (m_store m) (f_storage_key r) = Inr p" "w_fs w p = Some b"
      "f_size r = int (length b)" "f_checksum r = checksum_of E b"
      using st m by (auto simp: stored_def)
    moreover have "k_obj k p = Some b" using ok assms(2) m p(1,2) by (fastforce simp: objects_known_def)
    ultimately show ?thesis by blast
  qed
  with st rk assms(2) show ?thesis by (auto simp: known_file_def rows_known_def stored_def)
qed

lemma find_file_known: "result_of E ms L W (find_file E i) (Inr f) k \<Longrightarrow> known_file E ms f k \<and> fl_id f = i"
  unfolding result_of_def by (auto elim!: find_file_Inr dest: row_known_file)

lemma find_trashed_known: "result_of E ms L W (find_trashed_file E i) (Inr f) k \<Longrightarrow> known_file E ms f k \<and> fl_id f = i"
  unfolding result_of_def by (auto elim!: find_trashed_file_Inr dest: row_known_file)

lemma folder_row_known:
  assumes "good E ms L W k own w" "row_with folder_table d_id i (w_db w) = Some d"
  shows "k_dir k i = Some (d_mount d)"
  using assms folder_ids.row_with_SomeD [OF assms(2)] by (auto simp: good_def rows_known_def folder_table_def)

lemma find_folder_known: "result_of E ms L W (find_folder E i) (Inr d) k \<Longrightarrow> k_dir k i = Some (fd_mount d)"
  unfolding result_of_def by (auto elim!: find_folder_Inr dest: folder_row_known simp: folder_of_row_def)

lemma check_mount_known:
  "result_of E ms L W (check_mount E i m) (Inr x) k \<Longrightarrow> i \<noteq> [] \<Longrightarrow> k_dir k i = Some m"
  unfolding result_of_def by (auto dest!: check_mount_Inr folder_row_known)

text \<open>An object that is opened has the content it is known by.\<close>

lemma open_object_known:
  assumes "result_of E ms L W (open_object E s key) (Inr c) k" "safe_path E s key = Inr p" "k_obj k p = Some b"
  shows "c = b"
proof -
  from assms(1) obtain w w1 own where g: "good E ms L W k own w" and o': "open_object E s key w = (Inr c, w1)"
    by (auto simp: result_of_def)
  from open_object_Inr(1) [OF o'] assms(2) have "w_fs w p = Some c" by simp
  moreover have "w_fs w p = None \<or> w_fs w p = Some b" using g assms(3) by (simp add: good_def objects_known_def)
  ultimately show ?thesis by simp
qed

section \<open>Registering a file\<close>

lemma insert_atom:
  assumes "conflict_or msg (sql_io E (insert_into T r)) w = (z, w1)"
  shows "case z of Inl e \<Rightarrow> w_db w1 = w_db w | Inr x \<Rightarrow> insert_into T r (w_db w) = Inr ((), w_db w1)"
    and "w_fs w1 = w_fs w" "draws_on w w1"
proof -
  show "w_fs w1 = w_fs w"
    using same_fs_result [of "conflict_or msg (sql_io E (insert_into T r))" w z w1] assms
    by (simp add: keeps_conflict_or sql_io_keeps_fs)
  show "draws_on w w1" using keepsD [of draws_on "conflict_or msg (sql_io E (insert_into T r))" w] assms
    by (simp add: keeps_conflict_or draws_on_primitives)
  show "case z of Inl e \<Rightarrow> w_db w1 = w_db w | Inr x \<Rightarrow> insert_into T r (w_db w) = Inr ((), w_db w1)"
    using assms by (auto simp: conflict_or_def handleE_eq sql_io_Inr split: sum.split if_splits dest: sql_io_Inl_same)
qed

lemma safe_create_file:
  fixes u p b i :: string
  defines "own \<equiv> {Object u p b, Drawn i}"
  assumes item: "fl_id item = i" "fl_storage_key item = object_key u"
    and content: "\<And>fs. fs p = Some b \<Longrightarrow> stored E ms fs (row_of_file item)"
    and path: "\<And>m q. by_id ms (fl_mount item) = Some m \<Longrightarrow> safe_path E (m_store m) (object_key u) = Inr q \<Longrightarrow> q = p"
    and no: "\<And>e k1. grows k k1 \<Longrightarrow> Q (Inl e) k1 own"
    and yes: "\<And>k1. grows k k1 \<Longrightarrow> Q (Inr ()) k1 {}"
  shows "safe E ms L W (create_file_script E item) Q k own"
  unfolding create_file_script_def
proof (rule safe_bind_quiet)
  fix x :: unit and k1
  assume k1: "grows k k1" and c: "result_of E ms L W (check_mount E (fl_folder_id item) (fl_mount item)) (Inr x) k1"
  show "safe E ms L W (atom (conflict_or ''create file'' (sql_io E (insert_into file_table (row_of_file item))))) Q k1 own"
  proof (rule shared.safe_atom)
    fix w k2 others r w1
    assume a: "grows k1 k2" "own \<inter> others = {}" "good E ms L W k2 (own \<union> others) w"
      and m: "conflict_or ''create file'' (sql_io E (insert_into file_table (row_of_file item))) w = (r, w1)"
    have k2: "grows k k2" using grows_trans' [OF k1 a(1)] .
    note i = insert_atom [OF m]
    show "\<exists>k3 own2. grows k2 k3 \<and> own2 \<inter> others = {} \<and> good E ms L W k3 (own2 \<union> others) w1 \<and> Q r k3 own2"
    proof (cases r)
      case (Inl e)
      with i good_same [OF a(3)] no [OF k2] a(2) show ?thesis by (intro exI [of _ k2] exI [of _ own]) auto
    next
      case (Inr y)
      with i have ins: "insert_into file_table (row_of_file item) (w_db w) = Inr ((), w_db w1)" by simp
      have fs: "w_fs w p = Some b" using a(3) by (auto simp: good_def own_def)
      have dir: "k_dir k2 d = Some (f_mount (row_of_file item))" if "f_folder_id (row_of_file item) = Some d" for d
        using that check_mount_known [OF c] growsD(1) [OF a(1)] by (auto simp: nullable_string_def split: if_splits)
      have "\<exists>k3. grows k2 k3 \<and> good E ms L W k3 others w1"
        by (rule good_new_file [OF a(3) [unfolded own_def] a(2) [unfolded own_def] ins i(2,3)])
          (use item path dir content [of "w_fs w"] fs in auto)
      then obtain k3 where k3: "grows k2 k3" "good E ms L W k3 others w1" by blast
      with yes [OF grows_trans' [OF k2 k3(1)]] Inr show ?thesis by (intro exI [of _ k3] exI [of _ "{}"]) simp
    qed
  qed
qed (simp_all add: no)

lemma safe_bind_now:
  assumes "\<And>t k1. grows k k1 \<Longrightarrow> safe E ms L W (f t) Q k1 own"
  shows "safe E ms L W (bindS (atom (now_io E)) f) Q k own"
proof (rule shared.safe_bindS)
  show "safe E ms L W (atom (now_io E)) (\<lambda>r k1 o1. (\<exists>t. r = Inr t) \<and> o1 = own) k own"
    by (rule safe_quiet [OF quiet_actions(1)]) (auto simp: result_of_def now_io_def)
qed (use assms in auto)

lemma safe_record_audit:
  assumes "\<And>k1. grows k k1 \<Longrightarrow> Q (Inr ()) k1 own"
  shows "safe E ms L W (record_audit_script E act i) Q k own"
  unfolding record_audit_script_def
proof (rule safe_draw, rule disjI2, rule safe_bind_now)
  fix u k1 now k2 assume k: "grows k k1" "grows k1 k2"
  show "safe E ms L W (ignoreS (atom (audit E \<lparr>ev_id = u, ev_action = act, ev_resource_id = i, ev_metadata = [],
      ev_created_at = now\<rparr>))) Q k2 own"
    by (rule shared.safe_ignoreS, rule safe_rows [OF file_writes_row_safe(6)])
      (use assms k grows_trans' in blast)
qed

section \<open>Uploads and copies\<close>

text \<open>The end of both: the row is created, or the object is given up.\<close>

lemma safe_register:
  assumes item: "fl_id item = i" "fl_storage_key item = object_key u"
    and p: "safe_path E s (object_key u) = Inr p"
    and content: "\<And>fs. fs p = Some b \<Longrightarrow> stored E ms fs (row_of_file item)"
    and path: "\<And>m q. by_id ms (fl_mount item) = Some m \<Longrightarrow> safe_path E (m_store m) (object_key u) = Inr q \<Longrightarrow> q = p"
    and no: "\<And>e k1. grows k k1 \<Longrightarrow> Q (Inl e) k1 {}"
    and yes: "\<And>k1. grows k k1 \<Longrightarrow> safe E ms L W rest Q k1 {}"
  shows "safe E ms L W (handleS (create_file_script E item)
     (\<lambda>e. bindS (ignoreS (atom (delete_object E s (object_key u)))) (\<lambda>_. raiseS e)) (\<lambda>_. rest)) Q k {Object u p b, Drawn i}"
proof (rule shared.safe_handleS)
  show "safe E ms L W (create_file_script E item)
      (\<lambda>r k1 o1. case r of Inl e \<Rightarrow> o1 = {Object u p b, Drawn i} | Inr x \<Rightarrow> o1 = {}) k {Object u p b, Drawn i}"
    by (rule safe_create_file [OF item content path]) auto
next
  fix e :: err and k1 o1 assume "grows k k1" "case Inl e of Inl e \<Rightarrow> o1 = {Object u p b, Drawn i} | Inr (x :: unit) \<Rightarrow> o1 = {}"
  then show "safe E ms L W (bindS (ignoreS (atom (delete_object E s (object_key u)))) (\<lambda>_. raiseS e)) Q k1 o1"
    by (intro safe_give_up [OF _ p]) (auto intro: no grows_trans')
qed (use yes in auto)

lemma saved_stored:
  assumes "saved E (m_store m) src info u p b" "by_id ms (m_id m) = Some m"
    and "fl_mount item = m_id m" "fl_storage_key item = i_key info" "fl_size item = i_size info" "fl_checksum item = i_checksum info"
  shows "fs p = Some b \<Longrightarrow> stored E ms fs (row_of_file item)"
  using assms by (auto simp: stored_def saved_def)

lemma safe_register_upload:
  assumes sv: "saved E (m_store m) src info u p b" and m: "by_id ms (m_id m) = Some m"
    and q: "\<And>r k1. grows k k1 \<Longrightarrow> Q r k1 {}"
  shows "safe E ms L W (register_upload_script E m d info now) Q k {Object u p b}"
proof -
  have key: "i_key info = object_key u" "safe_path E (m_store m) (object_key u) = Inr p" using sv by (simp_all add: saved_def)
  show ?thesis
    unfolding register_upload_script_def Let_def key(1)
  proof (rule safe_draw, rule disjI1, unfold insert_commute [of "Drawn _"], rule safe_register [OF _ _ key(2)])
    fix i k1 k2 assume k: "grows k k1" "grows k1 k2"
    let ?item = "\<lparr>fl_id = i, fl_folder_id = d, fl_mount = m_id m, fl_storage_key = object_key u, fl_name = i_filename info,
      fl_content_type = i_content_type info, fl_size = i_size info, fl_checksum = i_checksum info, fl_created_at = now,
      fl_updated_at = now, fl_deleted_at = None\<rparr>"
    show "safe E ms L W (bindS (atom (uuid_io E)) (\<lambda>event_id. bindS (ignoreS (atom (audit E \<lparr>ev_id = event_id, ev_action = ''upload'',
        ev_resource_id = i, ev_metadata = fl_name ?item, ev_created_at = now\<rparr>))) (\<lambda>_. retS ?item))) Q k2 {}"
    proof (rule safe_draw, rule disjI2)
      fix v k3 assume k3: "grows k2 k3"
      have "grows k k3" using grows_trans' [OF grows_trans' [OF k] k3] .
      then show "safe E ms L W (bindS (ignoreS (atom (audit E \<lparr>ev_id = v, ev_action = ''upload'',
          ev_resource_id = i, ev_metadata = fl_name ?item, ev_created_at = now\<rparr>))) (\<lambda>_. retS ?item)) Q k3 {}"
        by (intro shared.safe_bindS [where P = "\<lambda>r k1 o1. r = Inr () \<and> o1 = {}"] shared.safe_ignoreS
            safe_rows [OF file_writes_row_safe(6)]) (auto simp: shared.safe_leaves intro: q grows_trans')
    qed
  qed (use m q key saved_stored [OF sv m] grows_trans' in \<open>auto simp: saved_def\<close>)
qed

lemma safe_upload:
  assumes q: "\<And>r k1. grows k k1 \<Longrightarrow> Q r k1 {}" and ok: "disks_ok ms"
  shows "safe E ms L W (upload_script E ms mid d name src) Q k {}"
proof -
  have store: "safe E ms L W (bindS (save_object_script E (m_store m) src name) (\<lambda>stored.
     bindS (atom (now_io E)) (\<lambda>now.
     handleS (atom (find_active_by_checksum E (m_id m) (i_checksum stored)))
       (\<lambda>_. register_upload_script E m d stored now)
       (\<lambda>existing. if fl_id existing \<noteq> []
          then bindS (ignoreS (atom (delete_object E (m_store m) (i_key stored)))) (\<lambda>_. retS existing)
          else register_upload_script E m d stored now)))) Q k1 {}"
    if k1: "grows k k1" and m: "get_mount ms x = Inr m" for k1 x m
  proof (rule shared.safe_bindS)
    show "safe E ms L W (save_object_script E (m_store m) src name) (\<lambda>r k2 o2. case r of Inl e \<Rightarrow> o2 = {}
        | Inr info \<Rightarrow> \<exists>u p b. saved E (m_store m) src info u p b \<and> o2 = {Object u p b}) k1 {}"
      by (rule safe_save_object) auto
  next
    fix info k2 o2
    assume k2: "grows k1 k2" and "case Inr info of Inl e \<Rightarrow> o2 = {}
        | Inr info \<Rightarrow> \<exists>u p b. saved E (m_store m) src info u p b \<and> o2 = {Object u p b}"
    then obtain u p b where sv: "saved E (m_store m) src info u p b" and o2: "o2 = {Object u p b}" by auto
    note mt = get_mount_by_id(1) [OF ok m]
    have q2: "Q r k' {}" if "grows k2 k'" for r k' using q grows_trans' [OF k1 grows_trans' [OF k2 that]] by blast
    have reg: "safe E ms L W (register_upload_script E m d info now) Q k3 {Object u p b}" if "grows k2 k3" for now k3
      by (rule safe_register_upload [OF sv mt]) (use q2 that grows_trans' in blast)
    have dis: "safe E ms L W (bindS (ignoreS (atom (delete_object E (m_store m) (i_key info)))) (\<lambda>_. retS existing)) Q k3 {Object u p b}"
      if "grows k2 k3" for existing :: file_item and k3
      using sv that q2 grows_trans' unfolding saved_def
      by (intro shared.safe_bindS [where P = "\<lambda>r k1 o1. r = Inr () \<and> o1 = {}"] shared.safe_ignoreS)
        (auto intro!: safe_discard simp: shared.safe_leaves)
    show "safe E ms L W (bindS (atom (now_io E)) (\<lambda>now.
     handleS (atom (find_active_by_checksum E (m_id m) (i_checksum info)))
       (\<lambda>_. register_upload_script E m d info now)
       (\<lambda>existing. if fl_id existing \<noteq> []
          then bindS (ignoreS (atom (delete_object E (m_store m) (i_key info)))) (\<lambda>_. retS existing)
          else register_upload_script E m d info now))) Q k2 o2"
      unfolding o2 by (rule safe_bind_now, rule safe_handle_quiet) (auto intro: reg dis grows_trans')
  qed (use q k1 grows_trans' in auto)
  have mounted: "safe E ms L W (bindS (liftS (get_mount ms x)) (\<lambda>m. bindS (save_object_script E (m_store m) src name) (\<lambda>stored.
     bindS (atom (now_io E)) (\<lambda>now.
     handleS (atom (find_active_by_checksum E (m_id m) (i_checksum stored)))
       (\<lambda>_. register_upload_script E m d stored now)
       (\<lambda>existing. if fl_id existing \<noteq> []
          then bindS (ignoreS (atom (delete_object E (m_store m) (i_key stored)))) (\<lambda>_. retS existing)
          else register_upload_script E m d stored now))))) Q k1 {}"
    if "grows k k1" for k1 x
    using that q store by (cases "get_mount ms x") (auto simp: bindS_leaves shared.safe_leaves)
  show ?thesis
    unfolding upload_script_def
    by (rule shared.safe_bindS [where P = "\<lambda>r k1 o1. o1 = {}"])
      (auto intro!: mounted q safe_bind_quiet simp: shared.safe_leaves)
qed

end
