(* ===== verification/Call_Safety.thy ===== *)
theory Call_Safety
  imports File_Safety
begin

text \<open>
  The remaining operations under interference: copies, downloads, purges, moves, folders, and
  the sessions with the one right to a refresh token.
\<close>

section \<open>Copies and downloads\<close>

text \<open>The bytes an open returns are those the row describes.\<close>

lemma known_content:
  assumes f: "known_file E ms f k" and m: "by_id ms (fl_mount f) = Some m"
    and o': "result_of E ms L W (open_object E (m_store m) (fl_storage_key f)) (Inr c) k"
  shows "fl_size f = int (length c) \<and> fl_checksum f = checksum_of E c"
proof -
  obtain p b where p: "safe_path E (m_store m) (fl_storage_key f) = Inr p" "k_obj k p = Some b"
    "fl_size f = int (length b)" "fl_checksum f = checksum_of E b"
    using f m unfolding known_file_def by blast
  have "c = b" by (rule open_object_known [OF o' p(1,2)])
  with p(3,4) show ?thesis by simp
qed

lemma copy_stored:
  assumes ok: "disks_ok ms" and m: "get_mount ms (fl_mount f) = Inr m" and sv: "saved E (m_store m) (c, None) info u p b"
    and content: "\<And>m. by_id ms (fl_mount f) = Some m \<Longrightarrow> fl_size f = int (length c) \<and> fl_checksum f = checksum_of E c"
    and item: "fl_mount item = fl_mount f" "fl_storage_key item = object_key u" "fl_size item = fl_size f"
      "fl_checksum item = fl_checksum f"
  shows "fs p = Some b \<Longrightarrow> stored E ms fs (row_of_file item)"
    and "by_id ms (fl_mount item) = Some m' \<Longrightarrow> safe_path E (m_store m') (object_key u) = Inr q \<Longrightarrow> q = p"
proof -
  note mt = get_mount_by_id [OF ok m]
  have "0 < l_max_bytes (m_store m)" "l_max_bytes (m_store m) < max_int64"
    using ok mt(3) by (auto simp: disks_ok_def)
  with sv have b: "b = c" "uuid_text u" "safe_path E (m_store m) (object_key u) = Inr p"
    using limit_read_fits [of "(c, None)" "l_max_bytes (m_store m)" b] by (auto simp: saved_def)
  have same: "m' = m" if "by_id ms (fl_mount f) = Some m'" for m'
  proof -
    have "fl_mount f \<noteq> []" using that ok by (auto simp: disks_ok_def)
    with mt(1,2) that show ?thesis by simp
  qed
  show "fs p = Some b \<Longrightarrow> stored E ms fs (row_of_file item)"
    using item content same b by (auto simp: stored_def)
  show "by_id ms (fl_mount item) = Some m' \<Longrightarrow> safe_path E (m_store m') (object_key u) = Inr q \<Longrightarrow> q = p"
    using same item(1) b(3) by auto
qed

lemma safe_copy_file:
  assumes q: "\<And>r k1. grows k k1 \<Longrightarrow> Q r k1 {}" and ok: "disks_ok ms"
  shows "safe E ms L W (copy_file_script E ms i d) Q k {}"
  unfolding copy_file_script_def
proof (rule safe_bind_quiet)
  fix f k1 assume k1: "grows k k1" and "result_of E ms L W (find_file E i) (Inr f) k1"
  then have f: "known_file E ms f k1" using find_file_known by blast
  let ?reg = "\<lambda>m stored. bindS (atom (now_io E)) (\<lambda>now.
     bindS (atom (uuid_io E)) (\<lambda>new_id.
     let copy = f\<lparr>fl_id := new_id, fl_folder_id := d, fl_mount := fl_mount f,
                       fl_storage_key := i_key stored, fl_created_at := now, fl_updated_at := now\<rparr>
     in handleS (create_file_script E copy)
          (\<lambda>e. bindS (ignoreS (atom (delete_object E (m_store m) (i_key stored)))) (\<lambda>_. raiseS e))
          (\<lambda>_. retS copy)))"
  show "safe E ms L W (bindS (liftS (get_mount ms (fl_mount f))) (\<lambda>m.
     bindS (copy_object_script E (m_store m) (fl_storage_key f) (fl_name f)) (?reg m))) Q k1 {}"
  proof (cases "get_mount ms (fl_mount f)")
    case (Inl e)
    with q [OF k1] show ?thesis by (simp add: bindS_leaves shared.safe_leaves)
  next
    case m: (Inr m)
    have "safe E ms L W (bindS (copy_object_script E (m_store m) (fl_storage_key f) (fl_name f)) (?reg m)) Q k1 {}"
    proof (rule shared.safe_bindS)
      show "safe E ms L W (copy_object_script E (m_store m) (fl_storage_key f) (fl_name f)) (\<lambda>r k2 o2. case r of Inl e \<Rightarrow> o2 = {}
          | Inr info \<Rightarrow> \<exists>u p b c. saved E (m_store m) (c, None) info u p b \<and> o2 = {Object u p b} \<and>
             (\<forall>m. by_id ms (fl_mount f) = Some m \<longrightarrow> fl_size f = int (length c) \<and> fl_checksum f = checksum_of E c)) k1 {}"
        unfolding copy_object_script_def
      proof (rule safe_bind_quiet)
        fix c k2 assume k2: "grows k1 k2"
          and o': "result_of E ms L W (open_object E (m_store m) (fl_storage_key f)) (Inr c) k2"
        have "fl_size f = int (length c) \<and> fl_checksum f = checksum_of E c" if "by_id ms (fl_mount f) = Some m'" for m'
        proof -
          have "fl_mount f \<noteq> []" using that ok by (auto simp: disks_ok_def)
          then have "by_id ms (fl_mount f) = Some m" using get_mount_by_id [OF ok m] by simp
          from known_content [OF known_file_grows [OF k2 f] this o'] show ?thesis .
        qed
        then show "safe E ms L W (save_object_script E (m_store m) (c, None) (fl_name f)) (\<lambda>r k2 o2. case r of Inl e \<Rightarrow> o2 = {}
          | Inr info \<Rightarrow> \<exists>u p b c. saved E (m_store m) (c, None) info u p b \<and> o2 = {Object u p b} \<and>
             (\<forall>m. by_id ms (fl_mount f) = Some m \<longrightarrow> fl_size f = int (length c) \<and> fl_checksum f = checksum_of E c)) k2 {}"
          by (intro safe_save_object) auto
      qed simp_all
    next
      fix info k2 o2
      assume k2: "grows k1 k2" and "case Inr info of Inl e \<Rightarrow> o2 = {}
          | Inr info \<Rightarrow> \<exists>u p b c. saved E (m_store m) (c, None) info u p b \<and> o2 = {Object u p b} \<and>
             (\<forall>m. by_id ms (fl_mount f) = Some m \<longrightarrow> fl_size f = int (length c) \<and> fl_checksum f = checksum_of E c)"
      then obtain u p b c where sv: "saved E (m_store m) (c, None) info u p b" and o2: "o2 = {Object u p b}"
        and c: "\<And>m. by_id ms (fl_mount f) = Some m \<Longrightarrow> fl_size f = int (length c) \<and> fl_checksum f = checksum_of E c" by auto
      have key: "i_key info = object_key u" "safe_path E (m_store m) (object_key u) = Inr p" using sv by (simp_all add: saved_def)
      have q2: "Q r k' {}" if "grows k2 k'" for r k' using q grows_trans' [OF k1 grows_trans' [OF k2 that]] by blast
      show "safe E ms L W (?reg m info) Q k2 o2"
        unfolding o2 Let_def key(1)
      proof (rule safe_bind_now, rule safe_draw, rule disjI1, unfold insert_commute [of "Drawn _"])
        fix now k3 j k4 assume k: "grows k2 k3" "grows k3 k4"
        let ?copy = "f\<lparr>fl_id := j, fl_folder_id := d, fl_mount := fl_mount f, fl_storage_key := object_key u,
          fl_created_at := now, fl_updated_at := now\<rparr>"
        have cp: "fl_mount ?copy = fl_mount f" "fl_storage_key ?copy = object_key u" "fl_size ?copy = fl_size f"
          "fl_checksum ?copy = fl_checksum f" "fl_id ?copy = j" by simp_all
        note st = copy_stored [OF ok m sv c cp(1-4)]
        show "safe E ms L W (handleS (create_file_script E ?copy)
            (\<lambda>e. bindS (ignoreS (atom (delete_object E (m_store m) (object_key u)))) (\<lambda>_. raiseS e)) (\<lambda>_. retS ?copy))
            Q k4 {Object u p b, Drawn j}"
          by (rule safe_register [OF cp(5,2) key(2) st])
            (auto simp: shared.safe_leaves intro!: q2 intro: grows_trans' [OF k(1)] grows_trans' [OF k(2)])
      qed
    qed (use q k1 grows_trans' in auto)
    with m show ?thesis by (simp add: bindS_leaves)
  qed
qed (use q in simp_all)

lemma safe_download:
  assumes no: "\<And>e k1. grows k k1 \<Longrightarrow> Q (Inl e) k1 {}" and ok: "disks_ok ms"
    and yes: "\<And>f c k1. grows k k1 \<Longrightarrow> fl_id f = i \<Longrightarrow>
      (fl_mount f \<noteq> [] \<longrightarrow> fl_size f = int (length c) \<and> fl_checksum f = checksum_of E c) \<Longrightarrow> Q (Inr (f, c)) k1 {}"
  shows "safe E ms L W (download_script E ms i) Q k {}"
  unfolding download_script_def
proof (rule safe_bind_quiet)
  fix f k1 assume k1: "grows k k1" and "result_of E ms L W (find_file E i) (Inr f) k1"
  then have f: "known_file E ms f k1" "fl_id f = i" using find_file_known by blast+
  show "safe E ms L W (bindS (liftS (get_mount ms (fl_mount f))) (\<lambda>m.
     bindS (atom (open_object E (m_store m) (fl_storage_key f))) (\<lambda>content.
     bindS (ignoreS (record_audit_script E ''download'' (fl_id f))) (\<lambda>_. retS (f, content))))) Q k1 {}"
  proof (cases "get_mount ms (fl_mount f)")
    case (Inl e)
    with no [OF k1] show ?thesis by (simp add: bindS_leaves shared.safe_leaves)
  next
    case m: (Inr m)
    have "safe E ms L W (bindS (atom (open_object E (m_store m) (fl_storage_key f))) (\<lambda>content.
      bindS (ignoreS (record_audit_script E ''download'' (fl_id f))) (\<lambda>_. retS (f, content)))) Q k1 {}"
    proof (rule safe_bind_quiet)
      fix c k2 assume k2: "grows k1 k2"
        and o': "result_of E ms L W (open_object E (m_store m) (fl_storage_key f)) (Inr c) k2"
      have c: "fl_mount f \<noteq> [] \<longrightarrow> fl_size f = int (length c) \<and> fl_checksum f = checksum_of E c"
        using known_content [OF known_file_grows [OF k2 f(1)] _ o'] get_mount_by_id(1,2) [OF ok m] by metis
      show "safe E ms L W (bindS (ignoreS (record_audit_script E ''download'' (fl_id f))) (\<lambda>_. retS (f, c))) Q k2 {}"
        by (intro shared.safe_bindS [where P = "\<lambda>r k1 o1. r = Inr () \<and> o1 = {}"] shared.safe_ignoreS safe_record_audit)
          (auto simp: shared.safe_leaves intro!: yes f(2) c [rule_format] intro: grows_trans' [OF k1] grows_trans' [OF k2])
    qed (use no k1 grows_trans' in auto)
    with m show ?thesis by (simp add: bindS_leaves)
  qed
qed (use no in auto)

section \<open>Purges\<close>

lemma safe_purge_row:
  assumes f: "known_file E ms f k" "fl_id f = i" "fl_storage_key f = object_key u" "uuid_text u"
  shows "safe E ms L W (atom (delete_file_permanently E i)) (\<lambda>r k1 o1. o1 = {} \<and> (\<forall>x. r = Inr x \<longrightarrow> u \<in> k_gone k1)) k {}"
proof (rule shared.safe_atom)
  fix w k1 others r w1
  assume a: "grows k k1" "{} \<inter> others = {}" "good E ms L W k1 ({} \<union> others) w" and m: "delete_file_permanently E i w = (r, w1)"
  have g: "good E ms L W k1 others w1" using good_row_safe [OF file_writes_row_safe(4) a(3) m] by simp
  show "\<exists>k2 own2. grows k1 k2 \<and> own2 \<inter> others = {} \<and> good E ms L W k2 (own2 \<union> others) w1 \<and>
      own2 = {} \<and> (\<forall>x. r = Inr x \<longrightarrow> u \<in> k_gone k2)"
  proof (cases r)
    case (Inl e)
    with g show ?thesis by (intro exI [of _ k1] exI [of _ "{}"]) simp
  next
    case (Inr x)
    obtain n where n: "n \<noteq> 0" "delete_where file_table (\<lambda>f. f_id f = i \<and> \<not> active f) (w_db w) = Inr (n, w_db w1)"
      using m Inr by (auto simp: delete_file_permanently_def affected_Inr sql_io_Inr)
    then obtain r0 where r0: "r0 \<in> set (files (w_db w))" "f_id r0 = i" "\<not> active r0"
      by (auto simp: delete_where_def file_table_def filter_empty_conv)
    have "k_file k1 i = Some (fl_mount f, object_key u)"
      using f growsD(2) [OF a(1)] by (auto simp: known_file_def)
    then have key: "f_storage_key r0 = object_key u" using a(3) r0(1,2) by (auto simp: good_def rows_known_def)
    have t: "table_ok file_table (w_db w)" using a(3) by (simp add: good_def layout_ok_def db_ok_def)
    have d: "draws_on w w1" using m keepsD [OF file_writes_draw(4), of w E i] by simp
    have "grows k1 (k1\<lparr>k_gone := insert u (k_gone k1)\<rparr>) \<and> good E ms L W (k1\<lparr>k_gone := insert u (k_gone k1)\<rparr>) others w1"
      by (rule good_gone [OF _ f(4) r0(1) key g _ d])
        (use a(3) key trashed_key_gone [OF t r0 m [unfolded Inr]] in auto)
    then show ?thesis by (intro exI [of _ "k1\<lparr>k_gone := insert u (k_gone k1)\<rparr>"] exI [of _ "{}"]) simp
  qed
qed

lemma safe_delete_gone:
  assumes u: "u \<in> k_gone k" "uuid_text u" and q: "\<And>r k1. grows k k1 \<Longrightarrow> Q r k1 own"
  shows "safe E ms L W (atom (delete_object E s (object_key u))) Q k own"
proof (rule shared.safe_atom)
  fix w k1 others r w1
  assume a: "grows k k1" "own \<inter> others = {}" "good E ms L W k1 (own \<union> others) w" and m: "delete_object E s (object_key u) w = (r, w1)"
  have d: "draws_on w w1" using m keepsD [OF delete_object_draws, of w E s "object_key u"] by simp
  have "good E ms L W k1 (own \<union> others) w1"
  proof (cases r)
    case (Inl e)
    with m delete_object_Inl have "w_fs w1 = w_fs w" "w_db w1 = w_db w" by metis+
    with good_same [OF a(3) _ _ d] show ?thesis by simp
  next
    case (Inr x)
    obtain p where "safe_path E s (object_key u) = Inr p" "w_db w1 = w_db w" "w_fs w1 = (w_fs w)(p := None)"
      using delete_object_Inr [OF m [unfolded Inr]] by auto
    from good_gone_object [OF a(3) growsD(5) [OF a(1) u(1)] u(2) this d] show ?thesis .
  qed
  with a(1,2) q show "\<exists>k2 own2. grows k1 k2 \<and> own2 \<inter> others = {} \<and> good E ms L W k2 (own2 \<union> others) w1 \<and> Q r k2 own2"
    by (intro exI [of _ k1] exI [of _ own]) simp
qed

lemma safe_permanently_delete:
  assumes q: "\<And>r k1. grows k k1 \<Longrightarrow> Q r k1 {}"
  shows "safe E ms L W (permanently_delete_script E ms i) Q k {}"
  unfolding permanently_delete_script_def
proof (rule safe_bind_quiet)
  fix f k1 assume k1: "grows k k1" and "result_of E ms L W (find_trashed_file E i) (Inr f) k1"
  then have f: "known_file E ms f k1" "fl_id f = i" using find_trashed_known by blast+
  then obtain u where u: "fl_storage_key f = object_key u" "uuid_text u" by (auto simp: known_file_def)
  show "safe E ms L W (bindS (atom (delete_file_permanently E i)) (\<lambda>_.
     bindS (liftS (get_mount ms (fl_mount f))) (\<lambda>m.
     bindS (atom (delete_object E (m_store m) (fl_storage_key f))) (\<lambda>_. record_audit_script E ''purge'' i)))) Q k1 {}"
  proof (rule shared.safe_bindS [OF safe_purge_row [OF f u]])
    fix x :: unit and k2 and o2 :: "claim set" assume k2: "grows k1 k2" and "o2 = {} \<and> (\<forall>y. Inr x = (Inr y :: err + unit) \<longrightarrow> u \<in> k_gone k2)"
    then have o2: "o2 = {}" "u \<in> k_gone k2" by auto
    have q2: "Q r k' {}" if "grows k2 k'" for r k' using q grows_trans' [OF k1 grows_trans' [OF k2 that]] by blast
    have "safe E ms L W (bindS (atom (delete_object E (m_store m) (object_key u))) (\<lambda>_. record_audit_script E ''purge'' i)) Q k2 {}"
      for m
      by (rule shared.safe_bindS [where P = "\<lambda>r k1 o1. o1 = {}"])
        (auto intro: safe_delete_gone [OF o2(2) u(2)] intro!: safe_record_audit q2 intro: grows_trans')
    then show "safe E ms L W (bindS (liftS (get_mount ms (fl_mount f))) (\<lambda>m.
        bindS (atom (delete_object E (m_store m) (fl_storage_key f))) (\<lambda>_. record_audit_script E ''purge'' i))) Q k2 o2"
      using q2 [OF grows_refl'] by (cases "get_mount ms (fl_mount f)") (simp_all add: bindS_leaves shared.safe_leaves o2(1) u(1))
  qed (use q k1 grows_trans' in auto)
qed (use q in auto)

section \<open>Moves and folders\<close>

lemma safe_move_row:
  assumes known: "d \<noteq> [] \<Longrightarrow> \<exists>m key. k_file k i = Some (m, key) \<and> k_dir k d = Some m"
    and q: "\<And>r k1. grows k k1 \<Longrightarrow> Q r k1 {}"
  shows "safe E ms L W (atom (affected (sql_io E (update_where file_table (\<lambda>f. f_id f = i \<and> active f)
       (\<lambda>f. f\<lparr>f_folder_id := nullable_string d, f_updated_at := stamp now\<rparr>))))) Q k {}"
proof (rule shared.safe_atom)
  let ?s = "update_where file_table (\<lambda>f. f_id f = i \<and> active f) (\<lambda>f. f\<lparr>f_folder_id := nullable_string d, f_updated_at := stamp now\<rparr>)"
  fix w k1 others r w1
  assume a: "grows k k1" "{} \<inter> others = {}" "good E ms L W k1 ({} \<union> others) w" and m: "affected (sql_io E ?s) w = (r, w1)"
  have fs: "w_fs w1 = w_fs w" using same_fs_result [OF delete_folders_atom(3) m] .
  have dr: "draws_on w w1" using m keepsD [OF file_writes_draw(7), of w E ?s] by simp
  have cases: "w_db w1 = w_db w \<or> (\<exists>n. ?s (w_db w) = Inr (n, w_db w1))"
    using m by (auto simp: affected_def bindE_def sql_io_def Let_def split: option.splits sum.splits prod.splits if_splits)
  have "good E ms L W k1 others w1"
  proof (cases "w_db w1 = w_db w")
    case True
    from good_same [OF a(3) this fs dr] show ?thesis by simp
  next
    case False
    then obtain n where u: "?s (w_db w) = Inr (n, w_db w1)" using cases by blast
    have rk: "rows_known k1 (w_db w)" and l: "layout_ok (w_db w)" and o': "objects_ok E ms w" using a(3) by (simp_all add: good_def)
    have "retains (w_db w) (w_db w1)" by (rule retains_update_file [OF u]) simp
    moreover have "objects_ok E ms w1"
      using rows_stored_update [OF u, of E ms "w_fs w"] o' fs by (simp add: objects_ok_def)
    moreover have "layout_ok (w_db w1)"
    proof (rule layout_update_file [OF u l])
      fix f x assume f: "f_id f = i \<and> active f" "f \<in> set (files (w_db w))"
        and x: "f_folder_id (f\<lparr>f_folder_id := nullable_string d, f_updated_at := stamp now\<rparr>) = Some x"
      then have d: "d \<noteq> []" "x = d" by (auto simp: nullable_string_def split: if_splits)
      with known obtain mt key where "k_file k i = Some (mt, key)" "k_dir k d = Some mt" by blast
      then have kn: "k_file k1 i = Some (mt, key)" "k_dir k1 d = Some mt" using growsD(1,2) [OF a(1)] by auto
      then have mt: "f_mount f = mt" using rk f by (auto simp: rows_known_def)
      have "folders_exist (folders (w_db w1)) (files (w_db w1))" and db: "folders (w_db w1) = folders (w_db w)"
        using u by (auto simp: update_where_Inr file_table_def)
      moreover have "f\<lparr>f_folder_id := Some d, f_updated_at := stamp now\<rparr> \<in> set (files (w_db w1))"
        using u f d(1) by (force simp: update_where_Inr file_table_def nullable_string_def)
      ultimately obtain row where "row \<in> set (folders (w_db w))" "d_id row = d"
        by (fastforce simp: folders_exist_def list_all_iff)
      with known_folder [OF rk] kn(2) d(2) mt show "\<exists>row\<in>set (folders (w_db w)). d_id row = x \<and> d_mount row = f_mount f" by auto
    qed simp
    ultimately show ?thesis using good_retains [OF a(3) _ fs dr] by simp
  qed
  with a(1) q show "\<exists>k2 own2. grows k1 k2 \<and> own2 \<inter> others = {} \<and> good E ms L W k2 (own2 \<union> others) w1 \<and> Q r k2 own2"
    by (intro exI [of _ k1] exI [of _ "{}"]) simp
qed

lemma safe_svc_move_file:
  assumes q: "\<And>r k1. grows k k1 \<Longrightarrow> Q r k1 {}"
  shows "safe E ms L W (svc_move_file_script E i d) Q k {}"
  unfolding svc_move_file_script_def
proof (rule shared.safe_bindS)
  show "safe E ms L W (if d = [] then retS () else
            bindS (atom (find_file E i)) (\<lambda>source.
            bindS (atom (find_folder E d)) (\<lambda>dir.
            guardS (fl_mount source = fd_mount dir) ErrMountMismatch)))
     (\<lambda>r k1 o1. o1 = {} \<and> (r = Inr () \<longrightarrow> d \<noteq> [] \<longrightarrow> (\<exists>m key. k_file k1 i = Some (m, key) \<and> k_dir k1 d = Some m))) k {}"
    by (auto intro!: safe_bind_quiet simp: shared.safe_leaves)
      (metis find_file_known find_folder_known growsD(2) known_file_def)
next
  fix x :: unit and k1 and o1 :: "claim set"
  assume k1: "grows k k1" and
    "o1 = {} \<and> (Inr x = (Inr () :: err + unit) \<longrightarrow> d \<noteq> [] \<longrightarrow> (\<exists>m key. k_file k1 i = Some (m, key) \<and> k_dir k1 d = Some m))"
  then have o1: "o1 = {}" "d \<noteq> [] \<Longrightarrow> \<exists>m key. k_file k1 i = Some (m, key) \<and> k_dir k1 d = Some m" by auto
  have move: "safe E ms L W (atom (affected (sql_io E (update_where file_table (\<lambda>f. f_id f = i \<and> active f)
       (\<lambda>f. f\<lparr>f_folder_id := nullable_string d, f_updated_at := stamp now\<rparr>))))) Q k2 {}" if k2: "grows k1 k2" for k2 now
    by (rule safe_move_row) (use o1(2) growsD(1,2) [OF k2] q grows_trans' [OF k1 grows_trans' [OF k2]] in blast)+
  show "safe E ms L W (bindS (atom (now_io E)) (move_file_script E i d)) Q k1 o1"
    unfolding o1(1) move_file_script_def
  proof (rule safe_bind_now, rule shared.safe_bindS [where P = "\<lambda>r k1 o1. o1 = {}"])
    fix now k2 assume k2: "grows k1 k2"
    show "safe E ms L W (if d = [] then retS () else bindS (atom (sql_query E (row_with folder_table d_id d)))
        (\<lambda>row. guardS (row \<noteq> None) ErrNotFound)) (\<lambda>r k1 o1. o1 = {}) k2 {}"
      by (auto intro!: safe_bind_quiet simp: shared.safe_leaves)
  next
    fix e and k2 k3 :: know and o3 :: "claim set" assume "grows k1 k2" "grows k2 k3" "o3 = {}"
    then show "Q (Inl e) k3 o3" using q grows_trans' k1 by blast
  next
    fix now k2 k3 and o3 :: "claim set" assume "grows k1 k2" "grows k2 k3" "o3 = {}"
    then show "safe E ms L W (atom (affected (sql_io E (update_where file_table (\<lambda>f. f_id f = i \<and> active f)
       (\<lambda>f. f\<lparr>f_folder_id := nullable_string d, f_updated_at := stamp now\<rparr>))))) Q k3 o3"
      using move grows_trans' by blast
  qed
qed (use q in auto)

end
