(* ===== verification/Session_Safety.thy ===== *)
theory Session_Safety
  imports Call_Safety
begin

text \<open>
  Folders, renames and restores, and the sessions: of all scripts that rotate the session of a
  watched refresh token, one at most gets the claim \<open>Spent\<close>.
\<close>

section \<open>Folders and names\<close>

lemma safe_create_folder:
  assumes item: "fd_id item = i" and no: "\<And>e k1. grows k k1 \<Longrightarrow> Q (Inl e) k1 {}" and yes: "\<And>k1. grows k k1 \<Longrightarrow> Q (Inr ()) k1 {}"
  shows "safe E ms L W (create_folder_script E item) Q k {Drawn i}"
  unfolding create_folder_script_def
proof (rule safe_bind_quiet)
  fix x :: unit and k1
  assume k1: "grows k k1" and c: "result_of E ms L W (check_mount E (fd_parent_id item) (fd_mount item)) (Inr x) k1"
  show "safe E ms L W (atom (conflict_or ''create folder'' (sql_io E (insert_into folder_table (row_of_folder item))))) Q k1 {Drawn i}"
  proof (rule shared.safe_atom)
    fix w k2 others r w1
    assume a: "grows k1 k2" "{Drawn i} \<inter> others = {}" "good E ms L W k2 ({Drawn i} \<union> others) w"
      and m: "conflict_or ''create folder'' (sql_io E (insert_into folder_table (row_of_folder item))) w = (r, w1)"
    have k2: "grows k k2" using grows_trans' [OF k1 a(1)] .
    note i = insert_atom [OF m]
    show "\<exists>k3 own2. grows k2 k3 \<and> own2 \<inter> others = {} \<and> good E ms L W k3 (own2 \<union> others) w1 \<and> Q r k3 own2"
    proof (cases r)
      case (Inl e)
      have "good E ms L W k2 ({Drawn i} \<union> others) w1" by (rule good_same [OF a(3)]) (use i Inl in auto)
      then have "good E ms L W k2 ({} \<union> others) w1" by (rule good_drop) auto
      with no [OF k2] Inl show ?thesis by (intro exI [of _ k2] exI [of _ "{}"]) simp
    next
      case (Inr y)
      with i have ins: "insert_into folder_table (row_of_folder item) (w_db w) = Inr ((), w_db w1)" by simp
      have dir: "k_dir k2 d = Some (d_mount (row_of_folder item))" if "d_parent_id (row_of_folder item) = Some d" for d
        using that check_mount_known [OF c] growsD(1) [OF a(1)]
        by (auto simp: row_of_folder_def nullable_string_def split: if_splits)
      have "\<exists>k3. grows k2 k3 \<and> good E ms L W k3 others w1"
        by (rule good_new_folder [OF a(3) _ ins i(2,3)]) (use item a(2) dir in \<open>auto simp: row_of_folder_def\<close>)
      then obtain k3 where k3: "grows k2 k3" "good E ms L W k3 others w1" by blast
      with yes [OF grows_trans' [OF k2 k3(1)]] Inr show ?thesis by (intro exI [of _ k3] exI [of _ "{}"]) simp
    qed
  qed
qed (use no in simp_all)

lemma safe_svc_create_folder:
  assumes q: "\<And>r k1. grows k k1 \<Longrightarrow> Q r k1 {}"
  shows "safe E ms L W (svc_create_folder_script E ms mid p n) Q k {}"
proof -
  let ?make = "\<lambda>mount. bindS (atom (now_io E)) (\<lambda>now. bindS (atom (uuid_io E)) (\<lambda>i.
      let item = \<lparr>fd_id = i, fd_parent_id = p, fd_mount = mount, fd_name = trim_space n,
                  fd_created_at = now, fd_updated_at = now\<rparr>
      in bindS (create_folder_script E item) (\<lambda>_. retS item)))"
  have make: "safe E ms L W (?make mount) Q k1 {}" if k1: "grows k k1" for mount k1
    unfolding Let_def
  proof (rule safe_bind_now, rule safe_draw, rule disjI1)
    fix now k2 i k3 assume k: "grows k1 k2" "grows k2 k3"
    have k3: "grows k k3" using grows_trans' [OF k1 grows_trans' [OF k]] .
    let ?item = "\<lparr>fd_id = i, fd_parent_id = p, fd_mount = mount, fd_name = trim_space n, fd_created_at = now, fd_updated_at = now\<rparr>"
    show "safe E ms L W (bindS (create_folder_script E ?item) (\<lambda>_. retS ?item)) Q k3 {Drawn i}"
    proof (rule shared.safe_bindS)
      show "safe E ms L W (create_folder_script E ?item) (\<lambda>r k1 o1. o1 = {}) k3 {Drawn i}"
        by (rule safe_create_folder) simp_all
    qed (use q grows_trans' [OF k3] in \<open>auto simp: shared.safe_leaves\<close>)
  qed
  have mounted: "safe E ms L W (bindS (liftS (get_mount ms mount)) (\<lambda>_. ?make mount)) Q k1 {}" if "grows k k1" for mount k1
    using make [OF that] q [OF that] by (cases "get_mount ms mount") (simp_all add: bindS_leaves shared.safe_leaves)
  have "safe E ms L W (bindS (if p = [] then retS mid else bindS (atom (find_folder E p)) (\<lambda>parent. retS (fd_mount parent)))
      (\<lambda>mount. bindS (liftS (get_mount ms mount)) (\<lambda>_. ?make mount))) Q k {}"
    by (rule shared.safe_bindS [where P = "\<lambda>r k1 o1. o1 = {}"])
      (auto intro!: mounted q safe_bind_quiet simp: shared.safe_leaves)
  then show ?thesis
    unfolding svc_create_folder_script_def Let_def
    using q [OF grows_refl'] by (cases "validate_folder_name (trim_space n)") (simp_all add: bindS_leaves shared.safe_leaves)
qed

lemma safe_delete_folder:
  assumes q: "\<And>r k1. grows k k1 \<Longrightarrow> Q r k1 {}"
  shows "safe E ms L W (delete_folder_script E i) Q k {}"
  unfolding delete_folder_script_def
proof (rule safe_bind_quiet)
  fix x k1 assume k1: "grows k k1"
  have q1: "Q r k2 {}" if "grows k1 k2" for r k2 using q grows_trans' [OF k1 that] .
  show "safe E ms L W (case x of (children, fs) \<Rightarrow> if children > 0 \<or> fs > 0 then raiseS ErrConflict
      else atom (affected (sql_io E (delete_folders (\<lambda>d. d_id d = i))))) Q k1 {}"
    by (auto simp: shared.safe_leaves intro!: q [OF k1] safe_rows [OF file_writes_row_safe(7)] q1 split: prod.split)
qed (use q in auto)

lemma safe_rename_folder: "(\<And>r k1. grows k k1 \<Longrightarrow> Q r k1 {}) \<Longrightarrow> safe E ms L W (svc_rename_folder_script E i n) Q k {}"
  unfolding svc_rename_folder_script_def Let_def
  by (cases "validate_folder_name (trim_space n)")
    (auto simp: bindS_leaves shared.safe_leaves intro!: safe_bind_now safe_rows [OF file_writes_row_safe(1)] intro: grows_trans')

lemma safe_rename_file: "(\<And>r k1. grows k k1 \<Longrightarrow> Q r k1 {}) \<Longrightarrow> safe E ms L W (svc_rename_file_script E i n) Q k {}"
  unfolding svc_rename_file_script_def
  by (auto simp: shared.safe_leaves intro!: safe_bind_now safe_rows [OF file_writes_row_safe(5)] intro: grows_trans' split: sum.split)

lemma safe_bind_audit:
  assumes q: "\<And>r k1. grows k k1 \<Longrightarrow> Q r k1 {}" and m: "row_safe E ms m"
  shows "safe E ms L W (bindS (atom m) (\<lambda>_. record_audit_script E a i)) Q k {}"
  by (rule safe_bind_rows [OF m]) (auto intro!: safe_record_audit q intro: grows_trans')

lemma safe_restore_file: "(\<And>r k1. grows k k1 \<Longrightarrow> Q r k1 {}) \<Longrightarrow> safe E ms L W (svc_restore_file_script E i) Q k {}"
  unfolding svc_restore_file_script_def by (rule safe_bind_audit [OF _ file_writes_row_safe(3)])

lemma safe_delete_file:
  assumes q: "\<And>r k1. grows k k1 \<Longrightarrow> Q r k1 {}"
  shows "safe E ms L W (delete_file_script E i) Q k {}"
  unfolding delete_file_script_def
  by (rule safe_bind_now, rule safe_bind_audit [OF _ file_writes_row_safe(2)]) (use q grows_trans' in blast)

section \<open>Sessions\<close>

text \<open>A new session has the digest of fresh random bytes.\<close>

lemma random_token_fresh:
  assumes "result_of E ms L W (random_token E) (Inr tok) k"
  shows "hash_refresh_token E tok \<notin> W"
  using assms by (auto simp: result_of_def random_token_Inr good_def draws_fresh_def draws_on_def)

lemma safe_new_session:
  assumes no: "\<And>e k1 o1. grows k k1 \<Longrightarrow> Q (Inl e) k1 o1"
    and yes: "\<And>tk s k1. grows k k1 \<Longrightarrow> ss_token_hash s \<notin> W \<Longrightarrow> Q (Inr (tk, s)) k1 {Drawn (ss_id s)}"
  shows "safe E ms L W (new_session_script E m) Q k {}"
  unfolding new_session_script_def
proof (rule safe_draw, rule disjI1)
  fix sid k1 assume k1: "grows k k1"
  have issued: "safe E ms L W (issue_script E m single_user_id sid)
      (\<lambda>r k2 o2. case r of Inl e \<Rightarrow> True | Inr tk \<Rightarrow> o2 = {Drawn sid} \<and> hash_refresh_token E (tk_refresh tk) \<notin> W) k1 {Drawn sid}"
    unfolding issue_script_def Let_def
  proof (rule safe_bind_now)
    fix now k2
    let ?P = "\<lambda>r k2 o2. case r of Inl e \<Rightarrow> True | Inr tk \<Rightarrow> o2 = {Drawn sid} \<and> hash_refresh_token E (tk_refresh tk) \<notin> W"
    have "safe E ms L W (bindS (wrapS ''create refresh token'' (atom (random_token E))) (\<lambda>refresh.
            retS \<lparr>tk_access = access, tk_refresh = refresh, tk_expires_at = now + tm_access_ttl m,
                  tk_refresh_expires_at = now + tm_refresh_ttl m\<rparr>)) ?P k2 {Drawn sid}" for access
      unfolding wrapS_atom
    proof (rule safe_bind_quiet)
      fix x k3 assume "result_of E ms L W (wrapE ''create refresh token'' (random_token E)) (Inr x) k3"
      then have "hash_refresh_token E x \<notin> W" using random_token_fresh [of E ms L W x k3] by (auto simp: result_of_def)
      then show "safe E ms L W (retS \<lparr>tk_access = access, tk_refresh = x, tk_expires_at = now + tm_access_ttl m,
                  tk_refresh_expires_at = now + tm_refresh_ttl m\<rparr>) ?P k3 {Drawn sid}" by (simp add: shared.safe_leaves)
    qed (simp_all add: quiet_wrapE)
    then show "safe E ms L W (case x_jwt_sign E (tm_secret m) \<lparr>c_issuer = tm_issuer m, c_subject = single_user_id, c_id = sid,
               c_issued_at = Some (x_numeric_date E now), c_not_before = Some (x_numeric_date E now),
               c_expires_at = Some (x_numeric_date E (now + tm_access_ttl m))\<rparr> of
          None \<Rightarrow> raiseS (Wrapped ''sign access token'' (TextError ''jwt''))
        | Some access \<Rightarrow>
            bindS (wrapS ''create refresh token'' (atom (random_token E))) (\<lambda>refresh.
            retS \<lparr>tk_access = access, tk_refresh = refresh, tk_expires_at = now + tm_access_ttl m,
                  tk_refresh_expires_at = now + tm_refresh_ttl m\<rparr>)) ?P k2 {Drawn sid}"
      by (simp add: shared.safe_leaves split: option.split)
  qed
  show "safe E ms L W (bindS (issue_script E m single_user_id sid) (\<lambda>tk.
     bindS (atom (now_io E)) (\<lambda>now.
     retS (tk, \<lparr>ss_id = sid, ss_token_hash = hash_refresh_token E (tk_refresh tk),
                ss_expires_at = tk_refresh_expires_at tk, ss_revoked_at = None, ss_created_at = now\<rparr>)))) Q k1 {Drawn sid}"
  proof (rule shared.safe_bindS [OF issued])
    fix tk :: tokens and k2 and o2 :: "claim set"
    assume k2: "grows k1 k2" and "case Inr tk of Inl e \<Rightarrow> True | Inr tk \<Rightarrow> o2 = {Drawn sid} \<and> hash_refresh_token E (tk_refresh tk) \<notin> W"
    then have o2: "o2 = {Drawn sid}" "hash_refresh_token E (tk_refresh tk) \<notin> W" by auto
    show "safe E ms L W (bindS (atom (now_io E)) (\<lambda>now. retS (tk, \<lparr>ss_id = sid, ss_token_hash = hash_refresh_token E (tk_refresh tk),
                ss_expires_at = tk_refresh_expires_at tk, ss_revoked_at = None, ss_created_at = now\<rparr>))) Q k2 o2"
      unfolding o2(1)
    proof (rule safe_bind_now)
      fix now k3 assume "grows k2 k3"
      with k1 k2 have "grows k k3" using grows_trans' by blast
      then show "safe E ms L W (retS (tk, \<lparr>ss_id = sid, ss_token_hash = hash_refresh_token E (tk_refresh tk),
                ss_expires_at = tk_refresh_expires_at tk, ss_revoked_at = None, ss_created_at = now\<rparr>)) Q k3 {Drawn sid}"
        using yes [of k3 "\<lparr>ss_id = sid, ss_token_hash = hash_refresh_token E (tk_refresh tk),
                ss_expires_at = tk_refresh_expires_at tk, ss_revoked_at = None, ss_created_at = now\<rparr>" tk] o2(2)
        by (simp add: shared.safe_leaves)
    qed
  qed (use no k1 grows_trans' in auto)
qed

lemma safe_create_session:
  assumes s: "ss_token_hash s \<notin> W" and q: "\<And>r k1. grows k k1 \<Longrightarrow> Q r k1 {}"
  shows "safe E ms L W (atom (create_session E s)) Q k {Drawn (ss_id s)}"
proof (rule shared.safe_atom)
  fix w k1 others r w1
  assume a: "grows k k1" "{Drawn (ss_id s)} \<inter> others = {}" "good E ms L W k1 ({Drawn (ss_id s)} \<union> others) w"
    and m: "create_session E s w = (r, w1)"
  have fs: "w_fs w1 = w_fs w" using same_fs_result [OF session_writes_keep(1) m] .
  have d: "draws_on w w1" using m keepsD [OF session_writes_keep(5), of w E s] by simp
  show "\<exists>k2 own2. grows k1 k2 \<and> own2 \<inter> others = {} \<and> good E ms L W k2 (own2 \<union> others) w1 \<and> Q r k2 own2"
  proof (cases r)
    case (Inl e)
    then have "w_db w1 = w_db w" using m by (auto simp: create_session_def wrapE_Inl dest: sql_io_Inl_same)
    from good_drop [OF good_same [OF a(3) this fs d] Un_upper2] q [OF a(1)] show ?thesis
      by (intro exI [of _ k1] exI [of _ "{}"]) simp
  next
    case (Inr x)
    with m have ins: "insert_into session_table (session_row_of s) (w_db w) = Inr ((), w_db w1)"
      by (auto simp: create_session_Inr)
    obtain k2 where k2: "grows k1 k2" "good E ms L W k2 others w1"
      using good_new_session [OF a(3) _ ins fs d] a(2) s by auto
    with q [OF grows_trans' [OF a(1) k2(1)]] show ?thesis by (intro exI [of _ k2] exI [of _ "{}"]) simp
  qed
qed

text \<open>A rotation is an update that retains every row, then an insertion.\<close>

lemma rotate_session_parts:
  assumes "rotate_session E old rep now w = (Inr x, w1)"
  obtains n db where "update_where session_table (\<lambda>r. s_id r = old \<and> s_revoked_at r = None \<and> s_expires_at r > stamp now)
      (revoke_row now) (w_db w) = Inr (n, db)"
    and "insert_into session_table (session_row_of rep) db = Inr ((), w_db w1)"
  using assms by (auto simp: rotate_session_def atomically_Inr bindE_eq_Inr sql_io_Inr sql_query_Inr split: if_splits)

lemma good_rotated:
  assumes g: "good E ms L W k ({Drawn (ss_id rep)} \<union> others) w" and n: "Drawn (ss_id rep) \<notin> others"
    and rep: "ss_token_hash rep \<notin> W" and m: "rotate_session E old rep now w = (Inr x, w1)"
  shows "\<exists>k1. grows k k1 \<and> good E ms L W k1 others w1"
proof -
  obtain c db where u: "update_where session_table (\<lambda>r. s_id r = old \<and> s_revoked_at r = None \<and> s_expires_at r > stamp now)
      (revoke_row now) (w_db w) = Inr (c, db)" and i: "insert_into session_table (session_row_of rep) db = Inr ((), w_db w1)"
    by (rule rotate_session_parts [OF m])
  have fs: "w_fs w1 = w_fs w" using same_fs_result [OF session_writes_keep(2) m] .
  have d: "draws_on w w1" using m keepsD [OF session_writes_keep(6), of w E old rep now] by simp
  let ?w = "w\<lparr>w_db := db\<rparr>"
  have same: "folders db = folders (w_db w)" "files db = files (w_db w)"
    using u by (auto simp: update_where_Inr session_table_def)
  have ok: "db_ok db" using update_db_ok(1) [OF u] g by (simp add: good_def layout_ok_def)
  have "good E ms L W k ({Drawn (ss_id rep)} \<union> others) ?w"
    by (rule good_retains [OF g])
      (use retains_statements(5) [OF u] g same ok in \<open>auto simp: good_def objects_ok_def rows_stored_def layout_ok_def draws_on_def\<close>)
  from good_new_session [OF this n _ _ _ _ _, of "session_row_of rep" "()" w1] i fs d rep show ?thesis
    by (simp add: draws_on_def)
qed

lemma safe_rotate_session:
  assumes old: "k_sess k old = Some h" and rep: "ss_token_hash rep \<notin> W"
    and no: "\<And>e k1 o1. grows k k1 \<Longrightarrow> Q (Inl e) k1 o1"
    and yes: "\<And>k1. grows k k1 \<Longrightarrow> Q (Inr ()) k1 (if h \<in> W then {Spent h} else {})"
  shows "safe E ms L W (atom (rotate_session E old rep now)) Q k {Drawn (ss_id rep)}"
proof (rule shared.safe_atom)
  fix w k1 others r w1
  assume a: "grows k k1" "{Drawn (ss_id rep)} \<inter> others = {}" "good E ms L W k1 ({Drawn (ss_id rep)} \<union> others) w"
    and m: "rotate_session E old rep now w = (r, w1)"
  show "\<exists>k2 own2. grows k1 k2 \<and> own2 \<inter> others = {} \<and> good E ms L W k2 (own2 \<union> others) w1 \<and> Q r k2 own2"
  proof (cases r)
    case (Inl e)
    have fs: "w_fs w1 = w_fs w" using same_fs_result [OF session_writes_keep(2) m] .
    have d: "draws_on w w1" using m keepsD [OF session_writes_keep(6), of w E old rep now] by simp
    have "w_db w1 = w_db w" using m Inl rotate_session_Inl by blast
    from good_drop [OF good_same [OF a(3) this fs d] Un_upper2] no [OF a(1), of e "{}"] Inl show ?thesis
      by (intro exI [of _ k1] exI [of _ "{}"]) simp
  next
    case (Inr x)
    have ok: "db_ok (w_db w)" and rk: "rows_known k1 (w_db w)" using a(3) by (simp_all add: good_def layout_ok_def)
    obtain row where row: "id_row old (w_db w) = Some row" "s_revoked_at row = None"
      and hashes: "\<And>h. hash_row h (w_db w1) = (if h = ss_token_hash rep then Some (session_row_of rep)
        else if h = s_token_hash row then Some (revoke_row now row) else hash_row h (w_db w))"
      using rotate_session_Inr [OF m [unfolded Inr] ok] by metis
    have in_rows: "row \<in> set (sessions (w_db w))" "s_id row = old"
      using session_ids.row_with_SomeD [OF row(1)] by (simp_all add: session_table_def)
    have h: "s_token_hash row = h" using rk in_rows growsD(4) [OF a(1) old] by (auto simp: rows_known_def)
    obtain k2 where k2: "grows k1 k2" "good E ms L W k2 others w1"
      using good_rotated [OF a(3) _ rep m [unfolded Inr]] a(2) by auto
    note y = yes [OF grows_trans' [OF a(1) k2(1)]]
    show ?thesis
    proof (cases "h \<in> W")
      case False
      with y k2 Inr show ?thesis by (intro exI [of _ k2] exI [of _ "{}"]) simp
    next
      case True
      have "Spent h \<notin> others"
      proof
        assume "Spent h \<in> others"
        then have "spent h (w_db w)" using a(3) by (auto simp: good_def)
        with in_rows(1) h row(2) show False by (auto simp: spent_def)
      qed
      moreover have "spent h (w_db w1)"
        unfolding spent_def
      proof (intro ballI impI)
        fix s assume s: "s \<in> set (sessions (w_db w1))" "s_token_hash s = h"
        have "table_ok session_table (w_db w1)" using k2(2) by (simp add: good_def layout_ok_def db_ok_def)
        from session_hashes.row_with_unique [OF this, of s] s have "hash_row h (w_db w1) = Some s" by (simp add: session_table_def)
        with hashes [of h] h True rep show "s_revoked_at s \<noteq> None" by (auto split: if_splits)
      qed
      ultimately have "good E ms L W k2 ({Spent h} \<union> others) w1"
        using k2(2) True by (auto simp: good_def draws_fresh_def apart_def)
      with \<open>Spent h \<notin> others\<close> y k2(1) True Inr show ?thesis by (intro exI [of _ k2] exI [of _ "{Spent h}"]) simp
    qed
  qed
qed

lemma find_active_known:
  assumes "result_of E ms L W (find_active_session_by_token_hash E h now) (Inr s) k"
  shows "k_sess k (ss_id s) = Some h"
proof -
  from assms obtain w w1 own where g: "good E ms L W k own w" and f: "find_active_session_by_token_hash E h now w = (Inr s, w1)"
    by (auto simp: result_of_def)
  from f obtain r where r: "hash_row h (w_db w) = Some r" "ss_id s = s_id r" by (rule find_active_Inr)
  from session_hashes.row_with_SomeD [OF r(1)] g r(2) show ?thesis by (auto simp: good_def rows_known_def session_table_def)
qed

lemma safe_refresh:
  assumes no: "\<And>e k1 o1. grows k k1 \<Longrightarrow> Q (Inl e) k1 o1"
    and yes: "\<And>tk k1. grows k k1 \<Longrightarrow> Q (Inr tk) k1 (if hash_refresh_token E tok \<in> W then {Spent (hash_refresh_token E tok)} else {})"
  shows "safe E ms L W (refresh_script E m tok) Q k {}"
proof (cases "trim_space tok = []")
  case True
  then show ?thesis using no [OF grows_refl'] by (simp add: refresh_script_def shared.safe_leaves)
next
  case False
  have "safe E ms L W (bindS (atom (now_io E)) (\<lambda>now1.
      handleS (atom (find_active_session_by_token_hash E (hash_refresh_token E tok) now1))
        (\<lambda>_. raiseS ErrInvalidToken) (\<lambda>s.
      bindS (new_session_script E m) (\<lambda>(tk, replacement).
      bindS (atom (now_io E)) (\<lambda>now2.
      handleS (atom (rotate_session E (ss_id s) replacement now2))
        (\<lambda>_. raiseS (TextError ''invalid refresh token'')) (\<lambda>_. retS tk)))))) Q k {}"
  proof (rule safe_bind_now, rule safe_handle_quiet)
    fix now1 k1 s k2
    assume k1: "grows k k1" and k2: "grows k1 k2"
      and s: "result_of E ms L W (find_active_session_by_token_hash E (hash_refresh_token E tok) now1) (Inr s) k2"
    note old = find_active_known [OF s]
    show "safe E ms L W (bindS (new_session_script E m) (\<lambda>(tk, replacement). bindS (atom (now_io E)) (\<lambda>now2.
        handleS (atom (rotate_session E (ss_id s) replacement now2))
          (\<lambda>_. raiseS (TextError ''invalid refresh token'')) (\<lambda>_. retS tk)))) Q k2 {}"
    proof (rule shared.safe_bindS)
      show "safe E ms L W (new_session_script E m) (\<lambda>r k3 o3. case r of Inl e \<Rightarrow> True
          | Inr (tk, rep) \<Rightarrow> o3 = {Drawn (ss_id rep)} \<and> ss_token_hash rep \<notin> W) k2 {}"
        by (rule safe_new_session) auto
    next
      fix x k3 and o3 :: "claim set" assume k3: "grows k2 k3" and x: "case Inr x of Inl e \<Rightarrow> True
          | Inr (tk :: tokens, rep :: session) \<Rightarrow> o3 = {Drawn (ss_id rep)} \<and> ss_token_hash rep \<notin> W"
      obtain tk rep where xp: "x = (tk, rep)" by (cases x)
      with x have o3: "o3 = {Drawn (ss_id rep)}" "ss_token_hash rep \<notin> W" by auto
      have k03: "grows k k3" using grows_trans' [OF k1 grows_trans' [OF k2 k3]] .
      have "safe E ms L W (bindS (atom (now_io E)) (\<lambda>now2. handleS (atom (rotate_session E (ss_id s) rep now2))
          (\<lambda>_. raiseS (TextError ''invalid refresh token'')) (\<lambda>_. retS tk))) Q k3 {Drawn (ss_id rep)}"
      proof (rule safe_bind_now, rule shared.safe_handleS)
        fix now2 k4 assume k4: "grows k3 k4"
        have "k_sess k4 (ss_id s) = Some (hash_refresh_token E tok)" using growsD(4) [OF grows_trans' [OF k3 k4] old] .
        then show "safe E ms L W (atom (rotate_session E (ss_id s) rep now2)) (\<lambda>r k5 o5. case r of Inl e \<Rightarrow> True
            | Inr y \<Rightarrow> o5 = (if hash_refresh_token E tok \<in> W then {Spent (hash_refresh_token E tok)} else {})) k4 {Drawn (ss_id rep)}"
          by (rule safe_rotate_session [OF _ o3(2)]) auto
      qed (use no yes grows_trans' [OF k03 grows_trans'] in \<open>auto simp: shared.safe_leaves\<close>)
      then show "safe E ms L W (case x of (tk, replacement) \<Rightarrow> bindS (atom (now_io E)) (\<lambda>now2.
          handleS (atom (rotate_session E (ss_id s) replacement now2))
            (\<lambda>_. raiseS (TextError ''invalid refresh token'')) (\<lambda>_. retS tk))) Q k3 o3"
        by (simp add: xp o3(1))
    qed (use no grows_trans' [OF k1 grows_trans' [OF k2]] in auto)
  qed (use no grows_trans' in \<open>auto simp: shared.safe_leaves\<close>)
  with False show ?thesis by (simp add: refresh_script_def)
qed

lemma safe_login:
  assumes q: "\<And>r k1 o1. grows k k1 \<Longrightarrow> Q r k1 o1"
  shows "safe E ms L W (login_script E m u p) Q k {}"
proof -
  have opened: "safe E ms L W (bindS (bindS (new_session_script E m) (\<lambda>(tk, s).
      bindS (atom (create_session E s)) (\<lambda>_. retS tk))) (\<lambda>tk. retS (x, tk))) Q k1 {}" if k1: "grows k k1" for x k1
  proof (rule shared.safe_bindS [where P = "\<lambda>r k1 o1. True"], rule shared.safe_bindS)
    show "safe E ms L W (new_session_script E m) (\<lambda>r k3 o3. case r of Inl e \<Rightarrow> True
        | Inr (tk, s) \<Rightarrow> o3 = {Drawn (ss_id s)} \<and> ss_token_hash s \<notin> W) k1 {}"
      by (rule safe_new_session) auto
  next
    fix y k3 and o3 :: "claim set" assume y: "case Inr y of Inl e \<Rightarrow> True
        | Inr (tk :: tokens, s :: session) \<Rightarrow> o3 = {Drawn (ss_id s)} \<and> ss_token_hash s \<notin> W"
    obtain tk s where yp: "y = (tk, s)" by (cases y)
    with y have o3: "o3 = {Drawn (ss_id s)}" "ss_token_hash s \<notin> W" by auto
    have "safe E ms L W (bindS (atom (create_session E s)) (\<lambda>_. retS tk)) (\<lambda>r k1 o1. True) k3 {Drawn (ss_id s)}"
      by (rule shared.safe_bindS [OF safe_create_session [OF o3(2), where Q = "\<lambda>r k o1. True"]]) (auto simp: shared.safe_leaves)
    then show "safe E ms L W (case y of (tk, s) \<Rightarrow> bindS (atom (create_session E s)) (\<lambda>_. retS tk)) (\<lambda>r k1 o1. True) k3 o3"
      by (simp add: yp o3(1))
  qed (use q grows_trans' [OF k1] in \<open>auto simp: shared.safe_leaves\<close>)
  show ?thesis
    unfolding login_script_def Let_def
    by (auto simp: shared.safe_leaves intro!: safe_handle_quiet q opened split: sum.split)
qed

lemma safe_logout:
  assumes q: "\<And>r k1 o1. grows k k1 \<Longrightarrow> Q r k1 o1"
  shows "safe E ms L W (logout_script E i) Q k {}"
  unfolding logout_script_def
  by (auto simp: shared.safe_leaves intro!: safe_bind_now safe_rows [OF session_row_safe] q intro: grows_trans')

lemma safe_me:
  assumes q: "\<And>r k1 o1. grows k k1 \<Longrightarrow> Q r k1 o1"
  shows "safe E ms L W (me_script E i) Q k {}"
  unfolding me_script_def by (auto simp: shared.safe_leaves intro!: safe_quiet q)

end
