(* ===== verification/Actions.thy ===== *)
theory Actions
  imports Request_Pool
begin

text \<open>
  Relations between the worlds before and after that every atomic action of every call is in.
  The locale \<open>action_relations\<close> asks for the relation on the primitive effects only and gives it
  for all calls, hence for the first and the last world of a schedule. It is used for the
  counters (nothing is drawn twice, at most one identifier for an event), for the rows of
  files, which no call but an erasure removes, and for revoked sessions, which no call revives.
\<close>

section \<open>Rows that stay\<close>

definition same_file :: "file_row \<Rightarrow> file_row \<Rightarrow> bool" where
  "same_file f f1 \<longleftrightarrow> f_id f1 = f_id f \<and> f_storage_key f1 = f_storage_key f \<and> f_mount f1 = f_mount f \<and>
     f_size f1 = f_size f \<and> f_checksum f1 = f_checksum f \<and> f_content_type f1 = f_content_type f"

definition rows_stay :: "(string \<Rightarrow> bool) \<Rightarrow> database \<Rightarrow> database \<Rightarrow> bool" where
  "rows_stay erased db db1 \<longleftrightarrow>
     (\<forall>f \<in> set (files db). \<not> erased (f_id f) \<longrightarrow> (\<exists>f1 \<in> set (files db1). same_file f f1))"

lemma same_file_refl [simp]: "same_file f f"
  by (simp add: same_file_def)

lemma rows_stay_same: "files db1 = files db \<Longrightarrow> rows_stay erased db db1"
  unfolding rows_stay_def using same_file_refl by metis

lemma rows_stay_trans:
  assumes "rows_stay erased a b" "rows_stay erased b c"
  shows "rows_stay erased a c"
  unfolding rows_stay_def
proof (intro ballI impI)
  fix f assume f: "f \<in> set (files a)" "\<not> erased (f_id f)"
  then obtain g where g: "g \<in> set (files b)" "same_file f g" using assms(1) by (auto simp: rows_stay_def)
  then have "\<not> erased (f_id g)" using f(2) by (simp add: same_file_def)
  then obtain h where "h \<in> set (files c)" "same_file g h" using assms(2) g(1) by (auto simp: rows_stay_def)
  with g(2) show "\<exists>h \<in> set (files c). same_file f h" by (intro bexI [of _ h]) (simp_all add: same_file_def)
qed

lemma put_rows_result: "put_rows T rows db = Inr db1 \<Longrightarrow> db1 = t_put T rows db"
  by (simp add: put_rows_Inr)

lemma stay_updates:
  assumes "put_rows file_table (map (\<lambda>r. if p r then g r else r) (files db)) db = Inr db1" "\<And>f. same_file f (g f)"
  shows "rows_stay erased db db1"
proof -
  have n: "files db1 = map (\<lambda>r. if p r then g r else r) (files db)"
    using put_rows_result [OF assms(1)] by (simp add: file_table_def)
  have "\<exists>f1 \<in> set (files db1). same_file f f1" if "f \<in> set (files db)" for f
    using that assms(2) unfolding n by (intro bexI [of _ "if p f then g f else f"]) auto
  then show ?thesis by (simp add: rows_stay_def)
qed

text \<open>A revoked session stays revoked; the row that counts is the one a look-up finds.\<close>

definition revoked :: "string \<Rightarrow> database \<Rightarrow> bool" where
  "revoked i db \<longleftrightarrow> (case row_with session_table s_id i db of None \<Rightarrow> False | Some s \<Rightarrow> s_revoked_at s \<noteq> None)"

definition revocations_stay :: "database \<Rightarrow> database \<Rightarrow> bool" where
  "revocations_stay db db1 \<longleftrightarrow> (\<forall>i. revoked i db \<longrightarrow> revoked i db1)"

lemma revocations_same: "sessions db1 = sessions db \<Longrightarrow> revocations_stay db db1"
  by (simp add: revocations_stay_def revoked_def row_with_def session_table_def)

lemma find_map_same: "(\<And>x. P (g x) = P x) \<Longrightarrow> find P (map g xs) = map_option g (find P xs)"
  by (induction xs) auto

lemma revocations_insert: "sessions db1 = sessions db @ [s] \<Longrightarrow> revocations_stay db db1"
  by (simp add: revocations_stay_def revoked_def row_with_def session_table_def find_append split: option.splits)

lemma revocations_update:
  assumes "sessions db1 = map g (sessions db)" "\<And>s. s_id (g s) = s_id s" "\<And>s. s_revoked_at s \<noteq> None \<Longrightarrow> s_revoked_at (g s) \<noteq> None"
  shows "revocations_stay db db1"
  using assms(3) by (simp add: revocations_stay_def revoked_def row_with_def session_table_def assms(1,2) find_map_same
      split: option.splits)

text \<open>What a statement leaves of both.\<close>

definition stays :: "(string \<Rightarrow> bool) \<Rightarrow> (database \<Rightarrow> string + 'a \<times> database) \<Rightarrow> bool" where
  "stays erased stmt \<longleftrightarrow>
     (\<forall>db x db1. stmt db = Inr (x, db1) \<longrightarrow> rows_stay erased db db1 \<and> revocations_stay db db1)"

lemma statements_stay [simp]:
  "stays erased (insert_into folder_table d)" "stays erased (insert_into audit_table a)"
  "stays erased (update_where folder_table q h)"
  by (auto simp: stays_def insert_into_def update_where_def table_defs
      intro!: rows_stay_same revocations_same split: sum.splits dest!: put_rows_result)

lemma inserts_stay [simp]: "stays erased (insert_into session_table s)" "stays erased (insert_into file_table f)"
proof -
  show "stays erased (insert_into session_table s)"
    by (auto simp: stays_def insert_into_def session_table_def intro!: rows_stay_same revocations_insert
        split: sum.splits dest!: put_rows_result)
  have "rows_stay erased db (db\<lparr>files := files db @ [f]\<rparr>)" for db
    unfolding rows_stay_def
  proof (intro ballI impI)
    fix g assume "g \<in> set (files db)"
    then show "\<exists>f1 \<in> set (files (db\<lparr>files := files db @ [f]\<rparr>)). same_file g f1" by (intro bexI [of _ g]) simp_all
  qed
  then show "stays erased (insert_into file_table f)"
    by (auto simp: stays_def insert_into_def file_table_def intro!: revocations_same
        split: sum.splits dest!: put_rows_result)
qed

lemma session_updates_stay [simp]: "stays erased (update_where session_table r (revoke_row t))"
proof -
  have "rows_stay erased db db1 \<and> revocations_stay db db1"
    if "update_where session_table r (revoke_row t) db = Inr (n, db1)" for n db db1
  proof -
    have n: "db1 = db\<lparr>sessions := map (\<lambda>s. if r s then revoke_row t s else s) (sessions db)\<rparr>"
      using that by (auto simp: update_where_def session_table_def split: sum.splits dest!: put_rows_result)
    then have "revocations_stay db db1"
      by (intro revocations_update [where g = "\<lambda>s. if r s then revoke_row t s else s"]) (simp_all add: revoke_row_def)
    with n show ?thesis by (simp add: rows_stay_same)
  qed
  then show ?thesis by (simp add: stays_def)
qed

lemma queries_stay [simp]:
  "stays erased (\<lambda>db. case v db of Inl m \<Rightarrow> Inl m | Inr x \<Rightarrow> Inr (h x, db))"
  "stays erased (\<lambda>db. let rows = l db in case g rows of Inl m \<Rightarrow> Inl m | Inr x \<Rightarrow> Inr (h2 rows x, db))"
  by (auto simp: stays_def Let_def intro!: rows_stay_same revocations_same split: sum.splits)

lemma file_statements_stay:
  "(\<And>f. same_file f (g f)) \<Longrightarrow> stays erased (update_where file_table p g)"
  "(\<And>f. p f \<Longrightarrow> erased (f_id f)) \<Longrightarrow> stays erased (delete_where file_table p)"
proof -
  show "stays erased (update_where file_table p g)" if "\<And>f. same_file f (g f)"
    using stay_updates [OF _ that]
    by (auto simp: stays_def update_where_def file_table_def intro!: revocations_same split: sum.splits dest: put_rows_result)
  show "stays erased (delete_where file_table p)" if "\<And>f. p f \<Longrightarrow> erased (f_id f)"
    using that by (force simp: stays_def delete_where_def rows_stay_def file_table_def intro: revocations_same)
qed

lemma delete_folders_stays [simp]: "stays erased (delete_folders p)"
proof -
  have "\<exists>f1 \<in> set (files db1). same_file f f1" if d: "delete_folders p db = Inr (n, db1)" and f: "f \<in> set (files db)" for db n db1 f
  proof -
    let ?gone = "cascade (length (folders db)) (folders db) (map d_id (filter p (folders db)))"
    let ?g = "\<lambda>f. case f_folder_id f of None \<Rightarrow> f | Some i \<Rightarrow> if i \<in> set ?gone then f\<lparr>f_folder_id := None\<rparr> else f"
    have "files db1 = map ?g (files db)" using d by (auto simp: delete_folders_def Let_def)
    moreover have "same_file f (?g f)" by (simp add: same_file_def split: option.split)
    ultimately show ?thesis using f by (intro bexI [of _ "?g f"]) auto
  qed
  moreover have "revocations_stay db db1" if "delete_folders p db = Inr (n, db1)" for db n db1
    using that by (auto simp: delete_folders_def Let_def intro!: revocations_same)
  ultimately show ?thesis by (simp add: stays_def rows_stay_def)
qed

section \<open>The relations\<close>

locale action_relations =
  fixes R S :: "world \<Rightarrow> world \<Rightarrow> bool" and erased :: "string \<Rightarrow> bool"
  assumes refl_R [simp]: "reflp R" and trans_R [simp]: "transp R" and weaker: "R w w1 \<Longrightarrow> S w w1"
    and clock: "R w (w\<lparr>w_clock := Suc (w_clock w)\<rparr>)" and rand: "R w (w\<lparr>w_rand := Suc (w_rand w)\<rparr>)"
    and counts: "R w (w\<lparr>w_sql := Suc (w_sql w)\<rparr>)" "R w (w\<lparr>w_os := Suc (w_os w)\<rparr>)"
    and objects: "R w (w\<lparr>w_fs := fs\<rparr>)"
    and rows: "rows_stay erased (w_db w) db \<Longrightarrow> revocations_stay (w_db w) db \<Longrightarrow> R w (w\<lparr>w_db := db\<rparr>)"
    and undo: "R w w1 \<Longrightarrow> R w (w1\<lparr>w_db := w_db w\<rparr>)"
    and uuid: "S w (w\<lparr>w_uuid := Suc (w_uuid w)\<rparr>)"
begin

lemma RR: "R a b \<Longrightarrow> R b c \<Longrightarrow> R a c"
  using trans_R by (rule transpD)

lemma primitives: "keeps R (now_io E)" "keeps R (rand_io E)" "keeps R (os_io E g)" "keeps R (sql_query E q)"
proof -
  show "keeps R (now_io E)" "keeps R (rand_io E)"
    using clock rand by (simp_all add: keeps_def now_io_def rand_io_def)
  have "R w ((w\<lparr>w_os := Suc (w_os w)\<rparr>)\<lparr>w_fs := fs\<rparr>)" for w fs by (rule RR [OF counts(2) objects])
  then show "keeps R (os_io E g)"
    using counts(2) by (auto simp: keeps_def os_io_def Let_def split: option.splits sum.splits prod.splits)
  show "keeps R (sql_query E q)"
    using counts(1) by (auto simp: keeps_def sql_query_def sql_io_def Let_def split: option.splits)
qed

lemma statement:
  assumes "stays erased f"
  shows "keeps R (sql_io E f)"
proof -
  have "R w ((w\<lparr>w_sql := Suc (w_sql w)\<rparr>)\<lparr>w_db := db\<rparr>)" if "f (w_db w) = Inr (x, db)" for w x db
    by (rule RR [OF counts(1) rows]) (use assms that in \<open>auto simp: stays_def\<close>)
  then show ?thesis
    using counts(1) by (auto simp: keeps_def sql_io_def Let_def split: option.splits sum.splits prod.splits)
qed

lemma atomic: "keeps R m \<Longrightarrow> keeps R (atomically m)"
  unfolding keeps_def atomically_def using undo by (auto split: prod.splits sum.splits) (metis snd_conv)+

lemma repository:
  "keeps R (find_folder E i)" "keeps R (find_file E i)" "keeps R (find_trashed_file E i)"
  "keeps R (find_active_by_checksum E k c)" "keeps R (check_mount E i k)" "keeps R (open_object E s key)"
  "keeps R (delete_object E s key)" "keeps R (create_excl E p)" "keeps R (os_remove E p)"
  "keeps R (rename_folder E i n t)" "keeps R (soft_delete_file E i t)" "keeps R (restore_file E i)"
  "keeps R (rename_file E i n t)" "keeps R (audit E ev)"
  "keeps R (list_folders E k p l off)" "keeps R (list_files E k p l off)" "keeps R (list_trash E k l off)"
  "keeps R (search E k q l off)" "keeps R (count_and_sum E act)" "keeps R (random_token E)"
  "keeps R (find_user_by_username E u)" "keeps R (find_user_by_id E i)"
  "keeps R (find_active_session_by_token_hash E h t)" "keeps R (validate_session E i t)"
  "keeps R (create_session E sn)" "keeps R (rotate_session E i sn t)" "keeps R (revoke_session E i t)"
  unfolding find_folder_def find_file_def find_trashed_file_def find_active_by_checksum_def check_mount_def open_object_def
    delete_object_def create_excl_def os_remove_def rename_folder_def soft_delete_file_def restore_file_def
    rename_file_def audit_def list_folders_def list_files_def list_trash_def search_def
    count_and_sum_def random_token_def find_user_by_username_def find_user_by_id_def find_active_session_by_token_hash_def
    validate_session_def create_session_def rotate_session_def revoke_session_def
  by (auto intro!: keeps_intro primitives statement atomic file_statements_stay simp: same_file_def split: option.split)

lemma erasure: "erased i \<Longrightarrow> keeps R (delete_file_permanently E i)"
  unfolding delete_file_permanently_def by (auto intro!: keeps_intro statement file_statements_stay)

lemma writes:
  "keeps R (conflict_or msg (sql_io E (insert_into folder_table d)))" "keeps R (conflict_or msg (sql_io E (insert_into file_table f)))"
  "keeps R (affected (sql_io E (delete_folders p)))"
  "keeps R (affected (sql_io E (update_where file_table q (\<lambda>f. f\<lparr>f_folder_id := k, f_updated_at := t\<rparr>))))"
  by (auto intro!: keeps_intro statement file_statements_stay simp: same_file_def)

lemma keeps_S: "keeps R m \<Longrightarrow> keeps S m" "keeps S (uuid_io E)"
  using weaker uuid by (auto simp: keeps_def uuid_io_def)

lemma each_atoms:
  "each S (atom (uuid_io E))" "keeps R m \<Longrightarrow> each S (atom m)" "keeps R n \<Longrightarrow> each S (wrapS msg (atom n))"
  by (auto intro!: each_intro keeps_S)

text \<open>Every atomic action of every call.\<close>

lemma each_serve:
  assumes "\<And>i. c = Permanently_delete i \<Longrightarrow> erased i"
  shows "each S (serve E m ms c)"
proof -
  note rules = each_atoms each_leaves each_handleS each_bindS each_ignoreS each_wrapS each_cases primitives repository writes
  have c: "each S (cleanup_script E p e)" for p e unfolding cleanup_script_def by (intro rules)
  have w: "each S (write_object_script E s src key n p)" for s src key n p
    unfolding write_object_script_def detect_script_def Let_def by (intro rules c)
  have s: "each S (save_object_script E s src n)" for s src n unfolding save_object_script_def Let_def by (intro rules w)
  have f: "each S (create_file_script E item)" for item unfolding create_file_script_def by (intro rules)
  have d: "each S (create_folder_script E item)" for item unfolding create_folder_script_def by (intro rules)
  have a: "each S (record_audit_script E act i)" for act i unfolding record_audit_script_def by (intro rules)
  have r: "each S (register_upload_script E mt k info now)" for mt k info now
    unfolding register_upload_script_def Let_def by (intro rules f)
  have n: "each S (new_session_script E m)" unfolding new_session_script_def issue_script_def Let_def by (intro rules)
  show ?thesis
    using assms
    by (cases c; simp only: serve.simps answerS_def svc_create_folder_script_def upload_script_def delete_file_script_def
      svc_rename_folder_script_def svc_restore_file_script_def svc_rename_file_script_def svc_move_file_script_def
      copy_file_script_def copy_object_script_def permanently_delete_script_def download_script_def dashboard_script_def
      login_script_def refresh_script_def me_script_def logout_script_def delete_folder_script_def move_file_script_def
      count_active_by_mount_def new_csrf_token_def Let_def; intro rules erasure c w s f d a r n; simp)
qed

lemma happen_each:
  assumes "happen E m ms e (ts, w) = Some (ts1, w1)" "\<forall>t \<in> set ts. each S (snd t)"
    and "\<And>i. e = Begin (Permanently_delete i) \<Longrightarrow> erased i"
  shows "(w1 = w \<or> S w w1) \<and> (\<forall>t \<in> set ts1. each S (snd t))"
proof (cases e)
  case (Begin c)
  with assms(1) have "ts1 = ts @ [(c, serve E m ms c)]" "w1 = w" by auto
  moreover have "each S (serve E m ms c)" using assms(3) Begin by (intro each_serve) simp
  ultimately show ?thesis using assms(2) by simp
next
  case (Advance i)
  with assms(1) obtain c eff rest where i: "i < length ts" "ts ! i = (c, Step eff rest)"
    and n: "ts1 = ts[i := (c, rest w)]" "w1 = eff w"
    by (auto split: if_splits prod.splits script.splits)
  have "each S (Step eff rest)" using assms(2) i nth_mem by fastforce
  then have step: "S w (eff w)" "each S (rest w)" by simp_all
  have "set ts1 \<subseteq> insert (c, rest w) (set ts)" unfolding n(1) by (rule set_update_subset_insert)
  with assms(2) step n(2) show ?thesis by auto
qed

text \<open>A schedule is a chain of at most as many actions as it has events.\<close>

lemma play_each:
  "play E m ms es (ts, w) = Some (ts1, w1) \<Longrightarrow> \<forall>t \<in> set ts. each S (snd t) \<Longrightarrow>
   (\<And>i. Begin (Permanently_delete i) \<in> set es \<Longrightarrow> erased i) \<Longrightarrow> \<exists>n \<le> length es. (S ^^ n) w w1"
proof (induction es arbitrary: ts w)
  case Nil
  then show ?case by simp
next
  case (Cons e es)
  then obtain ts2 w2 where e: "happen E m ms e (ts, w) = Some (ts2, w2)" "play E m ms es (ts2, w2) = Some (ts1, w1)"
    by (auto split: option.splits)
  have h: "w2 = w \<or> S w w2" "\<forall>t \<in> set ts2. each S (snd t)"
    using happen_each [OF e(1) Cons.prems(2)] Cons.prems(3) by auto
  obtain n where n: "n \<le> length es" "(S ^^ n) w2 w1" using Cons.IH [OF e(2) h(2)] Cons.prems(3) by auto
  show ?case
  proof (cases "w2 = w")
    case True
    with n show ?thesis by (intro exI [of _ n]) simp
  next
    case False
    with h(1) have "S w w2" by simp
    from relpowp_Suc_I2 [OF this n(2)] have "(S ^^ Suc n) w w1" .
    with n(1) show ?thesis by (intro exI [of _ "Suc n"]) simp
  qed
qed

lemma play_related:
  assumes "play E m ms es ([], w) = Some (ts1, w1)" "\<And>i. Begin (Permanently_delete i) \<in> set es \<Longrightarrow> erased i"
  shows "\<exists>n \<le> length es. (S ^^ n) w w1"
  by (rule play_each [OF assms(1)]) (use assms(2) in auto)

end

lemma relpowp_preorder: "reflp S \<Longrightarrow> transp S \<Longrightarrow> (S ^^ n) w w1 \<Longrightarrow> S w w1"
  by (induction n arbitrary: w1) (auto dest: reflpD transpD)

section \<open>The counters\<close>

interpretation drawing: action_relations draws_on draws_on "\<lambda>_. True"
  by unfold_locales (auto simp: draws_on_def)

lemma play_draws:
  assumes "play E m ms es (ts, w) = Some (ts1, w1)" "\<forall>t \<in> set ts. each draws_on (snd t)"
  shows "draws_on w w1"
  using drawing.play_each [OF assms] relpowp_preorder [OF draws_on_preorder] by auto

definition same_uuid :: "world \<Rightarrow> world \<Rightarrow> bool" where
  "same_uuid w w1 \<longleftrightarrow> w_uuid w1 = w_uuid w"

definition one_uuid :: "world \<Rightarrow> world \<Rightarrow> bool" where
  "one_uuid w w1 \<longleftrightarrow> w_uuid w1 \<le> Suc (w_uuid w)"

lemma same_uuid_preorder [simp]: "reflp same_uuid" "transp same_uuid"
  by (auto simp: same_uuid_def reflp_def transp_def)

interpretation numbering: action_relations same_uuid one_uuid "\<lambda>_. True"
  by unfold_locales (auto simp: same_uuid_def one_uuid_def)

lemma play_uuids:
  assumes "play E m ms es ([], w) = Some (ts, w1)"
  shows "w_uuid w1 \<le> w_uuid w + length es"
proof -
  have "w_uuid w2 \<le> w_uuid w + n" if "(one_uuid ^^ n) w w2" for n w2
    using that by (induction n arbitrary: w2) (auto simp: one_uuid_def, fastforce)
  with numbering.play_related [OF assms] show ?thesis by fastforce
qed

section \<open>The rows\<close>

definition survives :: "(string \<Rightarrow> bool) \<Rightarrow> world \<Rightarrow> world \<Rightarrow> bool" where
  "survives erased w w1 \<longleftrightarrow> rows_stay erased (w_db w) (w_db w1)"

lemma survives_preorder [simp]: "reflp (survives erased)" "transp (survives erased)"
  unfolding survives_def reflp_def transp_def using rows_stay_trans by (blast intro: rows_stay_same)+

interpretation keeping: action_relations "survives erased" "survives erased" erased for erased
  by unfold_locales (auto simp: survives_def intro: rows_stay_same)

lemma play_survives:
  assumes "play E m ms es ([], w) = Some (ts, w1)" "\<And>i. Begin (Permanently_delete i) \<in> set es \<Longrightarrow> erased i"
  shows "rows_stay erased (w_db w) (w_db w1)"
  using keeping.play_related [OF assms(1), of erased] assms(2) relpowp_preorder [OF survives_preorder]
  unfolding survives_def by blast

definition stays_revoked :: "string \<Rightarrow> world \<Rightarrow> world \<Rightarrow> bool" where
  "stays_revoked i w w1 \<longleftrightarrow> (revoked i (w_db w) \<longrightarrow> revoked i (w_db w1))"

interpretation revoking: action_relations "stays_revoked i" "stays_revoked i" "\<lambda>_. True" for i
  by unfold_locales (auto simp: stays_revoked_def revocations_stay_def reflp_def transp_def)

end
