(* ===== verification/Concurrency.thy ===== *)
theory Concurrency
  imports Session_Safety Actions
begin

text \<open>
  Every schedule of every number of calls: the pool stays safe, so the invariants of the system
  hold after every event, a download that succeeds has the bytes its row describes, and at most
  one refresh with a token succeeds. The identifiers drawn in the run are assumed to be new.
\<close>

section \<open>Every call is safe\<close>

text \<open>What a finished call has, beyond an answer.\<close>

fun promised :: "env \<Rightarrow> string set \<Rightarrow> call \<Rightarrow> err + answer \<Rightarrow> know \<Rightarrow> claim set \<Rightarrow> bool" where
  "promised E W (Refresh tok) (Inr a) k own \<longleftrightarrow>
     (hash_refresh_token E tok \<in> W \<longrightarrow> Spent (hash_refresh_token E tok) \<in> own)"
| "promised E W (Download i) (Inr a) k own \<longleftrightarrow> (\<exists>f c. a = A_content f c \<and> fl_id f = i \<and>
     (fl_mount f \<noteq> [] \<longrightarrow> fl_size f = int (length c) \<and> fl_checksum f = checksum_of E c))"
| "promised E W call r k own \<longleftrightarrow> True"

lemma promised_stable: "promised E W c r k own \<Longrightarrow> promised E W c r k1 own"
  by (cases "(E, W, c, r, k, own)" rule: promised.cases) auto

lemma safe_answerS:
  assumes "safe E ms L W s (\<lambda>r k own. case r of Inl e \<Rightarrow> Q (Inl e) k own | Inr x \<Rightarrow> Q (Inr (f x)) k own) k own"
  shows "safe E ms L W (answerS f s) Q k own"
  unfolding answerS_def by (rule shared.safe_bindS [OF assms]) (auto simp: shared.safe_leaves)

lemma quiet_listings:
  "quiet (list_folders E k p l off)" "quiet (list_files E k p l off)" "quiet (list_trash E k l off)"
  "quiet (search E k q l off)" "quiet (count_active_by_mount E k)" "quiet (count_and_sum E c)"
proof -
  have "keeps draws_on (list_folders E k p l off)" "keeps draws_on (list_files E k p l off)"
    "keeps draws_on (list_trash E k l off)" "keeps draws_on (search E k q l off)" "keeps draws_on (count_and_sum E c)"
    unfolding list_folders_def list_files_def list_trash_def search_def count_and_sum_def by (intro keeps_intro; simp)+
  moreover have c: "keeps same_db (count_and_sum E c)" "keeps same_fs (count_and_sum E c)" "keeps draws_on (count_and_sum E c)" for c
    unfolding count_and_sum_def Let_def same_db_iff
    by (auto intro!: sql_io_preserving keeps_intro split: sum.splits)
  ultimately show "quiet (list_folders E k p l off)" "quiet (list_files E k p l off)" "quiet (list_trash E k l off)"
    "quiet (search E k q l off)" "quiet (count_active_by_mount E k)" "quiet (count_and_sum E c)"
    using listings_keep by (simp_all add: quiet_def count_active_by_mount_def)
qed

lemma safe_dashboard: "safe E ms L W (dashboard_script E) (\<lambda>r k own. True) k {}"
  unfolding dashboard_script_def
  by (auto intro!: safe_bind_quiet quiet_listings simp: shared.safe_leaves split: prod.split)

lemma serve_safe:
  assumes "disks_ok ms"
  shows "safe E ms L W (serve E m ms c) (promised E W c) k {}"
proof (cases c)
    case (Download i)
    then show ?thesis
      by (auto intro!: safe_answerS safe_download [OF _ assms] split: sum.split)
  next
    case (Refresh tok)
    have "safe E ms L W (refresh_script E m tok) (\<lambda>r k own. case r of Inl e \<Rightarrow> promised E W c (Inl e) k own
        | Inr x \<Rightarrow> promised E W c (Inr (A_tokens x)) k own) k {}"
      by (rule safe_refresh) (auto simp: Refresh)
    with Refresh show ?thesis by (auto intro: safe_answerS)
  next
    case (Check_session i)
    then show ?thesis by (auto intro!: safe_bind_now safe_answerS safe_quiet split: sum.split)
  qed (auto intro!: safe_answerS safe_svc_create_folder safe_upload assms safe_delete_file safe_rename_folder
      safe_delete_folder safe_restore_file safe_rename_file safe_svc_move_file safe_copy_file safe_permanently_delete
      safe_quiet quiet_listings safe_login safe_me safe_logout split: sum.split
      simp: new_csrf_token_def intro: shared.safe_mono [OF safe_dashboard])

section \<open>Schedules are safe\<close>

abbreviation pool_safe :: "env \<Rightarrow> mounts \<Rightarrow> world \<Rightarrow> string set \<Rightarrow> know \<Rightarrow> (call \<times> answer script) list \<Rightarrow> world \<Rightarrow> bool" where
  "pool_safe E ms L W k0 \<equiv> accounting.pool_safe (good E ms L W) grows (\<lambda>w. draws_on w L) k0 (promised E W)"

lemma happen_safe:
  assumes "happen E m ms e (ts, w) = Some (ts1, w1)" "disks_ok ms" "draws_on w1 L" "pool_safe E ms L W k0 ts w"
  shows "pool_safe E ms L W k0 ts1 w1"
proof (cases e)
  case (Begin c)
  with assms(1) have "ts1 = ts @ [(c, serve E m ms c)]" "w1 = w" by auto
  with shared.pool_safe_begin [OF assms(4) serve_safe [OF assms(2)]] show ?thesis by simp
next
  case (Advance i)
  with assms(1) obtain c eff rest where i: "i < length ts" "ts ! i = (c, Step eff rest)"
    and n: "ts1 = ts[i := (c, rest w)]" "w1 = eff w"
    by (auto split: if_splits prod.splits script.splits)
  from shared.pool_safe_advance [OF assms(4) i] assms(3) n promised_stable show ?thesis by blast
qed

lemma play_safe:
  "play E m ms es (ts, w) = Some (ts1, w1) \<Longrightarrow> disks_ok ms \<Longrightarrow> draws_on w1 L \<Longrightarrow>
   \<forall>t \<in> set ts. each draws_on (snd t) \<Longrightarrow> pool_safe E ms L W k0 ts w \<Longrightarrow> pool_safe E ms L W k0 ts1 w1"
proof (induction es arbitrary: ts w)
  case (Cons e es)
  then obtain ts2 w2 where e: "happen E m ms e (ts, w) = Some (ts2, w2)" "play E m ms es (ts2, w2) = Some (ts1, w1)"
    by (auto split: option.splits)
  have d: "\<forall>t \<in> set ts2. each draws_on (snd t)" using drawing.happen_each [OF e(1) Cons.prems(4)] by simp
  have "draws_on w2 L" using play_draws [OF e(2) d] Cons.prems(3) draws_on_preorder(2) by (blast dest: transpD)
  from happen_safe [OF e(1) Cons.prems(2) this Cons.prems(5)] Cons.IH [OF e(2)] Cons.prems(2,3) d show ?case by blast
qed simp

section \<open>The start\<close>

text \<open>The identifiers drawn between two worlds are pairwise different and in no row of the first.\<close>

definition fresh_ids :: "env \<Rightarrow> world \<Rightarrow> world \<Rightarrow> bool" where
  "fresh_ids E w w1 \<longleftrightarrow> inj_on (x_uuid E) {w_uuid w ..< w_uuid w1} \<and>
     (\<forall>u \<in> x_uuid E ` {w_uuid w ..< w_uuid w1}.
        (\<forall>d \<in> set (folders (w_db w)). d_id d \<noteq> u) \<and> (\<forall>s \<in> set (sessions (w_db w)). s_id s \<noteq> u) \<and>
        (\<forall>f \<in> set (files (w_db w)). f_id f \<noteq> u \<and> f_storage_key f \<noteq> object_key u))"

text \<open>No random bytes drawn between two worlds have one of the digests.\<close>

definition fresh_digests :: "env \<Rightarrow> string set \<Rightarrow> world \<Rightarrow> world \<Rightarrow> bool" where
  "fresh_digests E W w w1 \<longleftrightarrow>
     (\<forall>n \<in> {w_rand w ..< w_rand w1}. case x_rand E n of None \<Rightarrow> True
        | Some b \<Rightarrow> hash_refresh_token E (raw_url_encode b) \<notin> W)"

definition ready :: "env \<Rightarrow> mounts \<Rightarrow> world \<Rightarrow> world \<Rightarrow> bool" where
  "ready E ms w w1 \<longleftrightarrow> env_ok E \<and> disks_ok ms \<and> objects_ok E ms w \<and> layout_ok (w_db w) \<and> fresh_ids E w w1"

definition first_know :: "env \<Rightarrow> mounts \<Rightarrow> world \<Rightarrow> know" where
  "first_know E ms w = \<lparr>
     k_dir = (\<lambda>i. map_option d_mount (row_with folder_table d_id i (w_db w))),
     k_file = (\<lambda>i. map_option (\<lambda>f. (f_mount f, f_storage_key f)) (row_with file_table f_id i (w_db w))),
     k_obj = (\<lambda>p. if \<exists>f \<in> set (files (w_db w)). \<exists>m. by_id ms (f_mount f) = Some m \<and>
                       safe_path E (m_store m) (f_storage_key f) = Inr p then w_fs w p else None),
     k_sess = (\<lambda>i. map_option s_token_hash (row_with session_table s_id i (w_db w))),
     k_gone = {}\<rparr>"

lemma first_unused:
  assumes e: "env_ok E" and u: "uuid_text u" and o': "objects_ok E ms w"
    and ids: "\<And>d. d \<in> set (folders (w_db w)) \<Longrightarrow> d_id d \<noteq> u" "\<And>s. s \<in> set (sessions (w_db w)) \<Longrightarrow> s_id s \<noteq> u"
      "\<And>f. f \<in> set (files (w_db w)) \<Longrightarrow> f_id f \<noteq> u \<and> f_storage_key f \<noteq> object_key u"
  shows "unused E (first_know E ms w) u (w_db w)"
proof -
  have "k_obj (first_know E ms w) p = None" if p: "safe_path E s (object_key u) = Inr p" for s p
  proof -
    have "safe_path E (m_store m) (f_storage_key f) \<noteq> Inr p" if f: "f \<in> set (files (w_db w))" for f m
    proof
      assume q: "safe_path E (m_store m) (f_storage_key f) = Inr p"
      obtain v where v: "uuid_text v" "f_storage_key f = object_key v"
        using o' f by (auto simp: objects_ok_def rows_stored_def stored_def)
      from path_owner [OF e u v(1) p] q v(2) ids(3) [OF f] show False by simp
    qed
    then show ?thesis by (auto simp: first_know_def)
  qed
  with ids show ?thesis
    by (auto simp: unused_def first_know_def row_with_def find_None_iff table_defs)
qed

lemma first_good:
  assumes r: "ready E ms w L" and W: "fresh_digests E W w L"
  shows "good E ms L W (first_know E ms w) {} w"
proof -
  have e: "env_ok E" and d: "disks_ok ms" and o': "objects_ok E ms w" and l: "layout_ok (w_db w)" and f: "fresh_ids E w L"
    using r by (auto simp: ready_def)
  have t: "table_ok folder_table (w_db w)" "table_ok file_table (w_db w)" "table_ok session_table (w_db w)"
    using l by (auto simp: layout_ok_def db_ok_def)
  have "rows_known (first_know E ms w) (w_db w)"
    using folder_ids.row_with_unique [OF t(1)] file_ids.row_with_unique [OF t(2)] session_ids.row_with_unique [OF t(3)]
    by (simp add: rows_known_def first_know_def table_defs)
  moreover have "objects_known E ms (first_know E ms w) w"
    unfolding objects_known_def
  proof (intro conjI allI impI ballI)
    fix p b assume "k_obj (first_know E ms w) p = Some b"
    then show "w_fs w p = None \<or> w_fs w p = Some b" by (simp add: first_know_def split: if_splits)
  next
    fix x m p assume x: "x \<in> set (files (w_db w))" "by_id ms (f_mount x) = Some m" "safe_path E (m_store m) (f_storage_key x) = Inr p"
    then have "stored E ms (w_fs w) x" using o' by (simp add: objects_ok_def rows_stored_def)
    with x(2,3) obtain b where "w_fs w p = Some b" by (auto simp: stored_def)
    with x show "k_obj (first_know E ms w) p \<noteq> None" by (auto simp: first_know_def)
  qed
  moreover have "draws_fresh E L W (first_know E ms w) {} w"
  proof -
    have "unused E (first_know E ms w) u (w_db w)" if u: "u \<in> undrawn E L w" for u
      by (rule first_unused [OF e undrawn_uuid [OF e u] o']) (use f u in \<open>auto simp: fresh_ids_def undrawn_def\<close>)
    with f W show ?thesis by (auto simp: draws_fresh_def fresh_ids_def fresh_digests_def claimed_def)
  qed
  ultimately show ?thesis using e d o' l by (simp add: good_def apart_def)
qed

text \<open>The pool after any schedule.\<close>

lemma play_pool_safe:
  assumes "ready E ms w w1" "fresh_digests E W w w1" "play E m ms es ([], w) = Some (ts, w1)"
  shows "pool_safe E ms w1 W (first_know E ms w) ts w1"
  using assms(1) play_safe [OF assms(3) _ reflpD [OF draws_on_preorder(1)] _ shared.pool_safe_empty [OF first_good [OF assms(1,2)]]]
  by (simp add: ready_def)

lemma finished_promise:
  assumes "pool_safe E ms L W k0 ts w" "i < length ts" "ts ! i = (c, Done r)"
  shows "\<exists>k own. promised E W c r k own"
  using assms unfolding shared.pool_safe_def by fastforce

text \<open>Two finished calls cannot have the same claim.\<close>

lemma one_claim:
  assumes "pool_safe E ms L W k0 ts w" "i < length ts" "j < length ts"
    and "ts ! i = (c, Done r)" "ts ! j = (c', Done r')"
    and "\<And>k own. promised E W c r k own \<Longrightarrow> x \<in> own" "\<And>k own. promised E W c' r' k own \<Longrightarrow> x \<in> own"
  shows "i = j"
proof (rule ccontr)
  assume ne: "i \<noteq> j"
  obtain k own where o': "\<forall>i j. i < j \<longrightarrow> j < length ts \<longrightarrow> own i \<inter> own j = {}"
    and s: "\<forall>i < length ts. accounting.safe (good E ms L W) grows (\<lambda>w. draws_on w L) (snd (ts ! i)) (promised E W (fst (ts ! i))) k (own i)"
    using assms(1) unfolding shared.pool_safe_def by blast
  have "promised E W c r k (own i)" using s [rule_format, OF assms(2)] assms(4) by simp
  moreover have "promised E W c' r' k (own j)" using s [rule_format, OF assms(3)] assms(5) by simp
  ultimately have "x \<in> own i" "x \<in> own j" using assms(6,7) by simp_all
  moreover have "own i \<inter> own j = {}" using o' ne assms(2,3) by (metis Int_commute linorder_neqE_nat)
  ultimately show False by blast
qed

end
