(* ===== verification/Schedules.thy ===== *)
theory Schedules
  imports Concurrency
begin

text \<open>
  More on schedules: a call that runs without interruption is the operation of the sequential
  model, in a bounded number of actions.
\<close>

section \<open>Running one call to its end\<close>

lemma play_run:
  "i < length ts \<Longrightarrow> ts ! i = (c, s) \<Longrightarrow> within s b \<Longrightarrow>
   \<exists>n \<le> b. play E m ms (replicate n (Advance i)) (ts, w) = Some (ts[i := (c, Done (fst (run s w)))], snd (run s w))"
proof (induction s arbitrary: ts w b)
  case (Done r)
  then have "ts[i := (c, Done r)] = ts" by (metis list_update_id)
  then show ?case by (intro exI [of _ 0]) simp
next
  case (Step eff rest)
  let ?ts = "ts[i := (c, rest w)]"
  have b: "0 < b" "within (rest w) (b - 1)" using Step.prems(3) by auto
  obtain n where n: "n \<le> b - 1" "play E m ms (replicate n (Advance i)) (?ts, eff w) =
      Some (?ts[i := (c, Done (fst (run (rest w) (eff w))))], snd (run (rest w) (eff w)))"
    using Step.IH [of "rest w" ?ts "b - 1" "eff w"] Step.prems(1) b by auto
  have "play E m ms (replicate (Suc n) (Advance i)) (ts, w) =
      Some (ts[i := (c, Done (fst (run (Step eff rest) w)))], snd (run (Step eff rest) w))"
    using n(2) Step.prems(1,2) by simp
  with n(1) b(1) show ?case by (intro exI [of _ "Suc n"]) simp
qed

lemma play_serve:
  assumes "i < length ts" "ts ! i = (c, serve E m ms c)"
  shows "\<exists>n \<le> max_actions. play E m ms (replicate n (Advance i)) (ts, w) =
    Some (ts[i := (c, Done (fst (run (serve E m ms c) w)))], snd (run (serve E m ms c) w))"
  by (rule play_run [OF assms within_serve])

lemma play_then:
  "play E m ms es p = Some q \<Longrightarrow> play E m ms es' q = Some r \<Longrightarrow> play E m ms (es @ es') p = Some r"
  by (simp add: play_append)

section \<open>The calls in sequence\<close>

text \<open>What a call does when no other request runs: the operations of the services.\<close>

definition answerE :: "('a \<Rightarrow> answer) \<Rightarrow> 'a io \<Rightarrow> answer io" where
  "answerE f m = bindE m (\<lambda>x. ret (f x))"

definition download_effects :: "env \<Rightarrow> mounts \<Rightarrow> string \<Rightarrow> (file_item \<times> bytes) io" where
  "download_effects E ms i =
     bindE (find_file E i) (\<lambda>item.
     bindE (liftE (get_mount ms (fl_mount item))) (\<lambda>m.
     bindE (open_object E (m_store m) (fl_storage_key item)) (\<lambda>content.
     bindE (ignoreE (record_audit E ''download'' (fl_id item))) (\<lambda>_.
     ret (item, content)))))"

fun operation :: "env \<Rightarrow> token_manager \<Rightarrow> mounts \<Rightarrow> call \<Rightarrow> answer io" where
  "operation E m ms (Create_folder k p n) = answerE A_folder (svc_create_folder E ms k p n)"
| "operation E m ms (Upload k d n src) = answerE A_file (upload E ms k d n src)"
| "operation E m ms (Delete_file i) = answerE (\<lambda>_. Finished) (delete_file E i)"
| "operation E m ms (Rename_folder i n) = answerE (\<lambda>_. Finished) (svc_rename_folder E i n)"
| "operation E m ms (Delete_folder i) = answerE (\<lambda>_. Finished) (delete_folder E i)"
| "operation E m ms (Restore_file i) = answerE (\<lambda>_. Finished) (svc_restore_file E i)"
| "operation E m ms (Rename_file i n) = answerE (\<lambda>_. Finished) (svc_rename_file E i n)"
| "operation E m ms (Move_file i d) = answerE (\<lambda>_. Finished) (svc_move_file E i d)"
| "operation E m ms (Copy_file i d) = answerE A_file (copy_file E ms i d)"
| "operation E m ms (Permanently_delete i) = answerE (\<lambda>_. Finished) (permanently_delete E ms i)"
| "operation E m ms (Download i) = answerE (case_prod A_content) (download_effects E ms i)"
| "operation E m ms (List_folders k p l off) = answerE A_folders (list_folders E k p l off)"
| "operation E m ms (List_files k p l off) = answerE A_files (list_files E k p l off)"
| "operation E m ms (List_trash k l off) = answerE A_files (list_trash E k l off)"
| "operation E m ms (Search k q l off) = answerE A_files (search E k q l off)"
| "operation E m ms (Count_active k) = answerE A_count (count_active_by_mount E k)"
| "operation E m ms Dashboard = answerE A_counts (dashboard E)"
| "operation E m ms (Login u p) = answerE (case_prod A_login) (login E m u p)"
| "operation E m ms (Refresh tok) = answerE A_tokens (refresh E m tok)"
| "operation E m ms (Me i) = answerE A_user (me E i)"
| "operation E m ms (Logout i) = answerE (\<lambda>_. Finished) (logout E i)"
| "operation E m ms (Check_session i) =
     bindE (now_io E) (\<lambda>now. answerE (\<lambda>_. Finished) (validate_session E i now))"
| "operation E m ms New_csrf_token = answerE A_text (new_csrf_token E)"

lemma run_answerS [run_simps]: "run (answerS f s) = answerE f (run s)"
  by (simp add: answerS_def answerE_def run_simps)

lemma run_requests [run_simps]:
  "run (download_script E ms i) = download_effects E ms i" "run (dashboard_script E) = dashboard E"
  by (simp_all add: download_script_def download_effects_def dashboard_script_def dashboard_def run_simps cong: run_congs)

lemma run_serve: "run (serve E m ms c) = operation E m ms c"
  by (cases c) (simp_all add: run_simps cong: run_congs)

lemmas play_operation = play_serve [unfolded run_serve]

end
