(* ===== verification/Row_Types.thy ===== *)
theory Row_Types
  imports Schedules
begin

text \<open>
  The types of the columns beyond those of the SQL schema: names are cleaned names, sizes are
  lengths, disks are configured disks and time columns hold texts that the program wrote for
  an instant. \<open>always J s Q\<close> is the logic for an invariant of the database that every single
  action keeps, whatever the others do between two actions, together with what
  the script has learnt about its own intermediate results.
\<close>

section \<open>Invariants of every action\<close>

primrec always :: "(database \<Rightarrow> bool) \<Rightarrow> 'a script \<Rightarrow> ('a \<Rightarrow> bool) \<Rightarrow> bool" where
  "always J (Done r) Q \<longleftrightarrow> (case r of Inl e \<Rightarrow> True | Inr x \<Rightarrow> Q x)"
| "always J (Step eff rest) Q \<longleftrightarrow> (\<forall>w. J (w_db w) \<longrightarrow> J (w_db (eff w)) \<and> always J (rest w) Q)"

lemma always_mono: "always J s Q \<Longrightarrow> (\<And>x. Q x \<Longrightarrow> Q' x) \<Longrightarrow> always J s Q'"
  by (induction s) (auto split: sum.splits)

lemma always_leaves [simp]:
  "always J (retS x) Q \<longleftrightarrow> Q x" "always J (raiseS e) Q" "always J (guardS b e) Q' \<longleftrightarrow> (b \<longrightarrow> Q' ())"
  by (simp_all add: retS_def raiseS_def guardS_def)

lemma always_handleS:
  "always J s P \<Longrightarrow> (\<And>e. always J (h e) Q) \<Longrightarrow> (\<And>x. P x \<Longrightarrow> always J (f x) Q) \<Longrightarrow> always J (handleS s h f) Q"
  by (induction s) (auto split: sum.splits)

lemma always_bindS: "always J s P \<Longrightarrow> (\<And>x. P x \<Longrightarrow> always J (f x) Q) \<Longrightarrow> always J (bindS s f) Q"
  unfolding bindS_def by (rule always_handleS [where P = P]) auto

lemma always_lift: "(\<And>x. r = Inr x \<Longrightarrow> always J (f x) Q) \<Longrightarrow> always J (bindS (liftS r) f) Q"
  by (auto simp: bindS_leaves split: sum.split)

lemma always_ignoreS: "always J s (\<lambda>_. True) \<Longrightarrow> always J (ignoreS s) (\<lambda>_. True)"
  unfolding ignoreS_def by (rule always_handleS) auto

lemma always_wrapS: "always J s Q \<Longrightarrow> always J (wrapS msg s) Q"
  unfolding wrapS_def by (rule always_handleS) auto

lemma always_atom:
  "keeps (preserving J) m \<Longrightarrow> (\<And>w x w1. J (w_db w) \<Longrightarrow> m w = (Inr x, w1) \<Longrightarrow> Q x) \<Longrightarrow> always J (atom m) Q"
  unfolding atom_def by (auto simp: preserving_snd split: sum.split) (metis prod.collapse)

text \<open>An action of whose result nothing is needed.\<close>

lemma always_blind: "keeps (preserving J) m \<Longrightarrow> always J (atom m) (\<lambda>_. True)"
  by (rule always_atom) simp_all

lemma always_if: "(b \<Longrightarrow> always J s Q) \<Longrightarrow> (\<not> b \<Longrightarrow> always J t Q) \<Longrightarrow> always J (if b then s else t) Q"
  by simp

lemma always_then: "keeps (preserving J) m \<Longrightarrow> (\<And>x. always J (f x) Q) \<Longrightarrow> always J (bindS (atom m) f) Q"
  by (rule always_bindS [OF always_blind])

text \<open>In a pool.\<close>

lemma happen_always:
  assumes "happen E m ms e (ts, w) = Some (ts1, w1)" "\<forall>t \<in> set ts. always J (snd t) (\<lambda>_. True)" "J (w_db w)"
    and "\<And>c. always J (serve E m ms c) (\<lambda>_. True)"
  shows "J (w_db w1) \<and> (\<forall>t \<in> set ts1. always J (snd t) (\<lambda>_. True))"
proof (cases e)
  case (Begin c)
  with assms(1) have "ts1 = ts @ [(c, serve E m ms c)]" "w1 = w" by auto
  with assms(2-4) show ?thesis by simp
next
  case (Advance i)
  with assms(1) obtain c eff rest where i: "i < length ts" "ts ! i = (c, Step eff rest)"
    and n: "ts1 = ts[i := (c, rest w)]" "w1 = eff w"
    by (auto split: if_splits prod.splits script.splits)
  have "always J (Step eff rest) (\<lambda>_. True)" using assms(2) i nth_mem by fastforce
  with assms(3) have step: "J (w_db (eff w))" "always J (rest w) (\<lambda>_. True)" by simp_all
  have "set ts1 \<subseteq> insert (c, rest w) (set ts)" unfolding n(1) by (rule set_update_subset_insert)
  with assms(2) step n(2) show ?thesis by auto
qed

lemma play_always:
  "play E m ms es (ts, w) = Some (ts1, w1) \<Longrightarrow> \<forall>t \<in> set ts. always J (snd t) (\<lambda>_. True) \<Longrightarrow> J (w_db w) \<Longrightarrow>
   (\<And>c. always J (serve E m ms c) (\<lambda>_. True)) \<Longrightarrow> J (w_db w1)"
proof (induction es arbitrary: ts w)
  case (Cons e es)
  then obtain ts2 w2 where e: "happen E m ms e (ts, w) = Some (ts2, w2)" "play E m ms es (ts2, w2) = Some (ts1, w1)"
    by (auto split: option.splits)
  from happen_always [OF e(1) Cons.prems(2-4)] Cons.IH [OF e(2)] Cons.prems(4) show ?case by simp
qed simp

section \<open>Well-typed rows\<close>

abbreviation is_stamp :: "string \<Rightarrow> bool" where
  "is_stamp s \<equiv> s \<in> range stamp"

definition typed_file :: "mounts \<Rightarrow> file_row \<Rightarrow> bool" where
  "typed_file ms f \<longleftrightarrow> sanitize_filename (f_name f) = Inr (f_name f) \<and> 0 \<le> f_size f \<and> by_id ms (f_mount f) \<noteq> None \<and>
     is_stamp (f_created_at f) \<and> is_stamp (f_updated_at f) \<and> (\<forall>s. f_deleted_at f = Some s \<longrightarrow> is_stamp s)"

definition typed_folder :: "folder_row \<Rightarrow> bool" where
  "typed_folder d \<longleftrightarrow> validate_folder_name (d_name d) = Inr () \<and> is_stamp (d_created_at d) \<and> is_stamp (d_updated_at d)"

definition typed_session :: "session_row \<Rightarrow> bool" where
  "typed_session s \<longleftrightarrow> is_stamp (s_expires_at s) \<and> is_stamp (s_created_at s) \<and>
     (\<forall>t. s_revoked_at s = Some t \<longrightarrow> is_stamp t)"

definition typed_audit :: "audit_row \<Rightarrow> bool" where
  "typed_audit a \<longleftrightarrow> is_stamp (a_created_at a)"

text \<open>The accounts \<open>us\<close> are those of the start.\<close>

definition typed :: "mounts \<Rightarrow> user_row list \<Rightarrow> database \<Rightarrow> bool" where
  "typed ms us db \<longleftrightarrow> users db = us \<and> (\<forall>f \<in> set (files db). typed_file ms f) \<and>
     (\<forall>d \<in> set (folders db). typed_folder d) \<and> (\<forall>s \<in> set (sessions db). typed_session s) \<and>
     (\<forall>a \<in> set (audit_events db). typed_audit a)"

lemma typed_inserts:
  "typed_folder d \<Longrightarrow> keeps (preserving (typed ms us)) (sql_io E (insert_into folder_table d))"
  "typed_file ms f \<Longrightarrow> keeps (preserving (typed ms us)) (sql_io E (insert_into file_table f))"
  "typed_session s \<Longrightarrow> keeps (preserving (typed ms us)) (sql_io E (insert_into session_table s))"
  "typed_audit a \<Longrightarrow> keeps (preserving (typed ms us)) (sql_io E (insert_into audit_table a))"
  by (auto intro!: sql_io_preserving simp: typed_def insert_into_Inr table_defs)

lemma typed_updates:
  "(\<And>d. typed_folder d \<Longrightarrow> typed_folder (g d)) \<Longrightarrow> keeps (preserving (typed ms us)) (sql_io E (update_where folder_table p g))"
  "(\<And>f. typed_file ms f \<Longrightarrow> typed_file ms (h f)) \<Longrightarrow> keeps (preserving (typed ms us)) (sql_io E (update_where file_table q h))"
  "(\<And>s. typed_session s \<Longrightarrow> typed_session (l s)) \<Longrightarrow> keeps (preserving (typed ms us)) (sql_io E (update_where session_table r l))"
  by (auto intro!: sql_io_preserving simp: typed_def update_where_Inr table_defs)

lemma typed_deletes:
  "keeps (preserving (typed ms us)) (sql_io E (delete_where file_table p))"
  "keeps (preserving (typed ms us)) (sql_io E (delete_folders q))"
  by (auto intro!: sql_io_preserving simp: typed_def delete_where_def delete_folders_def Let_def table_defs typed_file_def
      split: option.splits)

lemma typed_writes:
  "validate_folder_name n = Inr () \<Longrightarrow> keeps (preserving (typed ms us)) (rename_folder E i n t)"
  "keeps (preserving (typed ms us)) (soft_delete_file E i t)" "keeps (preserving (typed ms us)) (restore_file E i)"
  "keeps (preserving (typed ms us)) (delete_file_permanently E i)"
  "sanitize_filename n = Inr n \<Longrightarrow> keeps (preserving (typed ms us)) (rename_file E i n t)"
  "keeps (preserving (typed ms us)) (audit E ev)" "keeps (preserving (typed ms us)) (create_session E sn)"
  "keeps (preserving (typed ms us)) (rotate_session E i sn t)" "keeps (preserving (typed ms us)) (revoke_session E i t)"
  "keeps (preserving (typed ms us)) (affected (sql_io E (delete_folders p)))"
  "keeps (preserving (typed ms us)) (affected (sql_io E (update_where file_table q (\<lambda>f. f\<lparr>f_folder_id := k, f_updated_at := stamp t\<rparr>))))"
  unfolding rename_folder_def soft_delete_file_def restore_file_def delete_file_permanently_def rename_file_def audit_def
    create_session_def rotate_session_def revoke_session_def
  by (auto intro!: keeps_intro keeps_atomically_db typed_inserts typed_updates typed_deletes
      simp: typed_folder_def typed_file_def typed_session_def typed_audit_def session_row_of_def revoke_row_def nullable_time_def
      split: option.splits)

section \<open>Every call keeps the types\<close>

text \<open>Reads are no danger to an invariant of the database; a file that was read is well typed.\<close>

lemma reads_preserve:
  "keeps (preserving J) (now_io E)" "keeps (preserving J) (uuid_io E)" "keeps (preserving J) (os_io E g)"
  "keeps (preserving J) (sql_query E q)" "keeps (preserving J) (find_folder E i)" "keeps (preserving J) (find_file E i)"
  "keeps (preserving J) (find_trashed_file E i)" "keeps (preserving J) (find_active_by_checksum E k c)"
  "keeps (preserving J) (check_mount E i k)" "keeps (preserving J) (open_object E s key)"
  "keeps (preserving J) (delete_object E s key)" "keeps (preserving J) (create_excl E p)" "keeps (preserving J) (os_remove E p)"
  "keeps (preserving J) (list_folders E k p l off)" "keeps (preserving J) (list_files E k p l off)"
  "keeps (preserving J) (list_trash E k l off)" "keeps (preserving J) (search E k text l off)"
  "keeps (preserving J) (random_token E)" "keeps (preserving J) (find_user_by_username E u)"
  "keeps (preserving J) (find_user_by_id E i)" "keeps (preserving J) (find_active_session_by_token_hash E h t)"
  "keeps (preserving J) (validate_session E i t)"
  by (intro same_db_preserving keeps_intro open_object_keeps random_token_keeps storage_keeps_db;
      simp add: create_excl_def os_remove_def keeps_intro)+

definition item_typed :: "mounts \<Rightarrow> file_item \<Rightarrow> bool" where
  "item_typed ms f \<longleftrightarrow> sanitize_filename (fl_name f) = Inr (fl_name f) \<and> 0 \<le> fl_size f \<and> by_id ms (fl_mount f) \<noteq> None"

lemma item_typed_row: "item_typed ms f \<Longrightarrow> typed_file ms (row_of_file f)"
  by (simp add: item_typed_def typed_file_def row_of_file_def)

lemma always_found: "always (typed ms us) (atom (find_file E i)) (item_typed ms)"
  by (rule always_atom [OF reads_preserve(6)])
    (auto elim!: find_file_Inr simp: typed_def typed_file_def item_typed_def)

definition info_typed :: "file_info \<Rightarrow> bool" where
  "info_typed i \<longleftrightarrow> sanitize_filename (i_filename i) = Inr (i_filename i) \<and> 0 \<le> i_size i"

lemmas always_rules = always_if always_then always_ignoreS always_wrapS always_blind always_lift reads_preserve

lemma always_save: "always J (save_object_script E s src n) info_typed"
proof -
  have c: "always J (cleanup_script E p e) Q" for p e Q
    unfolding cleanup_script_def by (rule always_bindS [where P = "\<lambda>_. True"]) (auto intro: always_rules)
  have d: "always J (detect_script E p) (\<lambda>_. True)" for p
    unfolding detect_script_def
    by (auto intro!: always_handleS [OF always_blind] always_bindS [where P = "\<lambda>_. True"] reads_preserve simp: Let_def)
  have w: "always J (write_object_script E s src k nm p) info_typed" if "sanitize_filename nm = Inr nm" for k nm p
    unfolding write_object_script_def Let_def
    by (auto intro!: always_handleS [OF always_blind] always_bindS [OF d] reads_preserve c
        simp: that info_typed_def split: prod.split option.split)
  show ?thesis
    unfolding save_object_script_def Let_def
    by (intro always_lift always_then always_bindS [OF always_wrapS [OF always_blind]] reads_preserve w)
      (metis sanitize_filename_Inr sanitize_filename_fixed)
qed

lemma always_create:
  "typed_file ms (row_of_file f) \<Longrightarrow> always (typed ms us) (create_file_script E f) (\<lambda>_. True)"
  "typed_folder (row_of_folder d) \<Longrightarrow> always (typed ms us) (create_folder_script E d) (\<lambda>_. True)"
  unfolding create_file_script_def create_folder_script_def
  by (intro always_then always_blind reads_preserve keeps_conflict_or typed_inserts; simp)+

lemma always_audit: "always (typed ms us) (record_audit_script E a i) (\<lambda>_. True)"
  unfolding record_audit_script_def by (intro always_rules typed_writes)

lemma always_register:
  assumes "info_typed info" "by_id ms (m_id mt) \<noteq> None"
  shows "always (typed ms us) (register_upload_script E mt k info now) (\<lambda>_. True)"
proof -
  have "always (typed ms us) (bindS (ignoreS (atom (delete_object E s key))) (\<lambda>_. raiseS e)) (\<lambda>_. True)" for s key e
    by (rule always_bindS [where P = "\<lambda>_. True"]) (auto intro: always_rules)
  moreover have "always (typed ms us) (bindS (ignoreS (atom (audit E ev))) (\<lambda>_. retS x)) (\<lambda>_. True)" for ev and x :: file_item
    by (rule always_bindS [where P = "\<lambda>_. True"]) (auto intro: always_rules typed_writes)
  ultimately show ?thesis
    unfolding register_upload_script_def Let_def
    by (intro always_then always_handleS [OF always_create(1)] reads_preserve item_typed_row)
      (use assms in \<open>auto simp: item_typed_def info_typed_def\<close>)
qed

lemma always_upload:
  assumes "disks_ok ms"
  shows "always (typed ms us) (upload_script E ms k d n src) (\<lambda>_. True)"
proof -
  have "always (typed ms us) (bindS (ignoreS (atom (delete_object E s key))) (\<lambda>_. retS x)) (\<lambda>_. True)" for s key and x :: file_item
    by (rule always_bindS [where P = "\<lambda>_. True"]) (auto intro: always_rules)
  then show ?thesis
    unfolding upload_script_def
    by (intro always_bindS [where P = "\<lambda>_. True" and s = "if _ then _ else _"] always_if always_lift
        always_bindS [OF always_save] always_then always_handleS [OF always_blind] always_register reads_preserve)
      (auto simp: get_mount_by_id(1) [OF assms])
qed

lemma always_copy:
  "always (typed ms us) (copy_file_script E ms i d) (\<lambda>_. True)"
proof -
  have "always (typed ms us) (bindS (ignoreS (atom (delete_object E s key))) (\<lambda>_. raiseS e)) (\<lambda>_. True)" for s key e
    by (rule always_bindS [where P = "\<lambda>_. True"]) (auto intro: always_rules)
  then show ?thesis
    unfolding copy_file_script_def copy_object_script_def Let_def
    by (intro always_bindS [OF always_found] always_bindS [OF always_then [OF _ always_save]] always_lift always_then
        always_handleS [OF always_create(1)] reads_preserve item_typed_row)
      (auto simp: item_typed_def)
qed

lemma counts_preserve: "keeps (preserving J) (count_and_sum E act)"
  using quiet_listings(6) by (simp add: quiet_def same_db_preserving)

lemma always_answer: "always J s (\<lambda>_. True) \<Longrightarrow> always J (answerS f s) (\<lambda>_. True)"
  unfolding answerS_def by (rule always_bindS) auto

lemma always_files:
  "always (typed ms us) (svc_create_folder_script E ms k p n) (\<lambda>_. True)"
  "always (typed ms us) (delete_folder_script E i) (\<lambda>_. True)"
  "always (typed ms us) (svc_rename_folder_script E i n) (\<lambda>_. True)"
  "always (typed ms us) (svc_rename_file_script E i n) (\<lambda>_. True)"
  "always (typed ms us) (svc_move_file_script E i d) (\<lambda>_. True)"
  "always (typed ms us) (permanently_delete_script E ms i) (\<lambda>_. True)"
  "always (typed ms us) (download_script E ms i) (\<lambda>_. True)"
  "always (typed ms us) (dashboard_script E) (\<lambda>_. True)"
proof -
  have audit: "always (typed ms us) (bindS (ignoreS (record_audit_script E a i)) f) (\<lambda>_. True)"
    if "\<And>x. always (typed ms us) (f x) (\<lambda>_. True)" for a i and f :: "unit \<Rightarrow> (file_item \<times> bytes) script"
    by (rule always_bindS [OF always_ignoreS [OF always_audit] that])
  have mount: "always J (if p = [] then retS k else bindS (atom (find_folder E p)) (\<lambda>d. retS (fd_mount d))) (\<lambda>_. True)" for J k p
    by (auto intro: always_rules)
  have folder: "typed_folder (row_of_folder \<lparr>fd_id = i, fd_parent_id = p, fd_mount = k, fd_name = nm,
      fd_created_at = now, fd_updated_at = now\<rparr>)" if "validate_folder_name nm = Inr ()" for i p k nm now
    using that by (simp add: typed_folder_def row_of_folder_def)
  show "always (typed ms us) (svc_create_folder_script E ms k p n) (\<lambda>_. True)"
    unfolding svc_create_folder_script_def Let_def
    by (intro always_lift always_bindS [OF mount] always_then reads_preserve always_bindS [OF always_create(2) [OF folder]])
      auto
  show "always (typed ms us) (delete_folder_script E i) (\<lambda>_. True)"
    unfolding delete_folder_script_def by (auto intro!: always_rules typed_writes split: prod.split)
  show "always (typed ms us) (svc_rename_folder_script E i n) (\<lambda>_. True)"
    unfolding svc_rename_folder_script_def Let_def by (intro always_rules typed_writes) simp
  show "always (typed ms us) (svc_rename_file_script E i n) (\<lambda>_. True)"
    unfolding svc_rename_file_script_def
    by (auto intro!: always_then always_blind reads_preserve typed_writes split: sum.split)
      (metis sanitize_filename_Inr sanitize_filename_fixed)
  have "always (typed ms us) (if d = [] then retS () else bindS (atom (find_file E i)) (\<lambda>source.
      bindS (atom (find_folder E d)) (\<lambda>k. guardS (fl_mount source = fd_mount k) ErrMountMismatch))) (\<lambda>_. True)"
    "always (typed ms us) (move_file_script E i d now) (\<lambda>_. True)" for now
    unfolding move_file_script_def
    by (auto intro!: always_then always_blind reads_preserve typed_writes always_bindS [where P = "\<lambda>_. True"])
  then show "always (typed ms us) (svc_move_file_script E i d) (\<lambda>_. True)"
    unfolding svc_move_file_script_def by (intro always_bindS [where P = "\<lambda>_. True"] always_then reads_preserve)
  show "always (typed ms us) (permanently_delete_script E ms i) (\<lambda>_. True)"
    unfolding permanently_delete_script_def by (intro always_then always_lift reads_preserve typed_writes always_audit)
  show "always (typed ms us) (download_script E ms i) (\<lambda>_. True)"
    unfolding download_script_def by (intro always_then always_lift reads_preserve audit) simp
  show "always (typed ms us) (dashboard_script E) (\<lambda>_. True)"
    unfolding dashboard_script_def by (auto intro!: always_then reads_preserve counts_preserve split: prod.split)
qed

lemma always_sessions:
  "always (typed ms us) (login_script E m u p) (\<lambda>_. True)" "always (typed ms us) (refresh_script E m tok) (\<lambda>_. True)"
  "always (typed ms us) (me_script E i) (\<lambda>_. True)" "always (typed ms us) (logout_script E i) (\<lambda>_. True)"
proof -
  have i: "always (typed ms us) (issue_script E m u s) (\<lambda>_. True)" for u s
    unfolding issue_script_def Let_def
    by (auto intro!: always_then reads_preserve always_bindS [OF always_wrapS [OF always_blind]] split: option.split)
  have n: "always (typed ms us) (new_session_script E m) (\<lambda>_. True)"
    unfolding new_session_script_def by (intro always_then always_bindS [OF i] reads_preserve) simp
  show "always (typed ms us) (login_script E m u p) (\<lambda>_. True)"
    unfolding login_script_def Let_def
    by (auto intro!: always_handleS [OF always_blind] always_bindS [where P = "\<lambda>_. True"] n always_blind reads_preserve
        typed_writes split: sum.split prod.split)
  show "always (typed ms us) (refresh_script E m tok) (\<lambda>_. True)"
    unfolding refresh_script_def
    by (auto intro!: always_handleS [OF always_blind] always_bindS [OF n] always_then reads_preserve typed_writes
        split: prod.split)
  show "always (typed ms us) (me_script E i) (\<lambda>_. True)" "always (typed ms us) (logout_script E i) (\<lambda>_. True)"
    unfolding me_script_def logout_script_def by (auto intro!: always_then always_blind reads_preserve typed_writes)
qed

lemma always_serve:
  assumes "disks_ok ms"
  shows "always (typed ms us) (serve E m ms c) (\<lambda>_. True)"
  by (cases c; simp only: serve.simps delete_file_script_def svc_restore_file_script_def count_active_by_mount_def new_csrf_token_def;
      intro always_answer always_then always_upload assms always_copy always_files always_sessions always_blind reads_preserve
      counts_preserve typed_writes always_audit)

text \<open>After every schedule.\<close>

lemma play_typed:
  assumes "play E m ms es ([], w) = Some (ts, w1)" "disks_ok ms" "typed ms us (w_db w)"
  shows "typed ms us (w_db w1)"
  by (rule play_always [OF assms(1) _ assms(3) always_serve [OF assms(2)]]) simp

end
