(* ===== verification/Session_Schedules.thy ===== *)
theory Session_Schedules
  imports Row_Types
begin

text \<open>
  A logout among concurrent requests: when it has answered, its session is revoked, no call in
  flight brings it back, and a check that begins afterwards refuses it.
\<close>

section \<open>A logout that succeeded\<close>

text \<open>The action that ends the script with success leaves a database with \<open>J\<close>.\<close>

primrec achieves :: "(database \<Rightarrow> bool) \<Rightarrow> 'a script \<Rightarrow> bool" where
  "achieves J (Done r) \<longleftrightarrow> True"
| "achieves J (Step eff rest) \<longleftrightarrow> (\<forall>w. (\<forall>x. rest w = Done (Inr x) \<longrightarrow> J (w_db (eff w))) \<and> achieves J (rest w))"

lemma revoke_session_revoked:
  assumes "revoke_session E i t w = (Inr x, w1)"
  shows "revoked i (w_db w1)"
proof -
  from assms obtain n where u: "update_where session_table (\<lambda>r. s_id r = i \<and> s_revoked_at r = None) (revoke_row t) (w_db w) = Inr (n, w_db w1)"
    and n: "n \<noteq> 0"
    by (auto simp: revoke_session_def bindE_eq_Inr sql_io_Inr split: if_splits)
  let ?g = "\<lambda>s. if s_id s = i \<and> s_revoked_at s = None then revoke_row t s else s"
  have s: "sessions (w_db w1) = map ?g (sessions (w_db w))"
    and c: "n = int (length (filter (\<lambda>r. s_id r = i \<and> s_revoked_at r = None) (sessions (w_db w))))"
    using u by (simp_all add: update_where_Inr session_table_def)
  from c n obtain r where "r \<in> set (sessions (w_db w))" "s_id r = i" by (auto simp: filter_empty_conv)
  then have "find (\<lambda>s. s_id s = i) (sessions (w_db w)) \<noteq> None" by (auto simp: find_None_iff)
  then obtain s0 where s0: "find (\<lambda>s. s_id s = i) (sessions (w_db w)) = Some s0" by blast
  have "find (\<lambda>s. s_id s = i) (map ?g (sessions (w_db w))) = Some (?g s0)"
    using s0 by (subst find_map_same) (simp_all add: revoke_row_def)
  moreover have "s_id s0 = i" using find_SomeD [OF s0] by simp
  ultimately show ?thesis using s by (simp add: revoked_def row_with_def session_table_def revoke_row_def)
qed

lemma logout_achieves: "achieves (revoked i) (serve E m ms (Logout i))"
proof -
  have "revoked i (w_db (snd (revoke_session E i t w)))" if "fst (revoke_session E i t w) = Inr x" for t w x
    by (rule revoke_session_revoked [of E i t w x]) (metis prod.collapse that)
  then have "achieves (revoked i) (answerS (\<lambda>_. Finished) (atom (revoke_session E i t)))" for t
    by (auto simp: answerS_def bindS_def atom_def retS_def raiseS_def split: sum.splits)
  then show ?thesis
    by (auto simp: logout_script_def answerS_def bindS_def atom_def retS_def raiseS_def now_io_def)
qed

lemma serve_logout_unfinished: "serve E m ms (Logout i) \<noteq> Done (Inr a)"
  by (simp add: logout_script_def answerS_def bindS_def atom_def raiseS_def)

definition out_when_answered :: "string \<Rightarrow> (call \<times> answer script) list \<Rightarrow> world \<Rightarrow> bool" where
  "out_when_answered i ts w \<longleftrightarrow> (\<forall>t \<in> set ts. each (stays_revoked i) (snd t) \<and>
     (fst t = Logout i \<longrightarrow> achieves (revoked i) (snd t) \<and> (\<forall>a. snd t = Done (Inr a) \<longrightarrow> revoked i (w_db w))))"

lemma happen_out:
  assumes "happen E m ms e (ts, w) = Some (ts1, w1)" "out_when_answered i ts w"
  shows "out_when_answered i ts1 w1 \<and> stays_revoked i w w1"
proof (cases e)
  case (Begin c)
  with assms(1) have n: "ts1 = ts @ [(c, serve E m ms c)]" "w1 = w" by auto
  have "each (stays_revoked i) (serve E m ms c)" by (rule revoking.each_serve) simp
  with n assms(2) logout_achieves serve_logout_unfinished show ?thesis
    by (auto simp: out_when_answered_def stays_revoked_def simp del: serve.simps)
next
  case (Advance j)
  with assms(1) obtain c eff rest where j: "j < length ts" "ts ! j = (c, Step eff rest)"
    and n: "ts1 = ts[j := (c, rest w)]" "w1 = eff w"
    by (auto split: if_splits prod.splits script.splits)
  have "(c, Step eff rest) \<in> set ts" using j nth_mem by fastforce
  with assms(2) have t: "each (stays_revoked i) (Step eff rest)" "c = Logout i \<Longrightarrow> achieves (revoked i) (Step eff rest)"
    unfolding out_when_answered_def by fastforce+
  then have kept: "stays_revoked i w (eff w)" "each (stays_revoked i) (rest w)"
    and ach: "c = Logout i \<Longrightarrow> achieves (revoked i) (rest w)" "c = Logout i \<Longrightarrow> rest w = Done (Inr a) \<Longrightarrow> revoked i (w_db (eff w))" for a
    by auto
  have "set ts1 \<subseteq> insert (c, rest w) (set ts)" unfolding n(1) by (rule set_update_subset_insert)
  then have "t = (c, rest w) \<or> t \<in> set ts" if "t \<in> set ts1" for t using that by blast
  with assms(2) kept ach n(2) show ?thesis
    unfolding out_when_answered_def stays_revoked_def by (metis fst_conv snd_conv)
qed

lemma play_out:
  "play E m ms es (ts, w) = Some (ts1, w1) \<Longrightarrow> out_when_answered i ts w \<Longrightarrow> out_when_answered i ts1 w1"
proof (induction es arbitrary: ts w)
  case (Cons e es)
  then obtain ts2 w2 where e: "happen E m ms e (ts, w) = Some (ts2, w2)" "play E m ms es (ts2, w2) = Some (ts1, w1)"
    by (auto split: option.splits)
  from happen_out [OF e(1) Cons.prems(2)] Cons.IH [OF e(2)] show ?case by simp
qed simp

section \<open>Checks afterwards\<close>

lemma session_check_refuses: "always (revoked i) (serve E m ms (Check_session i)) (\<lambda>_. False)"
proof -
  have "validate_session E i t w \<noteq> (Inr x, w1)" if "revoked i (w_db w)" for t w x w1
    using that
    by (auto simp: validate_session_def bindE_eq_Inr sql_query_Inr revoked_def split: option.splits)
  then have "always (revoked i) (atom (validate_session E i t)) (\<lambda>_. False)" for t
    by (intro always_atom reads_preserve) blast
  then have "always (revoked i) (answerS (\<lambda>_. Finished) (atom (validate_session E i t))) (\<lambda>_. False)" for t
    unfolding answerS_def by (rule always_bindS) simp
  then show ?thesis by (auto intro: always_then [OF reads_preserve(1)])
qed

definition refuses_since :: "nat \<Rightarrow> string \<Rightarrow> (call \<times> answer script) list \<Rightarrow> bool" where
  "refuses_since n i ts \<longleftrightarrow> (\<forall>j < length ts. n \<le> j \<longrightarrow> fst (ts ! j) = Check_session i \<longrightarrow> always (revoked i) (snd (ts ! j)) (\<lambda>_. False))"

lemma happen_refuses:
  assumes "happen E m ms e (ts, w) = Some (ts1, w1)" "revoked i (w_db w)" "refuses_since n i ts" "n \<le> length ts"
  shows "refuses_since n i ts1 \<and> n \<le> length ts1"
proof (cases e)
  case (Begin c)
  with assms(1) have "ts1 = ts @ [(c, serve E m ms c)]" by auto
  with assms(3,4) session_check_refuses show ?thesis
    by (auto simp: refuses_since_def nth_append less_Suc_eq simp del: serve.simps)
next
  case (Advance j)
  with assms(1) obtain c eff rest where j: "j < length ts" "ts ! j = (c, Step eff rest)" and n: "ts1 = ts[j := (c, rest w)]"
    by (auto split: if_splits prod.splits script.splits)
  have "always (revoked i) (rest w) (\<lambda>_. False)" if "n \<le> j" "c = Check_session i"
    using assms(2,3) j that unfolding refuses_since_def by fastforce
  with assms(3,4) j n show ?thesis by (auto simp: refuses_since_def nth_list_update)
qed

lemma play_refuses:
  "play E m ms es (ts, w) = Some (ts1, w1) \<Longrightarrow> out_when_answered i ts w \<Longrightarrow> revoked i (w_db w) \<Longrightarrow> refuses_since n i ts \<Longrightarrow>
   n \<le> length ts \<Longrightarrow> refuses_since n i ts1"
proof (induction es arbitrary: ts w)
  case (Cons e es)
  then obtain ts2 w2 where e: "happen E m ms e (ts, w) = Some (ts2, w2)" "play E m ms es (ts2, w2) = Some (ts1, w1)"
    by (auto split: option.splits)
  note o' = happen_out [OF e(1) Cons.prems(2)]
  then have "revoked i (w_db w2)" using Cons.prems(3) by (simp add: stays_revoked_def)
  with happen_refuses [OF e(1) Cons.prems(3-5)] o' Cons.IH [OF e(2)] show ?case by blast
qed simp

lemma logout_then_refused:
  assumes "play E m ms es ([], w0) = Some (ts, w)" "(Logout i, Done (Inr b)) \<in> set ts"
    and "play E m ms es' (ts, w) = Some (ts1, w1)" "length ts \<le> j" "j < length ts1"
  shows "ts1 ! j \<noteq> (Check_session i, Done (Inr a))"
proof
  assume t: "ts1 ! j = (Check_session i, Done (Inr a))"
  have o': "out_when_answered i ts w" by (rule play_out [OF assms(1)]) (simp add: out_when_answered_def)
  with assms(2) have "revoked i (w_db w)" unfolding out_when_answered_def by fastforce
  from play_refuses [OF assms(3) o' this, of "length ts"] have "refuses_since (length ts) i ts1"
    by (simp add: refuses_since_def)
  with t assms(4,5) show False unfolding refuses_since_def by fastforce
qed

end
