(* ===== verification/Schedule_Examples.thy ===== *)
theory Schedule_Examples
  imports Session_Schedules Auth_Props File_Examples
begin

text \<open>
  Small servers and schedules to evaluate the properties of concurrent requests on: the
  environment of World, one disk with one stored file, the session of Auth_Props, a folder.
\<close>

section \<open>Schedules\<close>

lemma digit_inj: "j < 10 \<Longrightarrow> k < 10 \<Longrightarrow> (char_of (48 + j) :: char) = char_of (48 + k) \<Longrightarrow> j = (k :: nat)"
proof -
  have code: "of_char (char_of (48 + j) :: char) = 48 + j" if "j < 10" for j :: nat using that by (simp add: mod_less)
  assume jk: "j < 10" "k < 10" and eq: "(char_of (48 + j) :: char) = char_of (48 + k)"
  have "48 + j = of_char (char_of (48 + j) :: char)" by (rule code [OF jk(1), symmetric])
  also have "\<dots> = of_char (char_of (48 + k) :: char)" by (rule arg_cong [OF eq])
  also have "\<dots> = 48 + k" by (rule code [OF jk(2)])
  finally show "j = k" by simp
qed

lemma calm_uuid_inj: "inj_on calm_uuid {..<100}"
proof (rule inj_onI)
  fix a b :: nat assume ab: "a \<in> {..<100}" "b \<in> {..<100}" "calm_uuid a = calm_uuid b"
  from ab(3) have "(char_of (48 + a div 10 mod 10) :: char) = char_of (48 + b div 10 mod 10)"
    "(char_of (48 + a mod 10) :: char) = char_of (48 + b mod 10)"
    unfolding calm_uuid_def append_same_eq same_append_eq list.inject by blast+
  then have "a div 10 mod 10 = b div 10 mod 10" "a mod 10 = b mod 10" by (auto intro: digit_inj)
  with ab(1,2) have "a div 10 = b div 10" by simp
  with \<open>a mod 10 = b mod 10\<close> show "a = b" by (metis div_mult_mod_eq)
qed

text \<open>One stored file, under an identifier that the environment does not draw.\<close>

definition kept_id :: string where
  "kept_id = replicate 36 (CHR ''b'')"

definition kept_path :: string where
  "kept_path = ''/d'' @ slash # ''bb'' @ slash # kept_id"

definition kept_row :: file_row where
  "kept_row = \<lparr>f_id = ''s'', f_folder_id = None, f_storage_key = object_key kept_id, f_name = ''a'',
     f_content_type = ''text/plain'', f_size = 2, f_checksum = checksum_of calm_env ''hi'', f_mount = ''default'',
     f_created_at = stamp 0, f_updated_at = stamp 0, f_deleted_at = None\<rparr>"

definition kept_world :: world where
  "kept_world = calm_world\<lparr>w_db := empty_db\<lparr>files := [kept_row]\<rparr>, w_fs := [kept_path \<mapsto> ''hi'']\<rparr>"

lemma kept_place:
  "safe_path calm_env \<lparr>l_root = ''/d'', l_max_bytes = 100, l_allowed_mimes = []\<rparr> (object_key kept_id) = Inr kept_path"
  "uuid_text kept_id" "sanitize_filename ''a'' = Inr ''a''"
  by code_simp+

lemma default_disk:
  "by_id one_disk ''default'' = Some \<lparr>m_id = ''default'', m_name = ''Main'',
     m_store = \<lparr>l_root = ''/d'', l_max_bytes = 100, l_allowed_mimes = []\<rparr>\<rparr>"
  "get_mount one_disk ''default'' = Inr \<lparr>m_id = ''default'', m_name = ''Main'',
     m_store = \<lparr>l_root = ''/d'', l_max_bytes = 100, l_allowed_mimes = []\<rparr>\<rparr>"
  by (simp_all add: get_mount_def one_disk_def Let_def)

lemma kept_layout: "layout_ok (w_db kept_world)"
  by (simp add: layout_ok_def kept_world_def kept_row_def calm_world_def empty_db_def db_ok_def table_ok_def
      table_defs first_violated_def parents_exist_def folders_exist_def files_placed_def placed_def)

lemma kept_objects: "objects_ok calm_env one_disk kept_world"
proof -
  have "stored calm_env one_disk [kept_path \<mapsto> ''hi''] kept_row"
    unfolding stored_def using kept_place(1,2) default_disk(1) by (auto simp: kept_row_def)
  then show ?thesis
    using kept_layout by (simp add: objects_ok_def rows_stored_def kept_world_def layout_ok_def)
qed

lemma kept_ids: "object_key kept_id \<noteq> object_key (calm_uuid n)"
proof
  assume "object_key kept_id = object_key (calm_uuid n)"
  moreover have "uuid_text (calm_uuid n)" using calm_env_ok by (simp add: env_ok_def calm_env_def)
  ultimately have "kept_id = calm_uuid n" using object_key_inj [OF kept_place(2)] by blast
  from arg_cong [OF this, of hd] show False by (simp add: kept_id_def calm_uuid_def)
qed

lemma calm_ready:
  assumes "play E m one_disk es ([], w) = Some (ts, w1)" "length es \<le> 100" "w_uuid w = 0" "x_uuid E = calm_uuid"
    and "files (w_db w) = [] \<or> files (w_db w) = [kept_row]" "\<And>d. d \<in> set (folders (w_db w)) \<Longrightarrow> d_id d = ''s''"
    and "\<And>s. s \<in> set (sessions (w_db w)) \<Longrightarrow> s_id s = ''s''"
    and "env_ok E" "layout_ok (w_db w)" "objects_ok E one_disk w"
  shows "ready E one_disk w w1"
proof -
  have "w_uuid w1 \<le> 100" using play_uuids [OF assms(1)] assms(2,3) by simp
  then have "inj_on calm_uuid {w_uuid w ..< w_uuid w1}" by (auto intro: inj_on_subset [OF calm_uuid_inj])
  moreover have "f_id f \<noteq> calm_uuid n \<and> f_storage_key f \<noteq> object_key (calm_uuid n)" if "f \<in> set (files (w_db w))" for f n
    using assms(5) that kept_ids [of n] by (auto simp: kept_row_def)
  moreover have "d_id d \<noteq> calm_uuid n" if "d \<in> set (folders (w_db w))" for d n using assms(6) [OF that] by simp
  moreover have "s_id s \<noteq> calm_uuid n" if "s \<in> set (sessions (w_db w))" for s n using assms(7) [OF that] by simp
  ultimately show ?thesis
    using assms(3,4,8-10) one_disk_ok unfolding ready_def fresh_ids_def by auto
qed

lemma kept_ready:
  assumes "play calm_env m one_disk es ([], kept_world) = Some (ts, w1)" "length es \<le> 100"
  shows "ready calm_env one_disk kept_world w1"
proof (rule calm_ready [OF assms _ _ _ _ _ calm_env_ok kept_layout kept_objects])
  show "x_uuid calm_env = calm_uuid" by (simp add: calm_env_def)
qed (simp_all add: kept_world_def calm_world_def empty_db_def)

text \<open>Two calls begun together, the first running to its end, then the second.\<close>

lemma two_calls:
  "\<exists>es ts w1. play E m ms es ([], w) = Some (ts, w1) \<and> length es \<le> 34 \<and> set es \<subseteq> {Begin c, Begin d, Advance 0, Advance 1} \<and>
     ts = [(c, Done (fst (operation E m ms c w))), (d, Done (fst (operation E m ms d (snd (operation E m ms c w)))))] \<and>
     w1 = snd (operation E m ms d (snd (operation E m ms c w)))"
proof -
  let ?begun = "[(c, serve E m ms c), (d, serve E m ms d)]"
  let ?r = "fst (operation E m ms c w)" and ?w = "snd (operation E m ms c w)"
  let ?half = "[(c, Done ?r), (d, serve E m ms d)]"
  have 1: "play E m ms [Begin c, Begin d] ([], w) = Some (?begun, w)" by simp
  obtain a where a: "a \<le> max_actions" "play E m ms (replicate a (Advance 0)) (?begun, w) = Some (?half, ?w)"
    using play_operation [of 0 ?begun c E m ms w] by auto
  obtain b where b: "b \<le> max_actions"
    "play E m ms (replicate b (Advance 1)) (?half, ?w) = Some ([(c, Done ?r), (d, Done (fst (operation E m ms d ?w)))], snd (operation E m ms d ?w))"
    using play_operation [of 1 ?half d E m ms ?w] by auto
  let ?es = "[Begin c, Begin d] @ replicate a (Advance 0) @ replicate b (Advance 1)"
  have "play E m ms ?es ([], w) = Some ([(c, Done ?r), (d, Done (fst (operation E m ms d ?w)))], snd (operation E m ms d ?w))"
    by (rule play_then [OF 1 play_then [OF a(2) b(2)]])
  moreover have "length ?es \<le> 34" using a(1) b(1) by (simp add: max_actions_def)
  moreover have "set ?es \<subseteq> {Begin c, Begin d, Advance 0, Advance 1}" by auto
  ultimately show ?thesis by blast
qed

lemma kept_download:
  "fst (operation calm_env m one_disk (Download ''s'') kept_world) = Inr (A_content (file_of_row kept_row) ''hi'')"
  by (simp add: answerE_def download_effects_def find_file_def sql_query_def sql_io_def calm_faults scan_file_def
      open_object_def os_io_def kept_place(1) default_disk(2) record_audit_def Let_def bindE_def ret_def now_io_def uuid_io_def
      kept_world_def kept_row_def empty_db_def active_def liftE_def)

section \<open>A session and a folder\<close>

lemma auth_env_ok: "env_ok auth_env"
  using calm_env_ok by (simp add: env_ok_def auth_env_def calm_env_def)

lemma auth_layout: "layout_ok (w_db auth_world)"
  using auth_world_ok by (simp add: layout_ok_def empty_db_def files_placed_def)

lemma auth_objects: "objects_ok E ms auth_world"
  using auth_world_ok by (simp add: objects_ok_def rows_stored_def empty_db_def)

lemma auth_ready:
  assumes "play auth_env m one_disk es ([], auth_world) = Some (ts, w1)" "length es \<le> 100"
  shows "ready auth_env one_disk auth_world w1"
proof (rule calm_ready [OF assms _ _ _ _ _ auth_env_ok auth_layout auth_objects])
  show "x_uuid auth_env = calm_uuid" by (simp add: fun_eq_iff)
qed (simp_all add: empty_db_def live_session_def)

lemma auth_digests: "fresh_digests auth_env {hash_refresh_token auth_env ''tt''} auth_world w1"
  unfolding fresh_digests_def by (auto simp: auth_strings(2-) less_2_cases_iff split: if_splits option.split)

definition folder_world :: world where
  "folder_world = calm_world\<lparr>w_db := empty_db\<lparr>folders := [\<lparr>d_id = ''s'', d_parent_id = None, d_name = ''docs'',
     d_mount = ''default'', d_created_at = stamp 0, d_updated_at = stamp 0\<rparr>]\<rparr>\<rparr>"

lemma folder_layout: "layout_ok (w_db folder_world)"
  by (simp add: layout_ok_def folder_world_def calm_world_def empty_db_def db_ok_def table_ok_def
      table_defs first_violated_def parents_exist_def folders_exist_def files_placed_def placed_def)

lemma create_in_folder:
  assumes "w_db w = w_db folder_world"
  shows "\<exists>d w1. svc_create_folder calm_env one_disk ''default'' ''s'' ''sub'' w = (Inr d, w1) \<and>
    row_of_folder d \<in> set (folders (w_db w1)) \<and> fd_parent_id d = ''s'' \<and> ''s'' \<in> d_id ` set (folders (w_db w1))"
proof -
  have v: "validate_folder_name ''sub'' = Inr ()" "trim_space ''sub'' = ''sub''" by code_simp+
  have db: "folders (w_db w) = [\<lparr>d_id = ''s'', d_parent_id = None, d_name = ''docs'',
     d_mount = ''default'', d_created_at = stamp 0, d_updated_at = stamp 0\<rparr>]"
    unfolding assms by (simp add: folder_world_def empty_db_def)
  have u: "x_uuid calm_env n \<noteq> ''s''" for n by (simp add: calm_env_def)
  let ?d = "\<lparr>fd_id = x_uuid calm_env (w_uuid w), fd_parent_id = ''s'', fd_mount = ''default'', fd_name = ''sub'',
     fd_created_at = x_clock calm_env (w_clock w), fd_updated_at = x_clock calm_env (w_clock w)\<rparr>"
  obtain r w1 where c: "svc_create_folder calm_env one_disk ''default'' ''s'' ''sub'' w = (r, w1)" by fastforce
  then have "r = Inr ?d \<and> folders (w_db w1) = folders (w_db w) @ [row_of_folder ?d]"
    by (auto simp: svc_create_folder_def bindE_def v default_disk(2) find_folder_def wrapE_def row_with_def
      sql_query_def folder_of_row_def coalesce_def now_io_def uuid_io_def create_folder_def check_mount_def u u [symmetric] db
      conflict_or_def handleE_def sql_io_def insert_into_def put_rows_def folder_table_def first_violated_def
      parents_exist_def Let_def ret_def row_of_folder_def nullable_string_def calm_faults)
  with c show ?thesis by (intro exI [of _ ?d] exI [of _ w1]) (simp add: db)
qed

lemma race_folder:
  "\<exists>d w1. operation calm_env m one_disk (Create_folder ''default'' ''s'' ''sub'') (folder_world\<lparr>w_sql := Suc (w_sql folder_world)\<rparr>) =
      (Inr (A_folder d), w1) \<and> row_of_folder d \<in> set (folders (w_db w1)) \<and> fd_parent_id d = ''s'' \<and>
    ''s'' \<in> d_id ` set (folders (w_db w1))"
  using create_in_folder [of "folder_world\<lparr>w_sql := Suc (w_sql folder_world)\<rparr>"]
  by (auto simp: answerE_def bindE_def ret_def)

lemma logout_answers: "\<exists>w1. operation auth_env m one_disk (Logout ''s'') auth_world = (Inr Finished, w1)"
proof -
  obtain r w1 where o: "operation auth_env m one_disk (Logout ''s'') auth_world = (r, w1)" by fastforce
  have f: "x_sql_fault auth_env n = None" for n by simp
  from o have "r = Inr Finished"
    by (auto simp: answerE_def logout_def auth_strings(5) bindE_def now_io_def revoke_session_def wrapE_def handleE_def
      sql_io_def Let_def update_where_def put_rows_def session_table_def first_violated_def live_session_def revoke_row_def
      ret_def f empty_db_def)
  with o show ?thesis by blast
qed

end
