(* ===== verification/Concurrency_Props.thy ===== *)
theory Concurrency_Props
  imports Schedule_Examples
begin

text \<open>
  The properties of concurrent requests. Each speaks of an arbitrary schedule: any number of
  calls, begun at any time, their statements and system calls interleaved in any way, with any
  failures. Assumed of the start is what the sequential invariants give (\<open>ready\<close>), and that the
  identifiers drawn during the schedule are new.
\<close>

section \<open>The invariants under interleaving\<close>

text \<open>
  C2: however the statements and system calls of concurrent requests are interleaved, and
  whatever fails, every file row has its object on its disk, with the size and the checksum of
  the row, and folders and files keep the layout of the disks.
\<close>

theorem schedules_keep_objects:
  assumes "ready E ms w w1" "play E m ms es ([], w) = Some (ts, w1)"
  shows "objects_ok E ms w1 \<and> layout_ok (w_db w1)"
proof -
  have "fresh_digests E {} w w1" by (simp add: fresh_digests_def split: option.split)
  from shared.pool_safe_good [OF play_pool_safe [OF assms(1) this assms(2)]] show ?thesis by (auto simp: good_def)
qed

theorem schedules_keep_objects_witness:
  "\<exists>es ts w1. play calm_env auth_manager one_disk es ([], kept_world) = Some (ts, w1) \<and>
     map fst ts = [Copy_file ''s'' [], Download ''s''] \<and> objects_ok calm_env one_disk w1 \<and> layout_ok (w_db w1)"
proof -
  obtain es ts w1 where p: "play calm_env auth_manager one_disk es ([], kept_world) = Some (ts, w1)" "length es \<le> 34"
    "map fst ts = [Copy_file ''s'' [], Download ''s'']"
    using two_calls [of calm_env auth_manager one_disk kept_world "Copy_file ''s'' []" "Download ''s''"] by auto
  from schedules_keep_objects [OF kept_ready [OF p(1)] p(1)] p show ?thesis
    by (intro exI [of _ es] exI [of _ ts] exI [of _ w1]) simp
qed

text \<open>
  C5: in every schedule every file keeps its row, with the disk, key, size and checksum, and
  its object keeps every byte, unless its erasure from the trash was requested.
\<close>

theorem files_survive:
  assumes "ready E ms w w1" "play E m ms es ([], w) = Some (ts, w1)"
    and "f \<in> set (files (w_db w))" "Begin (Permanently_delete (f_id f)) \<notin> set es"
    and "by_id ms (f_mount f) = Some d" "safe_path E (m_store d) (f_storage_key f) = Inr p"
  shows "(\<exists>f1 \<in> set (files (w_db w1)). same_file f f1) \<and> w_fs w p \<noteq> None \<and> w_fs w1 p = w_fs w p"
proof -
  have "rows_stay (\<lambda>i. i \<noteq> f_id f) (w_db w) (w_db w1)"
    by (rule play_survives [OF assms(2)]) (use assms(4) in auto)
  then obtain f1 where f1: "f1 \<in> set (files (w_db w1))" "same_file f f1" using assms(3) by (auto simp: rows_stay_def)
  have "fresh_digests E {} w w1" by (simp add: fresh_digests_def split: option.split)
  from shared.pool_safe_good [OF play_pool_safe [OF assms(1) this assms(2)]]
  obtain k own where k: "grows (first_know E ms w) k" "good E ms w1 {} k own w1" by blast
  have "stored E ms (w_fs w) f" using assms(1,3) by (auto simp: ready_def objects_ok_def rows_stored_def)
  then obtain b where b: "w_fs w p = Some b" using assms(5,6) by (auto simp: stored_def)
  have "k_obj (first_know E ms w) p = Some b"
    using assms(3,5,6) b by (auto simp: first_know_def)
  then have "k_obj k p = Some b" by (rule growsD(3) [OF k(1)])
  with k(2) have "w_fs w1 p = None \<or> w_fs w1 p = Some b" by (simp add: good_def objects_known_def)
  moreover have "stored E ms (w_fs w1) f1" using k(2) f1(1) by (simp add: good_def objects_ok_def rows_stored_def)
  then have "w_fs w1 p \<noteq> None" using f1(2) assms(5,6) by (auto simp: stored_def same_file_def)
  ultimately show ?thesis using f1 b by auto
qed

theorem files_survive_witness:
  "\<exists>es ts w1. play calm_env auth_manager one_disk es ([], kept_world) = Some (ts, w1) \<and>
     map fst ts = [Delete_file ''s'', Copy_file ''s'' []] \<and> w_fs w1 kept_path = Some ''hi''"
proof -
  obtain es ts w1 where p: "play calm_env auth_manager one_disk es ([], kept_world) = Some (ts, w1)" "length es \<le> 34"
    "set es \<subseteq> {Begin (Delete_file ''s''), Begin (Copy_file ''s'' []), Advance 0, Advance 1}"
    "map fst ts = [Delete_file ''s'', Copy_file ''s'' []]"
    using two_calls [of calm_env auth_manager one_disk kept_world "Delete_file ''s''" "Copy_file ''s'' []"] by auto
  have "Begin (Permanently_delete (f_id kept_row)) \<notin> set es" using p(3) by auto
  from files_survive [OF kept_ready [OF p(1)] p(1) _ this, of _ kept_path] p default_disk(1) kept_place(1)
  have "w_fs w1 kept_path = w_fs kept_world kept_path" by (simp add: kept_world_def kept_row_def)
  with p(1,4) show ?thesis by (intro exI [of _ es] exI [of _ ts] exI [of _ w1]) (simp add: kept_world_def)
qed

section \<open>Downloads\<close>

text \<open>
  C14: a download that succeeds, whatever runs beside it (an erasure of the same file
  included), returns the requested file with exactly the content its row describes: the recorded
  size and the recorded checksum.
\<close>

theorem download_intact:
  assumes "ready E ms w w1" "play E m ms es ([], w) = Some (ts, w1)"
    and "i < length ts" "ts ! i = (Download fid, Done (Inr a))"
  shows "\<exists>f c. a = A_content f c \<and> fl_id f = fid \<and>
    (fl_mount f \<noteq> [] \<longrightarrow> fl_size f = int (length c) \<and> fl_checksum f = checksum_of E c)"
proof -
  have "fresh_digests E {} w w1" by (simp add: fresh_digests_def split: option.split)
  from finished_promise [OF play_pool_safe [OF assms(1) this assms(2)] assms(3,4)] show ?thesis by simp
qed

theorem download_intact_witness:
  "\<exists>es ts w1 f c. play calm_env auth_manager one_disk es ([], kept_world) = Some (ts, w1) \<and>
     ts ! 0 = (Download ''s'', Done (Inr (A_content f c))) \<and> fl_mount f = ''default'' \<and> fl_size f = int (length c)"
proof -
  obtain r v where o: "operation calm_env auth_manager one_disk (Download ''s'') kept_world = (r, v)" by fastforce
  have r: "r = Inr (A_content (file_of_row kept_row) ''hi'')" using arg_cong [OF o, of fst] unfolding kept_download by simp
  obtain es ts w1 where p: "play calm_env auth_manager one_disk es ([], kept_world) = Some (ts, w1)" "length es \<le> 34"
    "length ts = 2" "ts ! 0 = (Download ''s'', Done r)"
    using two_calls [of calm_env auth_manager one_disk kept_world "Download ''s''" "Delete_file ''s''"] o by auto
  from download_intact [OF kept_ready [OF p(1)] p(1) _ p(4) [unfolded r]] p(2,3)
  have "fl_size (file_of_row kept_row) = int (length ''hi'')" by (auto simp: kept_row_def)
  with p(1,4) r show ?thesis
    by (intro exI [of _ es] exI [of _ ts] exI [of _ w1] exI [of _ "file_of_row kept_row"] exI [of _ "''hi''"])
      (simp add: kept_row_def)
qed

section \<open>Refresh tokens\<close>

text \<open>
  C3: of all the refreshes with one token, however many run at once and however they interleave,
  at most one succeeds.
\<close>

theorem refresh_wins_once:
  assumes "ready E ms w w1" "fresh_digests E {hash_refresh_token E tok} w w1" "play E m ms es ([], w) = Some (ts, w1)"
  shows "card {i. i < length ts \<and> (\<exists>a. ts ! i = (Refresh tok, Done (Inr a)))} \<le> 1"
proof -
  have "i = j" if "i < length ts" "ts ! i = (Refresh tok, Done (Inr a))" "j < length ts" "ts ! j = (Refresh tok, Done (Inr b))" for i j a b
    by (rule one_claim [OF play_pool_safe [OF assms] that(1,3,2,4), of "Spent (hash_refresh_token E tok)"]) simp_all
  then show ?thesis by (auto simp: card_le_Suc0_iff_eq)
qed

theorem refresh_wins_once_witness:
  "\<exists>es a e w1. play auth_env auth_manager one_disk es ([], auth_world) =
     Some ([(Refresh ''tt'', Done (Inr a)), (Refresh ''tt'', Done (Inl e))], w1)"
proof -
  obtain tk v where tk: "refresh auth_env auth_manager ''tt'' auth_world = (Inr tk, v)" using auth_refresh by blast
  obtain es ts w1 r where p: "play auth_env auth_manager one_disk es ([], auth_world) = Some (ts, w1)" "length es \<le> 34"
    "ts = [(Refresh ''tt'', Done (Inr (A_tokens tk))), (Refresh ''tt'', Done r)]"
    using two_calls [of auth_env auth_manager one_disk auth_world "Refresh ''tt''" "Refresh ''tt''"] tk
    by (auto simp: answerE_def bindE_def ret_def)
  note once = refresh_wins_once [OF auth_ready [OF p(1)] auth_digests p(1)]
  have "r \<noteq> Inr b" for b
  proof
    assume "r = Inr b"
    then have "{i. i < length ts \<and> (\<exists>a. ts ! i = (Refresh ''tt'', Done (Inr a)))} = {..<2}"
      unfolding p(3) by (auto simp: less_2_cases_iff)
    with once p(2) show False by simp
  qed
  then obtain e where "r = Inl e" by (cases r) auto
  with p(1,3) show ?thesis by blast
qed

text \<open>
  C6: a logout is final among concurrent requests. Once a logout has answered with success,
  every check of its session that begins afterwards is refused, whatever calls were in
  flight and however everything interleaves.
\<close>

theorem logout_is_final:
  assumes "play E m ms es ([], w0) = Some (ts, w)" "(Logout i, Done (Inr b)) \<in> set ts"
    and "play E m ms es' (ts, w) = Some (ts1, w1)" "length ts \<le> j" "j < length ts1"
  shows "ts1 ! j \<noteq> (Check_session i, Done (Inr a))"
  by (rule logout_then_refused [OF assms])

theorem logout_is_final_witness:
  "\<exists>n k ts w e w1. play auth_env auth_manager one_disk ([Begin (Logout ''s'')] @ replicate n (Advance 0)) ([], auth_world) = Some (ts, w) \<and>
     play auth_env auth_manager one_disk ([Begin (Check_session ''s'')] @ replicate k (Advance 1)) (ts, w) = Some (ts @ [(Check_session ''s'', Done (Inl e))], w1)"
proof -
  obtain w where w: "operation auth_env auth_manager one_disk (Logout ''s'') auth_world = (Inr Finished, w)"
    using logout_answers by blast
  let ?out = "(Logout ''s'', serve auth_env auth_manager one_disk (Logout ''s''))"
  obtain n where n: "play auth_env auth_manager one_disk (replicate n (Advance 0)) ([?out], auth_world) =
      Some ([(Logout ''s'', Done (Inr Finished))], w)"
    using play_operation [of 0 "[?out]" "Logout ''s''" auth_env auth_manager one_disk auth_world] w
    by (auto simp del: serve.simps operation.simps)
  have p: "play auth_env auth_manager one_disk ([Begin (Logout ''s'')] @ replicate n (Advance 0)) ([], auth_world) =
      Some ([(Logout ''s'', Done (Inr Finished))], w)"
    using n by (simp del: serve.simps)
  let ?ts = "[(Logout ''s'', Done (Inr Finished)), (Check_session ''s'', serve auth_env auth_manager one_disk (Check_session ''s''))]"
  obtain k r w1 where k: "play auth_env auth_manager one_disk (replicate k (Advance 1)) (?ts, w) =
      Some ([(Logout ''s'', Done (Inr Finished)), (Check_session ''s'', Done r)], w1)"
    using play_operation [of 1 ?ts "Check_session ''s''" auth_env auth_manager one_disk w]
    by (auto simp del: serve.simps operation.simps)
  have q: "play auth_env auth_manager one_disk ([Begin (Check_session ''s'')] @ replicate k (Advance 1)) ([(Logout ''s'', Done (Inr Finished))], w) =
      Some ([(Logout ''s'', Done (Inr Finished)), (Check_session ''s'', Done r)], w1)"
    using k by (simp del: serve.simps)
  have "r \<noteq> Inr a" for a using logout_is_final [OF p _ q, of "''s''" Finished 1 a] by simp
  then obtain e where "r = Inl e" by (cases r) auto
  with p q show ?thesis by (intro exI) auto
qed

section \<open>The types of the rows\<close>

text \<open>
  C13: in every schedule all rows stay well typed: names of files are cleaned names, names of
  folders pass the check of folder names, sizes are not negative, files lie on configured disks,
  every time column holds the text of an instant, and the accounts do not change.
\<close>

theorem rows_well_typed:
  assumes "play E m ms es ([], w) = Some (ts, w1)" "disks_ok ms" "typed ms us (w_db w)"
  shows "typed ms us (w_db w1)"
  by (rule play_typed [OF assms])

theorem rows_well_typed_witness:
  "\<exists>es ts w1. play calm_env auth_manager one_disk es ([], kept_world) = Some (ts, w1) \<and>
     map fst ts = [Copy_file ''s'' [], Rename_file ''s'' ''b''] \<and> typed one_disk [] (w_db w1)"
proof -
  obtain es ts w1 where p: "play calm_env auth_manager one_disk es ([], kept_world) = Some (ts, w1)"
    "map fst ts = [Copy_file ''s'' [], Rename_file ''s'' ''b'']"
    using two_calls [of calm_env auth_manager one_disk kept_world "Copy_file ''s'' []" "Rename_file ''s'' ''b''"] by auto
  have "typed one_disk [] (w_db kept_world)"
    by (simp add: typed_def kept_world_def empty_db_def kept_row_def typed_file_def kept_place(3) default_disk(1))
  from rows_well_typed [OF p(1) one_disk_ok this] p show ?thesis
    by (intro exI [of _ es] exI [of _ ts] exI [of _ w1]) simp
qed

section \<open>A race\<close>

text \<open>The deletion of an empty folder after its check: only the DELETE is left.\<close>

lemma delete_folder_checked:
  assumes "\<And>n. x_sql_fault E n = None" "\<forall>d \<in> set (folders (w_db w)). d_parent_id d \<noteq> Some i"
    and "\<forall>f \<in> set (files (w_db w)). f_folder_id f \<noteq> Some i"
  shows "play E m ms [Begin (Delete_folder i), Advance 0] ([], w) =
    Some ([(Delete_folder i, answerS (\<lambda>_. Finished) (atom (affected (sql_io E (delete_folders (\<lambda>d. d_id d = i))))))],
      w\<lparr>w_sql := Suc (w_sql w)\<rparr>)"
proof -
  have "filter (\<lambda>d. d_parent_id d = Some i) (folders (w_db w)) = []" "filter (\<lambda>f. f_folder_id f = Some i) (files (w_db w)) = []"
    using assms(2,3) by (auto simp: filter_empty_conv)
  then show ?thesis
    by (simp add: answerS_def delete_folder_script_def bindS_def atom_def sql_query_def sql_io_def assms(1))
qed

lemma delete_folders_children:
  assumes "delete_folders (\<lambda>d. d_id d = i) db = Inr (n, db1)"
  shows "d \<in> set (folders db) \<Longrightarrow> d_parent_id d = Some i \<Longrightarrow> i \<in> d_id ` set (folders db) \<Longrightarrow> d_id d \<notin> d_id ` set (folders db1)"
    and "f \<in> set (files db) \<Longrightarrow> f_folder_id f = Some i \<Longrightarrow> i \<in> d_id ` set (folders db) \<Longrightarrow>
      f\<lparr>f_folder_id := None\<rparr> \<in> set (files db1)"
proof -
  let ?ids = "map d_id (filter (\<lambda>d. d_id d = i) (folders db))"
  let ?gone = "cascade (length (folders db)) (folders db) ?ids"
  have "set ?ids \<subseteq> d_id ` set (folders db)" by auto
  note closed = cascade_closed [OF this] and start = cascade_start [OF this, of "length (folders db)"]
  have i: "i \<in> set ?gone" if "i \<in> d_id ` set (folders db)" using start that by auto
  have db1: "folders db1 = filter (\<lambda>d. d_id d \<notin> set ?gone) (folders db)"
    "files db1 = map (\<lambda>f. case f_folder_id f of None \<Rightarrow> f | Some k \<Rightarrow> if k \<in> set ?gone then f\<lparr>f_folder_id := None\<rparr> else f) (files db)"
    using assms by (auto simp: delete_folders_def Let_def)
  show "d_id d \<notin> d_id ` set (folders db1)" if "d \<in> set (folders db)" "d_parent_id d = Some i" "i \<in> d_id ` set (folders db)"
    using closed that i [OF that(3)] unfolding db1(1) closed_below_def by auto
  show "f\<lparr>f_folder_id := None\<rparr> \<in> set (files db1)" if "f \<in> set (files db)" "f_folder_id f = Some i" "i \<in> d_id ` set (folders db)"
    unfolding db1(2) set_map by (rule image_eqI [OF _ that(1)]) (simp add: that(2) i [OF that(3)])
qed

text \<open>
  C12: deleting a folder is a check that it is empty and then a DELETE, and nothing holds the
  two together. If any other call completes between them, the deletion still succeeds, with
  whatever that call has put into the folder: a new folder is gone although its creation was
  answered with success, and a new file is moved to the root.
\<close>

theorem delete_folder_race:
  assumes "\<And>n. x_sql_fault E n = None" "\<forall>d \<in> set (folders (w_db w)). d_parent_id d \<noteq> Some i"
    and "\<forall>f \<in> set (files (w_db w)). f_folder_id f \<noteq> Some i"
    and "operation E m ms c (w\<lparr>w_sql := Suc (w_sql w)\<rparr>) = (r, w1)" "i \<in> d_id ` set (folders (w_db w1))"
  shows "\<exists>n w2. play E m ms ([Begin (Delete_folder i), Advance 0, Begin c] @ replicate n (Advance 1) @ [Advance 0]) ([], w) =
      Some ([(Delete_folder i, Done (Inr Finished)), (c, Done r)], w2) \<and>
    (\<forall>d \<in> set (folders (w_db w1)). d_parent_id d = Some i \<longrightarrow> d_id d \<notin> d_id ` set (folders (w_db w2))) \<and>
    (\<forall>f \<in> set (files (w_db w1)). f_folder_id f = Some i \<longrightarrow> f\<lparr>f_folder_id := None\<rparr> \<in> set (files (w_db w2)))"
proof -
  let ?w = "w\<lparr>w_sql := Suc (w_sql w)\<rparr>"
  let ?del = "answerS (\<lambda>_. Finished) (atom (affected (sql_io E (delete_folders (\<lambda>d. d_id d = i)))))"
  let ?ts = "[(Delete_folder i, ?del), (c, serve E m ms c)]"
  have 1: "play E m ms ([Begin (Delete_folder i), Advance 0] @ [Begin c]) ([], w) = Some (?ts, ?w)"
    by (rule play_then [OF delete_folder_checked [OF assms(1-3)]]) simp
  obtain n where 2: "play E m ms (replicate n (Advance 1)) (?ts, ?w) = Some ([(Delete_folder i, ?del), (c, Done r)], w1)"
    using play_operation [of 1 ?ts c E m ms ?w] assms(4) by auto
  obtain k db2 where d: "delete_folders (\<lambda>d. d_id d = i) (w_db w1) = Inr (k, db2)" "k = int (length (filter (\<lambda>d. d_id d = i) (folders (w_db w1))))"
    by (auto simp: delete_folders_def Let_def)
  have k: "k \<noteq> 0" using assms(5) d(2) by (auto simp: filter_empty_conv)
  let ?w2 = "w1\<lparr>w_sql := Suc (w_sql w1), w_db := db2\<rparr>"
  have "affected (sql_io E (delete_folders (\<lambda>d. d_id d = i))) w1 = (Inr (), ?w2)"
    using k by (simp add: affected_def bindE_def sql_io_def assms(1) d(1) ret_def)
  then have 3: "play E m ms [Advance 0] ([(Delete_folder i, ?del), (c, Done r)], w1) =
      Some ([(Delete_folder i, Done (Inr Finished)), (c, Done r)], ?w2)"
    by (simp add: answerS_def bindS_def atom_def retS_def)
  have "play E m ms ([Begin (Delete_folder i), Advance 0, Begin c] @ replicate n (Advance 1) @ [Advance 0]) ([], w) =
      Some ([(Delete_folder i, Done (Inr Finished)), (c, Done r)], ?w2)"
    using play_then [OF 1 play_then [OF 2 3]] by simp
  moreover have "\<forall>d \<in> set (folders (w_db w1)). d_parent_id d = Some i \<longrightarrow> d_id d \<notin> d_id ` set (folders (w_db ?w2))"
    "\<forall>f \<in> set (files (w_db w1)). f_folder_id f = Some i \<longrightarrow> f\<lparr>f_folder_id := None\<rparr> \<in> set (files (w_db ?w2))"
    using delete_folders_children [OF d(1)] assms(5) by auto
  ultimately show ?thesis by blast
qed

theorem delete_folder_race_witness:
  "\<exists>es d w2. play calm_env auth_manager one_disk es ([], folder_world) =
      Some ([(Delete_folder ''s'', Done (Inr Finished)), (Create_folder ''default'' ''s'' ''sub'', Done (Inr (A_folder d)))], w2) \<and>
    fd_id d \<notin> d_id ` set (folders (w_db w2))"
proof -
  obtain d w1 where c: "operation calm_env auth_manager one_disk (Create_folder ''default'' ''s'' ''sub'')
      (folder_world\<lparr>w_sql := Suc (w_sql folder_world)\<rparr>) = (Inr (A_folder d), w1)"
    and d: "row_of_folder d \<in> set (folders (w_db w1))" "fd_parent_id d = ''s''" "''s'' \<in> d_id ` set (folders (w_db w1))"
    using race_folder by blast
  have "\<forall>x \<in> set (folders (w_db folder_world)). d_parent_id x \<noteq> Some ''s''"
    "\<forall>f \<in> set (files (w_db folder_world)). f_folder_id f \<noteq> Some ''s''"
    by (simp_all add: folder_world_def empty_db_def)
  from delete_folder_race [OF calm_faults(1) this c d(3)] obtain n w2 where
    p: "play calm_env auth_manager one_disk ([Begin (Delete_folder ''s''), Advance 0, Begin (Create_folder ''default'' ''s'' ''sub'')]
        @ replicate n (Advance 1) @ [Advance 0]) ([], folder_world) =
      Some ([(Delete_folder ''s'', Done (Inr Finished)), (Create_folder ''default'' ''s'' ''sub'', Done (Inr (A_folder d)))], w2)"
    and gone: "\<forall>x \<in> set (folders (w_db w1)). d_parent_id x = Some ''s'' \<longrightarrow> d_id x \<notin> d_id ` set (folders (w_db w2))"
    by blast
  have "d_parent_id (row_of_folder d) = Some ''s''" "d_id (row_of_folder d) = fd_id d"
    using d(2) by (simp_all add: row_of_folder_def nullable_string_def)
  with gone d(1) have "fd_id d \<notin> d_id ` set (folders (w_db w2))" by force
  with p show ?thesis by blast
qed

end
