(* ===== verification/Spec2Isabelle.thy ===== *)
theory Spec2Isabelle
  imports Storage_Props Go_Time_Props Auth_Props File_Props Database_Props Rate_Limiter_Props Http_Props Config_Props
    Command Concurrency_Props
begin

text \<open>
  A model of N-Drive, a self-hosted file server written in Go (module \<^verbatim>\<open>fileservice\<close>): one
  account, several disks, an HTTP interface, SQLite for the metadata and plain files for the objects.
  Every definition is a translation of the Go code under src/, in its order and with its names where
  Isabelle allows them; every error, early return and panic of the code is a branch of the model.

  The program. \<^verbatim>\<open>cmd/api/main.go\<close> loads the configuration from environment variables
  and asks \<^verbatim>\<open>internal/handler/httpapi/router.go\<close> for a handler. That opens and migrates the
  database, makes the token manager and one store per disk, prunes old sessions and audit events and
  registers the routes. A request passes CORS, panic recovery, request identifiers, security headers and
  logging; then the route, for most routes behind the check of the access token and its session; then a
  handler, which calls the file service or the authentication service; these call the repositories (SQL)
  and the stores (files).

  How it is modelled. A program is a function from a state to an error or value and a new state
  (\<open>prog\<close> in Prelude), composed with \<open>bindE\<close>, \<open>handleE\<close> and \<open>ignoreE\<close> as the code composes
  calls, error branches and ignored errors. The state of the services is \<open>world\<close> (World): the rows of
  the five tables, the objects by absolute path, and counters into the streams of the environment \<open>env\<close>.
  The environment stands for what is not under src/: the clock, fresh UUIDs, random bytes, which SQL
  statement or file operation fails, xxHash, SHA-256, bcrypt, JWT signing and parsing, MIME detection.
  What is relied on of it is a hypothesis where it is used (\<open>env_ok\<close>: identifiers are hexadecimal
  texts of fixed length and the working directory is absolute; \<open>jwt_laws\<close>: what golang-jwt documents of its parser, over a
  parameter for decoding and signature verification, and of HMAC-SHA256 signing). A statement or file operation that fails has no
  effect: an error reported after a commit is left out. Any statement and any file operation may fail at any
  time; properties without a hypothesis on faults hold for all failures. The state of the HTTP interface is \<open>conn\<close>
  (Http): the world, the two rate limiters, the deadline and the response being written. Go strings are lists of
  bytes (\<open>string\<close>); int64 and time.Duration are \<open>int\<close> with the wrap-around written out where it can
  happen (\<open>int64_add\<close>, \<open>wrap64\<close>); instants are nanoseconds since year 1. A handler of
  the interface runs to its end on its \<open>conn\<close>; what concurrent requests do to each other is modelled below the
  handlers, on the operations of the services.

  Concurrency. The database has one connection, so a statement or a transaction is atomic, and so is a system call; between
  them other requests run. Service_Scripts gives every operation of the services a second time as a \<open>script\<close>, one atomic
  action per statement, system call, reading of the clock and drawn identifier; run without interruption it is the
  sequential operation (\<open>run_file_scripts\<close>, \<open>run_auth_scripts\<close>, \<open>run_serve\<close>). A schedule (Request_Pool) begins calls and advances them
  in any order. An object is read at the moment it is opened: objects are never written again once they are registered, and on Unix
  an open file outlives its removal. The write of an object is one action: until its row is inserted no other call knows its
  key. Waiting for the one connection is not represented, so the schedules say nothing of blocking: a call that holds a transaction while another
  waits is one action of the first. \<open>ready\<close> is assumed of the start of a schedule: the invariants of the sequential
  model and that identifiers drawn on the way are new. The limiters and the response of a request are not shared state of the scripts.

  The theories.
    \<^item> Prelude, Go_Strings, Go_Path, Go_Time, Url: the program monad and frame rules (\<open>keeps\<close>); the functions of
      Go's standard library that the code computes with (TrimSpace, Split, Cut, strconv, path/filepath, RFC 3339,
      net/url).
    \<^item> Schema, World: the tables of internal/database/database.go with their constraints and the kinds of
      statement the program runs; the environment and the primitive effects.
    \<^item> Storage: internal/storage/local.go and mounts.go. Storage_Props: confinement of paths, the outcome of a save on every
      branch, saving and opening, file names.
    \<^item> Go_Time_Props: the stored time stamps and their order.
    \<^item> Auth_Repository, Tokens, Auth_Service: internal/repository/auth_repository.go, internal/auth/auth.go,
      internal/service/auth_service.go. Auth_Props: tokens, single use, logout, pruning.
    \<^item> File_Repository, File_Service: internal/repository/file_repository.go, internal/service/file_service.go.
      File_Lifecycle (the abstract life of a file: live, trashed, absent, and its refinement), File_Objects (rows and
      objects agree), File_Layout (folders are a forest on each disk), File_Outcomes, File_Examples, File_Props.
    \<^item> Database, Database_Props: opening a database file of any version, the legacy rebuild, the account.
    \<^item> Rate_Limiter, Rate_Limiter_Props: the limiter of internal/middleware/auth.go as one table, refined to one window
      per client.
    \<^item> Http, Middleware, Auth_Handlers, File_Handlers, Web_Pages, Router: internal/middleware and
      internal/handler/httpapi, up to \<open>handle_request\<close>.
    \<^item> Http_Guard (the access check in full, and the way through the middleware), Http_Denied (what a request without access
      gets), Http_Operations (which operation of which service a request stands for, exactly), Http_Answers (every handler
      answers), Http_Login (what a login's token opens), Http_Cors, Http_Ranges, Http_Downloads, Http_Steps (requests are runs of
      service operations, for the invariants of a deployment), Http_Props.
    \<^item> Config, Config_Facts: internal/config/config.go and what its checks establish. Startup: the rest of router.go,
      disk usage and main.go. Deployment: the life of a server over starts, requests and restarts. Account: the one
      account. Config_Props.
      Command: the whole of cmd/api/main.go, to the exit status, and the disk usage on Windows.
    \<^item> System: the services as one step relation.
    \<^item> Scripts, Service_Scripts, Request_Pool, Schedules: operations as sequences of atomic actions, calls, schedules; a call
      alone is the sequential operation.
    \<^item> Ownership (knowledge that only grows and claims that one script has at a time), Interference (what they are
      here), Registration, Script_Safety, Operation_Safety, Object_Safety, File_Safety, Call_Safety, Session_Safety: every
      action of every operation keeps the claims of all others. Concurrency: so every schedule does. Actions: relations that every
      action is in. Row_Types: invariants of the rows that need no claims. Session_Schedules: logouts.
      Schedule_Examples, Concurrency_Props: the properties of schedules.

  Interfaces. The locales \<open>keyed_table\<close> and those next to it state what a table promises of its keys,
  what a store promises of the objects it does not touch, and what a session that is gone promises; each is
  interpreted on the model's own tables, store and sessions, in the theory that declares them, and the properties use the facts of
  these interpretations. \<open>accounting\<close> (Ownership) is what reasoning about interleaved scripts needs of knowledge and claims,
  interpreted in Interference; \<open>action_relations\<close> (Actions) is what a relation must satisfy on the primitive effects to
  hold of every action of every call, interpreted for the counters, the file rows and the revoked sessions.

  What is shown. For each component its operations are characterised on success and on error (lemmas \<open>..._Inr\<close>,
  \<open>..._Inl\<close>); what an operation cannot touch follows from frame lemmas (\<open>..._keeps\<close>).
  Invariants (\<open>db_ok\<close>, \<open>objects_ok\<close>, \<open>layout_ok\<close>) are preserved by every operation, hence by \<open>sys_step\<close>,
  hence by every request (\<open>data_step\<close>; what one request does is given exactly by \<open>request_effect\<close>), hence in every \<open>deployed\<close> server; and by every atomic action of every script, hence in
  every schedule (\<open>play_pool_safe\<close>). The properties are in the theories
  \<open>..._Props\<close>, each with a concrete instance where it has hypotheses.

  Bounds. Loops are structural recursion, except the cascade of folder deletion, whose fuel is the number of folders
  (enough: \<open>cascade_closed\<close>), and the replacement of texts in pages, by the length of the text. A call makes at most
  \<open>max_actions\<close> = 16 atomic actions (\<open>within_serve\<close>). \<open>objects_ok\<close> needs limits below the largest
  int64 because \<^verbatim>\<open>maxBytes+1\<close> wraps there (\<open>save_object_max_limit_empties\<close>).

  Not modelled: the HTML, style sheets and scripts of the two pages (parameters of Web_Pages: not Go code); the text
  written to the log; net/http itself beyond what handlers see of it (listening, timeouts, the bytes of a request: a
  request is given with its parsed headers, cookies, JSON and multipart fields, the last two as functions of the read limit);
  what makes the listener stop and a shutdown end in time (parameters of Command); interleavings inside the start of the process and between the writes of
  two responses; SQLite beyond the rows, keys and references that the statements touch; the packages internal/session, internal/utils and internal/validator, which are empty.
\<close>

end
